(* ===== verification/Prelude.thy ===== *)
theory Prelude
  imports Main "HOL-Library.Word" "HOL-Library.Code_Target_Nat"
begin

text \<open>
  Shared vocabulary of the development: the machine integers of the Go sources, slices with
  their run-time bounds checks, the little-endian codec of \<^verbatim>\<open>encoding/binary\<close>, and the
  generic list and word lemmas that the component theories use.

  A Go run-time panic (an index or a slice bound out of range) is the value \<open>None\<close> of the
  operations that can panic; every definition that calls such an operation passes it on.
\<close>

unbundle bit_operations_syntax

named_theorems go_defs \<open>unfolding rules for small Go helper functions\<close>
named_theorems len_simps \<open>lengths of encodings and of slices\<close>
named_theorems word_nat \<open>rules that move word terms to natural numbers\<close>

section \<open>Machine integers\<close>

type_synonym byte = "8 word"
type_synonym u16 = "16 word"
type_synonym u32 = "32 word"
type_synonym u64 = "64 word"

lemma unat_byte_less [simp]: "unat (b :: byte) < 256"
  using unsigned_less [of b, where ?'a = nat] by simp

lemma unat_u16_less [simp]: "unat (n :: u16) < 65536"
  using unsigned_less [of n, where ?'a = nat] by simp

lemma unat_u32_less [simp]: "unat (n :: u32) < 4294967296"
  using unsigned_less [of n, where ?'a = nat] by simp

lemma unat_u64_less [simp]: "unat (n :: u64) < 18446744073709551616"
  using unsigned_less [of n, where ?'a = nat] by simp

lemma unat_byte_of_nat [word_nat]: "unat (word_of_nat n :: byte) = n mod 256"
  by (simp add: unat_of_nat)

lemma unat_u16_of_nat [word_nat]: "unat (word_of_nat n :: u16) = n mod 65536"
  by (simp add: unat_of_nat)

lemma unat_u32_of_nat [word_nat]: "unat (word_of_nat n :: u32) = n mod 4294967296"
  by (simp add: unat_of_nat)

lemma unat_u64_of_nat [word_nat]: "unat (word_of_nat n :: u64) = n mod 18446744073709551616"
  by (simp add: unat_of_nat)

lemma word_eq_unat_iff: "(a = b) = (unat a = unat b)"
  by (rule word_unat_eq_iff)

section \<open>Results\<close>

text \<open>A chain of calls that can fail, read backwards from its success.\<close>

lemma sum_case_Inr_E:
  assumes "(case x of Inl e \<Rightarrow> Inl e | Inr a \<Rightarrow> f a) = Inr r"
  obtains a where "x = Inr a" "f a = Inr r"
  using assms by (cases x) auto

lemma option_case_Some_E:
  assumes "(case x of None \<Rightarrow> None | Some a \<Rightarrow> f a) = Some r"
  obtains a where "x = Some a" "f a = Some r"
  using assms by (cases x) auto

section \<open>Slices\<close>

text \<open>\<open>xs[a:b]\<close>: \<open>None\<close> where Go panics (every slice of the sources has its capacity
  equal to its length, so the length is the bound).\<close>

definition slice :: "'a list \<Rightarrow> nat \<Rightarrow> nat \<Rightarrow> 'a list option" where
  "slice xs a b = (if a \<le> b \<and> b \<le> length xs then Some (take (b - a) (drop a xs)) else None)"

definition slice_from :: "'a list \<Rightarrow> nat \<Rightarrow> 'a list option" where
  "slice_from xs a = (if a \<le> length xs then Some (drop a xs) else None)"

definition index :: "'a list \<Rightarrow> nat \<Rightarrow> 'a option" where
  "index xs i = (if i < length xs then Some (xs ! i) else None)"

lemma set_singleton_list:
  assumes "distinct xs" "set xs = {a}"
  shows "xs = [a]"
proof (cases xs)
  case (Cons x ys)
  with assms have "x = a" "a \<notin> set ys" "set ys \<subseteq> {a}" by auto
  then have "set ys = {}" using subset_singletonD [of "set ys" a] by auto
  with Cons \<open>x = a\<close> show ?thesis by simp
qed (use assms in simp)

lemma slice_Some_iff:
  "slice xs a b = Some ys \<longleftrightarrow> a \<le> b \<and> b \<le> length xs \<and> ys = take (b - a) (drop a xs)"
  by (auto simp: slice_def)

lemma slice_length [len_simps]: "slice xs a b = Some ys \<Longrightarrow> length ys = b - a"
  by (auto simp: slice_Some_iff)

lemma slice_append_mid [simp]:
  "length xs = a \<Longrightarrow> a + length ys = b \<Longrightarrow> slice (xs @ ys @ zs) a b = Some ys"
  by (auto simp: slice_def)

lemma slice_prefix [simp]: "length ys = b \<Longrightarrow> slice (ys @ zs) 0 b = Some ys"
  by (auto simp: slice_def)

lemma slice_from_append [simp]: "length xs = a \<Longrightarrow> slice_from (xs @ ys) a = Some ys"
  by (auto simp: slice_from_def)

lemma index_Some_iff: "index xs i = Some x \<longleftrightarrow> i < length xs \<and> x = xs ! i"
  by (auto simp: index_def)

text \<open>\<open>copy(target[a:], src)\<close> writes at most what fits between \<open>a\<close> and the end.\<close>

definition copy_at :: "'a list \<Rightarrow> nat \<Rightarrow> 'a list \<Rightarrow> 'a list" where
  "copy_at target a src =
     take a target @ take (length target - a) src @ drop (a + length src) target"

lemma length_copy_at [len_simps, simp]:
  "a \<le> length target \<Longrightarrow> length (copy_at target a src) = length target"
  by (simp add: copy_at_def min_def)

lemma copy_at_fits:
  "a + length src \<le> length target \<Longrightarrow>
     copy_at target a src = take a target @ src @ drop (a + length src) target"
  by (simp add: copy_at_def)

lemma take_append_drop_mid:
  "xs = take a xs @ take n (drop a xs) @ drop (a + n) xs"
  by (metis add.commute append_take_drop_id drop_drop)

section \<open>Little-endian integers\<close>

text \<open>\<^verbatim>\<open>binary.LittleEndian.PutUintN\<close> and \<^verbatim>\<open>UintN\<close>, by the number of bytes.\<close>

fun le_encode :: "nat \<Rightarrow> nat \<Rightarrow> byte list" where
  "le_encode 0 n = []"
| "le_encode (Suc k) n = word_of_nat (n mod 256) # le_encode k (n div 256)"

fun le_decode :: "byte list \<Rightarrow> nat" where
  "le_decode [] = 0"
| "le_decode (b # bs) = unat b + 256 * le_decode bs"

lemma length_le_encode [len_simps, simp]: "length (le_encode k n) = k"
  by (induction k arbitrary: n) auto

lemma le_decode_less: "le_decode bs < 256 ^ length bs"
proof (induction bs)
  case Nil
  then show ?case by simp
next
  case (Cons b bs)
  have "unat b + 256 * le_decode bs < 256 * (le_decode bs + 1)"
    by simp
  also have "\<dots> \<le> 256 * 256 ^ length bs"
    using Cons.IH by (intro mult_le_mono2) simp
  finally show ?case by simp
qed

lemma le_decode_encode: "le_decode (le_encode k n) = n mod 256 ^ k"
proof (induction k arbitrary: n)
  case 0
  then show ?case by simp
next
  case (Suc k)
  have "le_decode (le_encode (Suc k) n) = n mod 256 + 256 * ((n div 256) mod 256 ^ k)"
    using Suc.IH by (simp add: word_nat)
  also have "\<dots> = n mod (256 * 256 ^ k)"
    by (simp add: mod_mult2_eq)
  finally show ?case by simp
qed

lemma le_encode_decode: "length bs = k \<Longrightarrow> le_encode k (le_decode bs) = bs"
  by (induction bs arbitrary: k) (auto simp: word_eq_unat_iff word_nat)

definition put_u16 :: "u16 \<Rightarrow> byte list" where
  "put_u16 n = le_encode 2 (unat n)"

definition put_u32 :: "u32 \<Rightarrow> byte list" where
  "put_u32 n = le_encode 4 (unat n)"

definition put_u64 :: "u64 \<Rightarrow> byte list" where
  "put_u64 n = le_encode 8 (unat n)"

definition get_u16 :: "byte list \<Rightarrow> u16" where
  "get_u16 bs = word_of_nat (le_decode bs)"

definition get_u32 :: "byte list \<Rightarrow> u32" where
  "get_u32 bs = word_of_nat (le_decode bs)"

definition get_u64 :: "byte list \<Rightarrow> u64" where
  "get_u64 bs = word_of_nat (le_decode bs)"

lemma length_put_u [len_simps, simp]:
  "length (put_u16 a) = 2" "length (put_u32 b) = 4" "length (put_u64 c) = 8"
  by (simp_all add: put_u16_def put_u32_def put_u64_def)

lemma get_put_u16 [simp]: "get_u16 (put_u16 n) = n"
  by (simp add: get_u16_def put_u16_def le_decode_encode word_eq_unat_iff word_nat)

lemma get_put_u32 [simp]: "get_u32 (put_u32 n) = n"
  by (simp add: get_u32_def put_u32_def le_decode_encode word_eq_unat_iff word_nat)

lemma get_put_u64 [simp]: "get_u64 (put_u64 n) = n"
  by (simp add: get_u64_def put_u64_def le_decode_encode word_eq_unat_iff word_nat)

end
