(* ===== verification/Go_Strings.thy ===== *)
theory Go_Strings
  imports Prelude "HOL-Library.Char_ord" "HOL-Library.List_Lexorder"
begin

text \<open>
  The operations of the Go packages \<^verbatim>\<open>strings\<close>, \<^verbatim>\<open>strconv\<close> and \<^verbatim>\<open>encoding/hex\<close> that the
  sources use. A Go string is a sequence of bytes and so is an Isabelle \<^typ>\<open>string\<close>; a
  \<^verbatim>\<open>[]byte\<close> is a \<^typ>\<open>byte list\<close>, and the two conversions are exact.

  White space is the Unicode property as \<^verbatim>\<open>unicode.IsSpace\<close> has it, given by the UTF-8
  encodings of its members. The case mappings are exact for ASCII letters and for the four
  code points outside ASCII whose image under the mapping is an ASCII letter; every other
  non-ASCII sequence is left alone. Their results are only ever compared with ASCII strings
  or hashed for ASCII identifiers, and there this is what Go computes.
\<close>

section \<open>Bytes and strings\<close>

definition string_of_bytes :: "byte list \<Rightarrow> string" where
  "string_of_bytes bs = map (\<lambda>b. char_of (unat b)) bs"

definition bytes_of_string :: "string \<Rightarrow> byte list" where
  "bytes_of_string s = map (\<lambda>c. word_of_nat (of_char c)) s"

lemma string_of_bytes_of_string [simp]: "string_of_bytes (bytes_of_string s) = s"
  by (simp add: string_of_bytes_def bytes_of_string_def comp_def word_nat)

lemma bytes_of_string_of_bytes [simp]: "bytes_of_string (string_of_bytes bs) = bs"
  by (simp add: string_of_bytes_def bytes_of_string_def comp_def word_eq_unat_iff word_nat map_idI)

lemma length_string_of_bytes [simp]: "length (string_of_bytes bs) = length bs"
  by (simp add: string_of_bytes_def)

lemma length_bytes_of_string [simp]: "length (bytes_of_string s) = length s"
  by (simp add: bytes_of_string_def)

section \<open>Prefixes and suffixes\<close>

fun HasPrefix :: "string \<Rightarrow> string \<Rightarrow> bool" where
  "HasPrefix s [] = True"
| "HasPrefix [] (p # ps) = False"
| "HasPrefix (c # cs) (p # ps) = (c = p \<and> HasPrefix cs ps)"

definition HasSuffix :: "string \<Rightarrow> string \<Rightarrow> bool" where
  "HasSuffix s p = HasPrefix (rev s) (rev p)"

definition TrimPrefix :: "string \<Rightarrow> string \<Rightarrow> string" where
  "TrimPrefix s p = (if HasPrefix s p then drop (length p) s else s)"

definition TrimSuffix :: "string \<Rightarrow> string \<Rightarrow> string" where
  "TrimSuffix s p = (if HasSuffix s p then take (length s - length p) s else s)"

lemma HasPrefix_iff: "HasPrefix s p \<longleftrightarrow> (\<exists>r. s = p @ r)"
  by (induction s p rule: HasPrefix.induct) auto

lemma HasPrefix_append [simp]: "HasPrefix (p @ r) p"
  by (auto simp: HasPrefix_iff)

lemma TrimPrefix_append [simp]: "TrimPrefix (p @ r) p = r"
  by (simp add: TrimPrefix_def)

section \<open>White space\<close>

definition utf8 :: "nat list \<Rightarrow> string" where
  "utf8 ns = map char_of ns"

definition space_encodings :: "string list" where
  "space_encodings =
     map utf8
      ([[9], [10], [11], [12], [13], [32], [0xC2, 0x85], [0xC2, 0xA0], [0xE1, 0x9A, 0x80]]
       @ map (\<lambda>k. [0xE2, 0x80, 0x80 + k]) [0..<11]
       @ [[0xE2, 0x80, 0xA8], [0xE2, 0x80, 0xA9], [0xE2, 0x80, 0xAF], [0xE2, 0x81, 0x9F],
          [0xE3, 0x80, 0x80]])"

lemma space_encodings_nonempty: "e \<in> set space_encodings \<Longrightarrow> e \<noteq> []"
  by (auto simp: space_encodings_def utf8_def)

function trim_by :: "string list \<Rightarrow> string \<Rightarrow> string" where
  "trim_by encs s =
     (case find (\<lambda>e. e \<noteq> [] \<and> HasPrefix s e) encs of
        None \<Rightarrow> s
      | Some e \<Rightarrow> trim_by encs (drop (length e) s))"
  by pat_completeness auto
termination
proof (relation "measure (\<lambda>(encs, s). length s)", goal_cases)
  case 1
  then show ?case by simp
next
  case (2 encs s e)
  then have "e \<noteq> []" and "HasPrefix s e" by (auto simp: find_Some_iff)
  then show ?case by (auto simp: HasPrefix_iff)
qed

declare trim_by.simps [simp del]

definition TrimSpace :: "string \<Rightarrow> string" where
  "TrimSpace s = rev (trim_by (map rev space_encodings) (rev (trim_by space_encodings s)))"

text \<open>A string is \<^emph>\<open>trimmed\<close> when no white space starts or ends it.\<close>

definition no_prefix_in :: "string list \<Rightarrow> string \<Rightarrow> bool" where
  "no_prefix_in encs s \<longleftrightarrow> (\<forall>e \<in> set encs. e \<noteq> [] \<longrightarrow> \<not> HasPrefix s e)"

definition trimmed :: "string \<Rightarrow> bool" where
  "trimmed s \<longleftrightarrow> no_prefix_in space_encodings s \<and> no_prefix_in (map rev space_encodings) (rev s)"

lemma trim_by_no_prefix: "no_prefix_in encs (trim_by encs s)"
proof (induction encs s rule: trim_by.induct)
  case (1 encs s)
  show ?case
  proof (cases "find (\<lambda>e. e \<noteq> [] \<and> HasPrefix s e) encs")
    case None
    then have "no_prefix_in encs s" by (auto simp: find_None_iff no_prefix_in_def)
    with None show ?thesis by (simp add: trim_by.simps [of encs s])
  next
    case (Some e)
    then show ?thesis using 1 by (simp add: trim_by.simps [of encs s])
  qed
qed

lemma trim_by_id: "no_prefix_in encs s \<Longrightarrow> trim_by encs s = s"
proof -
  assume "no_prefix_in encs s"
  then have "find (\<lambda>e. e \<noteq> [] \<and> HasPrefix s e) encs = None"
    by (auto simp: find_None_iff no_prefix_in_def)
  then show ?thesis by (simp add: trim_by.simps)
qed

lemma trim_by_suffix: "\<exists>p. s = p @ trim_by encs s"
proof (induction encs s rule: trim_by.induct)
  case (1 encs s)
  show ?case
  proof (cases "find (\<lambda>e. e \<noteq> [] \<and> HasPrefix s e) encs")
    case None
    then show ?thesis by (simp add: trim_by.simps [of encs s])
  next
    case (Some e)
    with 1 obtain p where p: "drop (length e) s = p @ trim_by encs (drop (length e) s)"
      by blast
    from Some have "HasPrefix s e" by (auto simp: find_Some_iff)
    then have "s = e @ drop (length e) s" by (auto simp: HasPrefix_iff)
    with p have "s = (e @ p) @ trim_by encs (drop (length e) s)" by (metis append.assoc)
    moreover from Some have "trim_by encs s = trim_by encs (drop (length e) s)"
      by (simp add: trim_by.simps [of encs s])
    ultimately show ?thesis by metis
  qed
qed

lemma no_prefix_in_append: "no_prefix_in encs (s @ t) \<Longrightarrow> no_prefix_in encs s"
  by (auto simp: no_prefix_in_def HasPrefix_iff)

lemma TrimSpace_id: "trimmed s \<Longrightarrow> TrimSpace s = s"
  by (simp add: TrimSpace_def trimmed_def trim_by_id)

lemma trimmed_TrimSpace [simp]: "trimmed (TrimSpace s)"
proof -
  let ?l = "trim_by space_encodings s"
  let ?r = "trim_by (map rev space_encodings) (rev ?l)"
  have "no_prefix_in (map rev space_encodings) ?r" by (rule trim_by_no_prefix)
  moreover obtain p where "rev ?l = p @ ?r" using trim_by_suffix by blast
  then have "?l = rev ?r @ rev p" by (metis rev_append rev_rev_ident)
  then have "no_prefix_in space_encodings (rev ?r)"
    by (metis no_prefix_in_append trim_by_no_prefix)
  ultimately show ?thesis by (simp add: trimmed_def TrimSpace_def)
qed

lemma TrimSpace_idem [simp]: "TrimSpace (TrimSpace s) = TrimSpace s"
  by (simp add: TrimSpace_id)

lemma TrimSpace_Nil [simp]: "TrimSpace [] = []"
  by (rule TrimSpace_id) (auto simp: trimmed_def no_prefix_in_def HasPrefix_iff)

text \<open>Printable ASCII strings are never changed by trimming.\<close>

definition graphic :: "string \<Rightarrow> bool" where
  "graphic s \<longleftrightarrow> (\<forall>c \<in> set s. 33 \<le> (of_char c :: nat) \<and> (of_char c :: nat) \<le> 126)"

lemma space_encodings_ends:
  assumes "e \<in> set space_encodings"
  shows "\<not> (33 \<le> (of_char (hd e) :: nat) \<and> (of_char (hd e) :: nat) \<le> 126)"
    and "\<not> (33 \<le> (of_char (last e) :: nat) \<and> (of_char (last e) :: nat) \<le> 126)"
  using assms by (auto simp: space_encodings_def utf8_def)

lemma graphic_no_prefix:
  assumes "graphic s" and "\<And>e. e \<in> set encs \<Longrightarrow> \<not> graphic [hd e]"
  shows "no_prefix_in encs s"
proof (unfold no_prefix_in_def, intro ballI impI notI)
  fix e assume e: "e \<in> set encs" "e \<noteq> []" "HasPrefix s e"
  then have "hd e \<in> set s" by (cases e) (auto simp: HasPrefix_iff)
  with assms(1) have "graphic [hd e]" by (auto simp: graphic_def)
  with assms(2) e(1) show False by blast
qed

lemma graphic_trimmed: "graphic s \<Longrightarrow> trimmed s"
proof -
  assume g: "graphic s"
  then have "graphic (rev s)" by (simp add: graphic_def)
  moreover have "\<not> graphic [hd e]" if "e \<in> set (map rev space_encodings)" for e
    using that space_encodings_ends(2) by (auto simp: graphic_def hd_rev)
  ultimately have "no_prefix_in (map rev space_encodings) (rev s)"
    by (intro graphic_no_prefix) auto
  moreover have "no_prefix_in space_encodings s"
    by (intro graphic_no_prefix g) (use space_encodings_ends(1) in \<open>auto simp: graphic_def\<close>)
  ultimately show ?thesis by (simp add: trimmed_def)
qed

lemma TrimSpace_graphic [simp]: "graphic s \<Longrightarrow> TrimSpace s = s"
  by (simp add: TrimSpace_id graphic_trimmed)

lemma graphic_simps [simp]:
  "graphic []" "graphic (c # s) \<longleftrightarrow> (33 \<le> (of_char c :: nat) \<and> (of_char c :: nat) \<le> 126) \<and> graphic s"
  "graphic (s @ t) \<longleftrightarrow> graphic s \<and> graphic t"
  by (auto simp: graphic_def)

section \<open>Case mapping\<close>

definition ascii_lower :: "char \<Rightarrow> char" where
  "ascii_lower c = (let n = (of_char c :: nat) in if 65 \<le> n \<and> n \<le> 90 then char_of (n + 32) else c)"

definition ascii_upper :: "char \<Rightarrow> char" where
  "ascii_upper c = (let n = (of_char c :: nat) in if 97 \<le> n \<and> n \<le> 122 then char_of (n - 32) else c)"

text \<open>\<open>replace_enc tab f s\<close> maps every encoding of the table to its letter and every other byte by
  \<open>f\<close>.\<close>

fun replace_enc :: "(string \<times> char) list \<Rightarrow> (char \<Rightarrow> char) \<Rightarrow> string \<Rightarrow> string" where
  "replace_enc tab f [] = []"
| "replace_enc tab f (c # cs) =
     (case find (\<lambda>(e, _). HasPrefix (c # cs) e) tab of
        Some (e, d) \<Rightarrow> d # replace_enc tab f (drop (length e - 1) cs)
      | None \<Rightarrow> f c # replace_enc tab f cs)"

text \<open>U+0130 and U+212A have the lower-case letters i and k; U+0131 and U+017F have the upper-case
  letters I and S; under simple folding U+212A and U+017F belong to k and s.\<close>

definition ToLower :: "string \<Rightarrow> string" where
  "ToLower = replace_enc [(utf8 [0xC4, 0xB0], CHR ''i''), (utf8 [0xE2, 0x84, 0xAA], CHR ''k'')] ascii_lower"

definition ToUpper :: "string \<Rightarrow> string" where
  "ToUpper = replace_enc [(utf8 [0xC4, 0xB1], CHR ''I''), (utf8 [0xC5, 0xBF], CHR ''S'')] ascii_upper"

definition simple_fold :: "string \<Rightarrow> string" where
  "simple_fold = replace_enc [(utf8 [0xE2, 0x84, 0xAA], CHR ''k''), (utf8 [0xC5, 0xBF], CHR ''s'')] ascii_lower"

definition EqualFold :: "string \<Rightarrow> string \<Rightarrow> bool" where
  "EqualFold s t \<longleftrightarrow> simple_fold s = simple_fold t"

definition ascii :: "string \<Rightarrow> bool" where
  "ascii s \<longleftrightarrow> (\<forall>c \<in> set s. (of_char c :: nat) < 128)"

lemma ascii_simps [simp]:
  "ascii []" "ascii (c # s) \<longleftrightarrow> (of_char c :: nat) < 128 \<and> ascii s"
  "ascii (s @ t) \<longleftrightarrow> ascii s \<and> ascii t"
  by (auto simp: ascii_def)

lemma graphic_ascii: "graphic s \<Longrightarrow> ascii s"
  by (auto simp: graphic_def ascii_def)

lemma replace_enc_ascii:
  assumes "ascii s" and "\<And>e d. (e, d) \<in> set tab \<Longrightarrow> e \<noteq> [] \<and> 128 \<le> (of_char (hd e) :: nat)"
  shows "replace_enc tab f s = map f s"
  using assms(1)
proof (induction s)
  case Nil
  then show ?case by simp
next
  case (Cons c cs)
  have "\<not> HasPrefix (c # cs) e" if "(e, d) \<in> set tab" for e d
    using Cons.prems assms(2) [OF that] by (cases e) auto
  then have "find (\<lambda>(e, _). HasPrefix (c # cs) e) tab = None"
    by (auto simp: find_None_iff)
  with Cons show ?case by simp
qed

lemma ToLower_ascii: "ascii s \<Longrightarrow> ToLower s = map ascii_lower s"
  unfolding ToLower_def by (rule replace_enc_ascii) (auto simp: utf8_def)

lemma ToUpper_ascii: "ascii s \<Longrightarrow> ToUpper s = map ascii_upper s"
  unfolding ToUpper_def by (rule replace_enc_ascii) (auto simp: utf8_def)

lemma EqualFold_ascii:
  "ascii s \<Longrightarrow> ascii t \<Longrightarrow> EqualFold s t \<longleftrightarrow> map ascii_lower s = map ascii_lower t"
  unfolding EqualFold_def simple_fold_def
  by (subst (1 2) replace_enc_ascii) (auto simp: utf8_def)

lemma ToLower_eq_Nil [simp]: "ToLower s = [] \<longleftrightarrow> s = []"
proof -
  have "replace_enc tab f s = [] \<longleftrightarrow> s = []" for tab f
    by (cases s) (auto split: option.splits)
  then show ?thesis by (simp add: ToLower_def)
qed

lemma EqualFold_refl [simp]: "EqualFold s s"
  by (simp add: EqualFold_def)

lemma EqualFold_sym: "EqualFold s t = EqualFold t s"
  by (auto simp: EqualFold_def)

section \<open>Splitting and joining\<close>

fun Split :: "char \<Rightarrow> string \<Rightarrow> string list" where
  "Split sep [] = [[]]"
| "Split sep (c # cs) =
     (if c = sep then [] # Split sep cs
      else case Split sep cs of [] \<Rightarrow> [[c]] | p # ps \<Rightarrow> (c # p) # ps)"

text \<open>\<^verbatim>\<open>strings.SplitN(s, sep, 2)\<close>.\<close>

fun SplitN2 :: "char \<Rightarrow> string \<Rightarrow> string list" where
  "SplitN2 sep [] = [[]]"
| "SplitN2 sep (c # cs) =
     (if c = sep then [[], cs]
      else case SplitN2 sep cs of [] \<Rightarrow> [[c]] | p # ps \<Rightarrow> (c # p) # ps)"

fun Join :: "char \<Rightarrow> string list \<Rightarrow> string" where
  "Join sep [] = []"
| "Join sep [p] = p"
| "Join sep (p # q # ps) = p @ sep # Join sep (q # ps)"

lemma Split_ne_Nil [simp]: "Split sep s \<noteq> []"
  by (induction s) (auto split: list.splits)

lemma Split_no_sep: "sep \<notin> set p \<Longrightarrow> Split sep p = [p]"
  by (induction p) auto

lemma Split_append: "sep \<notin> set p \<Longrightarrow> Split sep (p @ sep # r) = p # Split sep r"
  by (induction p) auto

lemma Split_Join:
  "ps \<noteq> [] \<Longrightarrow> \<forall>p \<in> set ps. sep \<notin> set p \<Longrightarrow> Split sep (Join sep ps) = ps"
  by (induction sep ps rule: Join.induct) (auto simp: Split_append Split_no_sep)

lemma SplitN2_append: "sep \<notin> set p \<Longrightarrow> SplitN2 sep (p @ sep # r) = [p, r]"
  by (induction p) auto

lemma SplitN2_no_sep: "sep \<notin> set p \<Longrightarrow> SplitN2 sep p = [p]"
  by (induction p) auto

lemma SplitN2_cases:
  "SplitN2 sep s = [s] \<and> sep \<notin> set s \<or>
   (\<exists>p r. SplitN2 sep s = [p, r] \<and> s = p @ sep # r \<and> sep \<notin> set p)"
  by (metis SplitN2_append SplitN2_no_sep split_list_first)

section \<open>Decimal numbers\<close>

definition is_digit :: "char \<Rightarrow> bool" where
  "is_digit c \<longleftrightarrow> 48 \<le> (of_char c :: nat) \<and> (of_char c :: nat) \<le> 57"

definition digit_val :: "char \<Rightarrow> nat" where
  "digit_val c = of_char c - 48"

definition digits_val :: "string \<Rightarrow> nat" where
  "digits_val s = foldl (\<lambda>acc c. acc * 10 + digit_val c) 0 s"

text \<open>\<^verbatim>\<open>strconv.ParseUint(s, 10, bits)\<close>: \<open>None\<close> is any error (syntax or range).\<close>

definition ParseUint :: "nat \<Rightarrow> string \<Rightarrow> nat option" where
  "ParseUint bits s =
     (if s \<noteq> [] \<and> list_all is_digit s \<and> digits_val s < 2 ^ bits then Some (digits_val s) else None)"

text \<open>\<^verbatim>\<open>strconv.FormatUint(n, 10)\<close>.\<close>

fun FormatUint :: "nat \<Rightarrow> string" where
  "FormatUint n = (if n < 10 then [char_of (48 + n)] else FormatUint (n div 10) @ [char_of (48 + n mod 10)])"

declare FormatUint.simps [simp del]

lemma digits_val_snoc [simp]: "digits_val (s @ [c]) = digits_val s * 10 + digit_val c"
  by (simp add: digits_val_def)

lemma digits_val_Nil [simp]: "digits_val [] = 0"
  by (simp add: digits_val_def)

lemma digit_char [simp]:
  "d < 10 \<Longrightarrow> is_digit (char_of (48 + d))" "d < 10 \<Longrightarrow> digit_val (char_of (48 + d)) = d"
  by (simp_all add: is_digit_def digit_val_def)

lemma FormatUint_props:
  "FormatUint n \<noteq> [] \<and> list_all is_digit (FormatUint n) \<and> digits_val (FormatUint n) = n"
proof (induction n rule: FormatUint.induct)
  case (1 n)
  show ?case
  proof (cases "n < 10")
    case True
    then show ?thesis
      using digits_val_snoc [of "[]" "char_of (48 + n)"] by (simp add: FormatUint.simps [of n])
  next
    case False
    with 1 show ?thesis by (simp add: FormatUint.simps [of n])
  qed
qed

lemma FormatUint_ne_Nil [simp]: "FormatUint n \<noteq> []"
  and FormatUint_digits [simp]: "list_all is_digit (FormatUint n)"
  and digits_val_FormatUint [simp]: "digits_val (FormatUint n) = n"
  using FormatUint_props [of n] by blast+

lemma ParseUint_FormatUint: "n < 2 ^ bits \<Longrightarrow> ParseUint bits (FormatUint n) = Some n"
  by (simp add: ParseUint_def)

lemma ParseUint_Some:
  "ParseUint bits s = Some n \<longleftrightarrow> s \<noteq> [] \<and> list_all is_digit s \<and> n = digits_val s \<and> n < 2 ^ bits"
  by (auto simp: ParseUint_def)

lemma digits_graphic: "list_all is_digit s \<Longrightarrow> graphic s"
  by (auto simp: graphic_def is_digit_def list_all_iff)

lemma graphic_FormatUint [simp]: "graphic (FormatUint n)"
  by (simp add: digits_graphic)

lemma digits_notin: "list_all is_digit s \<Longrightarrow> \<not> is_digit c \<Longrightarrow> c \<notin> set s"
  by (auto simp: list_all_iff)

lemma FormatUint_inj [simp]: "FormatUint m = FormatUint n \<longleftrightarrow> m = n"
  by (metis digits_val_FormatUint)

section \<open>Hexadecimal\<close>

definition hex_digit :: "nat \<Rightarrow> char" where
  "hex_digit d = (if d < 10 then char_of (48 + d) else char_of (87 + d))"

definition hex_val :: "char \<Rightarrow> nat option" where
  "hex_val c = (let n = (of_char c :: nat) in
     if 48 \<le> n \<and> n \<le> 57 then Some (n - 48)
     else if 97 \<le> n \<and> n \<le> 102 then Some (n - 87)
     else if 65 \<le> n \<and> n \<le> 70 then Some (n - 55) else None)"

definition hex_encode :: "byte list \<Rightarrow> string" where
  "hex_encode bs = concat (map (\<lambda>b. [hex_digit (unat b div 16), hex_digit (unat b mod 16)]) bs)"

fun hex_decode :: "string \<Rightarrow> byte list option" where
  "hex_decode [] = Some []"
| "hex_decode [c] = None"
| "hex_decode (c # d # cs) =
     (case (hex_val c, hex_val d, hex_decode cs) of
        (Some h, Some l, Some bs) \<Rightarrow> Some (word_of_nat (16 * h + l) # bs)
      | _ \<Rightarrow> None)"

lemma byte_nibbles: "unat (b :: byte) div 16 < 16" "unat b mod 16 < 16"
  by (rule less_mult_imp_div_less) simp_all

lemma hex_val_digit: "d < 16 \<Longrightarrow> hex_val (hex_digit d) = Some d"
  by (simp add: hex_val_def hex_digit_def)

lemma hex_decode_encode [simp]: "hex_decode (hex_encode bs) = Some bs"
proof (induction bs)
  case Nil
  then show ?case by (simp add: hex_encode_def)
next
  case (Cons b bs)
  note byte_nibbles [of b]
  moreover have "word_of_nat (16 * (unat b div 16) + unat b mod 16) = b"
    by (simp add: word_eq_unat_iff word_nat)
  ultimately show ?case using Cons by (simp add: hex_encode_def hex_val_digit)
qed

lemma length_hex_encode [simp]: "length (hex_encode bs) = 2 * length bs"
  by (induction bs) (auto simp: hex_encode_def)

lemma hex_digit_graphic: "d < 16 \<Longrightarrow> graphic [hex_digit d]"
  by (simp add: hex_digit_def)

lemma graphic_hex_encode [simp]: "graphic (hex_encode bs)"
proof (induction bs)
  case Nil
  then show ?case by (simp add: hex_encode_def)
next
  case (Cons b bs)
  note byte_nibbles [of b]
  then show ?case using Cons hex_digit_graphic by (auto simp: hex_encode_def)
qed

end
