(* ===== verification/Float64.thy ===== *)
theory Float64
  imports Complex_Main Prelude "HOL-Library.Log_Nat"
begin

text \<open>
  The \<^verbatim>\<open>float64\<close> arithmetic of the reward code. A finite \<^verbatim>\<open>float64\<close> is the rational number it
  stands for; every operation of the sources is the exact operation followed by \<open>f64_round\<close>,
  IEEE 754 rounding to nearest, ties to even, with 53 bits of precision and the gradual underflow
  below \<open>2\<^sup>-\<^sup>1\<^sup>0\<^sup>2\<^sup>2\<close>. Infinities and NaN are left out: no operation of the modelled code reaches
  them, as its operands are converted integers, configured percentages and ratios in \<open>[0, 1]\<close>.
  The operations are separate roundings, as the compiler emits them on amd64 (no fused
  multiply-add).
\<close>

type_synonym f64 = rat

section \<open>Powers of two with integer exponents\<close>

definition pow2 :: "int \<Rightarrow> rat" where
  "pow2 e = (if 0 \<le> e then 2 ^ nat e else 1 / 2 ^ nat (- e))"

lemma pow2_pos [simp]: "0 < pow2 e"
  by (simp add: pow2_def)

lemma pow2_neq_0 [simp]: "pow2 e \<noteq> 0"
  by (simp add: pow2_def)

lemma pow2_nat: "pow2 (int n) = 2 ^ n"
  by (simp add: pow2_def)

lemma pow2_minus: "pow2 (- e) = 1 / pow2 e"
  by (auto simp: pow2_def)

lemma pow2_Suc: "pow2 (e + 1) = 2 * pow2 e"
proof (cases "0 \<le> e")
  case True
  then show ?thesis by (simp add: pow2_def nat_add_distrib)
next
  case False
  then have "nat (- e) = Suc (nat (- (e + 1)))" by simp
  with False show ?thesis by (auto simp: pow2_def)
qed

lemma pow2_add_nat: "pow2 (e + int n) = pow2 e * 2 ^ n"
proof (induction n)
  case 0
  then show ?case by simp
next
  case (Suc n)
  have "pow2 (e + int (Suc n)) = pow2 ((e + int n) + 1)" by (simp add: ac_simps)
  then show ?case using Suc by (simp only: pow2_Suc) simp
qed

lemma pow2_add: "pow2 (a + b) = pow2 a * pow2 b"
proof (cases "0 \<le> b")
  case True
  then show ?thesis using pow2_add_nat [of a "nat b"] by (simp add: pow2_def)
next
  case False
  have "pow2 a = pow2 (a + b) * 2 ^ nat (- b)"
    using pow2_add_nat [of "a + b" "nat (- b)"] False by simp
  with False show ?thesis by (simp add: pow2_def [of b])
qed

lemma pow2_mono: "a \<le> b \<Longrightarrow> pow2 a \<le> pow2 b"
proof -
  assume "a \<le> b"
  then have "pow2 b = pow2 a * 2 ^ nat (b - a)" using pow2_add_nat [of a "nat (b - a)"] by simp
  then show ?thesis using one_le_power [of "2 :: rat" "nat (b - a)"] by simp
qed

lemma pow2_less_D: "pow2 a < pow2 b \<Longrightarrow> a < b"
  using pow2_mono [of b a] by linarith

section \<open>Rounding\<close>

text \<open>The exponent \<open>e\<close> with \<open>2\<^sup>e \<le> x < 2\<^sup>e\<^sup>+\<^sup>1\<close> of a positive \<open>x\<close>.\<close>

definition f64_expo :: "rat \<Rightarrow> int" where
  "f64_expo x =
     (if 1 \<le> x then bitlen \<lfloor>x\<rfloor> - 1 else - bitlen (\<lceil>1 / x\<rceil> - 1))"

lemma f64_expo_floorlog:
  "1 \<le> x \<Longrightarrow> f64_expo x = int (floorlog 2 (nat \<lfloor>x\<rfloor>)) - 1"
  "x < 1 \<Longrightarrow> f64_expo x = - int (floorlog 2 (nat \<lceil>1 / x\<rceil> - 1))"
proof -
  have "nat (z - 1) = nat z - 1" for z by arith
  then show "1 \<le> x \<Longrightarrow> f64_expo x = int (floorlog 2 (nat \<lfloor>x\<rfloor>)) - 1"
    "x < 1 \<Longrightarrow> f64_expo x = - int (floorlog 2 (nat \<lceil>1 / x\<rceil> - 1))"
    by (simp_all add: f64_expo_def bitlen_def)
qed

lemma f64_expo_ge1:
  assumes "1 \<le> x"
  shows "pow2 (f64_expo x) \<le> x" and "x < pow2 (f64_expo x + 1)"
proof -
  let ?m = "nat \<lfloor>x\<rfloor>"
  have m: "0 < ?m" using assms by simp
  have fl: "0 < floorlog 2 ?m" 
    by (rule gr0I) (use m in \<open>simp add: floorlog_eq_zero_iff\<close>)
  have b: "2 ^ (floorlog 2 ?m - 1) \<le> ?m" "?m < 2 ^ floorlog 2 ?m"
    using floorlog_bounds [of ?m 2] m by auto
  have mx: "of_nat ?m \<le> x" "x < of_nat ?m + 1"
    using assms by (simp_all add: of_nat_nat) linarith
  have e: "f64_expo x = int (floorlog 2 ?m - 1)" using assms fl by (simp add: f64_expo_floorlog)
  have "(2 :: rat) ^ (floorlog 2 ?m - 1) \<le> of_nat ?m"
    using b(1) by (metis of_nat_le_iff of_nat_numeral of_nat_power)
  from order_trans [OF this mx(1)] show "pow2 (f64_expo x) \<le> x" by (simp only: e pow2_nat)
  have "of_nat (?m + 1) \<le> (of_nat (2 ^ floorlog 2 ?m) :: rat)"
    using b(2) by (simp only: of_nat_le_iff Suc_eq_plus1 [symmetric] Suc_le_eq)
  then have "of_nat ?m + 1 \<le> (2 :: rat) ^ floorlog 2 ?m" by simp
  moreover have "pow2 (f64_expo x + 1) = 2 ^ floorlog 2 ?m"
  proof -
    have "f64_expo x + 1 = int (floorlog 2 ?m)" using e fl by simp
    then show ?thesis by (simp only: pow2_nat)
  qed
  ultimately show "x < pow2 (f64_expo x + 1)" using mx(2) by simp
qed

lemma f64_expo_lt1:
  assumes "0 < x" "x < 1"
  shows "pow2 (f64_expo x) \<le> x" and "x < pow2 (f64_expo x + 1)"
proof -
  let ?y = "1 / x" and ?m = "nat \<lceil>1 / x\<rceil> - 1"
  let ?k = "floorlog 2 ?m"
  have y: "1 < ?y" using assms by simp
  then have "1 < \<lceil>?y\<rceil>" by (simp add: less_ceiling_iff)
  then have m: "0 < ?m" by simp
  have k: "0 < ?k" by (rule gr0I) (use m in \<open>simp add: floorlog_eq_zero_iff\<close>)
  have b: "2 ^ (?k - 1) \<le> ?m" "?m < 2 ^ ?k"
    using floorlog_bounds [of ?m 2] m by auto
  have my: "?y \<le> of_nat ?m + 1" "of_nat ?m < ?y"
    using y by (simp_all add: of_nat_diff of_nat_nat) linarith+
  have e: "f64_expo x = - int ?k" using assms by (simp add: f64_expo_floorlog)
  have "of_nat (?m + 1) \<le> (of_nat (2 ^ ?k) :: rat)"
    using b(2) by (simp only: of_nat_le_iff Suc_eq_plus1 [symmetric] Suc_le_eq)
  then have "?y \<le> 2 ^ ?k" using my(1) by simp
  then have "1 / 2 ^ ?k \<le> x" using assms by (simp add: field_simps)
  then show "pow2 (f64_expo x) \<le> x" by (simp only: e pow2_minus pow2_nat)
  have "(of_nat (2 ^ (?k - 1)) :: rat) \<le> of_nat ?m" using b(1) by (simp only: of_nat_le_iff)
  from order.strict_trans1 [OF this my(2)]
  have "(2 :: rat) ^ (?k - 1) < ?y" by (simp only: of_nat_power of_nat_numeral)
  then have "x < 1 / 2 ^ (?k - 1)" using assms by (simp add: field_simps)
  moreover have "pow2 (f64_expo x + 1) = 1 / 2 ^ (?k - 1)"
  proof -
    have "f64_expo x + 1 = - int (?k - 1)" using e k by simp
    then show ?thesis by (simp only: pow2_minus pow2_nat)
  qed
  ultimately show "x < pow2 (f64_expo x + 1)" by simp
qed

lemma f64_expo_bounds:
  assumes "0 < x"
  shows "pow2 (f64_expo x) \<le> x" and "x < pow2 (f64_expo x + 1)"
  using assms f64_expo_ge1 [of x] f64_expo_lt1 [of x] by (cases "1 \<le> x"; simp)+

definition round_half_even :: "rat \<Rightarrow> int" where
  "round_half_even x =
     (let f = \<lfloor>x\<rfloor>; d = x - of_int f in
      if d < 1/2 then f else if 1/2 < d then f + 1 else if even f then f else f + 1)"

lemma round_half_even_error: "\<bar>of_int (round_half_even x) - x\<bar> \<le> 1/2"
proof -
  have "of_int \<lfloor>x\<rfloor> \<le> x" "x < of_int \<lfloor>x\<rfloor> + 1" by linarith+
  then show ?thesis by (auto simp: round_half_even_def Let_def abs_le_iff)
qed

lemma round_half_even_int [simp]: "round_half_even (of_int n) = n"
  by (simp add: round_half_even_def)

lemma round_half_even_nonneg: "0 \<le> x \<Longrightarrow> 0 \<le> round_half_even x"
  by (auto simp: round_half_even_def Let_def)

text \<open>The unit in the last place at \<open>x\<close>.\<close>

definition f64_ulp :: "rat \<Rightarrow> rat" where
  "f64_ulp x = pow2 (max (f64_expo x - 52) (- 1074))"

definition f64_round :: "rat \<Rightarrow> f64" where
  "f64_round x =
     (if x = 0 then 0
      else f64_ulp \<bar>x\<bar> * of_int (round_half_even (x / f64_ulp \<bar>x\<bar>)))"

lemma f64_ulp_pos [simp]: "0 < f64_ulp x"
  by (simp add: f64_ulp_def)

lemma f64_ulp_nonneg [simp]: "0 \<le> f64_ulp x" and f64_ulp_neq_0 [simp]: "f64_ulp x \<noteq> 0"
  using f64_ulp_pos [of x] by linarith+

lemma f64_round_0 [simp]: "f64_round 0 = 0"
  by (simp add: f64_round_def)

lemma f64_round_nonneg: "0 \<le> x \<Longrightarrow> 0 \<le> f64_round x"
  by (simp add: f64_round_def round_half_even_nonneg)

lemma f64_round_error_ulp:
  assumes "x \<noteq> 0"
  shows "\<bar>f64_round x - x\<bar> \<le> f64_ulp \<bar>x\<bar> / 2"
proof -
  let ?q = "f64_ulp \<bar>x\<bar>"
  have q: "0 < ?q" by simp
  have "f64_round x - x = ?q * (of_int (round_half_even (x / ?q)) - x / ?q)"
    using assms q by (simp add: f64_round_def right_diff_distrib)
  then have "\<bar>f64_round x - x\<bar> = ?q * \<bar>of_int (round_half_even (x / ?q)) - x / ?q\<bar>"
    using q by (simp add: abs_mult)
  also have "\<dots> \<le> ?q * (1/2)"
    using round_half_even_error q by (intro mult_left_mono) auto
  finally show ?thesis by simp
qed

text \<open>The standard error bound: relative error at most \<open>2\<^sup>-\<^sup>5\<^sup>3\<close> in the normal range.\<close>

lemma f64_round_rel:
  assumes "pow2 (- 1022) \<le> \<bar>x\<bar>"
  shows "\<bar>f64_round x - x\<bar> \<le> \<bar>x\<bar> / 2 ^ 53"
proof -
  have x: "0 < \<bar>x\<bar>" using assms pow2_pos [of "- 1022"] by linarith
  have "pow2 (- 1022) < pow2 (f64_expo \<bar>x\<bar> + 1)"
    using assms f64_expo_bounds(2) [OF x] by linarith
  then have "- 1022 \<le> f64_expo \<bar>x\<bar>" using pow2_less_D by fastforce
  then have "f64_ulp \<bar>x\<bar> = pow2 (f64_expo \<bar>x\<bar> + - 52)" by (simp add: f64_ulp_def)
  also have "\<dots> = pow2 (f64_expo \<bar>x\<bar>) / 2 ^ 52"
    by (simp only: pow2_add) (simp add: pow2_def)
  also have "\<dots> \<le> \<bar>x\<bar> / 2 ^ 52"
    using f64_expo_bounds(1) [OF x] by (intro divide_right_mono) auto
  finally have "f64_ulp \<bar>x\<bar> / 2 \<le> \<bar>x\<bar> / 2 ^ 53" by simp
  moreover have "\<bar>f64_round x - x\<bar> \<le> f64_ulp \<bar>x\<bar> / 2"
    using x by (intro f64_round_error_ulp) auto
  ultimately show ?thesis by linarith
qed

lemma f64_round_ub:
  assumes "0 \<le> x" "x = 0 \<or> pow2 (- 1022) \<le> x"
  shows "f64_round x \<le> x * (1 + 1 / 2 ^ 53)"
proof (cases "x = 0")
  case False
  then have "\<bar>f64_round x - x\<bar> \<le> \<bar>x\<bar> / 2 ^ 53" using assms by (intro f64_round_rel) auto
  then have "\<bar>f64_round x - x\<bar> \<le> x / 2 ^ 53" using assms(1) by (simp only: abs_of_nonneg)
  then have "f64_round x - x \<le> x / 2 ^ 53" by (rule abs_le_D1)
  then show ?thesis by (simp add: field_simps)
qed simp

lemma f64_round_lb:
  assumes "0 \<le> x" "x = 0 \<or> pow2 (- 1022) \<le> x"
  shows "x * (1 - 1 / 2 ^ 53) \<le> f64_round x"
proof (cases "x = 0")
  case False
  then have "\<bar>f64_round x - x\<bar> \<le> \<bar>x\<bar> / 2 ^ 53" using assms by (intro f64_round_rel) auto
  then have "\<bar>f64_round x - x\<bar> \<le> x / 2 ^ 53" using assms(1) by (simp only: abs_of_nonneg)
  then have "- (f64_round x - x) \<le> x / 2 ^ 53" by (rule abs_le_D2)
  then show ?thesis by (simp add: field_simps)
qed simp

text \<open>Integers of at most 53 bits are represented exactly.\<close>

lemma f64_round_int:
  assumes "\<bar>n\<bar> < 2 ^ 53"
  shows "f64_round (of_int n) = of_int n"
proof (cases "n = 0")
  case False
  let ?x = "of_int n :: rat"
  have x: "0 < \<bar>?x\<bar>" using False by simp
  have "of_int \<bar>n\<bar> < (of_int (2 ^ 53) :: rat)" using assms by (simp only: of_int_less_iff)
  then have "\<bar>?x\<bar> < pow2 53" by (simp add: pow2_def)
  then have "pow2 (f64_expo \<bar>?x\<bar>) < pow2 53" using f64_expo_bounds(1) [OF x] by linarith
  then have "f64_expo \<bar>?x\<bar> \<le> 52" using pow2_less_D by fastforce
  then obtain k where k: "max (f64_expo \<bar>?x\<bar> - 52) (- 1074) = - int k"
    by (metis diff_le_0_iff_le max.bounded_iff neg_le_0_iff_le nonpos_int_cases zero_le_numeral)
  then have u: "f64_ulp \<bar>?x\<bar> = 1 / 2 ^ k" by (simp add: f64_ulp_def pow2_minus pow2_nat)
  have "?x / f64_ulp \<bar>?x\<bar> = of_int (n * 2 ^ k)" using u by simp
  then have "round_half_even (?x / f64_ulp \<bar>?x\<bar>) = n * 2 ^ k"
    by (simp only: round_half_even_int)
  then show ?thesis using u False by (simp add: f64_round_def)
qed simp

lemma f64_round_nat:
  assumes "n < 2 ^ 53"
  shows "f64_round (of_nat n) = of_nat n"
proof -
  have "\<bar>int n\<bar> < 2 ^ 53" using assms by simp
  from f64_round_int [OF this] show ?thesis by simp
qed

section \<open>Operations\<close>

definition f64_of_u64 :: "u64 \<Rightarrow> f64" where
  "f64_of_u64 n = f64_round (of_int (uint n))"

definition f64_add :: "f64 \<Rightarrow> f64 \<Rightarrow> f64" where
  "f64_add a b = f64_round (a + b)"

definition f64_mul :: "f64 \<Rightarrow> f64 \<Rightarrow> f64" where
  "f64_mul a b = f64_round (a * b)"

definition f64_div :: "f64 \<Rightarrow> f64 \<Rightarrow> f64" where
  "f64_div a b = f64_round (a / b)"

text \<open>\<^verbatim>\<open>uint64(x)\<close> truncates; \<^verbatim>\<open>math.Floor\<close> and \<^verbatim>\<open>math.Round\<close> (half away from zero) on
  non-negative values below \<open>2\<^sup>6\<^sup>4\<close>.\<close>

definition u64_of_f64 :: "f64 \<Rightarrow> u64" where
  "u64_of_f64 x = word_of_int \<lfloor>x\<rfloor>"

definition math_Floor :: "f64 \<Rightarrow> f64" where
  "math_Floor x = of_int \<lfloor>x\<rfloor>"

definition math_Round :: "f64 \<Rightarrow> f64" where
  "math_Round x = (if 0 \<le> x then of_int \<lfloor>x + 1/2\<rfloor> else - of_int \<lfloor>- x + 1/2\<rfloor>)"

lemma f64_of_u64_unat: "f64_of_u64 n = f64_round (of_nat (unat n))"
  by (simp add: f64_of_u64_def)

lemma f64_of_u64_exact: "unat n < 2 ^ 53 \<Longrightarrow> f64_of_u64 n = of_nat (unat n)"
  unfolding f64_of_u64_unat by (rule f64_round_nat)

lemma f64_of_u64_nonneg [simp]: "0 \<le> f64_of_u64 n"
  unfolding f64_of_u64_unat by (rule f64_round_nonneg) (rule of_nat_0_le_iff)

lemma unat_u64_of_f64: "0 \<le> x \<Longrightarrow> unat (u64_of_f64 x) = nat \<lfloor>x\<rfloor> mod 2 ^ 64"
  by (simp add: u64_of_f64_def unat_eq_nat_uint uint_word_of_int nat_mod_distrib)

lemma u64_of_f64_of_u64: "unat n < 2 ^ 53 \<Longrightarrow> u64_of_f64 (f64_of_u64 n) = n"
  by (simp add: f64_of_u64_exact word_eq_unat_iff unat_u64_of_f64 del: of_nat_unat)

end
