(* ===== verification/Go_Strconv.thy ===== *)
theory Go_Strconv
  imports Go_Strings Float64
begin

text \<open>
  \<^verbatim>\<open>strconv.ParseFloat\<close> on decimal literals and \<^verbatim>\<open>strconv.FormatFloat(x, 'f', prec, 64)\<close>, with the
  round trip for the basis-point ratios that the protocol stores as decimal strings. The literals
  that name an infinity or a NaN and the hexadecimal ones are not modelled (\<open>ParseFloat\<close> gives
  \<open>None\<close>); no string the program writes has such a form.
\<close>

section \<open>Parsing\<close>

definition f64_max_bound :: rat where
  "f64_max_bound = pow2 1024"

definition span_digits :: "string \<Rightarrow> string \<times> string" where
  "span_digits s = (takeWhile is_digit s, dropWhile is_digit s)"

definition take_sign :: "string \<Rightarrow> bool \<times> string" where
  "take_sign s = (case s of
      [] \<Rightarrow> (False, [])
    | c # cs \<Rightarrow> if c = CHR ''-'' then (True, cs) else if c = CHR ''+'' then (False, cs) else (False, s))"

definition parse_exponent :: "string \<Rightarrow> int option" where
  "parse_exponent s = (case s of
      [] \<Rightarrow> Some 0
    | c # cs \<Rightarrow>
        if c = CHR ''e'' \<or> c = CHR ''E'' then
          (let (neg, ds) = take_sign cs in
           if ds \<noteq> [] \<and> list_all is_digit ds
           then Some ((if neg then -1 else 1) * int (digits_val ds)) else None)
        else None)"

definition decimal_value :: "string \<Rightarrow> string \<Rightarrow> int \<Rightarrow> rat" where
  "decimal_value ip fp e =
     of_nat (digits_val (ip @ fp)) * (if 0 \<le> e then 10 ^ nat e else 1 / 10 ^ nat (- e)) / 10 ^ length fp"

definition ParseFloat :: "string \<Rightarrow> f64 option" where
  "ParseFloat s =
     (let (neg, s1) = take_sign s;
          (ip, r1) = span_digits s1;
          (fp, r2) = (case r1 of c # r \<Rightarrow> if c = CHR ''.'' then span_digits r else ([], r1) | [] \<Rightarrow> ([], []))
      in if ip = [] \<and> fp = [] then None
         else case parse_exponent r2 of
           None \<Rightarrow> None
         | Some e \<Rightarrow>
             (let x = f64_round (decimal_value ip fp e) in
              if f64_max_bound \<le> x then None else Some (if neg then - x else x)))"

section \<open>Formatting\<close>

definition pad_left :: "nat \<Rightarrow> string \<Rightarrow> string" where
  "pad_left k s = replicate (k - length s) (CHR ''0'') @ s"

definition FormatFloat_f :: "nat \<Rightarrow> f64 \<Rightarrow> string" where
  "FormatFloat_f prec x =
     (let n = nat (round_half_even (\<bar>x\<bar> * 10 ^ prec))
      in (if x < 0 then ''-'' else '''') @ FormatUint (n div 10 ^ prec) @
         (if prec = 0 then '''' else ''.'' @ pad_left prec (FormatUint (n mod 10 ^ prec))))"

section \<open>Decimal digits\<close>

lemma digits_val_append: "digits_val (s @ t) = digits_val s * 10 ^ length t + digits_val t"
proof (induction t rule: rev_induct)
  case Nil
  then show ?case by simp
next
  case (snoc c t)
  have "digits_val (s @ t @ [c]) = digits_val (s @ t) * 10 + digit_val c"
    using digits_val_snoc [of "s @ t" c] by simp
  then show ?case using snoc by (simp add: algebra_simps)
qed

lemma digits_val_zeros [simp]: "digits_val (replicate k (CHR ''0'')) = 0"
proof (induction k)
  case 0
  then show ?case by simp
next
  case (Suc k)
  have "digits_val (replicate k (CHR ''0'') @ [CHR ''0'']) = 0"
    using Suc by (simp only: digits_val_snoc) (simp add: digit_val_def)
  then show ?case by (simp add: replicate_append_same)
qed

lemma digits_val_pad_left [simp]: "digits_val (pad_left k s) = digits_val s"
  by (simp add: pad_left_def digits_val_append)

lemma pad_left_digits [simp]: "list_all is_digit s \<Longrightarrow> list_all is_digit (pad_left k s)"
  by (auto simp: pad_left_def list_all_iff is_digit_def)

lemma length_FormatUint_le: "n < 10 ^ k \<Longrightarrow> 0 < k \<Longrightarrow> length (FormatUint n) \<le> k"
proof (induction k arbitrary: n)
  case 0
  then show ?case by simp
next
  case (Suc k)
  show ?case
  proof (cases "n < 10")
    case True
    then show ?thesis by (simp add: FormatUint.simps [of n])
  next
    case False
    with Suc.prems have "n div 10 < 10 ^ k" by (simp add: less_mult_imp_div_less mult.commute)
    moreover have "0 < k" using Suc.prems False by (cases k) auto
    ultimately show ?thesis using Suc.IH False by (simp add: FormatUint.simps [of n])
  qed
qed

lemma length_pad_left: "n < 10 ^ k \<Longrightarrow> 0 < k \<Longrightarrow> length (pad_left k (FormatUint n)) = k"
  using length_FormatUint_le [of n k] by (simp add: pad_left_def)

lemma digit_not_special [simp]:
  "\<not> is_digit (CHR ''.'')" "\<not> is_digit (CHR ''|'')" "\<not> is_digit (CHR ''-'')" "\<not> is_digit (CHR ''+'')"
  "\<not> is_digit (CHR ''%'')" "\<not> is_digit (CHR '':'')"
  by (simp_all add: is_digit_def)

section \<open>Reading back what was written\<close>

lemma span_digits_append:
  assumes "list_all is_digit d" and "\<And>c cs. r = c # cs \<Longrightarrow> \<not> is_digit c"
  shows "span_digits (d @ r) = (d, r)"
proof -
  have "takeWhile is_digit r = [] \<and> dropWhile is_digit r = r"
    using assms(2) by (cases r) auto
  moreover have "\<forall>c \<in> set d. is_digit c" using assms(1) by (simp add: list_all_iff)
  ultimately show ?thesis by (simp add: span_digits_def takeWhile_append2 dropWhile_append2)
qed

lemma take_sign_digits:
  "list_all is_digit d \<Longrightarrow> d \<noteq> [] \<Longrightarrow> take_sign (d @ r) = (False, d @ r)"
  by (cases d) (auto simp: take_sign_def)

lemma ParseFloat_decimal:
  assumes "list_all is_digit ip" "ip \<noteq> []" "list_all is_digit fp"
    and "f64_round (of_nat (digits_val (ip @ fp)) / 10 ^ length fp) < f64_max_bound"
  shows "ParseFloat (ip @ CHR ''.'' # fp) = Some (f64_round (of_nat (digits_val (ip @ fp)) / 10 ^ length fp))"
proof -
  have sp: "span_digits (ip @ CHR ''.'' # fp) = (ip, CHR ''.'' # fp)"
    using assms(1) by (rule span_digits_append) auto
  have sf: "span_digits fp = (fp, [])" using span_digits_append [of fp "[]"] assms(3) by simp
  show ?thesis
    using assms
    by (simp add: ParseFloat_def take_sign_digits sp sf parse_exponent_def decimal_value_def not_le)
qed

section \<open>Ratios in basis points\<close>

lemma round_half_even_near:
  assumes "\<bar>y - of_int n\<bar> < 1/2"
  shows "round_half_even y = n"
proof -
  have "\<bar>of_int (round_half_even y) - y\<bar> \<le> 1/2" by (rule round_half_even_error)
  with assms have "\<bar>of_int (round_half_even y) - (of_int n :: rat)\<bar> < 1" by linarith
  then show ?thesis by linarith
qed

text \<open>The \<^verbatim>\<open>float64\<close> nearest to \<open>bp / 10000\<close>.\<close>

definition bp_ratio :: "nat \<Rightarrow> f64" where
  "bp_ratio bp = f64_round (of_nat bp / 10000)"

lemma bp_ratio_error:
  assumes "bp \<le> 10000"
  shows "\<bar>bp_ratio bp - of_nat bp / 10000\<bar> \<le> 1 / 2 ^ 53"
proof (cases "bp = 0")
  case True
  then show ?thesis by (simp add: bp_ratio_def)
next
  case False
  let ?x = "of_nat bp / 10000 :: rat"
  have "pow2 (- 1022) \<le> pow2 (- 14)" by (rule pow2_mono) simp
  also have "\<dots> \<le> 1 / 10000" by (simp add: pow2_def)
  also have "\<dots> \<le> ?x" using False by (intro divide_right_mono) auto
  finally have "\<bar>f64_round ?x - ?x\<bar> \<le> \<bar>?x\<bar> / 2 ^ 53" by (intro f64_round_rel) simp
  also have "\<dots> \<le> 1 / 2 ^ 53" using assms by simp
  finally show ?thesis by (simp add: bp_ratio_def)
qed

lemma bp_ratio_bounds:
  assumes "bp \<le> 10000"
  shows "0 \<le> bp_ratio bp" and "bp_ratio bp \<le> 1 + 1 / 2 ^ 53"
proof -
  show "0 \<le> bp_ratio bp" by (simp add: bp_ratio_def f64_round_nonneg)
  have "(of_nat bp :: rat) / 10000 \<le> 1" using assms by simp
  then show "bp_ratio bp \<le> 1 + 1 / 2 ^ 53" using bp_ratio_error [OF assms] by linarith
qed

lemma bp_ratio_format:
  assumes "bp \<le> 10000"
  shows "FormatFloat_f 8 (bp_ratio bp) =
    FormatUint (bp div 10000) @ CHR ''.'' # pad_left 8 (FormatUint (bp mod 10000 * 10000))"
proof -
  have "bp_ratio bp * 10 ^ 8 - of_int (int bp * 10000) = (bp_ratio bp - of_nat bp / 10000) * 10 ^ 8"
    by (simp add: left_diff_distrib)
  then have "\<bar>bp_ratio bp * 10 ^ 8 - of_int (int bp * 10000)\<bar> = \<bar>bp_ratio bp - of_nat bp / 10000\<bar> * 10 ^ 8"
    by (simp only: abs_mult) simp
  also have "\<dots> \<le> 1 / 2 ^ 53 * 10 ^ 8" by (intro mult_right_mono bp_ratio_error assms) simp
  also have "\<dots> < 1/2" by simp
  finally have "round_half_even (bp_ratio bp * 10 ^ 8) = int bp * 10000"
    by (rule round_half_even_near)
  moreover have "\<not> bp_ratio bp < 0" using bp_ratio_bounds(1) [OF assms] by simp
  ultimately have "FormatFloat_f 8 (bp_ratio bp) =
    FormatUint (bp * 10000 div 10 ^ 8) @ CHR ''.'' # pad_left 8 (FormatUint (bp * 10000 mod 10 ^ 8))"
    by (simp add: FormatFloat_f_def nat_mult_distrib)
  moreover have "bp * 10000 div 10 ^ 8 = bp div 10000" "bp * 10000 mod 10 ^ 8 = bp mod 10000 * 10000"
    using mult_mod_right [of 10000 bp 10000] by (simp_all add: mult.commute)
  ultimately show ?thesis by simp
qed

lemma ParseFloat_bp_ratio:
  assumes "bp \<le> 10000"
  shows "ParseFloat (FormatFloat_f 8 (bp_ratio bp)) = Some (bp_ratio bp)"
proof -
  let ?fp = "pad_left 8 (FormatUint (bp mod 10000 * 10000))"
  have len: "length ?fp = 8" by (rule length_pad_left) auto
  have "digits_val (FormatUint (bp div 10000) @ ?fp) = bp div 10000 * 10 ^ 8 + bp mod 10000 * 10000"
    by (simp only: digits_val_append len) simp
  also have "\<dots> = (bp div 10000 * 10000 + bp mod 10000) * 10000" by (simp only: distrib_right) simp
  also have "\<dots> = bp * 10000" by (simp only: div_mult_mod_eq)
  finally have v: "of_nat (digits_val (FormatUint (bp div 10000) @ ?fp)) / 10 ^ length ?fp
      = (of_nat bp / 10000 :: rat)" using len by simp
  have "bp_ratio bp < f64_max_bound"
  proof -
    have "pow2 1 \<le> pow2 1024" by (rule pow2_mono) simp
    then have "2 \<le> f64_max_bound" by (simp add: f64_max_bound_def pow2_def [of 1])
    moreover have "bp_ratio bp < 2" using bp_ratio_bounds(2) [OF assms] by (rule order.strict_trans1) simp
    ultimately show ?thesis by linarith
  qed
  then have "f64_round (of_nat (digits_val (FormatUint (bp div 10000) @ ?fp)) / 10 ^ length ?fp) < f64_max_bound"
    by (simp only: v bp_ratio_def)
  then have "ParseFloat (FormatUint (bp div 10000) @ CHR ''.'' # ?fp) =
     Some (f64_round (of_nat (digits_val (FormatUint (bp div 10000) @ ?fp)) / 10 ^ length ?fp))"
    by (intro ParseFloat_decimal) auto
  then show ?thesis by (simp only: bp_ratio_format [OF assms] v bp_ratio_def [symmetric])
qed

end
