(* ===== verification/Config.thy ===== *)
theory Config
  imports Go_Strconv
begin

text \<open>
  \<^verbatim>\<open>conf/init.go\<close>: the reward configuration, its defaults, the loader with its validation, and the
  three height-dependent queries the reward flow makes. The configuration file itself is read by the
  viper library, which is not part of the repository: \<open>Load\<close> takes what viper's getters return as
  the record \<open>viper\<close>. The untyped values of the YAML document are \<open>cfg_value\<close>; the scalars other
  than strings are only ever used through \<^verbatim>\<open>fmt.Sprint\<close>, so \<open>CScalar\<close> carries that text.
\<close>

section \<open>Data\<close>

datatype cfg_value =
    CNil
  | CStr string
  | CScalar string
  | CStrs "string list"
  | CList "cfg_value list"
  | CMap "(string \<times> cfg_value) list"
  | CIfaceMap "(cfg_value \<times> cfg_value) list"

record RewardReleaseTier =
  tier_StartHeight :: u64
  tier_ReleasePercent :: f64

record IndexerAllowlistWindow =
  win_StartHeight :: u32
  win_EndHeight :: u32
  win_IndexerIDs :: "string list"
  win_indexerSet :: "string set"

record StakeRewardConfigInfo =
  RetryInterval :: u32
  LoopInterval :: u32
  BatchBlockCount :: u32
  SlowLagBlocks :: u32
  ProofWindow :: u32
  DelaySubmitTriggerBlocks :: u32
  DelaySubmitStage2StepBlocks :: u32
  DelaySubmitStage2StepPercent :: u64
  DelaySubmitStage3Blocks :: "u32 list"
  CommissionActivationBlocks :: u32
  Stage2StartHeight :: u32
  Stage3StartHeight :: u32
  EnableMempoolIndexing :: bool
  IndexStartHeight :: u32
  StartRewardHeight :: u32
  StateAPIBaseURL :: string
  StateAPIAuth :: string
  StateAPITimeout :: int
  RewardClaimSenderAddressKeys :: "string list"
  FixLegacyIndexerClaimRewards :: bool
  IndexerAllowlistWindows :: "IndexerAllowlistWindow list"
  RewardReleaseTiers :: "RewardReleaseTier list"

datatype cfg_error =
    ReadConfigFailed
  | EmptyValue
  | BadNumber
  | OutOfRange
  | MustBeList
  | MustBeObject
  | KeyNotString
  | MustContainSeven
  | MustBePositive
  | NotIncreasing
  | EndNotAfterStart
  | InvalidIndexerID

section \<open>Defaults\<close>

definition defaultDelaySubmitStage3Blocks :: "u32 list" where
  "defaultDelaySubmitStage3Blocks = [720, 840, 960, 1080, 1200, 1320, 1440]"

definition defaultRewardReleaseTiers :: "RewardReleaseTier list" where
  "defaultRewardReleaseTiers =
     [\<lparr>tier_StartHeight = 1764000, tier_ReleasePercent = 30\<rparr>,
      \<lparr>tier_StartHeight = 1784160, tier_ReleasePercent = 75/2\<rparr>,
      \<lparr>tier_StartHeight = 1804320, tier_ReleasePercent = 45\<rparr>,
      \<lparr>tier_StartHeight = 1824480, tier_ReleasePercent = 105/2\<rparr>,
      \<lparr>tier_StartHeight = 1844640, tier_ReleasePercent = 60\<rparr>,
      \<lparr>tier_StartHeight = 1864800, tier_ReleasePercent = 70\<rparr>,
      \<lparr>tier_StartHeight = 1884960, tier_ReleasePercent = 80\<rparr>,
      \<lparr>tier_StartHeight = 1905120, tier_ReleasePercent = 90\<rparr>,
      \<lparr>tier_StartHeight = 1925280, tier_ReleasePercent = 100\<rparr>]"

definition DefaultConfig :: StakeRewardConfigInfo where
  "DefaultConfig =
     \<lparr>RetryInterval = 0, LoopInterval = 0, BatchBlockCount = 500, SlowLagBlocks = 20160,
      ProofWindow = 20160, DelaySubmitTriggerBlocks = 120, DelaySubmitStage2StepBlocks = 100,
      DelaySubmitStage2StepPercent = 10, DelaySubmitStage3Blocks = defaultDelaySubmitStage3Blocks,
      CommissionActivationBlocks = 20160, Stage2StartHeight = 1824480, Stage3StartHeight = 1925280,
      EnableMempoolIndexing = False, IndexStartHeight = 1760000, StartRewardHeight = 1764000,
      StateAPIBaseURL = '''', StateAPIAuth = '''', StateAPITimeout = 5000000000,
      RewardClaimSenderAddressKeys = [], FixLegacyIndexerClaimRewards = True,
      IndexerAllowlistWindows = [], RewardReleaseTiers = defaultRewardReleaseTiers\<rparr>"

section \<open>Values of the document\<close>

text \<open>\<^verbatim>\<open>fmt.Sprint\<close> of a document value. A list or an object prints with brackets and no number
  has that form; the text itself is never used.\<close>

definition Sprint :: "cfg_value \<Rightarrow> string" where
  "Sprint v = (case v of
      CNil \<Rightarrow> ''<nil>''
    | CStr s \<Rightarrow> s
    | CScalar s \<Rightarrow> s
    | _ \<Rightarrow> ''[]'')"

definition parseUint64Value :: "cfg_value \<Rightarrow> cfg_error + u64" where
  "parseUint64Value v =
     (let s = TrimSpace (Sprint v) in
      if s = '''' \<or> EqualFold s ''<nil>'' then Inl EmptyValue
      else case ParseUint 64 s of None \<Rightarrow> Inl BadNumber | Some n \<Rightarrow> Inr (word_of_nat n))"

definition parseUint32Value :: "cfg_value \<Rightarrow> cfg_error + u32" where
  "parseUint32Value v =
     (case parseUint64Value v of
        Inl e \<Rightarrow> Inl e
      | Inr n \<Rightarrow> if n > 0xFFFFFFFF then Inl OutOfRange else Inr (ucast n))"

definition parsePercentValue :: "cfg_value \<Rightarrow> cfg_error + f64" where
  "parsePercentValue v =
     (let s = TrimSpace (Sprint v) in
      if s = '''' \<or> EqualFold s ''<nil>'' then Inl EmptyValue
      else case ParseFloat s of
        None \<Rightarrow> Inl BadNumber
      | Some n \<Rightarrow> if n < 0 \<or> n > 100 then Inl OutOfRange else Inr n)"

definition interfaceStringSlice :: "cfg_value \<Rightarrow> string list" where
  "interfaceStringSlice raw = (case raw of
      CStrs ss \<Rightarrow> ss
    | CList vs \<Rightarrow> map Sprint vs
    | _ \<Rightarrow> [])"

definition stringSet :: "string list \<Rightarrow> string set" where
  "stringSet values = set values"

fun normalize_loop :: "string list \<Rightarrow> string set \<Rightarrow> string list" where
  "normalize_loop [] seen = []"
| "normalize_loop (v # vs) seen =
     (let value = TrimSpace v in
      if value = '''' then normalize_loop vs seen
      else if value \<in> seen then normalize_loop vs seen
      else value # normalize_loop vs (insert value seen))"

definition normalizeStringSlice :: "string list \<Rightarrow> string list" where
  "normalizeStringSlice values = normalize_loop values {}"

fun string_keys :: "(cfg_value \<times> cfg_value) list \<Rightarrow> cfg_error + (string \<times> cfg_value) list" where
  "string_keys [] = Inr []"
| "string_keys ((k, v) # kvs) =
     (case k of
        CStr key \<Rightarrow> (case string_keys kvs of Inl e \<Rightarrow> Inl e | Inr m \<Rightarrow> Inr ((key, v) # m))
      | _ \<Rightarrow> Inl KeyNotString)"

definition mapFromConfigObject :: "cfg_value \<Rightarrow> cfg_error + (string \<times> cfg_value) list" where
  "mapFromConfigObject item = (case item of
      CMap m \<Rightarrow> Inr m
    | CIfaceMap kvs \<Rightarrow> string_keys kvs
    | _ \<Rightarrow> Inl MustBeObject)"

text \<open>\<^verbatim>\<open>m[key]\<close> of a document object: \<^verbatim>\<open>nil\<close> when the key is missing.\<close>

definition obj_get :: "(string \<times> cfg_value) list \<Rightarrow> string \<Rightarrow> cfg_value" where
  "obj_get m k = (case map_of m k of None \<Rightarrow> CNil | Some v \<Rightarrow> v)"

section \<open>Identifiers of indexers (\<^verbatim>\<open>protocolparser.IsIndexerIDHeightTxIdx\<close>)\<close>

definition BuildIndexerID :: "u32 \<Rightarrow> u32 \<Rightarrow> string" where
  "BuildIndexerID height txIdx = FormatUint (unat height) @ '':'' @ FormatUint (unat txIdx)"

definition IsIndexerIDHeightTxIdx :: "string \<Rightarrow> bool" where
  "IsIndexerIDHeightTxIdx raw =
     (case SplitN2 (CHR '':'') (TrimSpace raw) of
        [h, t] \<Rightarrow> ParseUint 32 h \<noteq> None \<and> ParseUint 32 t \<noteq> None
      | _ \<Rightarrow> False)"

section \<open>Structured settings\<close>

fun stage3_loop :: "cfg_value list \<Rightarrow> u32 list \<Rightarrow> cfg_error + u32 list" where
  "stage3_loop [] blocks = Inr blocks"
| "stage3_loop (item # items) blocks =
     (case parseUint32Value item of
        Inl e \<Rightarrow> Inl e
      | Inr block \<Rightarrow>
          if block = 0 then Inl MustBePositive
          else if blocks \<noteq> [] \<and> block \<le> last blocks then Inl NotIncreasing
          else stage3_loop items (blocks @ [block]))"

definition parseDelaySubmitStage3Blocks :: "cfg_value \<Rightarrow> cfg_error + u32 list" where
  "parseDelaySubmitStage3Blocks raw = (case raw of
      CList items \<Rightarrow>
        if length items \<noteq> 7 then Inl MustContainSeven else stage3_loop items []
    | _ \<Rightarrow> Inl MustBeList)"

fun windows_loop :: "cfg_value list \<Rightarrow> cfg_error + IndexerAllowlistWindow list" where
  "windows_loop [] = Inr []"
| "windows_loop (item # items) =
     (case mapFromConfigObject item of
        Inl e \<Rightarrow> Inl e
      | Inr m \<Rightarrow>
        (case parseUint32Value (obj_get m ''start_height'') of
           Inl e \<Rightarrow> Inl e
         | Inr startHeight \<Rightarrow>
           (case parseUint32Value (obj_get m ''end_height'') of
              Inl e \<Rightarrow> Inl e
            | Inr endHeight \<Rightarrow>
              if endHeight \<le> startHeight then Inl EndNotAfterStart
              else
                let indexerIDs = normalizeStringSlice (interfaceStringSlice (obj_get m ''indexer_ids'')) in
                if \<not> list_all IsIndexerIDHeightTxIdx indexerIDs then Inl InvalidIndexerID
                else case windows_loop items of
                  Inl e \<Rightarrow> Inl e
                | Inr windows \<Rightarrow>
                    Inr (\<lparr>win_StartHeight = startHeight, win_EndHeight = endHeight,
                          win_IndexerIDs = indexerIDs, win_indexerSet = stringSet indexerIDs\<rparr> # windows))))"

definition parseIndexerAllowlistWindows :: "cfg_value \<Rightarrow> cfg_error + IndexerAllowlistWindow list" where
  "parseIndexerAllowlistWindows raw = (case raw of
      CList items \<Rightarrow> windows_loop items
    | _ \<Rightarrow> Inl MustBeList)"

fun tiers_loop :: "cfg_value list \<Rightarrow> cfg_error + RewardReleaseTier list" where
  "tiers_loop [] = Inr []"
| "tiers_loop (item # items) =
     (case mapFromConfigObject item of
        Inl e \<Rightarrow> Inl e
      | Inr m \<Rightarrow>
        (case parseUint64Value (obj_get m ''start_height'') of
           Inl e \<Rightarrow> Inl e
         | Inr startHeight \<Rightarrow>
           (case parsePercentValue (obj_get m ''release_percent'') of
              Inl e \<Rightarrow> Inl e
            | Inr releasePercent \<Rightarrow>
              (case tiers_loop items of
                 Inl e \<Rightarrow> Inl e
               | Inr tiers \<Rightarrow>
                   Inr (\<lparr>tier_StartHeight = startHeight, tier_ReleasePercent = releasePercent\<rparr> # tiers)))))"

definition parseRewardReleaseTiers :: "cfg_value \<Rightarrow> cfg_error + RewardReleaseTier list" where
  "parseRewardReleaseTiers raw = (case raw of
      CList items \<Rightarrow> tiers_loop items
    | _ \<Rightarrow> Inl MustBeList)"

section \<open>Loading\<close>

text \<open>What the viper library returns for the document.\<close>

record viper =
  vp_ReadInConfig :: bool
  vp_IsSet :: "string \<Rightarrow> bool"
  vp_GetUint32 :: "string \<Rightarrow> u32"
  vp_GetUint64 :: "string \<Rightarrow> u64"
  vp_GetBool :: "string \<Rightarrow> bool"
  vp_GetString :: "string \<Rightarrow> string"
  vp_GetStringSlice :: "string \<Rightarrow> string list"
  vp_GetDuration :: "string \<Rightarrow> int"
  vp_Get :: "string \<Rightarrow> cfg_value"

definition positive_or :: "'a::len word \<Rightarrow> 'a word \<Rightarrow> 'a word" where
  "positive_or v d = (if v > 0 then v else d)"

definition Load_scalars :: "viper \<Rightarrow> StakeRewardConfigInfo \<Rightarrow> StakeRewardConfigInfo" where
  "Load_scalars vp cfg = cfg
     \<lparr>RetryInterval := positive_or (vp_GetUint32 vp ''retry_interval'') (RetryInterval cfg),
      LoopInterval := positive_or (vp_GetUint32 vp ''loop_interval'') (LoopInterval cfg),
      BatchBlockCount := positive_or (vp_GetUint32 vp ''batch_block_count'') (BatchBlockCount cfg),
      SlowLagBlocks := positive_or (vp_GetUint32 vp ''slow_lag_blocks'') (SlowLagBlocks cfg),
      ProofWindow := positive_or (vp_GetUint32 vp ''proof_window'') (ProofWindow cfg),
      DelaySubmitTriggerBlocks :=
        positive_or (vp_GetUint32 vp ''delay_submit_trigger_blocks'') (DelaySubmitTriggerBlocks cfg),
      DelaySubmitStage2StepBlocks :=
        positive_or (vp_GetUint32 vp ''delay_submit_stage2_step_blocks'') (DelaySubmitStage2StepBlocks cfg),
      DelaySubmitStage2StepPercent :=
        positive_or (vp_GetUint64 vp ''delay_submit_stage2_step_percent'') (DelaySubmitStage2StepPercent cfg)\<rparr>"

definition Load_heights :: "viper \<Rightarrow> StakeRewardConfigInfo \<Rightarrow> StakeRewardConfigInfo" where
  "Load_heights vp cfg = cfg
     \<lparr>CommissionActivationBlocks :=
        positive_or (vp_GetUint32 vp ''commission_activation_blocks'') (CommissionActivationBlocks cfg),
      Stage2StartHeight := positive_or (vp_GetUint32 vp ''stage2_start_height'') (Stage2StartHeight cfg),
      Stage3StartHeight := positive_or (vp_GetUint32 vp ''stage3_start_height'') (Stage3StartHeight cfg),
      EnableMempoolIndexing := vp_GetBool vp ''enable_mempool_indexing'',
      IndexStartHeight :=
        (if vp_IsSet vp ''index_start_height'' then vp_GetUint32 vp ''index_start_height'' else IndexStartHeight cfg),
      StartRewardHeight := positive_or (vp_GetUint32 vp ''start_reward_height'') (StartRewardHeight cfg),
      StateAPIBaseURL := TrimSpace (vp_GetString vp ''state_api_base_url''),
      StateAPIAuth := TrimSpace (vp_GetString vp ''state_api_auth''),
      StateAPITimeout :=
        (if vp_GetDuration vp ''state_api_timeout'' > 0 then vp_GetDuration vp ''state_api_timeout''
         else StateAPITimeout cfg),
      RewardClaimSenderAddressKeys :=
        normalizeStringSlice (vp_GetStringSlice vp ''reward_claim_sender_address_keys''),
      FixLegacyIndexerClaimRewards :=
        (if vp_IsSet vp ''fix_legacy_indexer_claim_rewards'' then vp_GetBool vp ''fix_legacy_indexer_claim_rewards''
         else FixLegacyIndexerClaimRewards cfg)\<rparr>"

definition Load :: "viper \<Rightarrow> cfg_error + StakeRewardConfigInfo" where
  "Load vp =
     (if \<not> vp_ReadInConfig vp then Inl ReadConfigFailed
      else let cfg = Load_scalars vp DefaultConfig in
      case (if vp_IsSet vp ''delay_submit_stage3_blocks''
            then parseDelaySubmitStage3Blocks (vp_Get vp ''delay_submit_stage3_blocks'')
            else Inr (DelaySubmitStage3Blocks cfg)) of
        Inl e \<Rightarrow> Inl e
      | Inr blocks \<Rightarrow>
      let cfg = Load_heights vp (cfg\<lparr>DelaySubmitStage3Blocks := blocks\<rparr>) in
      case (if vp_IsSet vp ''indexer_allowlist_windows''
            then parseIndexerAllowlistWindows (vp_Get vp ''indexer_allowlist_windows'')
            else Inr (IndexerAllowlistWindows cfg)) of
        Inl e \<Rightarrow> Inl e
      | Inr windows \<Rightarrow>
      case (if vp_IsSet vp ''reward_release_tiers''
            then parseRewardReleaseTiers (vp_Get vp ''reward_release_tiers'')
            else Inr (RewardReleaseTiers cfg)) of
        Inl e \<Rightarrow> Inl e
      | Inr tiers \<Rightarrow>
          Inr (cfg\<lparr>IndexerAllowlistWindows := windows, RewardReleaseTiers := tiers\<rparr>))"

section \<open>Queries\<close>

definition window_matches :: "u32 \<Rightarrow> IndexerAllowlistWindow \<Rightarrow> bool" where
  "window_matches height w \<longleftrightarrow> \<not> (height < win_StartHeight w \<or> height \<ge> win_EndHeight w)"

fun allowlist_loop :: "IndexerAllowlistWindow list \<Rightarrow> string \<Rightarrow> u32 \<Rightarrow> bool \<Rightarrow> bool" where
  "allowlist_loop [] indexerID height matchedWindow = (\<not> matchedWindow)"
| "allowlist_loop (w # ws) indexerID height matchedWindow =
     (if \<not> window_matches height w then allowlist_loop ws indexerID height matchedWindow
      else if indexerID \<in> win_indexerSet w then True
      else if indexerID \<in> set (win_IndexerIDs w) then True
      else allowlist_loop ws indexerID height True)"

definition IsIndexerRewardAllowedAtHeight :: "StakeRewardConfigInfo \<Rightarrow> string \<Rightarrow> u32 \<Rightarrow> bool" where
  "IsIndexerRewardAllowedAtHeight c raw height =
     (let indexerID = TrimSpace raw in
      if indexerID = '''' then False
      else allowlist_loop (IndexerAllowlistWindows c) indexerID height False)"

fun release_loop :: "RewardReleaseTier list \<Rightarrow> u32 \<Rightarrow> f64 \<Rightarrow> f64" where
  "release_loop [] height release = release"
| "release_loop (tier # tiers) height release =
     (if (ucast height :: u64) < tier_StartHeight tier then release
      else release_loop tiers height (tier_ReleasePercent tier))"

definition RewardReleasePercentByHeight :: "StakeRewardConfigInfo \<Rightarrow> u32 \<Rightarrow> f64" where
  "RewardReleasePercentByHeight c height = release_loop (RewardReleaseTiers c) height 0"

text \<open>\<open>None\<close> where Go panics: an empty stage-3 list, or a zero percent step as the divisor.\<close>

definition RewardProofWindowByHeight :: "StakeRewardConfigInfo \<Rightarrow> u32 \<Rightarrow> u32 option" where
  "RewardProofWindowByHeight c height =
     (if Stage3StartHeight c > 0 \<and> height \<ge> Stage3StartHeight c then
        (if DelaySubmitStage3Blocks c = [] then None else Some (last (DelaySubmitStage3Blocks c)))
      else if Stage2StartHeight c > 0 \<and> height \<ge> Stage2StartHeight c then
        (let p = DelaySubmitStage2StepPercent c in
         if p = 0 then None
         else Some (DelaySubmitStage2StepBlocks c * ucast ((100 + p - 1) div p)))
      else Some (ProofWindow c))"

section \<open>What the loader guarantees\<close>

definition increasing_blocks :: "u32 list \<Rightarrow> bool" where
  "increasing_blocks bs \<longleftrightarrow> sorted_wrt (<) bs \<and> 0 \<notin> set bs"

definition window_wf :: "IndexerAllowlistWindow \<Rightarrow> bool" where
  "window_wf w \<longleftrightarrow> win_StartHeight w < win_EndHeight w \<and> win_indexerSet w = set (win_IndexerIDs w) \<and>
     list_all IsIndexerIDHeightTxIdx (win_IndexerIDs w) \<and> distinct (win_IndexerIDs w) \<and>
     (\<forall>i \<in> set (win_IndexerIDs w). trimmed i)"

definition tier_wf :: "RewardReleaseTier \<Rightarrow> bool" where
  "tier_wf t \<longleftrightarrow> 0 \<le> tier_ReleasePercent t \<and> tier_ReleasePercent t \<le> 100"

definition cfg_wf :: "StakeRewardConfigInfo \<Rightarrow> bool" where
  "cfg_wf c \<longleftrightarrow>
     length (DelaySubmitStage3Blocks c) = 7 \<and> increasing_blocks (DelaySubmitStage3Blocks c) \<and>
     0 < DelaySubmitStage2StepBlocks c \<and> 0 < DelaySubmitStage2StepPercent c \<and>
     0 < Stage2StartHeight c \<and> 0 < Stage3StartHeight c \<and> 0 < ProofWindow c \<and>
     list_all window_wf (IndexerAllowlistWindows c) \<and> list_all tier_wf (RewardReleaseTiers c)"

lemma normalize_loop_props:
  "distinct (normalize_loop vs seen) \<and> set (normalize_loop vs seen) \<inter> seen = {} \<and>
   (\<forall>v \<in> set (normalize_loop vs seen). v \<noteq> '''' \<and> trimmed v)"
proof (induction vs seen rule: normalize_loop.induct)
  case (1 seen)
  then show ?case by simp
next
  case (2 v vs seen)
  note IH = 2(1) [OF refl] 2(2) [OF refl] 2(3) [OF refl]
  consider "TrimSpace v = ''''" | "TrimSpace v \<noteq> ''''" "TrimSpace v \<in> seen"
    | "TrimSpace v \<noteq> ''''" "TrimSpace v \<notin> seen" by blast
  then show ?case
  proof cases
    case 1
    with IH(1) show ?thesis by (simp add: Let_def)
  next
    case 2
    with IH(2) show ?thesis by (simp add: Let_def)
  next
    case 3
    with IH(3) show ?thesis by (simp add: Let_def disjoint_iff) blast
  qed
qed

lemma stage3_loop_increasing:
  "stage3_loop items bs = Inr r \<Longrightarrow> increasing_blocks bs \<Longrightarrow>
     increasing_blocks r \<and> length r = length bs + length items"
proof (induction items bs rule: stage3_loop.induct)
  case (1 blocks)
  then show ?case by simp
next
  case (2 item items blocks)
  from "2.prems"(1) obtain block where b: "parseUint32Value item = Inr block"
    "block \<noteq> 0" "blocks = [] \<or> last blocks < block" "stage3_loop items (blocks @ [block]) = Inr r"
    by (auto simp: not_le split: sum.splits if_splits)
  have "increasing_blocks (blocks @ [block])"
  proof -
    have "x < block" if "x \<in> set blocks" for x
    proof -
      have "x \<le> last blocks"
        using that "2.prems"(2)
        by (cases blocks rule: rev_cases) (auto simp: increasing_blocks_def sorted_wrt_append)
      with b(3) that show ?thesis by auto
    qed
    with b(2) "2.prems"(2) show ?thesis by (auto simp: increasing_blocks_def sorted_wrt_append)
  qed
  with "2.IH" [OF b(1)] b show ?case by (auto simp: not_le)
qed

lemma parseDelaySubmitStage3Blocks_wf:
  "parseDelaySubmitStage3Blocks raw = Inr r \<Longrightarrow> increasing_blocks r \<and> length r = 7"
  by (auto simp: parseDelaySubmitStage3Blocks_def increasing_blocks_def split: cfg_value.splits if_splits
      dest!: stage3_loop_increasing)

lemma windows_loop_wf: "windows_loop items = Inr ws \<Longrightarrow> list_all window_wf ws"
proof (induction items arbitrary: ws)
  case Nil
  then show ?case by simp
next
  case (Cons item items)
  have "distinct (normalizeStringSlice xs) \<and> (\<forall>i \<in> set (normalizeStringSlice xs). trimmed i)" for xs
    using normalize_loop_props [of xs "{}"] by (auto simp: normalizeStringSlice_def)
  then show ?case
    using Cons by (auto simp: Let_def window_wf_def stringSet_def split: sum.splits if_splits)
qed

lemma parsePercentValue_bounds: "parsePercentValue v = Inr p \<Longrightarrow> 0 \<le> p \<and> p \<le> 100"
  by (auto simp: parsePercentValue_def Let_def split: if_splits option.splits)

lemma tiers_loop_wf: "tiers_loop items = Inr ts \<Longrightarrow> list_all tier_wf ts"
  by (induction items arbitrary: ts)
    (auto simp: tier_wf_def dest: parsePercentValue_bounds split: sum.splits)

lemma DefaultConfig_wf: "cfg_wf DefaultConfig"
  by (simp add: cfg_wf_def DefaultConfig_def defaultDelaySubmitStage3Blocks_def
      defaultRewardReleaseTiers_def increasing_blocks_def tier_wf_def)

lemma positive_or_pos: "0 < d \<Longrightarrow> 0 < positive_or v d"
  by (simp add: positive_or_def)

lemma Load_scalars_wf: "cfg_wf cfg \<Longrightarrow> cfg_wf (Load_scalars vp cfg)"
  by (simp add: cfg_wf_def Load_scalars_def positive_or_pos)

lemma Load_heights_wf: "cfg_wf cfg \<Longrightarrow> cfg_wf (Load_heights vp cfg)"
  by (simp add: cfg_wf_def Load_heights_def positive_or_pos)

lemma cfg_wf_updates:
  "cfg_wf cfg \<Longrightarrow> increasing_blocks bs \<Longrightarrow> length bs = 7 \<Longrightarrow> cfg_wf (cfg\<lparr>DelaySubmitStage3Blocks := bs\<rparr>)"
  "cfg_wf cfg \<Longrightarrow> list_all window_wf ws \<Longrightarrow> list_all tier_wf ts \<Longrightarrow>
     cfg_wf (cfg\<lparr>IndexerAllowlistWindows := ws, RewardReleaseTiers := ts\<rparr>)"
  by (simp_all add: cfg_wf_def)

lemma cfg_wf_D:
  assumes "cfg_wf cfg"
  shows "increasing_blocks (DelaySubmitStage3Blocks cfg)" "length (DelaySubmitStage3Blocks cfg) = 7"
    "list_all window_wf (IndexerAllowlistWindows cfg)" "list_all tier_wf (RewardReleaseTiers cfg)"
  using assms by (simp_all add: cfg_wf_def)

lemma Load_cases:
  assumes "Load vp = Inr cfg"
  obtains blocks ws ts where
    "cfg = (Load_heights vp ((Load_scalars vp DefaultConfig)\<lparr>DelaySubmitStage3Blocks := blocks\<rparr>))
       \<lparr>IndexerAllowlistWindows := ws, RewardReleaseTiers := ts\<rparr>"
    "blocks = DelaySubmitStage3Blocks (Load_scalars vp DefaultConfig) \<or>
       parseDelaySubmitStage3Blocks (vp_Get vp ''delay_submit_stage3_blocks'') = Inr blocks"
    "ws = IndexerAllowlistWindows DefaultConfig \<or>
       parseIndexerAllowlistWindows (vp_Get vp ''indexer_allowlist_windows'') = Inr ws"
    "ts = RewardReleaseTiers DefaultConfig \<or>
       parseRewardReleaseTiers (vp_Get vp ''reward_release_tiers'') = Inr ts"
proof -
  let ?c0 = "Load_scalars vp DefaultConfig"
  have c1: "IndexerAllowlistWindows (Load_heights vp (?c0\<lparr>DelaySubmitStage3Blocks := bs\<rparr>)) =
      IndexerAllowlistWindows DefaultConfig"
    "RewardReleaseTiers (Load_heights vp (?c0\<lparr>DelaySubmitStage3Blocks := bs\<rparr>)) = RewardReleaseTiers DefaultConfig"
    for bs by (simp_all add: Load_heights_def Load_scalars_def)
  from assms obtain blocks ws ts where
    e: "(Load_heights vp (?c0\<lparr>DelaySubmitStage3Blocks := blocks\<rparr>))
       \<lparr>IndexerAllowlistWindows := ws, RewardReleaseTiers := ts\<rparr> = cfg"
    and b: "(if vp_IsSet vp ''delay_submit_stage3_blocks''
            then parseDelaySubmitStage3Blocks (vp_Get vp ''delay_submit_stage3_blocks'')
            else Inr (DelaySubmitStage3Blocks ?c0)) = Inr blocks"
    and w: "(if vp_IsSet vp ''indexer_allowlist_windows''
            then parseIndexerAllowlistWindows (vp_Get vp ''indexer_allowlist_windows'')
            else Inr (IndexerAllowlistWindows DefaultConfig)) = Inr ws"
    and t: "(if vp_IsSet vp ''reward_release_tiers''
            then parseRewardReleaseTiers (vp_Get vp ''reward_release_tiers'')
            else Inr (RewardReleaseTiers DefaultConfig)) = Inr ts"
  proof -
    have r: "vp_ReadInConfig vp" using assms by (simp add: Load_def split: if_splits)
    note l = assms [unfolded Load_def Let_def c1, simplified r not_True_eq_False if_False]
    show thesis
      using l by (elim sum_case_Inr_E) (drule sum.inject(2) [THEN iffD1], rule that; assumption)
  qed
  show thesis by (rule that [OF e [symmetric]]) (use b w t in \<open>auto split: if_splits\<close>)
qed

text \<open>C31. Whatever the configuration file holds, a configuration that \<open>Load\<close> accepts is well formed: seven
  strictly increasing positive stage-3 delays, positive penalty steps, positive stage heights, allowlist windows
  that end after they start and list only well-formed, distinct, trimmed indexer ids, and release percentages
  in \<open>[0, 100]\<close>.\<close>

theorem Load_config_wf:
  assumes "Load vp = Inr cfg"
  shows "cfg_wf cfg"
  using assms
proof (cases rule: Load_cases)
  case (1 blocks ws ts)
  note c0 = Load_scalars_wf [OF DefaultConfig_wf, of vp]
  have "increasing_blocks blocks" "length blocks = 7"
    using 1(2) cfg_wf_D [OF c0] parseDelaySubmitStage3Blocks_wf by blast+
  moreover have "list_all window_wf ws"
    using 1(3) cfg_wf_D(3) [OF DefaultConfig_wf] windows_loop_wf
    by (auto simp: parseIndexerAllowlistWindows_def split: cfg_value.splits)
  moreover have "list_all tier_wf ts"
    using 1(4) cfg_wf_D(4) [OF DefaultConfig_wf] tiers_loop_wf
    by (auto simp: parseRewardReleaseTiers_def split: cfg_value.splits)
  ultimately show ?thesis unfolding 1(1) by (intro cfg_wf_updates Load_heights_wf c0)
qed

definition sample_viper :: viper where
  "sample_viper =
     \<lparr>vp_ReadInConfig = True, vp_IsSet = (\<lambda>k. k = ''indexer_allowlist_windows''),
      vp_GetUint32 = (\<lambda>_. 0), vp_GetUint64 = (\<lambda>_. 0), vp_GetBool = (\<lambda>_. False),
      vp_GetString = (\<lambda>_. ''''), vp_GetStringSlice = (\<lambda>_. []), vp_GetDuration = (\<lambda>_. 0),
      vp_Get = (\<lambda>_. CList [CMap [(''start_height'', CScalar ''1764000''), (''end_height'', CScalar ''1844640''),
                                  (''indexer_ids'', CList [CStr ''1761438:1''])]])\<rparr>"

lemma Load_windows:
  "vp_ReadInConfig vp \<Longrightarrow> vp_IsSet vp ''indexer_allowlist_windows'' \<Longrightarrow>
   \<not> vp_IsSet vp ''delay_submit_stage3_blocks'' \<Longrightarrow> \<not> vp_IsSet vp ''reward_release_tiers'' \<Longrightarrow>
   parseIndexerAllowlistWindows (vp_Get vp ''indexer_allowlist_windows'') = Inr ws \<Longrightarrow>
   map win_IndexerIDs ws = ids \<Longrightarrow>
   \<exists>cfg. Load vp = Inr cfg \<and> map win_IndexerIDs (IndexerAllowlistWindows cfg) = ids"
  by (simp add: Load_def)

theorem Load_config_wf_witness:
  "\<exists>cfg. Load sample_viper = Inr cfg \<and> cfg_wf cfg \<and> map win_IndexerIDs (IndexerAllowlistWindows cfg) = [[''1761438:1'']]"
proof -
  have p: "parseUint32Value (CScalar ''1764000'') = Inr 1764000" "parseUint32Value (CScalar ''1844640'') = Inr 1844640"
    "normalizeStringSlice [''1761438:1''] = [''1761438:1'']" "IsIndexerIDHeightTxIdx ''1761438:1''"
    by code_simp+
  then have "\<exists>ws. parseIndexerAllowlistWindows (vp_Get sample_viper ''indexer_allowlist_windows'') = Inr ws \<and>
      map win_IndexerIDs ws = [[''1761438:1'']]"
    by (simp add: mapFromConfigObject_def obj_get_def interfaceStringSlice_def Sprint_def Let_def
        parseIndexerAllowlistWindows_def sample_viper_def)
  then obtain ws where w: "parseIndexerAllowlistWindows (vp_Get sample_viper ''indexer_allowlist_windows'') = Inr ws"
    "map win_IndexerIDs ws = [[''1761438:1'']]"
    by (elim exE conjE)
  have v: "vp_ReadInConfig sample_viper" "vp_IsSet sample_viper ''indexer_allowlist_windows''"
    "\<not> vp_IsSet sample_viper ''delay_submit_stage3_blocks''" "\<not> vp_IsSet sample_viper ''reward_release_tiers''"
    by (simp_all add: sample_viper_def)
  obtain cfg where "Load sample_viper = Inr cfg" "map win_IndexerIDs (IndexerAllowlistWindows cfg) = [[''1761438:1'']]"
    using Load_windows [OF v w] by (elim exE conjE)
  with Load_config_wf [of sample_viper cfg] show ?thesis by (intro exI [of _ cfg] conjI)
qed

section \<open>What the queries compute\<close>

lemma allowlist_loop_iff:
  "allowlist_loop ws i h matched \<longleftrightarrow>
     (\<exists>w \<in> set ws. window_matches h w \<and> i \<in> win_indexerSet w \<union> set (win_IndexerIDs w)) \<or>
     \<not> matched \<and> (\<forall>w \<in> set ws. \<not> window_matches h w)"
  by (induction ws i h matched rule: allowlist_loop.induct) auto

text \<open>Tiers in increasing order of start height; the loader does not enforce it.\<close>

definition tiers_sorted :: "RewardReleaseTier list \<Rightarrow> bool" where
  "tiers_sorted ts \<longleftrightarrow> sorted_wrt (\<lambda>a b. tier_StartHeight a \<le> tier_StartHeight b) ts"

definition reached_tiers :: "u32 \<Rightarrow> RewardReleaseTier list \<Rightarrow> RewardReleaseTier list" where
  "reached_tiers height ts = filter (\<lambda>t. tier_StartHeight t \<le> ucast height) ts"

lemma release_loop_sorted:
  "tiers_sorted ts \<Longrightarrow>
     release_loop ts h r = (case reached_tiers h ts of [] \<Rightarrow> r | _ \<Rightarrow> tier_ReleasePercent (last (reached_tiers h ts)))"
proof (induction ts h r rule: release_loop.induct)
  case (1 h r)
  then show ?case by (simp add: reached_tiers_def)
next
  case (2 tier tiers h r)
  show ?case
  proof (cases "(ucast h :: u64) < tier_StartHeight tier")
    case True
    have "\<not> tier_StartHeight t \<le> ucast h" if "t \<in> set (tier # tiers)" for t
      using that "2.prems" True by (auto simp: tiers_sorted_def)
    then have "reached_tiers h (tier # tiers) = []"
      unfolding reached_tiers_def by (simp add: filter_empty_conv)
    with True show ?thesis by simp
  next
    case False
    then have r: "reached_tiers h (tier # tiers) = tier # reached_tiers h tiers"
      by (simp add: reached_tiers_def not_less)
    have "tiers_sorted tiers" using "2.prems" by (simp add: tiers_sorted_def)
    with 2 False r show ?thesis by (auto split: list.splits)
  qed
qed

lemma release_loop_bounds:
  "list_all tier_wf ts \<Longrightarrow> 0 \<le> r \<and> r \<le> 100 \<Longrightarrow> 0 \<le> release_loop ts h r \<and> release_loop ts h r \<le> 100"
  by (induction ts h r rule: release_loop.induct) (auto simp: tier_wf_def)


text \<open>For a well-formed configuration an indexer may earn at a height exactly when its trimmed id is not empty and
  either some allowlist window covering the height lists it, or no window covers the height at all: once a
  window covers a height, every indexer outside the covering windows is excluded.\<close>

theorem IsIndexerRewardAllowedAtHeight_iff:
  assumes "cfg_wf c"
  shows "IsIndexerRewardAllowedAtHeight c raw h \<longleftrightarrow>
    TrimSpace raw \<noteq> '''' \<and>
    (let ws = {w \<in> set (IndexerAllowlistWindows c). win_StartHeight w \<le> h \<and> h < win_EndHeight w} in
     ws = {} \<or> (\<exists>w \<in> ws. TrimSpace raw \<in> set (win_IndexerIDs w)))"
proof -
  have "win_indexerSet w = set (win_IndexerIDs w)" if "w \<in> set (IndexerAllowlistWindows c)" for w
    using that assms by (simp add: cfg_wf_def list_all_iff window_wf_def)
  then show ?thesis
    by (auto simp: IsIndexerRewardAllowedAtHeight_def allowlist_loop_iff window_matches_def Let_def not_less not_le)
qed

theorem IsIndexerRewardAllowedAtHeight_iff_witness:
  "cfg_wf DefaultConfig \<and> IsIndexerRewardAllowedAtHeight DefaultConfig ''1761438:1'' 1764000"
proof -
  have "TrimSpace ''1761438:1'' \<noteq> ''''" by code_simp
  then show ?thesis
    using IsIndexerRewardAllowedAtHeight_iff [OF DefaultConfig_wf, of "''1761438:1''" 1764000] DefaultConfig_wf
    by (simp add: DefaultConfig_def)
qed

text \<open>With release tiers in increasing order of start height (as the defaults are), the release percentage of a
  height is that of the last tier whose start height has been reached, and 0 before the first tier.\<close>

theorem RewardReleasePercentByHeight_sorted:
  assumes "tiers_sorted (RewardReleaseTiers c)"
  shows "RewardReleasePercentByHeight c h =
    (case reached_tiers h (RewardReleaseTiers c) of [] \<Rightarrow> 0
     | _ \<Rightarrow> tier_ReleasePercent (last (reached_tiers h (RewardReleaseTiers c))))"
  unfolding RewardReleasePercentByHeight_def by (rule release_loop_sorted [OF assms])

theorem RewardReleasePercentByHeight_sorted_witness:
  "tiers_sorted (RewardReleaseTiers DefaultConfig) \<and> RewardReleasePercentByHeight DefaultConfig 1804321 = 45"
proof -
  have s: "tiers_sorted (RewardReleaseTiers DefaultConfig)"
    by (simp add: tiers_sorted_def DefaultConfig_def defaultRewardReleaseTiers_def)
  with RewardReleasePercentByHeight_sorted [OF s, of 1804321] show ?thesis
    by (simp add: DefaultConfig_def defaultRewardReleaseTiers_def reached_tiers_def)
qed

lemma RewardReleasePercentByHeight_bounds:
  "cfg_wf c \<Longrightarrow> 0 \<le> RewardReleasePercentByHeight c h \<and> RewardReleasePercentByHeight c h \<le> 100"
  by (simp add: RewardReleasePercentByHeight_def release_loop_bounds cfg_wf_def)

lemma RewardProofWindowByHeight_total:
  assumes "cfg_wf c"
  shows "\<exists>w. RewardProofWindowByHeight c h = Some w"
proof -
  have "DelaySubmitStage3Blocks c \<noteq> []" "DelaySubmitStage2StepPercent c \<noteq> 0"
    using assms by (auto simp: cfg_wf_def)
  then show ?thesis by (auto simp: RewardProofWindowByHeight_def Let_def)
qed

end
