(* ===== verification/Ratio.thy ===== *)
theory Ratio
  imports Go_Strconv
begin

text \<open>
  \<^verbatim>\<open>internal/parser/protocol/helper_parse.go\<close>: ratios as decimal strings. A ratio is read as a fraction or, with a
  percent sign or above one, as a percentage, and clamped to \<open>[0, 1]\<close>; it is written with eight decimals.
\<close>

definition ParseRatio :: "string \<Rightarrow> f64 option" where
  "ParseRatio raw0 =
     (let raw = TrimSpace raw0 in
      if raw = '''' then None
      else
        let percent = HasSuffix raw ''%'';
            raw = (if percent then TrimSuffix raw ''%'' else raw) in
        case ParseFloat (TrimSpace raw) of
          None \<Rightarrow> None
        | Some ratio \<Rightarrow>
            let ratio = (if percent \<or> ratio > 1 then f64_div ratio 100 else ratio);
                ratio = (if ratio < 0 then 0 else ratio);
                ratio = (if ratio > 1 then 1 else ratio) in
            Some ratio)"

definition FormatRatio :: "f64 \<Rightarrow> string" where
  "FormatRatio ratio = FormatFloat_f 8 ratio"

definition ParseUint32 :: "string \<Rightarrow> u32" where
  "ParseUint32 raw0 =
     (let raw = TrimSpace raw0 in
      if raw = '''' then 0
      else case ParseUint 32 raw of None \<Rightarrow> 0 | Some n \<Rightarrow> word_of_nat n)"

lemma ParseRatio_bounds: "ParseRatio raw = Some r \<Longrightarrow> 0 \<le> r \<and> r \<le> 1"
  by (auto simp: ParseRatio_def Let_def split: if_splits option.splits)

lemma FormatFloat_f_chars:
  assumes "0 \<le> x" "0 < p"
  obtains d e where "FormatFloat_f p x = d @ CHR ''.'' # e" "list_all is_digit d" "list_all is_digit e" "e \<noteq> []"
proof -
  define n where "n = nat (round_half_even (\<bar>x\<bar> * 10 ^ p))"
  have "FormatFloat_f p x = FormatUint (n div 10 ^ p) @ CHR ''.'' # pad_left p (FormatUint (n mod 10 ^ p))"
    using assms by (simp add: FormatFloat_f_def n_def Let_def)
  then show thesis
    by (rule that) (simp_all add: FormatUint_props, simp add: pad_left_def)
qed

lemma FormatRatio_shape:
  assumes "0 \<le> r"
  shows "graphic (FormatRatio r)" and "\<not> HasSuffix (FormatRatio r) ''%''" and "FormatRatio r \<noteq> []"
    and "CHR ''|'' \<notin> set (FormatRatio r)"
proof -
  obtain d e where f: "FormatRatio r = d @ CHR ''.'' # e" "list_all is_digit d" "list_all is_digit e" "e \<noteq> []"
    unfolding FormatRatio_def by (rule FormatFloat_f_chars [OF assms, of 8]) simp_all
  then show "graphic (FormatRatio r)" by (simp add: digits_graphic)
  show "FormatRatio r \<noteq> []" by (simp add: f)
  show "CHR ''|'' \<notin> set (FormatRatio r)"
    using f(2,3) digits_notin [of d "CHR ''|''"] digits_notin [of e "CHR ''|''"] by (simp add: f(1))
  obtain e' c where c: "e = e' @ [c]" using f(4) by (cases e rule: rev_cases) auto
  then have "is_digit c" using f(3) by simp
  then have "c \<noteq> CHR ''%''" by auto
  then show "\<not> HasSuffix (FormatRatio r) ''%''" by (simp add: f(1) c HasSuffix_def)
qed

lemma bp_ratio_le_1:
  assumes "bp \<le> 10000"
  shows "bp_ratio bp \<le> 1"
proof (cases "bp = 10000")
  case True
  then show ?thesis using f64_round_nat [of 1] by (simp add: bp_ratio_def)
next
  case False
  with assms have "bp \<le> 9999" by simp
  then have "of_nat bp \<le> (9999 :: rat)" using of_nat_le_iff [of bp 9999, where 'a = rat] by simp
  moreover have "bp_ratio bp \<le> of_nat bp / 10000 + 1 / 2 ^ 53" using bp_ratio_error [OF assms] by linarith
  moreover have "(9999 / 10000 :: rat) + 1 / 2 ^ 53 \<le> 1" by simp
  ultimately show ?thesis by linarith
qed

lemma ratio_roundtrip:
  assumes "bp \<le> 10000"
  shows "ParseRatio (FormatRatio (bp_ratio bp)) = Some (bp_ratio bp)"
proof -
  note le1 = bp_ratio_le_1 [OF assms]
  note s = FormatRatio_shape [OF bp_ratio_bounds(1) [OF assms]]
  have "ParseFloat (FormatRatio (bp_ratio bp)) = Some (bp_ratio bp)"
    unfolding FormatRatio_def by (rule ParseFloat_bp_ratio [OF assms])
  with s le1 bp_ratio_bounds(1) [OF assms] show ?thesis
    by (simp add: ParseRatio_def Let_def)
qed

text \<open>A commission given in basis points (at most 10000) survives being stored: formatting the ratio with eight
  decimals and parsing it again gives back the same float.\<close>

theorem ParseRatio_FormatRatio_bp:
  assumes "bp \<le> 10000"
  shows "ParseRatio (FormatRatio (bp_ratio bp)) = Some (bp_ratio bp)"
  by (rule ratio_roundtrip [OF assms])

theorem ParseRatio_FormatRatio_bp_witness:
  "ParseRatio (FormatRatio (bp_ratio 1500)) = Some (bp_ratio 1500)"
  using ParseRatio_FormatRatio_bp [of 1500] by simp

end
