(* ===== verification/GoMap.thy ===== *)
theory GoMap
  imports Prelude "HOL-Library.AList" "HOL-Library.Multiset"
begin

text \<open>
  Go maps as association lists: lookup, assignment and \<^verbatim>\<open>delete\<close>. The order of the list stands for the
  order in which a \<^verbatim>\<open>range\<close> loop happens to visit the entries. Go does not specify that order, so operations that
  range over a map they have built themselves take a rearrangement \<open>ord\<close> as an argument.
\<close>

type_synonym ('k, 'v) gomap = "('k \<times> 'v) list"

definition mget :: "('k, 'v) gomap \<Rightarrow> 'k \<Rightarrow> 'v option" where
  "mget m k = map_of m k"

definition mget0 :: "'v \<Rightarrow> ('k, 'v) gomap \<Rightarrow> 'k \<Rightarrow> 'v" where
  "mget0 z m k = (case map_of m k of None \<Rightarrow> z | Some v \<Rightarrow> v)"

definition mput :: "('k, 'v) gomap \<Rightarrow> 'k \<Rightarrow> 'v \<Rightarrow> ('k, 'v) gomap" where
  "mput m k v = AList.update k v m"

definition mdel :: "('k, 'v) gomap \<Rightarrow> 'k \<Rightarrow> ('k, 'v) gomap" where
  "mdel m k = filter (\<lambda>e. fst e \<noteq> k) m"

definition mwf :: "('k, 'v) gomap \<Rightarrow> bool" where
  "mwf m \<longleftrightarrow> distinct (map fst m)"

definition map_order :: "('a list \<Rightarrow> 'a list) \<Rightarrow> bool" where
  "map_order ord \<longleftrightarrow> (\<forall>xs. mset (ord xs) = mset xs)"

lemma map_order_id [simp]: "map_order id" and map_order_rev [simp]: "map_order rev"
  by (simp_all add: map_order_def)

lemma map_order_set: "map_order ord \<Longrightarrow> set (ord xs) = set xs"
  by (metis map_order_def set_mset_mset)

lemma map_order_distinct: "map_order ord \<Longrightarrow> distinct (map f (ord xs)) = distinct (map f xs)"
  unfolding map_order_def by (metis mset_eq_imp_distinct_iff mset_map)

lemma map_order_sum: "map_order ord \<Longrightarrow> sum_list (map f (ord xs)) = sum_list (map f xs)"
  for f :: "'a \<Rightarrow> 'b :: comm_monoid_add"
  unfolding map_order_def by (metis mset_map sum_mset_sum_list)

lemma map_order_length: "map_order ord \<Longrightarrow> length (ord xs) = length xs"
  unfolding map_order_def by (metis size_mset)

lemma mget_mput [simp]: "mget (mput m k v) k' = (if k' = k then Some v else mget m k')"
  by (simp add: mget_def mput_def update_conv')

lemma mget0_mput [simp]: "mget0 z (mput m k v) k' = (if k' = k then v else mget0 z m k')"
  by (simp add: mget0_def mput_def update_conv')

lemma map_of_filter_key: "map_of (filter (\<lambda>e. fst e \<noteq> k) m) k' = (if k' = k then None else map_of m k')"
  by (induction m) auto

lemma mget_mdel [simp]: "mget (mdel m k) k' = (if k' = k then None else mget m k')"
  by (simp add: mget_def mdel_def map_of_filter_key)

lemma mget0_mdel [simp]: "mget0 z (mdel m k) k' = (if k' = k then z else mget0 z m k')"
  by (simp add: mget0_def mdel_def map_of_filter_key)

lemma mget0_Nil [simp]: "mget0 z [] k = z"
  by (simp add: mget0_def)

lemma mget0_nonzero_iff: "mwf m \<Longrightarrow> v \<noteq> z \<Longrightarrow> mget0 z m k = v \<longleftrightarrow> (k, v) \<in> set m"
  by (auto simp: mget0_def mwf_def split: option.split dest: map_of_SomeD)
    (metis map_of_is_SomeI option.inject)

lemma mwf_mput [simp]: "mwf m \<Longrightarrow> mwf (mput m k v)"
  by (simp add: mwf_def mput_def distinct_update)

lemma mwf_mdel [simp]: "mwf m \<Longrightarrow> mwf (mdel m k)"
  by (simp add: mwf_def mdel_def distinct_map_filter)

lemma mwf_Nil [simp]: "mwf []"
  by (simp add: mwf_def)

lemma mget_Nil [simp]: "mget [] k = None"
  by (simp add: mget_def)

lemma mwf_mget_iff: "mwf m \<Longrightarrow> mget m k = Some v \<longleftrightarrow> (k, v) \<in> set m"
  by (simp add: mwf_def mget_def)

lemma mset_mput_new: "k \<notin> set (map fst m) \<Longrightarrow> mput m k v = m @ [(k, v)]"
  unfolding mput_def by (induction m) auto

lemma mget_None_iff: "mget m k = None \<longleftrightarrow> k \<notin> set (map fst m)"
  by (simp add: mget_def map_of_eq_None_iff image_iff)

end
