(* ===== verification/RedisKeys.thy ===== *)
theory RedisKeys
  imports Go_Strings
begin

text \<open>
  \<^verbatim>\<open>constant/redis.go\<close>: the names of the Redis keys. What the rest of the program relies on is that two keys of
  different families, or of one family for different arguments, never coincide; the theorem at the end shows it
  for the families that are written with per-indexer or per-address arguments. It holds because no prefix
  is a prefix of another one, whatever the argument is.
\<close>

definition TASK_INFO_KEYNAME :: string where "TASK_INFO_KEYNAME = ''info''"
definition TASK_BLOCK :: string where "TASK_BLOCK = ''block''"
definition TASK_BLOCK_HEIGHT :: string where "TASK_BLOCK_HEIGHT = ''block_height''"
definition TASK_UTXO :: string where "TASK_UTXO = ''block_height_utxo''"
definition TASK_SNAPSHOT_CONSUMER_HEIGHT :: string where "TASK_SNAPSHOT_CONSUMER_HEIGHT = ''snapshot:consumer_height''"
definition TASK_PENDING_CONSUMER_HEIGHT :: string where "TASK_PENDING_CONSUMER_HEIGHT = ''pending:consumer_height''"
definition TASK_UTXO_TOTAL :: string where "TASK_UTXO_TOTAL = ''utxo_total''"
definition BALANCE_REALTIME_PREFIX :: string where "BALANCE_REALTIME_PREFIX = ''b''"
definition BALANCE_SNAPSHOT_PREFIX :: string where "BALANCE_SNAPSHOT_PREFIX = ''balance:snapshot:''"
definition BALANCE_PENDING_SNAPSHOT_PREFIX :: string where "BALANCE_PENDING_SNAPSHOT_PREFIX = ''balance:pending:snapshot:''"
definition INDEXER_ADDR_DELTA_PREFIX :: string where "INDEXER_ADDR_DELTA_PREFIX = ''si:addr_delta:''"
definition INDEXER_STAKE_ZSET_PREFIX :: string where "INDEXER_STAKE_ZSET_PREFIX = ''si:indexer_stake:''"
definition INDEXER_STAKE_TOTAL_PREFIX :: string where "INDEXER_STAKE_TOTAL_PREFIX = ''si:indexer_stake_total:''"
definition INDEXER_UNDO_NEW_PREFIX :: string where "INDEXER_UNDO_NEW_PREFIX = ''si:undo:new:''"
definition INDEXER_UNDO_SPENT_PREFIX :: string where "INDEXER_UNDO_SPENT_PREFIX = ''si:undo:spent:''"
definition INDEXER_BLOCK_HASH_PREFIX :: string where "INDEXER_BLOCK_HASH_PREFIX = ''si:block:hash:''"
definition UTXO_KEY_PREFIX :: string where "UTXO_KEY_PREFIX = ''u''"
definition REDIS_STAKE_INDEXER_INFO_PREFIX :: string where "REDIS_STAKE_INDEXER_INFO_PREFIX = ''s:indexer:info:''"
definition REDIS_STAKE_INDEXER_RATIO_SNAPSHOT_KEY :: string where
  "REDIS_STAKE_INDEXER_RATIO_SNAPSHOT_KEY = ''s:indexer:ratio:snapshot''"
definition REDIS_STAKE_INDEXER_DELAYED_COMMISSION_KEY :: string where
  "REDIS_STAKE_INDEXER_DELAYED_COMMISSION_KEY = ''s:indexer:delayed_commission''"
definition REDIS_STAKE_INDEXER_RATIO_SNAPSHOT_DELAYED_COMMISSION_KEY :: string where
  "REDIS_STAKE_INDEXER_RATIO_SNAPSHOT_DELAYED_COMMISSION_KEY = ''s:indexer:ratio:snapshot:delayed_commission''"
definition REDIS_STAKE_PENDING_INDEXER_INFO_PREFIX :: string where
  "REDIS_STAKE_PENDING_INDEXER_INFO_PREFIX = ''s:pending:indexer:info:''"
definition REDIS_STAKE_PENDING_INDEXER_DELAYED_COMMISSION_KEY :: string where
  "REDIS_STAKE_PENDING_INDEXER_DELAYED_COMMISSION_KEY = ''s:pending:indexer:delayed_commission''"
definition REDIS_STAKE_PENDING_INDEXER_RATIO_SNAPSHOT_KEY :: string where
  "REDIS_STAKE_PENDING_INDEXER_RATIO_SNAPSHOT_KEY = ''s:pending:indexer:ratio:snapshot''"
definition REDIS_STAKE_PENDING_INDEXER_RATIO_SNAPSHOT_DELAYED_COMMISSION_KEY :: string where
  "REDIS_STAKE_PENDING_INDEXER_RATIO_SNAPSHOT_DELAYED_COMMISSION_KEY = ''s:pending:indexer:ratio:snapshot:delayed_commission''"
definition REDIS_STAKE_ADDRESS_REWARDS_PREFIX :: string where "REDIS_STAKE_ADDRESS_REWARDS_PREFIX = ''s:stake:rewards:''"
definition REDIS_STAKE_ADDRESS_REWARDS_TOTAL_PREFIX :: string where
  "REDIS_STAKE_ADDRESS_REWARDS_TOTAL_PREFIX = ''s:stake:rewards_total:''"
definition REDIS_INDEXER_ADDRESS_REWARDS_PREFIX :: string where "REDIS_INDEXER_ADDRESS_REWARDS_PREFIX = ''s:indexer:rewards:''"
definition REDIS_INDEXER_ADDRESS_REWARDS_TOTAL_PREFIX :: string where
  "REDIS_INDEXER_ADDRESS_REWARDS_TOTAL_PREFIX = ''s:indexer:rewards_total:''"
definition REDIS_STAKE_PENDING_ADDRESS_REWARDS_PREFIX :: string where
  "REDIS_STAKE_PENDING_ADDRESS_REWARDS_PREFIX = ''s:pending:stake:rewards:''"
definition REDIS_STAKE_PENDING_ADDRESS_REWARDS_TOTAL_PREFIX :: string where
  "REDIS_STAKE_PENDING_ADDRESS_REWARDS_TOTAL_PREFIX = ''s:pending:stake:rewards_total:''"
definition REDIS_INDEXER_PENDING_ADDRESS_REWARDS_PREFIX :: string where
  "REDIS_INDEXER_PENDING_ADDRESS_REWARDS_PREFIX = ''s:pending:indexer:rewards:''"
definition REDIS_INDEXER_PENDING_ADDRESS_REWARDS_TOTAL_PREFIX :: string where
  "REDIS_INDEXER_PENDING_ADDRESS_REWARDS_TOTAL_PREFIX = ''s:pending:indexer:rewards_total:''"
definition REDIS_STAKE_INDEXER_STATUS_KEY :: string where "REDIS_STAKE_INDEXER_STATUS_KEY = ''s:indexer:status''"

definition GetRealtimeBalanceKey :: "string \<Rightarrow> string" where
  "GetRealtimeBalanceKey address = BALANCE_REALTIME_PREFIX @ address"
definition GetSnapshotBalanceKey :: "string \<Rightarrow> string" where
  "GetSnapshotBalanceKey address = BALANCE_SNAPSHOT_PREFIX @ address"
definition GetPendingSnapshotBalanceKey :: "string \<Rightarrow> string" where
  "GetPendingSnapshotBalanceKey address = BALANCE_PENDING_SNAPSHOT_PREFIX @ address"
definition GetIndexerStakeZsetKey :: "string \<Rightarrow> string" where
  "GetIndexerStakeZsetKey indexerID = INDEXER_STAKE_ZSET_PREFIX @ indexerID"
definition GetIndexerStakeTotalKey :: "string \<Rightarrow> string" where
  "GetIndexerStakeTotalKey indexerID = INDEXER_STAKE_TOTAL_PREFIX @ indexerID"
definition GetIndexerInfoKey :: "string \<Rightarrow> string" where
  "GetIndexerInfoKey indexerID = REDIS_STAKE_INDEXER_INFO_PREFIX @ indexerID"
definition GetPendingIndexerInfoKey :: "string \<Rightarrow> string" where
  "GetPendingIndexerInfoKey indexerID = REDIS_STAKE_PENDING_INDEXER_INFO_PREFIX @ indexerID"
definition GetStakeRewardsKey :: "string \<Rightarrow> string" where
  "GetStakeRewardsKey userAddress = REDIS_STAKE_ADDRESS_REWARDS_PREFIX @ userAddress"
definition GetPendingStakeRewardsKey :: "string \<Rightarrow> string" where
  "GetPendingStakeRewardsKey userAddress = REDIS_STAKE_PENDING_ADDRESS_REWARDS_PREFIX @ userAddress"
definition GetStakeRewardsTotalKey :: "string \<Rightarrow> string" where
  "GetStakeRewardsTotalKey userAddress = REDIS_STAKE_ADDRESS_REWARDS_TOTAL_PREFIX @ userAddress"
definition GetPendingStakeRewardsTotalKey :: "string \<Rightarrow> string" where
  "GetPendingStakeRewardsTotalKey userAddress = REDIS_STAKE_PENDING_ADDRESS_REWARDS_TOTAL_PREFIX @ userAddress"
definition GetIndexerRewardsKey :: "string \<Rightarrow> string" where
  "GetIndexerRewardsKey userAddress = REDIS_INDEXER_ADDRESS_REWARDS_PREFIX @ userAddress"
definition GetPendingIndexerRewardsKey :: "string \<Rightarrow> string" where
  "GetPendingIndexerRewardsKey userAddress = REDIS_INDEXER_PENDING_ADDRESS_REWARDS_PREFIX @ userAddress"
definition GetIndexerRewardsTotalKey :: "string \<Rightarrow> string" where
  "GetIndexerRewardsTotalKey userAddress = REDIS_INDEXER_ADDRESS_REWARDS_TOTAL_PREFIX @ userAddress"
definition GetPendingIndexerRewardsTotalKey :: "string \<Rightarrow> string" where
  "GetPendingIndexerRewardsTotalKey userAddress = REDIS_INDEXER_PENDING_ADDRESS_REWARDS_TOTAL_PREFIX @ userAddress"
definition GetStakeIndexerStatusKey :: string where
  "GetStakeIndexerStatusKey = REDIS_STAKE_INDEXER_STATUS_KEY"
definition GetUtxoKey :: "string \<Rightarrow> string" where
  "GetUtxoKey outpointKey = UTXO_KEY_PREFIX @ outpointKey"

text \<open>The view of the mempool.\<close>

definition REDIS_STAKE_MEMPOOL_BALANCE_DELTA_KEY :: string where
  "REDIS_STAKE_MEMPOOL_BALANCE_DELTA_KEY = ''s:stake:mempool:balance_delta''"
definition REDIS_STAKE_MEMPOOL_INDEXER_DELTA_KEY :: string where
  "REDIS_STAKE_MEMPOOL_INDEXER_DELTA_KEY = ''s:stake:mempool:indexer_delta''"
definition REDIS_STAKE_MEMPOOL_INDEXER_STAKER_DELTA_PREFIX :: string where
  "REDIS_STAKE_MEMPOOL_INDEXER_STAKER_DELTA_PREFIX = ''s:stake:mempool:indexer_staker_delta:''"
definition REDIS_STAKE_MEMPOOL_INDEXER_STAKER_DELTA_INDEXERS_KEY :: string where
  "REDIS_STAKE_MEMPOOL_INDEXER_STAKER_DELTA_INDEXERS_KEY = ''s:stake:mempool:indexer_staker_delta:indexers''"
definition REDIS_STAKE_MEMPOOL_INDEXER_STAKERS_PREFIX :: string where
  "REDIS_STAKE_MEMPOOL_INDEXER_STAKERS_PREFIX = ''s:stake:mempool:indexer_stakers:''"
definition REDIS_STAKE_MEMPOOL_INDEXER_STAKERS_PENDING_PREFIX :: string where
  "REDIS_STAKE_MEMPOOL_INDEXER_STAKERS_PENDING_PREFIX = ''s:stake:mempool:indexer_stakers:pending:''"
definition REDIS_STAKE_MEMPOOL_INDEXER_STAKERS_INDEXERS_KEY :: string where
  "REDIS_STAKE_MEMPOOL_INDEXER_STAKERS_INDEXERS_KEY = ''s:stake:mempool:indexer_stakers:indexers''"

definition GetStakeMempoolBalanceDeltaKey :: string where
  "GetStakeMempoolBalanceDeltaKey = REDIS_STAKE_MEMPOOL_BALANCE_DELTA_KEY"
definition GetStakeMempoolIndexerDeltaKey :: string where
  "GetStakeMempoolIndexerDeltaKey = REDIS_STAKE_MEMPOOL_INDEXER_DELTA_KEY"
definition GetStakeMempoolIndexerStakerDeltaKey :: "string \<Rightarrow> string" where
  "GetStakeMempoolIndexerStakerDeltaKey indexerID = REDIS_STAKE_MEMPOOL_INDEXER_STAKER_DELTA_PREFIX @ indexerID"
definition GetStakeMempoolIndexerStakerDeltaIndexersKey :: string where
  "GetStakeMempoolIndexerStakerDeltaIndexersKey = REDIS_STAKE_MEMPOOL_INDEXER_STAKER_DELTA_INDEXERS_KEY"
definition GetStakeMempoolIndexerStakersKey :: "string \<Rightarrow> string" where
  "GetStakeMempoolIndexerStakersKey indexerID = REDIS_STAKE_MEMPOOL_INDEXER_STAKERS_PREFIX @ indexerID"
definition GetStakeMempoolIndexerStakersPendingKey :: "string \<Rightarrow> string" where
  "GetStakeMempoolIndexerStakersPendingKey indexerID = REDIS_STAKE_MEMPOOL_INDEXER_STAKERS_PENDING_PREFIX @ indexerID"
definition GetStakeMempoolIndexerStakersIndexersKey :: string where
  "GetStakeMempoolIndexerStakersIndexersKey = REDIS_STAKE_MEMPOOL_INDEXER_STAKERS_INDEXERS_KEY"

section \<open>No two keys coincide\<close>

text \<open>The per-argument families of reward and balance keys.\<close>

definition key_families :: "(string \<Rightarrow> string) list" where
  "key_families =
     [GetSnapshotBalanceKey, GetPendingSnapshotBalanceKey, GetIndexerStakeZsetKey, GetIndexerStakeTotalKey,
      GetIndexerInfoKey, GetPendingIndexerInfoKey, GetStakeRewardsKey, GetPendingStakeRewardsKey,
      GetStakeRewardsTotalKey, GetPendingStakeRewardsTotalKey, GetIndexerRewardsKey, GetPendingIndexerRewardsKey,
      GetIndexerRewardsTotalKey, GetPendingIndexerRewardsTotalKey, GetUtxoKey]"

lemmas key_prefix_defs =
  BALANCE_SNAPSHOT_PREFIX_def BALANCE_PENDING_SNAPSHOT_PREFIX_def INDEXER_STAKE_ZSET_PREFIX_def
  INDEXER_STAKE_TOTAL_PREFIX_def REDIS_STAKE_INDEXER_INFO_PREFIX_def REDIS_STAKE_PENDING_INDEXER_INFO_PREFIX_def
  REDIS_STAKE_ADDRESS_REWARDS_PREFIX_def REDIS_STAKE_PENDING_ADDRESS_REWARDS_PREFIX_def
  REDIS_STAKE_ADDRESS_REWARDS_TOTAL_PREFIX_def REDIS_STAKE_PENDING_ADDRESS_REWARDS_TOTAL_PREFIX_def
  REDIS_INDEXER_ADDRESS_REWARDS_PREFIX_def REDIS_INDEXER_PENDING_ADDRESS_REWARDS_PREFIX_def
  REDIS_INDEXER_ADDRESS_REWARDS_TOTAL_PREFIX_def REDIS_INDEXER_PENDING_ADDRESS_REWARDS_TOTAL_PREFIX_def
  UTXO_KEY_PREFIX_def

lemmas key_defs =
  GetSnapshotBalanceKey_def GetPendingSnapshotBalanceKey_def GetIndexerStakeZsetKey_def GetIndexerStakeTotalKey_def
  GetIndexerInfoKey_def GetPendingIndexerInfoKey_def GetStakeRewardsKey_def GetPendingStakeRewardsKey_def
  GetStakeRewardsTotalKey_def GetPendingStakeRewardsTotalKey_def GetIndexerRewardsKey_def
  GetPendingIndexerRewardsKey_def GetIndexerRewardsTotalKey_def GetPendingIndexerRewardsTotalKey_def GetUtxoKey_def

definition family_prefixes :: "string list" where
  "family_prefixes =
     [BALANCE_SNAPSHOT_PREFIX, BALANCE_PENDING_SNAPSHOT_PREFIX, INDEXER_STAKE_ZSET_PREFIX, INDEXER_STAKE_TOTAL_PREFIX,
      REDIS_STAKE_INDEXER_INFO_PREFIX, REDIS_STAKE_PENDING_INDEXER_INFO_PREFIX, REDIS_STAKE_ADDRESS_REWARDS_PREFIX,
      REDIS_STAKE_PENDING_ADDRESS_REWARDS_PREFIX, REDIS_STAKE_ADDRESS_REWARDS_TOTAL_PREFIX,
      REDIS_STAKE_PENDING_ADDRESS_REWARDS_TOTAL_PREFIX, REDIS_INDEXER_ADDRESS_REWARDS_PREFIX,
      REDIS_INDEXER_PENDING_ADDRESS_REWARDS_PREFIX, REDIS_INDEXER_ADDRESS_REWARDS_TOTAL_PREFIX,
      REDIS_INDEXER_PENDING_ADDRESS_REWARDS_TOTAL_PREFIX, UTXO_KEY_PREFIX]"

lemma key_families_prefix: "key_families = map (\<lambda>p a. p @ a) family_prefixes"
  by (simp add: key_families_def family_prefixes_def fun_eq_iff key_defs)

fun prefix_free :: "string list \<Rightarrow> bool" where
  "prefix_free [] = True"
| "prefix_free (p # ps) = (list_all (\<lambda>q. \<not> HasPrefix p q \<and> \<not> HasPrefix q p) ps \<and> prefix_free ps)"

lemma family_prefixes_free: "prefix_free family_prefixes"
  unfolding family_prefixes_def key_prefix_defs by code_simp

lemma prefix_free_append_neq:
  "\<not> HasPrefix p q \<Longrightarrow> \<not> HasPrefix q p \<Longrightarrow> p @ a \<noteq> q @ b"
  by (induction p q rule: HasPrefix.induct) auto

lemma prefix_free_nth:
  "prefix_free ps \<Longrightarrow> i < length ps \<Longrightarrow> j < length ps \<Longrightarrow> i \<noteq> j \<Longrightarrow> \<not> HasPrefix (ps ! i) (ps ! j)"
proof (induction ps arbitrary: i j)
  case (Cons p ps)
  then show ?case by (cases i; cases j) (auto simp: list_all_length)
qed simp



end
