(* ===== verification/Staging.thy ===== *)
theory Staging
  imports Ratio GoMap RedisKeys
begin

text \<open>
  \<^verbatim>\<open>internal/exec/manager/state_staging.go\<close>: the buffer of Redis writes that block processing fills and
  \<^verbatim>\<open>flushBalanceChanges\<close> sends in one pipeline. The maps of the buffer are Go maps; a counter delta is an
  \<^verbatim>\<open>int64\<close>, kept as the 64-bit word. Values staged into hashes are strings, unsigned integers or floats; they
  are read back only through \<^verbatim>\<open>fmt.Sprint\<close>, and only strings and integers are staged under keys that are read back.
  A manager that is nil is not modelled: every caller holds the result of a constructor.
\<close>

datatype hval = HStr string | HUint nat | HFloat f64

record slowWriteState =
  hset :: "(string, (string, hval) gomap) gomap"
  hincrByF64 :: "(string, (string, f64) gomap) gomap"
  zincrBy :: "(string, (string, f64) gomap) gomap"
  incrBy :: "(string, u64) gomap"
  latestRatio :: "(string, f64) gomap"
  snapRatio :: "(string, f64) gomap"

definition newSlowWriteState :: slowWriteState where
  "newSlowWriteState = \<lparr>hset = [], hincrByF64 = [], zincrBy = [], incrBy = [], latestRatio = [], snapRatio = []\<rparr>"

definition isEmpty :: "slowWriteState \<Rightarrow> bool" where
  "isEmpty s \<longleftrightarrow> hset s = [] \<and> hincrByF64 s = [] \<and> zincrBy s = [] \<and> incrBy s = []"

section \<open>The pipeline\<close>

datatype rcmd =
    HSet string "(string, hval) gomap"
  | HIncrByFloat string string f64
  | ZIncrBy string f64 string
  | IncrBy string u64

definition pipeline :: "slowWriteState \<Rightarrow> rcmd list" where
  "pipeline s =
     concat (map (\<lambda>(key, flds). if flds = [] then [] else [HSet key flds]) (hset s)) @
     concat (map (\<lambda>(key, flds).
       concat (map (\<lambda>(field, delta). if delta = 0 then [] else [HIncrByFloat key field delta]) flds)) (hincrByF64 s)) @
     concat (map (\<lambda>(key, members).
       concat (map (\<lambda>(member, delta). if delta = 0 then [] else [ZIncrBy key delta member]) members)) (zincrBy s)) @
     concat (map (\<lambda>(key, delta). if delta = 0 then [] else [IncrBy key delta]) (incrBy s))"

text \<open>The commands sent (none when there is nothing to send), the new buffer and whether an error is returned.
  \<open>exec_ok\<close> is the outcome of \<^verbatim>\<open>pipe.Exec\<close>, \<open>finalizer\<close> the commands the caller appends.\<close>

definition flushBalanceChanges :: "slowWriteState \<Rightarrow> rcmd list option \<Rightarrow> bool \<Rightarrow> rcmd list \<times> slowWriteState \<times> bool" where
  "flushBalanceChanges s finalizer exec_ok =
     (if isEmpty s \<and> finalizer = None then ([], s, True)
      else
        let pipe = pipeline s @ (case finalizer of None \<Rightarrow> [] | Some cmds \<Rightarrow> cmds) in
        if \<not> exec_ok then (pipe, newSlowWriteState, False)
        else (pipe, newSlowWriteState, True))"

section \<open>Staging\<close>

definition Sprint_ratio :: "hval \<Rightarrow> f64 option" where
  "Sprint_ratio v = (case v of HStr s \<Rightarrow> ParseRatio s | HUint n \<Rightarrow> ParseRatio (FormatUint n) | HFloat _ \<Rightarrow> None)"

definition cache_ratio :: "(string, f64) gomap \<Rightarrow> string \<times> hval \<Rightarrow> (string, f64) gomap" where
  "cache_ratio c kv = (case Sprint_ratio (snd kv) of None \<Rightarrow> c | Some r \<Rightarrow> mput c (fst kv) r)"

definition merge_fields :: "(string, hval) gomap \<Rightarrow> (string \<times> hval) list \<Rightarrow> (string, hval) gomap" where
  "merge_fields flds values = foldl (\<lambda>f (k, v). mput f k v) flds values"

definition stageHSet :: "string \<Rightarrow> (string, hval) gomap \<Rightarrow> slowWriteState \<Rightarrow> slowWriteState" where
  "stageHSet key values s =
     (if values = [] then s
      else
        let s = s\<lparr>hset := mput (hset s) key (merge_fields (mget0 [] (hset s) key) values)\<rparr> in
        if HasPrefix key REDIS_STAKE_INDEXER_INFO_PREFIX then
          (case mget values ''index_ratio'' of
             None \<Rightarrow> s
           | Some raw \<Rightarrow>
               s\<lparr>latestRatio := cache_ratio (latestRatio s) (TrimPrefix key REDIS_STAKE_INDEXER_INFO_PREFIX, raw)\<rparr>)
        else if HasPrefix key REDIS_STAKE_PENDING_INDEXER_INFO_PREFIX then
          (case mget values ''index_ratio'' of
             None \<Rightarrow> s
           | Some raw \<Rightarrow>
               s\<lparr>latestRatio := cache_ratio (latestRatio s) (TrimPrefix key REDIS_STAKE_PENDING_INDEXER_INFO_PREFIX, raw)\<rparr>)
        else if key = REDIS_STAKE_INDEXER_RATIO_SNAPSHOT_KEY \<or> key = REDIS_STAKE_PENDING_INDEXER_RATIO_SNAPSHOT_KEY then
          s\<lparr>snapRatio := foldl cache_ratio (snapRatio s) values\<rparr>
        else s)"

definition stageHIncrByFloat :: "string \<Rightarrow> string \<Rightarrow> f64 \<Rightarrow> slowWriteState \<Rightarrow> slowWriteState" where
  "stageHIncrByFloat key field delta s =
     (if delta = 0 then s
      else let flds = mget0 [] (hincrByF64 s) key in
        s\<lparr>hincrByF64 := mput (hincrByF64 s) key (mput flds field (f64_add (mget0 0 flds field) delta))\<rparr>)"

definition stageZIncrBy :: "string \<Rightarrow> f64 \<Rightarrow> string \<Rightarrow> slowWriteState \<Rightarrow> slowWriteState" where
  "stageZIncrBy key delta member s =
     (if member = '''' \<or> delta = 0 then s
      else let members = mget0 [] (zincrBy s) key;
               score = f64_add (mget0 0 members member) delta;
               members = mput members member score in
        s\<lparr>zincrBy := mput (zincrBy s) key (if score = 0 then mdel members member else members)\<rparr>)"

definition stageIncrBy :: "string \<Rightarrow> u64 \<Rightarrow> slowWriteState \<Rightarrow> slowWriteState" where
  "stageIncrBy key delta s =
     (if delta = 0 then s else s\<lparr>incrBy := mput (incrBy s) key (mget0 0 (incrBy s) key + delta)\<rparr>)"

definition getCachedIndexerRatio :: "slowWriteState \<Rightarrow> string \<Rightarrow> f64 option" where
  "getCachedIndexerRatio s indexerID = (if indexerID = '''' then None else mget (latestRatio s) indexerID)"

definition getCachedIndexerSnapshotRatio :: "slowWriteState \<Rightarrow> string \<Rightarrow> f64 option" where
  "getCachedIndexerSnapshotRatio s indexerID = (if indexerID = '''' then None else mget (snapRatio s) indexerID)"


section \<open>What reaches Redis\<close>

text \<open>A staging call, and the buffer after a sequence of calls.\<close>

datatype stage_call =
    SHSet string "(string, hval) gomap"
  | SHIncr string string f64
  | SZIncr string f64 string
  | SIncr string u64

fun stage :: "slowWriteState \<Rightarrow> stage_call \<Rightarrow> slowWriteState" where
  "stage s (SHSet key values) = stageHSet key values s"
| "stage s (SHIncr key field delta) = stageHIncrByFloat key field delta s"
| "stage s (SZIncr key delta member) = stageZIncrBy key delta member s"
| "stage s (SIncr key delta) = stageIncrBy key delta s"

definition staged :: "stage_call list \<Rightarrow> slowWriteState" where
  "staged calls = foldl stage newSlowWriteState calls"

lemma staged_snoc [simp]: "staged (calls @ [c]) = stage (staged calls) c"
  by (simp add: staged_def)

lemma stageHSet_fields [simp]:
  "hincrByF64 (stageHSet key vs s) = hincrByF64 s" "zincrBy (stageHSet key vs s) = zincrBy s"
  "incrBy (stageHSet key vs s) = incrBy s"
  "hset (stageHSet key vs s) = (if vs = [] then hset s else mput (hset s) key (merge_fields (mget0 [] (hset s) key) vs))"
  by (auto simp: stageHSet_def Let_def split: option.split)

lemma stage_other_fields [simp]:
  "hset (stageHIncrByFloat key f d s) = hset s" "zincrBy (stageHIncrByFloat key f d s) = zincrBy s"
  "incrBy (stageHIncrByFloat key f d s) = incrBy s"
  "hset (stageZIncrBy key d m s) = hset s" "hincrByF64 (stageZIncrBy key d m s) = hincrByF64 s"
  "incrBy (stageZIncrBy key d m s) = incrBy s"
  "hset (stageIncrBy key dd s) = hset s" "hincrByF64 (stageIncrBy key dd s) = hincrByF64 s"
  "zincrBy (stageIncrBy key dd s) = zincrBy s"
  by (simp_all add: stageHIncrByFloat_def stageZIncrBy_def stageIncrBy_def Let_def)

text \<open>The deltas a pipeline sends for one counter, and those that were staged for it.\<close>

definition sent_incr :: "string \<Rightarrow> rcmd list \<Rightarrow> u64 list" where
  "sent_incr key cmds = List.map_filter (\<lambda>c. case c of IncrBy k d \<Rightarrow> if k = key then Some d else None | _ \<Rightarrow> None) cmds"

definition staged_incr :: "string \<Rightarrow> stage_call list \<Rightarrow> u64 list" where
  "staged_incr key calls = List.map_filter (\<lambda>c. case c of SIncr k d \<Rightarrow> if k = key then Some d else None | _ \<Rightarrow> None) calls"

lemma sent_incr_append [simp]: "sent_incr key (xs @ ys) = sent_incr key xs @ sent_incr key ys"
  by (simp add: sent_incr_def map_filter_def)

lemma sent_incr_concat_Nil: "(\<And>x. x \<in> set xs \<Longrightarrow> sent_incr key x = []) \<Longrightarrow> sent_incr key (concat xs) = []"
  by (induction xs) (simp_all add: sent_incr_def map_filter_def)

lemma sent_incr_others [simp]:
  "sent_incr key [HSet k fs] = []" "sent_incr key [HIncrByFloat k f x] = []" "sent_incr key [ZIncrBy k x f] = []"
  "sent_incr key [] = []"
  by (simp_all add: sent_incr_def map_filter_simps)

lemma sent_incr_counters:
  "mwf cs \<Longrightarrow> sent_incr key (concat (map (\<lambda>(k, d). if d = 0 then [] else [IncrBy k d]) cs)) =
     (if mget0 0 cs key = 0 then [] else [mget0 0 cs key])"
proof (induction cs)
  case Nil
  then show ?case by (simp add: mget0_def)
next
  case (Cons e cs)
  obtain k d where e: "e = (k, d)" by (cases e)
  have w: "mwf cs" "k \<notin> fst ` set cs" using Cons.prems e by (auto simp: mwf_def)
  have "sent_incr key [IncrBy k d] = (if k = key then [d] else [])" by (simp add: sent_incr_def map_filter_simps)
  moreover have "mget0 0 cs k = 0" using w(2) by (simp add: mget0_def map_of_eq_None_iff [THEN iffD2])
  ultimately show ?case using Cons.IH [OF w(1)] e by (cases "k = key") (simp_all add: mget0_def)
qed

lemma sent_incr_pipeline:
  assumes "mwf (incrBy s)"
  shows "sent_incr key (pipeline s) = (if mget0 0 (incrBy s) key = 0 then [] else [mget0 0 (incrBy s) key])"
proof -
  have "sent_incr key (concat (map (\<lambda>(k, f). if f = [] then [] else [HSet k f]) h)) = []" for h
    by (rule sent_incr_concat_Nil) auto
  moreover have "sent_incr key (concat (map (\<lambda>(k, f).
      concat (map (\<lambda>(x, d). if d = 0 then [] else [HIncrByFloat k x d]) f)) h)) = []" for h
    by (rule sent_incr_concat_Nil) (auto intro!: sent_incr_concat_Nil)
  moreover have "sent_incr key (concat (map (\<lambda>(k, f).
      concat (map (\<lambda>(x, d). if d = 0 then [] else [ZIncrBy k d x]) f)) h)) = []" for h
    by (rule sent_incr_concat_Nil) (auto intro!: sent_incr_concat_Nil)
  ultimately show ?thesis by (simp add: pipeline_def sent_incr_counters [OF assms])
qed

lemma staged_incr_snoc:
  "staged_incr key (calls @ [c]) =
     staged_incr key calls @ (case c of SIncr k d \<Rightarrow> if k = key then [d] else [] | _ \<Rightarrow> [])"
  by (cases c) (simp_all add: staged_incr_def map_filter_def)

lemma staged_counter: "mget0 0 (incrBy (staged calls)) key = sum_list (staged_incr key calls)"
proof (induction calls rule: rev_induct)
  case Nil
  then show ?case by (simp add: staged_def newSlowWriteState_def mget0_def staged_incr_def map_filter_simps)
next
  case (snoc c calls)
  then show ?case by (cases c) (simp_all add: staged_incr_snoc stageIncrBy_def)
qed

lemma staged_wf: "mwf (incrBy (staged calls)) \<and> mwf (hset (staged calls))"
proof (induction calls rule: rev_induct)
  case Nil
  then show ?case by (simp add: staged_def newSlowWriteState_def)
next
  case (snoc c calls)
  then show ?case by (cases c) (simp_all add: stageIncrBy_def)
qed

text \<open>C32. Batching is exact for counters: after any sequence of staging calls, a flush sends at most one \<^verbatim>\<open>INCRBY\<close> per
  counter, whose delta is the (wrapping) sum of all deltas staged for it, and none when that sum is zero; the
  buffer is empty afterwards, also when the pipeline fails.\<close>

theorem flush_sends_counter_sums:
  "let (cmds, s', ok) = flushBalanceChanges (staged calls) None exec_ok; total = sum_list (staged_incr key calls) in
   sent_incr key cmds = (if total = 0 then [] else [total]) \<and> isEmpty s'"
proof (cases "isEmpty (staged calls)")
  case True
  then have "incrBy (staged calls) = []" by (simp add: isEmpty_def)
  then have "sum_list (staged_incr key calls) = 0" using staged_counter [of calls key] by (simp add: mget0_def)
  with True show ?thesis by (simp add: flushBalanceChanges_def)
next
  case False
  have "isEmpty newSlowWriteState" by (simp add: isEmpty_def newSlowWriteState_def)
  with False show ?thesis
    using sent_incr_pipeline [of "staged calls" key] staged_wf [of calls]
    by (auto simp: flushBalanceChanges_def staged_counter Let_def)
qed


text \<open>The score increments of one sorted-set member.\<close>

definition zscore :: "slowWriteState \<Rightarrow> string \<Rightarrow> string \<Rightarrow> f64" where
  "zscore s key member = mget0 0 (mget0 [] (zincrBy s) key) member"

definition staged_z :: "string \<Rightarrow> string \<Rightarrow> stage_call list \<Rightarrow> f64 list" where
  "staged_z key member calls =
     List.map_filter (\<lambda>c. case c of SZIncr k d m \<Rightarrow> if k = key \<and> m = member then Some d else None | _ \<Rightarrow> None) calls"

lemma zscore_stageZIncrBy:
  "zscore (stageZIncrBy k d m s) key member =
     (if k = key \<and> m = member \<and> m \<noteq> '''' \<and> d \<noteq> 0 then f64_add (zscore s key member) d else zscore s key member)"
  by (auto simp: zscore_def stageZIncrBy_def Let_def)

lemma staged_z_snoc:
  "staged_z key member (calls @ [c]) =
     staged_z key member calls @ (case c of SZIncr k d m \<Rightarrow> if k = key \<and> m = member then [d] else [] | _ \<Rightarrow> [])"
  by (cases c) (simp_all add: staged_z_def map_filter_def)

lemma staged_zscore:
  "staged_z key member calls = map of_int ds \<Longrightarrow> sum_list (map abs ds) < 2 ^ 53 \<Longrightarrow> member \<noteq> '''' \<Longrightarrow>
     zscore (staged calls) key member = of_int (sum_list ds)"
proof (induction calls arbitrary: ds rule: rev_induct)
  case Nil
  then show ?case by (simp add: staged_def newSlowWriteState_def zscore_def staged_z_def map_filter_simps)
next
  case (snoc c calls)
  show ?case
  proof (cases "\<exists>d. c = SZIncr key d member")
    case True
    then obtain d where c: "c = SZIncr key d member" by blast
    then obtain ds' n where ds: "ds = ds' @ [n]" "staged_z key member calls = map of_int ds'" "d = of_int n"
      using snoc.prems(1) by (cases ds rule: rev_cases) (auto simp: staged_z_snoc)
    have "zscore (staged calls) key member = of_int (sum_list ds')"
      using snoc.IH [OF ds(2)] snoc.prems(2,3) ds(1) by simp
    moreover have "\<bar>sum_list ds' + n\<bar> < 2 ^ 53"
      using snoc.prems(2) ds(1) sum_list_abs [of ds'] by simp
    then have "f64_add (of_int (sum_list ds')) d = of_int (sum_list ds' + n)"
      using f64_round_int [of "sum_list ds' + n"] ds(3) by (simp add: f64_add_def)
    ultimately show ?thesis using c ds snoc.prems(3) by (simp add: zscore_stageZIncrBy)
  next
    case False
    then have "staged_z key member (calls @ [c]) = staged_z key member calls"
      by (auto simp: staged_z_snoc split: stage_call.split)
    moreover have "zscore (stage (staged calls) c) key member = zscore (staged calls) key member"
      using False by (cases c) (auto simp: zscore_stageZIncrBy, simp_all add: zscore_def)
    ultimately show ?thesis using snoc by simp
  qed
qed

definition z_wf :: "slowWriteState \<Rightarrow> bool" where
  "z_wf s \<longleftrightarrow> mwf (zincrBy s) \<and> (\<forall>k. mwf (mget0 [] (zincrBy s) k))"

lemma staged_z_wf: "z_wf (staged calls)"
proof (induction calls rule: rev_induct)
  case Nil
  then show ?case by (simp add: staged_def newSlowWriteState_def z_wf_def)
next
  case (snoc c calls)
  then show ?case by (cases c) (auto simp: z_wf_def stageZIncrBy_def Let_def)
qed

lemma ZIncrBy_in_pipeline:
  assumes "z_wf s"
  shows "ZIncrBy key d member \<in> set (pipeline s) \<longleftrightarrow> d \<noteq> 0 \<and> zscore s key member = d"
proof -
  have "ZIncrBy key d member \<in> set (pipeline s) \<longleftrightarrow> d \<noteq> 0 \<and> (\<exists>ms. (key, ms) \<in> set (zincrBy s) \<and> (member, d) \<in> set ms)"
    by (auto simp: pipeline_def split: if_splits) fastforce
  also have "\<dots> \<longleftrightarrow> d \<noteq> 0 \<and> (member, d) \<in> set (mget0 [] (zincrBy s) key)"
    using assms mget0_nonzero_iff [of "zincrBy s" _ "[]" key] unfolding z_wf_def
    by (metis empty_iff empty_set)
  also have "\<dots> \<longleftrightarrow> d \<noteq> 0 \<and> zscore s key member = d"
    using assms mget0_nonzero_iff [of "mget0 [] (zincrBy s) key" d 0 member] by (auto simp: z_wf_def zscore_def)
  finally show ?thesis .
qed

text \<open>C33. Batching is exact for reward scores: although the buffer adds them as floats, as long as the amounts staged for
  a member are whole numbers whose magnitudes sum to less than \<open>2^53\<close>, the one \<^verbatim>\<open>ZINCRBY\<close> that the flush sends for
  the member carries exactly their sum (and none is sent when the sum is zero).\<close>

theorem flush_sends_exact_scores:
  assumes "staged_z key member calls = map of_int ds" "sum_list (map abs ds) < 2 ^ 53" "member \<noteq> ''''"
  shows "ZIncrBy key d member \<in> set (fst (flushBalanceChanges (staged calls) None exec_ok)) \<longleftrightarrow>
    d = of_int (sum_list ds) \<and> sum_list ds \<noteq> 0"
proof -
  have z: "zscore (staged calls) key member = of_int (sum_list ds)" by (rule staged_zscore [OF assms])
  show ?thesis
  proof (cases "isEmpty (staged calls)")
    case True
    then have "sum_list ds = 0" using z by (simp add: isEmpty_def zscore_def)
    with True show ?thesis by (simp add: flushBalanceChanges_def)
  next
    case False
    then show ?thesis using ZIncrBy_in_pipeline [OF staged_z_wf, of key d member calls] z
      by (auto simp: flushBalanceChanges_def Let_def)
  qed
qed

theorem flush_sends_exact_scores_witness:
  "ZIncrBy ''s:stake:rewards:a'' 7 ''1:2'' \<in>
     set (fst (flushBalanceChanges
       (staged [SZIncr ''s:stake:rewards:a'' 9 ''1:2'', SZIncr ''s:stake:rewards:a'' (- 2) ''1:2'']) None True))"
  using flush_sends_exact_scores [of "''s:stake:rewards:a''" "''1:2''"
      "[SZIncr ''s:stake:rewards:a'' 9 ''1:2'', SZIncr ''s:stake:rewards:a'' (- 2) ''1:2'']" "[9, - 2]" 7 True]
  by (simp add: staged_z_def map_filter_simps)

end
