(* ===== verification/Payload.thy ===== *)
theory Payload
  imports Ratio GoMap
begin

text \<open>
  \<^verbatim>\<open>internal/parser/protocol/payload.go\<close> and \<^verbatim>\<open>types.go\<close>: the parsed protocol message with its named fields, and
  the snapshots of blocks and transactions that the handlers receive.
\<close>

record OpReturnPayload =
  pl_Tag :: string
  pl_Fields :: "(string, string) gomap"
  pl_Values :: "string list"

definition OpFieldIndexerID :: string where "OpFieldIndexerID = ''INDEXER_ID''"
definition OpFieldIndexerName :: string where "OpFieldIndexerName = ''INDEXER_NAME''"
definition OpFieldIndexRatio :: string where "OpFieldIndexRatio = ''INDEX_RATIO''"
definition OpFieldPubKey :: string where "OpFieldPubKey = ''PUBKEY''"
definition OpFieldAddressType :: string where "OpFieldAddressType = ''ADDRESS_TYPE''"
definition OpFieldBlockHeight :: string where "OpFieldBlockHeight = ''BLOCK_HEIGHT''"
definition OpFieldBlockHash :: string where "OpFieldBlockHash = ''BLOCK_HASH''"
definition OpFieldStakeAddr :: string where "OpFieldStakeAddr = ''STAKE_ADDRESS''"
definition OpFieldRewardAddr :: string where "OpFieldRewardAddr = ''REWARD_ADDR''"
definition OpFieldActorPubKey :: string where "OpFieldActorPubKey = ''ACTOR_PUBKEY''"
definition OpFieldActorAddr :: string where "OpFieldActorAddr = ''ACTOR_ADDRESS''"
definition OpFieldRewardClaimType :: string where "OpFieldRewardClaimType = ''REWARD_CLAIM_TYPE''"
definition OpValueEarlySupporterReward :: string where "OpValueEarlySupporterReward = ''early_supporter_reward''"

lemmas field_names = OpFieldIndexerID_def OpFieldIndexerName_def OpFieldIndexRatio_def OpFieldPubKey_def
  OpFieldAddressType_def OpFieldBlockHeight_def OpFieldBlockHash_def OpFieldStakeAddr_def OpFieldRewardAddr_def
  OpFieldActorPubKey_def OpFieldActorAddr_def OpFieldRewardClaimType_def

definition replace_char :: "char \<Rightarrow> char \<Rightarrow> string \<Rightarrow> string" where
  "replace_char a b s = map (\<lambda>c. if c = a then b else c) s"

definition normalizeFieldKey :: "string \<Rightarrow> string" where
  "normalizeFieldKey key0 =
     (let key = TrimSpace (ToUpper key0);
          key = replace_char (CHR ''-'') (CHR ''_'') key in
      replace_char (CHR '' '') (CHR ''_'') key)"

fun payload_Get :: "OpReturnPayload \<Rightarrow> string list \<Rightarrow> string" where
  "payload_Get p [] = ''''"
| "payload_Get p (key # keys) =
     (case mget (pl_Fields p) (normalizeFieldKey key) of
        Some value \<Rightarrow> if value \<noteq> '''' then value else payload_Get p keys
      | None \<Rightarrow> payload_Get p keys)"

definition payload_ValueAt :: "OpReturnPayload \<Rightarrow> int \<Rightarrow> string" where
  "payload_ValueAt p idx =
     (if idx < 0 \<or> idx \<ge> int (length (pl_Values p)) then '''' else pl_Values p ! nat idx)"

definition TagRegister :: string where "TagRegister = ''FIP_101_REGISTER''"
definition TagAllocatRatio :: string where "TagAllocatRatio = ''FIP_101_ALLOCAT_RATIO''"
definition TagStake :: string where "TagStake = ''FIP_101_STAKE''"
definition TagProveStake :: string where "TagProveStake = ''FIP_101_PROVE_STAKE''"
definition TagPledgedReward :: string where "TagPledgedReward = ''FIP_101_PLEDEGED_REWARD''"

lemmas tag_names = TagRegister_def TagAllocatRatio_def TagStake_def TagProveStake_def TagPledgedReward_def

lemma tags_distinct: "distinct [TagRegister, TagAllocatRatio, TagStake, TagProveStake, TagPledgedReward]"
  by (simp add: tag_names)

record InputSnapshot =
  in_InputIdx :: u32
  in_OutpointKey :: string
  in_AddressKey :: string
  in_Satoshi :: u64

record OutputSnapshot =
  out_OutputIdx :: u32
  out_Satoshi :: u64
  out_AddressKey :: string
  out_PkScript :: "byte list"

record TxSnapshot =
  tx_TxID :: string
  tx_TxIdx :: u32
  tx_Inputs :: "InputSnapshot list"
  tx_Outputs :: "OutputSnapshot list"

record BlockSnapshot =
  bs_Height :: u32
  bs_HashHex :: string
  bs_Version :: u32
  bs_CoinbaseReward :: u64
  bs_Txs :: "TxSnapshot list"

lemma normalizeFieldKey_names [simp]:
  "normalizeFieldKey OpFieldIndexerID = OpFieldIndexerID" "normalizeFieldKey OpFieldIndexerName = OpFieldIndexerName"
  "normalizeFieldKey OpFieldIndexRatio = OpFieldIndexRatio" "normalizeFieldKey OpFieldPubKey = OpFieldPubKey"
  "normalizeFieldKey OpFieldAddressType = OpFieldAddressType" "normalizeFieldKey OpFieldBlockHeight = OpFieldBlockHeight"
  "normalizeFieldKey OpFieldBlockHash = OpFieldBlockHash" "normalizeFieldKey OpFieldStakeAddr = OpFieldStakeAddr"
  "normalizeFieldKey OpFieldRewardAddr = OpFieldRewardAddr" "normalizeFieldKey OpFieldActorPubKey = OpFieldActorPubKey"
  "normalizeFieldKey OpFieldActorAddr = OpFieldActorAddr" "normalizeFieldKey OpFieldRewardClaimType = OpFieldRewardClaimType"
  by code_simp+

end
