(* ===== verification/Sha256.thy ===== *)
theory Sha256
  imports Go_Strings
begin

text \<open>
  Go's \<^verbatim>\<open>crypto/sha256.Sum256\<close> (FIPS 180-4), which the proof hashes, the transaction ids and the block
  hashes use. It is written out so that the model computes the same digests as the program; no theorem depends
  on more than the length of a digest.
\<close>

definition rotr :: "nat \<Rightarrow> u32 \<Rightarrow> u32" where
  "rotr n x = (drop_bit n x) OR (push_bit (32 - n) x)"

definition sha_K :: "u32 list" where
  "sha_K =
    [1116352408, 1899447441, 3049323471, 3921009573, 961987163, 1508970993, 2453635748, 2870763221,
     3624381080, 310598401, 607225278, 1426881987, 1925078388, 2162078206, 2614888103, 3248222580,
     3835390401, 4022224774, 264347078, 604807628, 770255983, 1249150122, 1555081692, 1996064986,
     2554220882, 2821834349, 2952996808, 3210313671, 3336571891, 3584528711, 113926993, 338241895,
     666307205, 773529912, 1294757372, 1396182291, 1695183700, 1986661051, 2177026350, 2456956037,
     2730485921, 2820302411, 3259730800, 3345764771, 3516065817, 3600352804, 4094571909, 275423344,
     430227734, 506948616, 659060556, 883997877, 958139571, 1322822218, 1537002063, 1747873779,
     1955562222, 2024104815, 2227730452, 2361852424, 2428436474, 2756734187, 3204031479, 3329325298]"

definition sha_H0 :: "u32 list" where
  "sha_H0 = [1779033703, 3144134277, 1013904242, 2773480762, 1359893119, 2600822924, 528734635, 1541459225]"

definition be_u32 :: "byte list \<Rightarrow> u32" where
  "be_u32 bs = foldl (\<lambda>acc b. push_bit 8 acc OR ucast b) 0 bs"

definition u32_be :: "u32 \<Rightarrow> byte list" where
  "u32_be w = [ucast (drop_bit 24 w), ucast (drop_bit 16 w), ucast (drop_bit 8 w), ucast w]"

fun chunks :: "nat \<Rightarrow> nat \<Rightarrow> 'a list \<Rightarrow> 'a list list" where
  "chunks 0 k xs = []"
| "chunks (Suc n) k xs = take k xs # chunks n k (drop k xs)"

definition sha_pad :: "byte list \<Rightarrow> byte list" where
  "sha_pad m =
     (let n = length m in
      m @ [0x80] @ replicate ((119 - n mod 64) mod 64) 0 @ rev (le_encode 8 (8 * n)))"

text \<open>The schedule, most recent word first.\<close>

fun sha_extend :: "nat \<Rightarrow> u32 list \<Rightarrow> u32 list" where
  "sha_extend 0 ws = ws"
| "sha_extend (Suc k) ws =
     (let w2 = ws ! 1; w7 = ws ! 6; w15 = ws ! 14; w16 = ws ! 15;
          s0 = rotr 7 w15 XOR rotr 18 w15 XOR drop_bit 3 w15;
          s1 = rotr 17 w2 XOR rotr 19 w2 XOR drop_bit 10 w2
      in sha_extend k ((w16 + s0 + w7 + s1) # ws))"

fun sha_rounds :: "(u32 \<times> u32) list \<Rightarrow> u32 list \<Rightarrow> u32 list" where
  "sha_rounds ((k, w) # kws) [a, b, c, d, e, f, g, h] =
     (let t1 = h + (rotr 6 e XOR rotr 11 e XOR rotr 25 e) + ((e AND f) XOR ((NOT e) AND g)) + k + w;
          t2 = (rotr 2 a XOR rotr 13 a XOR rotr 22 a) + ((a AND b) XOR (a AND c) XOR (b AND c))
      in sha_rounds kws [t1 + t2, a, b, c, d + t1, e, f, g])"
| "sha_rounds _ s = s"

definition sha_block :: "u32 list \<Rightarrow> byte list \<Rightarrow> u32 list" where
  "sha_block hs blk =
     (let ws = rev (sha_extend 48 (rev (map be_u32 (chunks 16 4 blk))))
      in map (\<lambda>(x, y). x + y) (zip hs (sha_rounds (zip sha_K ws) hs)))"

definition Sum256 :: "byte list \<Rightarrow> byte list" where
  "Sum256 m =
     (let p = sha_pad m
      in concat (map u32_be (foldl sha_block sha_H0 (chunks (length p div 64) 64 p))))"

lemma length_sha_rounds: "length s = 8 \<Longrightarrow> length (sha_rounds kws s) = 8"
  by (induction kws s rule: sha_rounds.induct) (simp_all add: Let_def)

lemma length_sha_block: "length hs = 8 \<Longrightarrow> length (sha_block hs blk) = 8"
  by (simp add: sha_block_def Let_def length_sha_rounds)

lemma length_sha_blocks: "length hs = 8 \<Longrightarrow> length (foldl sha_block hs blks) = 8"
  by (induction blks arbitrary: hs) (simp_all add: length_sha_block)

lemma length_concat_u32_be: "length (concat (map u32_be ws)) = 4 * length ws"
  by (induction ws) (simp_all add: u32_be_def)

lemma length_Sum256 [simp]: "length (Sum256 m) = 32"
proof -
  have "length (foldl sha_block sha_H0 bs) = 8" for bs
    by (rule length_sha_blocks) (simp add: sha_H0_def)
  then show ?thesis by (simp add: Sum256_def Let_def length_concat_u32_be)
qed

end
