(* ===== verification/ProofValidity.thy ===== *)
theory ProofValidity
  imports Config Sha256 GoMap "HOL-Library.Product_Lexorder"
begin

text \<open>
  \<^verbatim>\<open>internal/component/pg/stake_proofs.go\<close>: the table of submitted stake proofs, the resolution of the
  proofs of one prove height into valid, delayed, duplicate, wrong and expired ones, and the write-back of the
  resolved status. The table is the list of its rows, unique in the transaction id. A Go map is iterated in
  arbitrary order: the resolution takes the order as the parameter \<open>ord\<close>, a rearrangement of the map's entries.
  The nested map \<^verbatim>\<open>groupsByIndexerHash\<close> is kept flat, keyed by indexer and hash.
\<close>

section \<open>Data\<close>

record StakeProof =
  sp_IndexerID :: string
  sp_ProveBlockHeight :: u32
  sp_ProveDataHash :: string
  sp_TxID :: string
  sp_Height :: u32
  sp_TxIdx :: u32
  sp_VerifyStatus :: int

definition StakeProofVerifyValid :: int where "StakeProofVerifyValid = 1"
definition StakeProofVerifyInvalidHash :: int where "StakeProofVerifyInvalidHash = 2"
definition StakeProofVerifyInvalidDuplicate :: int where "StakeProofVerifyInvalidDuplicate = 3"
definition StakeProofVerifyValidDelayed :: int where "StakeProofVerifyValidDelayed = 4"
definition StakeProofVerifyExpired :: int where "StakeProofVerifyExpired = 5"

lemmas verify_status_defs = StakeProofVerifyValid_def StakeProofVerifyInvalidHash_def
  StakeProofVerifyInvalidDuplicate_def StakeProofVerifyValidDelayed_def StakeProofVerifyExpired_def

record StakeProofValidityRules =
  r_DelaySubmitTriggerBlocks :: u32
  r_DelaySubmitStage2StepBlocks :: u32
  r_DelaySubmitStage2StepPercent :: u64
  r_DelaySubmitStage3Blocks :: "u32 list"
  r_Stage2StartHeight :: u32
  r_Stage3StartHeight :: u32

datatype proof_error = BlockHashEmpty | StateHashEmpty

section \<open>The table\<close>

definition upsertStakeProof :: "StakeProof list \<Rightarrow> StakeProof \<Rightarrow> StakeProof list" where
  "upsertStakeProof table p =
     (let row = p\<lparr>sp_VerifyStatus := 0\<rparr> in
      if sp_TxID p \<in> set (map sp_TxID table)
      then map (\<lambda>r. if sp_TxID r = sp_TxID p then row else r) table
      else table @ [row])"

definition ListStakeProofByProveHeight :: "StakeProof list \<Rightarrow> u32 \<Rightarrow> u32 \<Rightarrow> StakeProof list" where
  "ListStakeProofByProveHeight table proveBlockHeight proofWindow =
     rev (sort_key (\<lambda>p. (sp_Height p, sp_TxIdx p, sp_TxID p))
       (filter (\<lambda>p. sp_ProveBlockHeight p = proveBlockHeight \<and> sp_Height p > proveBlockHeight \<and>
                    sp_Height p \<le> proveBlockHeight + proofWindow) table))"

definition isProofLater :: "StakeProof \<Rightarrow> StakeProof \<Rightarrow> bool" where
  "isProofLater a b =
     (if sp_Height a \<noteq> sp_Height b then sp_Height a > sp_Height b
      else if sp_TxIdx a \<noteq> sp_TxIdx b then sp_TxIdx a > sp_TxIdx b
      else sp_TxID a > sp_TxID b)"

definition isProofEarlier :: "StakeProof \<Rightarrow> StakeProof \<Rightarrow> bool" where
  "isProofEarlier a b =
     (if sp_Height a \<noteq> sp_Height b then sp_Height a < sp_Height b
      else if sp_TxIdx a \<noteq> sp_TxIdx b then sp_TxIdx a < sp_TxIdx b
      else sp_TxID a < sp_TxID b)"

section \<open>The status a canonical proof earns\<close>

definition shouldApplyDelaySubmitPenalty :: "StakeProof \<Rightarrow> u32 \<Rightarrow> bool" where
  "shouldApplyDelaySubmitPenalty p delaySubmitTriggerBlocks =
     (if delaySubmitTriggerBlocks = 0 then False
      else if sp_Height p \<le> sp_ProveBlockHeight p then False
      else sp_Height p - sp_ProveBlockHeight p > delaySubmitTriggerBlocks)"

definition resolveStage2StakeProofStatus :: "StakeProof \<Rightarrow> StakeProofValidityRules \<Rightarrow> int" where
  "resolveStage2StakeProofStatus p rules =
     (let stepBlocks = r_DelaySubmitStage2StepBlocks rules;
          stepPercent = r_DelaySubmitStage2StepPercent rules in
      if sp_Height p \<le> sp_ProveBlockHeight p \<or> stepBlocks = 0 \<or> stepPercent = 0 then StakeProofVerifyValid
      else let delayedBlocks = sp_Height p - sp_ProveBlockHeight p;
               steps = (ucast ((delayedBlocks - 1) div stepBlocks) :: u64);
               penaltyPercent = steps * stepPercent in
        if penaltyPercent \<ge> 100 then StakeProofVerifyExpired
        else if penaltyPercent > 0 then StakeProofVerifyValidDelayed
        else StakeProofVerifyValid)"

definition resolveStage3StakeProofStatus :: "StakeProof \<Rightarrow> u32 list \<Rightarrow> int" where
  "resolveStage3StakeProofStatus p stage3Blocks =
     (if sp_Height p \<le> sp_ProveBlockHeight p then StakeProofVerifyValid
      else let stage3Blocks = (if length stage3Blocks \<noteq> 7 then [720, 840, 960, 1080, 1200, 1320, 1440]
                               else stage3Blocks);
               delayedBlocks = sp_Height p - sp_ProveBlockHeight p in
        if delayedBlocks > stage3Blocks ! 6 then StakeProofVerifyExpired
        else if delayedBlocks > stage3Blocks ! 0 then StakeProofVerifyValidDelayed
        else StakeProofVerifyValid)"

definition resolveValidStakeProofStatus :: "StakeProof \<Rightarrow> StakeProofValidityRules \<Rightarrow> int" where
  "resolveValidStakeProofStatus p rules =
     (if r_Stage3StartHeight rules > 0 \<and> sp_ProveBlockHeight p \<ge> r_Stage3StartHeight rules
      then resolveStage3StakeProofStatus p (r_DelaySubmitStage3Blocks rules)
      else if r_Stage2StartHeight rules > 0 \<and> sp_ProveBlockHeight p \<ge> r_Stage2StartHeight rules
      then resolveStage2StakeProofStatus p rules
      else if shouldApplyDelaySubmitPenalty p (r_DelaySubmitTriggerBlocks rules) then StakeProofVerifyValidDelayed
      else StakeProofVerifyValid)"

definition computeStakeProofHash :: "string \<Rightarrow> string \<Rightarrow> string \<Rightarrow> string" where
  "computeStakeProofHash indexerID blockHash stateHash =
     hex_encode (Sum256 (bytes_of_string
       (ToLower (TrimSpace indexerID) @ '':'' @ ToLower (TrimSpace blockHash) @ '':'' @
        ToLower (TrimSpace stateHash))))"

section \<open>Resolution\<close>

record hashGroup =
  latest :: "StakeProof option"
  duplicates :: "StakeProof list"

type_synonym group_key = "string \<times> string"
type_synonym groups = "(group_key \<times> hashGroup) list"

definition proof_key :: "StakeProof \<Rightarrow> group_key" where
  "proof_key p = (sp_IndexerID p, sp_ProveDataHash p)"

definition group_add :: "hashGroup \<Rightarrow> StakeProof \<Rightarrow> hashGroup" where
  "group_add g p = (case latest g of
      None \<Rightarrow> g\<lparr>latest := Some p\<rparr>
    | Some l \<Rightarrow>
        if isProofEarlier p l then g\<lparr>duplicates := duplicates g @ [l], latest := Some p\<rparr>
        else g\<lparr>duplicates := duplicates g @ [p]\<rparr>)"

fun groups_add :: "groups \<Rightarrow> StakeProof \<Rightarrow> groups" where
  "groups_add [] p = [(proof_key p, group_add \<lparr>latest = None, duplicates = []\<rparr> p)]"
| "groups_add ((k, g) # gs) p =
     (if k = proof_key p then (k, group_add g p) # gs else (k, g) # groups_add gs p)"

type_synonym updates = "string \<rightharpoonup> int"

definition mark_all :: "int \<Rightarrow> StakeProof list \<Rightarrow> updates \<Rightarrow> updates" where
  "mark_all status ps updates = foldl (\<lambda>u d. u(sp_TxID d \<mapsto> status)) updates ps"

definition resolve_group ::
    "string \<Rightarrow> string \<Rightarrow> StakeProofValidityRules \<Rightarrow> StakeProof list \<times> updates \<Rightarrow> group_key \<times> hashGroup
       \<Rightarrow> StakeProof list \<times> updates" where
  "resolve_group blockHash stateHash rules st entry =
     (case st of (validProofs, updates) \<Rightarrow> case entry of ((indexerID, hash), grp) \<Rightarrow>
      case latest grp of
        None \<Rightarrow> (validProofs, updates)
      | Some l \<Rightarrow>
        (let latestStatus = resolveValidStakeProofStatus l rules in
         if EqualFold hash (computeStakeProofHash indexerID blockHash stateHash) then
           ((if latestStatus \<noteq> StakeProofVerifyExpired then validProofs @ [l\<lparr>sp_VerifyStatus := latestStatus\<rparr>]
             else validProofs),
            mark_all StakeProofVerifyInvalidDuplicate (duplicates grp) (updates(sp_TxID l \<mapsto> latestStatus)))
         else
           (validProofs,
            mark_all StakeProofVerifyInvalidHash (duplicates grp)
              (updates(sp_TxID l \<mapsto> StakeProofVerifyInvalidHash)))))"

definition resolveStakeProofValidity ::
    "(groups \<Rightarrow> groups) \<Rightarrow> StakeProof list \<Rightarrow> string \<Rightarrow> string \<Rightarrow> StakeProofValidityRules
       \<Rightarrow> proof_error + StakeProof list \<times> updates" where
  "resolveStakeProofValidity ord proofs blockHash0 stateHash0 rules =
     (let blockHash = ToLower (TrimSpace blockHash0); stateHash = ToLower (TrimSpace stateHash0) in
      if blockHash = '''' then Inl BlockHashEmpty
      else if stateHash = '''' then Inl StateHashEmpty
      else
        let groupsByIndexerHash = foldl groups_add [] proofs in
        Inr (foldl (resolve_group blockHash stateHash rules) ([], Map.empty) (ord groupsByIndexerHash)))"

text \<open>The \<^verbatim>\<open>UPDATE stake_proofs SET verify_status = $1 WHERE txid = $2\<close> statements of the transaction; a row whose
  listed status is already the resolved one is skipped.\<close>

definition write_status :: "StakeProof list \<Rightarrow> updates \<Rightarrow> StakeProof list \<Rightarrow> StakeProof list" where
  "write_status proofs updates table =
     map (\<lambda>r. case updates (sp_TxID r) of
         None \<Rightarrow> r
       | Some s \<Rightarrow>
           if (\<exists>c \<in> set proofs. sp_TxID c = sp_TxID r \<and> sp_VerifyStatus c = s) then r
           else r\<lparr>sp_VerifyStatus := s\<rparr>) table"

definition resolveStakeProofValidityByProveHeight ::
    "(groups \<Rightarrow> groups) \<Rightarrow> StakeProof list \<Rightarrow> u32 \<Rightarrow> u32 \<Rightarrow> string \<Rightarrow> string \<Rightarrow> StakeProofValidityRules \<Rightarrow> bool
       \<Rightarrow> proof_error + StakeProof list \<times> StakeProof list" where
  "resolveStakeProofValidityByProveHeight ord table proveBlockHeight proofWindow blockHash stateHash rules readOnly =
     (let proofs = ListStakeProofByProveHeight table proveBlockHeight proofWindow in
      if proofs = [] then Inr ([], table)
      else case resolveStakeProofValidity ord proofs blockHash stateHash rules of
        Inl e \<Rightarrow> Inl e
      | Inr (validProofs, updates) \<Rightarrow>
          if readOnly then Inr (validProofs, table)
          else Inr (validProofs, write_status proofs updates table))"


section \<open>A strict order that is total on keys has a unique earliest element\<close>

locale canonical_choice =
  fixes earlier :: "'a \<Rightarrow> 'a \<Rightarrow> bool" and key :: "'a \<Rightarrow> 'k"
  assumes earlier_irrefl: "\<not> earlier a a"
    and earlier_trans: "earlier a b \<Longrightarrow> earlier b c \<Longrightarrow> earlier a c"
    and earlier_total: "key a \<noteq> key b \<Longrightarrow> earlier a b \<or> earlier b a"
begin

definition earliest :: "'a \<Rightarrow> 'a set \<Rightarrow> bool" where
  "earliest p S \<longleftrightarrow> p \<in> S \<and> (\<forall>q \<in> S. q \<noteq> p \<longrightarrow> earlier p q)"

lemma earliest_singleton: "earliest p {p}"
  by (simp add: earliest_def)

lemma earliest_insert:
  assumes "earliest l S" "key p \<notin> key ` S"
  shows "earliest (if earlier p l then p else l) (insert p S)"
proof -
  have "key p \<noteq> key l" using assms by (auto simp: earliest_def)
  then have "earlier p l \<or> earlier l p" by (rule earlier_total)
  moreover have "earlier p q" if "earlier p l" "q \<in> S" for q
    using that assms(1) earlier_trans [of p l q] by (cases "q = l") (simp_all add: earliest_def)
  ultimately show ?thesis using assms(1) by (auto simp: earliest_def)
qed

lemma earliest_unique:
  assumes "earliest p S" "earliest q S"
  shows "p = q"
proof (rule ccontr)
  assume "p \<noteq> q"
  then have "earlier p q" "earlier q p" using assms by (auto simp: earliest_def)
  then show False using earlier_trans [of p q p] earlier_irrefl by simp
qed

lemma earliest_exists:
  assumes "finite S" "S \<noteq> {}" "inj_on key S"
  shows "\<exists>p. earliest p S"
  using assms
proof (induction S rule: finite_ne_induct)
  case (singleton x)
  then show ?case using earliest_singleton by blast
next
  case (insert x F)
  then obtain l where "earliest l F" by (auto simp: inj_on_insert)
  moreover have "key x \<notin> key ` F" using insert by (auto simp: inj_on_insert)
  ultimately show ?case using earliest_insert by blast
qed

end

interpretation proofs: canonical_choice isProofEarlier sp_TxID
proof
  fix a b c :: StakeProof
  show "\<not> isProofEarlier a a" by (simp add: isProofEarlier_def)
  show "isProofEarlier a b \<Longrightarrow> isProofEarlier b c \<Longrightarrow> isProofEarlier a c"
    by (auto simp: isProofEarlier_def split: if_splits)
  show "sp_TxID a \<noteq> sp_TxID b \<Longrightarrow> isProofEarlier a b \<or> isProofEarlier b a"
    by (auto simp: isProofEarlier_def)
qed

lemma isProofLater_converse: "isProofLater a b = isProofEarlier b a"
  by (simp add: isProofLater_def isProofEarlier_def eq_commute)

section \<open>Grouping\<close>

definition members :: "hashGroup \<Rightarrow> StakeProof list" where
  "members g = (case latest g of None \<Rightarrow> [] | Some l \<Rightarrow> [l]) @ duplicates g"

definition all_members :: "groups \<Rightarrow> StakeProof list" where
  "all_members gs = concat (map (members \<circ> snd) gs)"

definition group_ok :: "group_key \<times> hashGroup \<Rightarrow> bool" where
  "group_ok e \<longleftrightarrow> (\<exists>l. latest (snd e) = Some l \<and> proofs.earliest l (set (members (snd e)))) \<and>
     (\<forall>p \<in> set (members (snd e)). proof_key p = fst e)"

lemma members_group_add: "mset (members (group_add g p)) = add_mset p (mset (members g))"
  by (simp add: members_def group_add_def split: option.split)

lemma set_members_group_add: "set (members (group_add g p)) = insert p (set (members g))"
  using arg_cong [OF members_group_add, of set_mset g p] by simp

lemma all_members_groups_add: "mset (all_members (groups_add gs p)) = add_mset p (mset (all_members gs))"
  by (induction gs p rule: groups_add.induct)
    (simp_all add: all_members_def members_group_add, simp add: members_def)

lemma groups_add_keys:
  "set (map fst (groups_add gs p)) = insert (proof_key p) (set (map fst gs))"
  "distinct (map fst gs) \<Longrightarrow> distinct (map fst (groups_add gs p))"
proof -
  show "set (map fst (groups_add gs p)) = insert (proof_key p) (set (map fst gs))"
    by (induction gs p rule: groups_add.induct) auto
  then show "distinct (map fst gs) \<Longrightarrow> distinct (map fst (groups_add gs p))"
  proof (induction gs p rule: groups_add.induct)
    case (2 k g gs p)
    have "set (map fst (groups_add gs p)) = insert (proof_key p) (set (map fst gs))"
      by (induction gs p rule: groups_add.induct) auto
    with 2 show ?case by auto
  qed simp
qed

lemma group_ok_empty: "group_ok (proof_key p, group_add \<lparr>latest = None, duplicates = []\<rparr> p)"
  by (simp add: group_ok_def group_add_def members_def proofs.earliest_singleton)

lemma group_ok_add:
  assumes "group_ok (k, g)" "proof_key p = k" "sp_TxID p \<notin> sp_TxID ` set (members g)"
  shows "group_ok (k, group_add g p)"
proof -
  obtain l where l: "latest g = Some l" "proofs.earliest l (set (members g))"
    using assms(1) by (auto simp: group_ok_def)
  have "latest (group_add g p) = Some (if isProofEarlier p l then p else l)"
    using l(1) by (simp add: group_add_def)
  with proofs.earliest_insert [OF l(2) assms(3)] assms(1,2) show ?thesis
    by (simp add: group_ok_def set_members_group_add)
qed

lemma groups_add_ok:
  "list_all group_ok gs \<Longrightarrow> sp_TxID p \<notin> sp_TxID ` set (all_members gs) \<Longrightarrow>
     list_all group_ok (groups_add gs p)"
proof (induction gs p rule: groups_add.induct)
  case (1 p)
  then show ?case by (simp add: group_ok_empty)
next
  case (2 k g gs p)
  from "2.prems" have n: "sp_TxID p \<notin> sp_TxID ` set (members g)" "sp_TxID p \<notin> sp_TxID ` set (all_members gs)"
    by (simp_all add: all_members_def image_Un)
  show ?case
  proof (cases "k = proof_key p")
    case True
    have "group_ok (k, group_add g p)"
      by (rule group_ok_add [OF _ True [symmetric] n(1)]) (use "2.prems"(1) in simp)
    with "2.prems"(1) True show ?thesis by simp
  next
    case False
    with "2.prems"(1) "2.IH" n(2) show ?thesis by simp
  qed
qed

definition groups_of :: "StakeProof list \<Rightarrow> groups" where
  "groups_of ps = foldl groups_add [] ps"

lemma groups_of_snoc [simp]: "groups_of (ps @ [p]) = groups_add (groups_of ps) p"
  by (simp add: groups_of_def)

lemma mset_groups_of: "mset (all_members (groups_of ps)) = mset ps"
  by (induction ps rule: rev_induct) (simp_all add: all_members_groups_add, simp add: groups_of_def all_members_def)

lemma set_groups_of: "set (all_members (groups_of ps)) = set ps"
  using mset_groups_of by (metis set_mset_mset)

lemma distinct_groups_of: "distinct (map fst (groups_of ps))"
  by (induction ps rule: rev_induct) (simp_all add: groups_add_keys, simp add: groups_of_def)

lemma groups_of_ok: "distinct (map sp_TxID ps) \<Longrightarrow> list_all group_ok (groups_of ps)"
proof (induction ps rule: rev_induct)
  case Nil
  then show ?case by (simp add: groups_of_def)
next
  case (snoc p ps)
  then show ?case by (auto simp: set_groups_of intro!: groups_add_ok)
qed


section \<open>What the resolution decides\<close>

text \<open>The status of one submitted proof among all proofs for its prove height.\<close>

definition proof_status ::
    "string \<Rightarrow> string \<Rightarrow> StakeProofValidityRules \<Rightarrow> StakeProof list \<Rightarrow> StakeProof \<Rightarrow> int" where
  "proof_status blockHash stateHash rules proofs p =
     (if \<not> EqualFold (sp_ProveDataHash p) (computeStakeProofHash (sp_IndexerID p) blockHash stateHash)
      then StakeProofVerifyInvalidHash
      else if list_all (\<lambda>q. proof_key q = proof_key p \<and> q \<noteq> p \<longrightarrow> isProofEarlier p q) proofs
      then resolveValidStakeProofStatus p rules
      else StakeProofVerifyInvalidDuplicate)"

definition reward_status :: "int \<Rightarrow> bool" where
  "reward_status s \<longleftrightarrow> s = StakeProofVerifyValid \<or> s = StakeProofVerifyValidDelayed"

definition entry_writes ::
    "string \<Rightarrow> string \<Rightarrow> StakeProofValidityRules \<Rightarrow> group_key \<times> hashGroup \<Rightarrow> (string \<times> int) list" where
  "entry_writes bh sh rules e =
     (case latest (snd e) of None \<Rightarrow> []
      | Some l \<Rightarrow>
          if EqualFold (snd (fst e)) (computeStakeProofHash (fst (fst e)) bh sh)
          then (sp_TxID l, resolveValidStakeProofStatus l rules) #
               map (\<lambda>d. (sp_TxID d, StakeProofVerifyInvalidDuplicate)) (duplicates (snd e))
          else (sp_TxID l, StakeProofVerifyInvalidHash) #
               map (\<lambda>d. (sp_TxID d, StakeProofVerifyInvalidHash)) (duplicates (snd e)))"

definition entry_valid ::
    "string \<Rightarrow> string \<Rightarrow> StakeProofValidityRules \<Rightarrow> group_key \<times> hashGroup \<Rightarrow> StakeProof list" where
  "entry_valid bh sh rules e =
     (case latest (snd e) of None \<Rightarrow> []
      | Some l \<Rightarrow>
          if EqualFold (snd (fst e)) (computeStakeProofHash (fst (fst e)) bh sh) \<and>
             resolveValidStakeProofStatus l rules \<noteq> StakeProofVerifyExpired
          then [l\<lparr>sp_VerifyStatus := resolveValidStakeProofStatus l rules\<rparr>] else [])"

definition put_all :: "(string \<times> int) list \<Rightarrow> updates \<Rightarrow> updates" where
  "put_all ws u = foldl (\<lambda>u (t, s). u(t \<mapsto> s)) u ws"

lemma put_all_append: "put_all (ws @ vs) u = put_all vs (put_all ws u)"
  by (simp add: put_all_def)

lemma mark_all_put_all: "mark_all s ps u = put_all (map (\<lambda>d. (sp_TxID d, s)) ps) u"
  by (induction ps arbitrary: u) (simp_all add: mark_all_def put_all_def)

lemma put_all_Cons: "put_all ((t, s) # ws) u = put_all ws (u(t \<mapsto> s))"
  by (simp add: put_all_def)

lemma put_all_distinct:
  "distinct (map fst ws) \<Longrightarrow> put_all ws u = u ++ map_of ws"
proof (induction ws arbitrary: u)
  case Nil
  then show ?case by (simp add: put_all_def)
next
  case (Cons w ws)
  obtain t s where w: "w = (t, s)" by (cases w)
  have "map_of ws t = None" using Cons.prems w by (simp add: map_of_eq_None_iff)
  with Cons w show ?case by (auto simp: put_all_Cons map_add_def split: option.split)
qed

lemma resolve_group_emits:
  "resolve_group bh sh rules (v, u) e = (v @ entry_valid bh sh rules e, put_all (entry_writes bh sh rules e) u)"
  by (cases e) (auto simp: resolve_group_def entry_valid_def entry_writes_def mark_all_put_all put_all_Cons Let_def
      put_all_def split: option.split)

lemma resolve_groups_emit:
  "foldl (resolve_group bh sh rules) (v, u) es =
     (v @ concat (map (entry_valid bh sh rules) es), put_all (concat (map (entry_writes bh sh rules) es)) u)"
proof (induction es arbitrary: v u)
  case Nil
  then show ?case by (simp add: put_all_def)
next
  case (Cons e es)
  then show ?case by (simp add: resolve_group_emits put_all_append)
qed

lemma resolveValid_statuses:
  "resolveValidStakeProofStatus p rules \<in>
     {StakeProofVerifyValid, StakeProofVerifyValidDelayed, StakeProofVerifyExpired}"
  by (simp add: resolveValidStakeProofStatus_def resolveStage3StakeProofStatus_def resolveStage2StakeProofStatus_def
      Let_def)

lemma group_members_iff:
  assumes d: "distinct (map sp_TxID ps)" and e: "e \<in> set (groups_of ps)"
  shows "set (members (snd e)) = {q \<in> set ps. proof_key q = fst e}"
proof -
  have ok: "group_ok e'" if "e' \<in> set (groups_of ps)" for e'
    using groups_of_ok [OF d] that by (simp add: list_all_iff)
  have "set (members (snd e)) \<subseteq> {q \<in> set ps. proof_key q = fst e}"
    using e ok [OF e] set_groups_of [of ps] by (auto simp: group_ok_def all_members_def)
  moreover have "q \<in> set (members (snd e))" if q: "q \<in> set ps" "proof_key q = fst e" for q
  proof -
    obtain e' where e': "e' \<in> set (groups_of ps)" "q \<in> set (members (snd e'))"
      using q(1) unfolding set_groups_of [of ps, symmetric] by (auto simp: all_members_def)
    then have "fst e' = fst e" using ok [OF e'(1)] q(2) by (simp add: group_ok_def)
    then have "e' = e" using distinct_groups_of [of ps] e e'(1) by (simp add: distinct_map inj_on_def)
    with e'(2) show ?thesis by simp
  qed
  ultimately show ?thesis by blast
qed


lemma entry_status:
  assumes d: "distinct (map sp_TxID ps)" and e: "e \<in> set (groups_of ps)"
  shows "entry_writes bh sh rules e =
      map (\<lambda>p. (sp_TxID p, proof_status bh sh rules ps p)) (members (snd e))"
    and "entry_valid bh sh rules e =
      map (\<lambda>p. p\<lparr>sp_VerifyStatus := proof_status bh sh rules ps p\<rparr>)
        (filter (\<lambda>p. reward_status (proof_status bh sh rules ps p)) (members (snd e)))"
proof -
  let ?st = "proof_status bh sh rules ps"
  note M = group_members_iff [OF d e]
  have "group_ok e" using groups_of_ok [OF d] e by (simp add: list_all_iff)
  then obtain l where l: "latest (snd e) = Some l" "proofs.earliest l (set (members (snd e)))"
    and k: "\<And>p. p \<in> set (members (snd e)) \<Longrightarrow> sp_IndexerID p = fst (fst e) \<and> sp_ProveDataHash p = snd (fst e)"
    by (cases e) (auto simp: group_ok_def proof_key_def)
  have mem: "members (snd e) = l # duplicates (snd e)" using l(1) by (simp add: members_def)
  have dm: "distinct (members (snd e))"
  proof -
    have "distinct (all_members (groups_of ps))"
      using d mset_groups_of [of ps] by (metis distinct_map mset_eq_imp_distinct_iff)
    with e show ?thesis by (auto simp: all_members_def distinct_concat_iff)
  qed
  have first: "list_all (\<lambda>q. proof_key q = proof_key p \<and> q \<noteq> p \<longrightarrow> isProofEarlier p q) ps \<longleftrightarrow> p = l"
    if p: "p \<in> set (members (snd e))" for p
  proof -
    have "list_all (\<lambda>q. proof_key q = proof_key p \<and> q \<noteq> p \<longrightarrow> isProofEarlier p q) ps \<longleftrightarrow>
        proofs.earliest p (set (members (snd e)))"
      using p unfolding proofs.earliest_def M list_all_iff by auto
    with l(2) proofs.earliest_unique show ?thesis by blast
  qed
  have "l \<in> set (members (snd e))" by (simp add: mem)
  then have sl: "?st l = (if EqualFold (snd (fst e)) (computeStakeProofHash (fst (fst e)) bh sh)
      then resolveValidStakeProofStatus l rules else StakeProofVerifyInvalidHash)"
    using first k by (simp add: proof_status_def)
  have sd: "?st p = (if EqualFold (snd (fst e)) (computeStakeProofHash (fst (fst e)) bh sh)
      then StakeProofVerifyInvalidDuplicate else StakeProofVerifyInvalidHash)"
    if "p \<in> set (duplicates (snd e))" for p
  proof -
    have "p \<in> set (members (snd e))" "p \<noteq> l" using that dm by (auto simp: mem)
    with first k show ?thesis by (simp add: proof_status_def)
  qed
  show "entry_writes bh sh rules e = map (\<lambda>p. (sp_TxID p, ?st p)) (members (snd e))"
    using sd by (simp add: entry_writes_def l(1) mem sl)
  have "filter (\<lambda>p. reward_status (?st p)) (duplicates (snd e)) = []"
    using sd by (simp add: filter_empty_conv reward_status_def verify_status_defs)
  then show "entry_valid bh sh rules e =
      map (\<lambda>p. p\<lparr>sp_VerifyStatus := ?st p\<rparr>) (filter (\<lambda>p. reward_status (?st p)) (members (snd e)))"
    using resolveValid_statuses [of l rules]
    by (auto simp: entry_valid_def l(1) mem sl reward_status_def verify_status_defs)
qed

lemma resolve_emits:
  assumes d: "distinct (map sp_TxID ps)" and o: "map_order ord"
    and r: "resolveStakeProofValidity ord ps blockHash stateHash rules = Inr (valid, updates)"
  defines "st \<equiv> proof_status (ToLower (TrimSpace blockHash)) (ToLower (TrimSpace stateHash)) rules ps"
  obtains qs where "mset qs = mset ps"
    "valid = map (\<lambda>p. p\<lparr>sp_VerifyStatus := st p\<rparr>) (filter (\<lambda>p. reward_status (st p)) qs)"
    "updates = map_of (map (\<lambda>p. (sp_TxID p, st p)) qs)"
proof -
  let ?bh = "ToLower (TrimSpace blockHash)" and ?sh = "ToLower (TrimSpace stateHash)"
  let ?es = "ord (groups_of ps)"
  have m: "mset ?es = mset (groups_of ps)" using o by (simp add: map_order_def)
  then have es: "set ?es = set (groups_of ps)" by (metis set_mset_mset)
  have "mset (all_members ?es) = mset (all_members (groups_of ps))"
    using m by (simp add: all_members_def mset_concat mset_map flip: sum_mset_sum_list)
  then have q: "mset (all_members ?es) = mset ps" by (simp add: mset_groups_of)
  have "concat (map (entry_writes ?bh ?sh rules) ?es) = concat (map (\<lambda>e. map (\<lambda>p. (sp_TxID p, st p)) (members (snd e))) ?es)"
    by (rule arg_cong [of _ _ concat]) (simp add: es entry_status(1) [OF d] st_def)
  then have w: "concat (map (entry_writes ?bh ?sh rules) ?es) = map (\<lambda>p. (sp_TxID p, st p)) (all_members ?es)"
    by (simp add: all_members_def map_concat comp_def)
  have "concat (map (entry_valid ?bh ?sh rules) ?es) =
      concat (map (\<lambda>e. map (\<lambda>p. p\<lparr>sp_VerifyStatus := st p\<rparr>) (filter (\<lambda>p. reward_status (st p)) (members (snd e)))) ?es)"
    by (rule arg_cong [of _ _ concat]) (simp add: es entry_status(2) [OF d] st_def)
  then have v: "concat (map (entry_valid ?bh ?sh rules) ?es) =
      map (\<lambda>p. p\<lparr>sp_VerifyStatus := st p\<rparr>) (filter (\<lambda>p. reward_status (st p)) (all_members ?es))"
    by (simp add: all_members_def map_concat filter_concat comp_def)
  have "distinct (map sp_TxID (all_members ?es))"
    using d q by (metis mset_eq_imp_distinct_iff mset_map)
  then have "put_all (map (\<lambda>p. (sp_TxID p, st p)) (all_members ?es)) Map.empty =
      map_of (map (\<lambda>p. (sp_TxID p, st p)) (all_members ?es))"
    by (subst put_all_distinct) (simp_all add: comp_def)
  with r w v have "valid = map (\<lambda>p. p\<lparr>sp_VerifyStatus := st p\<rparr>) (filter (\<lambda>p. reward_status (st p)) (all_members ?es))"
    "updates = map_of (map (\<lambda>p. (sp_TxID p, st p)) (all_members ?es))"
    by (auto simp: resolveStakeProofValidity_def resolve_groups_emit Let_def groups_of_def split: if_splits)
  with q that show thesis by blast
qed


lemma resolved_facts:
  assumes d: "distinct (map sp_TxID ps)" and q: "mset qs = mset ps"
    "valid = map (\<lambda>p. p\<lparr>sp_VerifyStatus := st p\<rparr>) (filter (\<lambda>p. reward_status (st p)) qs)"
    "updates = map_of (map (\<lambda>p. (sp_TxID p, st p)) qs)"
  shows "dom updates = sp_TxID ` set ps"
    and "\<forall>p \<in> set ps. updates (sp_TxID p) = Some (st p)"
    and "set valid = (\<lambda>p. p\<lparr>sp_VerifyStatus := st p\<rparr>) ` {p \<in> set ps. reward_status (st p)}"
    and "distinct (map sp_TxID valid)"
proof -
  have qs: "set qs = set ps" "distinct (map sp_TxID qs)"
    using q(1) d by (metis set_mset_mset, metis mset_eq_imp_distinct_iff mset_map)
  show "dom updates = sp_TxID ` set ps"
    by (simp add: q(3) dom_map_of_conv_image_fst qs(1) image_image)
  show "\<forall>p \<in> set ps. updates (sp_TxID p) = Some (st p)"
  proof
    fix p assume "p \<in> set ps"
    then show "updates (sp_TxID p) = Some (st p)"
      unfolding q(3) by (intro map_of_is_SomeI) (use qs in \<open>auto simp: comp_def\<close>)
  qed
  show "set valid = (\<lambda>p. p\<lparr>sp_VerifyStatus := st p\<rparr>) ` {p \<in> set ps. reward_status (st p)}"
    by (simp add: q(2) qs(1))
  show "distinct (map sp_TxID valid)"
    using qs(2) by (simp add: q(2) comp_def distinct_map_filter)
qed

text \<open>C4. Full functional specification of the resolution, for every iteration order of the Go maps: when the two hashes
  are not blank, it returns; every submitted proof gets exactly one new status, which is InvalidHash when the
  submitted hash is not the expected digest, InvalidDuplicate when the same indexer submitted the same hash
  earlier, and otherwise the valid, delayed or expired status of its delay; the proofs that count for the reward
  are exactly the earliest ones with a valid or delayed status.\<close>

theorem resolveStakeProofValidity_spec:
  assumes d: "distinct (map sp_TxID ps)" and o: "map_order ord"
    and b: "TrimSpace blockHash \<noteq> ''''" and s: "TrimSpace stateHash \<noteq> ''''"
  shows "let st = proof_status (ToLower (TrimSpace blockHash)) (ToLower (TrimSpace stateHash)) rules ps in
    \<exists>valid updates. resolveStakeProofValidity ord ps blockHash stateHash rules = Inr (valid, updates) \<and>
    dom updates = sp_TxID ` set ps \<and>
    (\<forall>p \<in> set ps. updates (sp_TxID p) = Some (st p)) \<and>
    set valid = (\<lambda>p. p\<lparr>sp_VerifyStatus := st p\<rparr>) ` {p \<in> set ps. reward_status (st p)} \<and>
    distinct (map sp_TxID valid)"
proof -
  define st where "st = proof_status (ToLower (TrimSpace blockHash)) (ToLower (TrimSpace stateHash)) rules ps"
  have "ToLower (TrimSpace blockHash) \<noteq> ''''" "ToLower (TrimSpace stateHash) \<noteq> ''''"
    using b s by (simp_all add: ToLower_eq_Nil)
  then obtain valid updates where r: "resolveStakeProofValidity ord ps blockHash stateHash rules = Inr (valid, updates)"
    by (auto simp: resolveStakeProofValidity_def resolve_groups_emit Let_def)
  then obtain qs where q: "mset qs = mset ps"
    "valid = map (\<lambda>p. p\<lparr>sp_VerifyStatus := st p\<rparr>) (filter (\<lambda>p. reward_status (st p)) qs)"
    "updates = map_of (map (\<lambda>p. (sp_TxID p, st p)) qs)"
    unfolding st_def by (rule resolve_emits [OF d o])
  show ?thesis using r resolved_facts [OF d q] unfolding st_def Let_def by blast
qed


definition sample_rules :: StakeProofValidityRules where
  "sample_rules = \<lparr>r_DelaySubmitTriggerBlocks = 120, r_DelaySubmitStage2StepBlocks = 100,
     r_DelaySubmitStage2StepPercent = 10, r_DelaySubmitStage3Blocks = defaultDelaySubmitStage3Blocks,
     r_Stage2StartHeight = 1824480, r_Stage3StartHeight = 1925280\<rparr>"

definition sample_proof :: "string \<Rightarrow> u32 \<Rightarrow> StakeProof" where
  "sample_proof txid height =
     \<lparr>sp_IndexerID = ''1761438:1'', sp_ProveBlockHeight = 1830000,
      sp_ProveDataHash = computeStakeProofHash ''1761438:1'' ''aa'' ''bb'',
      sp_TxID = txid, sp_Height = height, sp_TxIdx = 0, sp_VerifyStatus = 0\<rparr>"

lemma sample_proof_simps [simp]:
  "sp_TxID (sample_proof t h) = t" "sp_Height (sample_proof t h) = h" "sp_IndexerID (sample_proof t h) = ''1761438:1''"
  "sp_ProveDataHash (sample_proof t h) = computeStakeProofHash ''1761438:1'' ''aa'' ''bb''"
  "sp_ProveBlockHeight (sample_proof t h) = 1830000" "sp_TxIdx (sample_proof t h) = 0"
  "sp_VerifyStatus (sample_proof t h) = 0"
  by (simp_all add: sample_proof_def)

lemma sample_hashes [simp]: "ToLower (TrimSpace ''aa'') = ''aa''" "ToLower (TrimSpace ''bb'') = ''bb''"
  by code_simp+

lemma sample_proof_eq [simp]: "sample_proof t h = sample_proof t' h' \<longleftrightarrow> t = t' \<and> h = h'"
  by (auto simp: sample_proof_def)

lemma sample_statuses:
  defines "ps \<equiv> [sample_proof ''02'' 1830150, sample_proof ''01'' 1830120]"
  shows "proof_status ''aa'' ''bb'' sample_rules ps (sample_proof ''01'' 1830120) = StakeProofVerifyValidDelayed"
    "proof_status ''aa'' ''bb'' sample_rules ps (sample_proof ''02'' 1830150) = StakeProofVerifyInvalidDuplicate"
  unfolding ps_def
  by (simp_all add: proof_status_def proof_key_def isProofEarlier_def resolveValidStakeProofStatus_def
      resolveStage2StakeProofStatus_def sample_rules_def Let_def)

theorem resolveStakeProofValidity_spec_witness:
  "\<exists>updates. resolveStakeProofValidity id [sample_proof ''02'' 1830150, sample_proof ''01'' 1830120] ''aa'' ''bb''
      sample_rules = Inr ([(sample_proof ''01'' 1830120)\<lparr>sp_VerifyStatus := StakeProofVerifyValidDelayed\<rparr>], updates) \<and>
    updates ''02'' = Some StakeProofVerifyInvalidDuplicate"
proof -
  let ?ps = "[sample_proof ''02'' 1830150, sample_proof ''01'' 1830120]"
  have h: "distinct (map sp_TxID ?ps)" "map_order id" by (simp_all add: map_order_def)
  have t: "TrimSpace ''aa'' \<noteq> ''''" "TrimSpace ''bb'' \<noteq> ''''" by code_simp+
  obtain valid updates where
    r: "resolveStakeProofValidity id ?ps ''aa'' ''bb'' sample_rules = Inr (valid, updates)"
    and u: "\<forall>p \<in> set ?ps. updates (sp_TxID p) = Some (proof_status ''aa'' ''bb'' sample_rules ?ps p)"
    and v: "set valid = (\<lambda>p. p\<lparr>sp_VerifyStatus := proof_status ''aa'' ''bb'' sample_rules ?ps p\<rparr>) `
      {p \<in> set ?ps. reward_status (proof_status ''aa'' ''bb'' sample_rules ?ps p)}" and d: "distinct (map sp_TxID valid)"
    using resolveStakeProofValidity_spec [OF h t, of sample_rules] unfolding Let_def sample_hashes
    by (elim exE conjE)
  have "{p \<in> set ?ps. reward_status (proof_status ''aa'' ''bb'' sample_rules ?ps p)} = {sample_proof ''01'' 1830120}"
    using sample_statuses by (auto simp: reward_status_def verify_status_defs)
  then have "set valid = {(sample_proof ''01'' 1830120)\<lparr>sp_VerifyStatus := StakeProofVerifyValidDelayed\<rparr>}"
    unfolding v by (simp add: sample_statuses)
  with d have "valid = [(sample_proof ''01'' 1830120)\<lparr>sp_VerifyStatus := StakeProofVerifyValidDelayed\<rparr>]"
    by (intro set_singleton_list) (simp_all add: distinct_map)
  with r u show ?thesis by (simp add: sample_statuses)
qed


section \<open>The stored statuses\<close>

lemma set_ListStakeProof:
  "set (ListStakeProofByProveHeight table h w) =
     {p \<in> set table. sp_ProveBlockHeight p = h \<and> sp_Height p > h \<and> sp_Height p \<le> h + w}"
  by (auto simp: ListStakeProofByProveHeight_def)

lemma distinct_ListStakeProof:
  assumes "distinct (map sp_TxID table)"
  shows "distinct (map sp_TxID (ListStakeProofByProveHeight table h w))"
  using assms unfolding distinct_map set_ListStakeProof
  by (auto simp: ListStakeProofByProveHeight_def inj_on_def)

text \<open>The table keeps one row per transaction: storing a proof preserves the uniqueness of transaction ids, the new
  row is pending (status 0) and every other row is unchanged.\<close>

theorem upsertStakeProof_unique:
  assumes "distinct (map sp_TxID table)"
  shows "distinct (map sp_TxID (upsertStakeProof table p)) \<and>
    set (upsertStakeProof table p) = {r \<in> set table. sp_TxID r \<noteq> sp_TxID p} \<union> {p\<lparr>sp_VerifyStatus := 0\<rparr>}"
proof (cases "sp_TxID p \<in> set (map sp_TxID table)")
  case True
  let ?row = "p\<lparr>sp_VerifyStatus := 0\<rparr>"
  have "sp_TxID \<circ> (\<lambda>r. if sp_TxID r = sp_TxID p then ?row else r) = sp_TxID" by (simp add: fun_eq_iff)
  then have "distinct (map sp_TxID (upsertStakeProof table p))"
    using True assms by (simp add: upsertStakeProof_def Let_def)
  moreover have "set (upsertStakeProof table p) = {r \<in> set table. sp_TxID r \<noteq> sp_TxID p} \<union> {?row}"
    using True by (auto simp: upsertStakeProof_def Let_def image_iff)
  ultimately show ?thesis by (rule conjI)
next
  case False
  then have "sp_TxID r \<noteq> sp_TxID p" if "r \<in> set table" for r using that by (auto simp: image_iff)
  with False assms show ?thesis by (auto simp: upsertStakeProof_def Let_def)
qed

theorem upsertStakeProof_unique_witness:
  "distinct (map sp_TxID (upsertStakeProof [sample_proof ''01'' 1830120] (sample_proof ''01'' 1830121)))"
  using upsertStakeProof_unique [of "[sample_proof ''01'' 1830120]" "sample_proof ''01'' 1830121"] by simp

definition restatus :: "(StakeProof \<Rightarrow> int) \<Rightarrow> StakeProof set \<Rightarrow> StakeProof \<Rightarrow> StakeProof" where
  "restatus st S r = (if r \<in> S then r\<lparr>sp_VerifyStatus := st r\<rparr> else r)"

lemma restatus_fields [simp]:
  "sp_TxID (restatus st S q) = sp_TxID q" "sp_ProveBlockHeight (restatus st S q) = sp_ProveBlockHeight q"
  "sp_Height (restatus st S q) = sp_Height q" "sp_IndexerID (restatus st S q) = sp_IndexerID q"
  "sp_ProveDataHash (restatus st S q) = sp_ProveDataHash q" "sp_TxIdx (restatus st S q) = sp_TxIdx q"
  by (simp_all add: restatus_def)

lemma set_ListStakeProof_restatus:
  "set (ListStakeProofByProveHeight (map (restatus st S) table) h w) =
     restatus st S ` set (ListStakeProofByProveHeight table h w)"
  unfolding set_ListStakeProof by auto

lemma TxID_eq_iff:
  "distinct (map sp_TxID table) \<Longrightarrow> r \<in> set table \<Longrightarrow> q \<in> set table \<Longrightarrow> sp_TxID r = sp_TxID q \<longleftrightarrow> r = q"
  by (auto simp: distinct_map inj_on_def)

lemma write_status_restatus:
  assumes d: "distinct (map sp_TxID table)" and s: "set proofs \<subseteq> set table"
    and u: "dom updates = sp_TxID ` set proofs" "\<forall>p \<in> set proofs. updates (sp_TxID p) = Some (st p)"
  shows "write_status proofs updates table = map (restatus st (set proofs)) table"
  unfolding write_status_def
proof (rule map_cong [OF refl])
  fix r assume r: "r \<in> set table"
  show "(case updates (sp_TxID r) of None \<Rightarrow> r
      | Some s \<Rightarrow> if (\<exists>c \<in> set proofs. sp_TxID c = sp_TxID r \<and> sp_VerifyStatus c = s) then r
          else r\<lparr>sp_VerifyStatus := s\<rparr>) = restatus st (set proofs) r"
  proof (cases "r \<in> set proofs")
    case True
    then have "(\<exists>c \<in> set proofs. sp_TxID c = sp_TxID r \<and> sp_VerifyStatus c = st r) \<longleftrightarrow> sp_VerifyStatus r = st r"
      using TxID_eq_iff [OF d _ r] s by blast
    with True u(2) show ?thesis by (auto simp: restatus_def)
  next
    case False
    then have "updates (sp_TxID r) = None"
    proof -
      have "sp_TxID r \<notin> sp_TxID ` set proofs" using False s TxID_eq_iff [OF d r] by auto
      then have "sp_TxID r \<notin> dom updates" unfolding u(1) .
      then show ?thesis by (simp add: domIff)
    qed
    with False show ?thesis by (simp add: restatus_def)
  qed
qed

lemma resolve_table_cases:
  fixes h w :: u32 and rules :: StakeProofValidityRules
  assumes d: "distinct (map sp_TxID table)" and o: "map_order ord"
    and b: "TrimSpace blockHash \<noteq> ''''" and s: "TrimSpace stateHash \<noteq> ''''"
  defines "proofs \<equiv> ListStakeProofByProveHeight table h w"
  defines "st \<equiv> proof_status (ToLower (TrimSpace blockHash)) (ToLower (TrimSpace stateHash)) rules proofs"
  shows "\<exists>valid. resolveStakeProofValidityByProveHeight ord table h w blockHash stateHash rules ro =
      Inr (valid, if ro then table else map (restatus st (set proofs)) table) \<and>
    set valid = (\<lambda>p. p\<lparr>sp_VerifyStatus := st p\<rparr>) ` {p \<in> set proofs. reward_status (st p)} \<and>
    distinct (map sp_TxID valid)"
proof (cases "proofs = []")
  case True
  then show ?thesis
    by (simp add: resolveStakeProofValidityByProveHeight_def flip: proofs_def)
      (simp add: restatus_def [abs_def])
next
  case False
  note dp = distinct_ListStakeProof [OF d, of h w, folded proofs_def]
  have lower: "ToLower (TrimSpace blockHash) \<noteq> ''''" "ToLower (TrimSpace stateHash) \<noteq> ''''"
    using b s by simp_all
  then obtain valid updates where r: "resolveStakeProofValidity ord proofs blockHash stateHash rules = Inr (valid, updates)"
    by (auto simp: resolveStakeProofValidity_def resolve_groups_emit Let_def)
  then obtain qs where q: "mset qs = mset proofs"
    "valid = map (\<lambda>p. p\<lparr>sp_VerifyStatus := st p\<rparr>) (filter (\<lambda>p. reward_status (st p)) qs)"
    "updates = map_of (map (\<lambda>p. (sp_TxID p, st p)) qs)"
    unfolding st_def by (rule resolve_emits [OF dp o])
  note qs = resolved_facts [OF dp q]
  have "set proofs \<subseteq> set table" by (auto simp: proofs_def set_ListStakeProof)
  then have "write_status proofs updates table = map (restatus st (set proofs)) table"
    by (rule write_status_restatus [OF d _ qs(1,2)])
  with r False qs(3,4) show ?thesis
    by (simp add: resolveStakeProofValidityByProveHeight_def flip: proofs_def)
qed


text \<open>C30. Resolving the proofs of a height returns the proofs that earn and writes the decided status into exactly the rows
  submitted for that height inside the window; every other row keeps its status, and in read-only mode (pending
  rewards) the table is not touched while the earning proofs are the same.\<close>

theorem resolveByProveHeight_table:
  assumes "distinct (map sp_TxID table)" and "map_order ord"
    and "TrimSpace blockHash \<noteq> ''''" and "TrimSpace stateHash \<noteq> ''''"
  shows "let proofs = {p \<in> set table. sp_ProveBlockHeight p = h \<and> sp_Height p > h \<and> sp_Height p \<le> h + w};
      st = proof_status (ToLower (TrimSpace blockHash)) (ToLower (TrimSpace stateHash)) rules
             (ListStakeProofByProveHeight table h w) in
    \<exists>valid. resolveStakeProofValidityByProveHeight ord table h w blockHash stateHash rules readOnly =
        Inr (valid, if readOnly then table
                    else map (\<lambda>r. if r \<in> proofs then r\<lparr>sp_VerifyStatus := st r\<rparr> else r) table) \<and>
      set valid = {p\<lparr>sp_VerifyStatus := st p\<rparr> |p. p \<in> proofs \<and> reward_status (st p)} \<and>
      distinct (map sp_TxID valid)"
  using resolve_table_cases [OF assms, of h w rules readOnly]
  unfolding Let_def set_ListStakeProof restatus_def [abs_def] image_def by (simp add: Bex_def conj_ac)

lemma proof_status_restatus:
  assumes d: "distinct (map sp_TxID table)" and S: "set ps = S" "set ps' = restatus f S ` S" and pt: "S \<subseteq> set table"
    and p: "p \<in> S"
  shows "proof_status bh sh rules ps' (restatus f S p) = proof_status bh sh rules ps p"
proof -
  have k: "proof_key (restatus f S q) = proof_key q"
    "isProofEarlier (restatus f S p) (restatus f S q) = isProofEarlier p q"
    "resolveValidStakeProofStatus (restatus f S p) rules = resolveValidStakeProofStatus p rules" for q
    by (simp_all add: proof_key_def isProofEarlier_def resolveValidStakeProofStatus_def
        resolveStage2StakeProofStatus_def resolveStage3StakeProofStatus_def shouldApplyDelaySubmitPenalty_def
        Let_def)
  have n: "restatus f S q \<noteq> restatus f S p \<longleftrightarrow> q \<noteq> p" if "q \<in> S" for q
    using that p pt TxID_eq_iff [OF d, of q p] by (metis restatus_fields(1) subsetD)
  have "list_all (\<lambda>q. proof_key q = proof_key (restatus f S p) \<and> q \<noteq> restatus f S p \<longrightarrow>
        isProofEarlier (restatus f S p) q) ps' \<longleftrightarrow>
      list_all (\<lambda>q. proof_key q = proof_key p \<and> q \<noteq> p \<longrightarrow> isProofEarlier p q) ps"
    by (simp add: list_all_iff S n k)
  then show ?thesis by (simp add: proof_status_def k)
qed

text \<open>Resolution is idempotent: running it again on the table it has written, with whatever iteration order, returns
  the same earning proofs and changes nothing.\<close>

theorem resolveByProveHeight_idempotent:
  assumes d: "distinct (map sp_TxID table)" and o: "map_order ord" "map_order ord'"
    and b: "TrimSpace blockHash \<noteq> ''''" and s: "TrimSpace stateHash \<noteq> ''''"
    and r: "resolveStakeProofValidityByProveHeight ord table h w blockHash stateHash rules False = Inr (valid, table')"
  shows "\<exists>valid'. resolveStakeProofValidityByProveHeight ord' table' h w blockHash stateHash rules False = Inr (valid', table') \<and>
    set valid' = set valid"
proof -
  let ?ps = "ListStakeProofByProveHeight table h w" and ?ps' = "ListStakeProofByProveHeight table' h w"
  let ?st = "proof_status (ToLower (TrimSpace blockHash)) (ToLower (TrimSpace stateHash)) rules"
  let ?S = "set ?ps"
  let ?f = "restatus (?st ?ps) ?S"
  have t': "table' = map ?f table" and v: "set valid = (\<lambda>p. p\<lparr>sp_VerifyStatus := ?st ?ps p\<rparr>) ` {p \<in> ?S. reward_status (?st ?ps p)}"
    using resolve_table_cases [OF d o(1) b s, of h w rules False] r by auto
  have d': "distinct (map sp_TxID table')" using d by (simp add: t' comp_def)
  have S': "set ?ps' = ?f ` ?S" unfolding t' by (rule set_ListStakeProof_restatus)
  have sub: "?S \<subseteq> set table" by (auto simp: set_ListStakeProof)
  have st': "?st ?ps' (?f p) = ?st ?ps p" if "p \<in> ?S" for p
    by (rule proof_status_restatus [OF d refl S' sub that])
  have same: "(?f p)\<lparr>sp_VerifyStatus := ?st ?ps p\<rparr> = ?f p" if "p \<in> ?S" for p
    using that by (simp add: restatus_def)
  obtain valid' where
    r': "resolveStakeProofValidityByProveHeight ord' table' h w blockHash stateHash rules False =
      Inr (valid', map (restatus (?st ?ps') (set ?ps')) table')"
    and v': "set valid' = (\<lambda>p. p\<lparr>sp_VerifyStatus := ?st ?ps' p\<rparr>) ` {p \<in> set ?ps'. reward_status (?st ?ps' p)}"
    using resolve_table_cases [OF d' o(2) b s, of h w rules False] by auto
  have "restatus (?st ?ps') (set ?ps') q = q" if "q \<in> set table'" for q
    using st' same by (auto simp: restatus_def [of "?st ?ps'"] S')
  then have "map (restatus (?st ?ps') (set ?ps')) table' = table'" by (simp add: map_idI)
  moreover have "set valid' = ?f ` {p \<in> ?S. reward_status (?st ?ps p)}"
  proof -
    have "{q \<in> ?f ` ?S. reward_status (?st ?ps' q)} = ?f ` {p \<in> ?S. reward_status (?st ?ps p)}"
      by (auto simp: st')
    then show ?thesis unfolding v' S' by (simp add: image_image st' same cong: image_cong_simp)
  qed
  moreover have "set valid = ?f ` {p \<in> ?S. reward_status (?st ?ps p)}"
    unfolding v by (rule image_cong) (simp_all add: restatus_def)
  ultimately show ?thesis using r' by simp
qed


definition sample_table :: "StakeProof list" where
  "sample_table = [sample_proof ''02'' 1830150, sample_proof ''01'' 1830120]"

lemma sample_table_hyps:
  "distinct (map sp_TxID sample_table)" "map_order id" "TrimSpace ''aa'' \<noteq> ''''" "TrimSpace ''bb'' \<noteq> ''''"
  by (simp add: sample_table_def) (simp add: map_order_def, code_simp, code_simp)

lemma sample_table_list: "ListStakeProofByProveHeight sample_table 1830000 1000 = sample_table"
  by (simp add: ListStakeProofByProveHeight_def sample_table_def)

theorem resolveByProveHeight_table_witness:
  "\<exists>valid. resolveStakeProofValidityByProveHeight id sample_table 1830000 1000 ''aa'' ''bb'' sample_rules False =
     Inr (valid, [(sample_proof ''02'' 1830150)\<lparr>sp_VerifyStatus := StakeProofVerifyInvalidDuplicate\<rparr>,
       (sample_proof ''01'' 1830120)\<lparr>sp_VerifyStatus := StakeProofVerifyValidDelayed\<rparr>])"
  using resolveByProveHeight_table [OF sample_table_hyps, of 1830000 1000 sample_rules False]
  unfolding Let_def sample_table_list sample_hashes
  by (auto simp: sample_table_def sample_statuses)

theorem resolveByProveHeight_idempotent_witness:
  "\<exists>valid table' valid'.
     resolveStakeProofValidityByProveHeight id sample_table 1830000 1000 ''aa'' ''bb'' sample_rules False = Inr (valid, table') \<and>
     resolveStakeProofValidityByProveHeight rev table' 1830000 1000 ''aa'' ''bb'' sample_rules False = Inr (valid', table') \<and>
     set valid' = set valid"
proof -
  obtain valid table' where
    r: "resolveStakeProofValidityByProveHeight id sample_table 1830000 1000 ''aa'' ''bb'' sample_rules False = Inr (valid, table')"
    using resolve_table_cases [OF sample_table_hyps, of 1830000 1000 sample_rules False] by (elim exE conjE)
  have "map_order rev" by (simp add: map_order_def)
  from resolveByProveHeight_idempotent [OF sample_table_hyps(1,2) this sample_table_hyps(3,4) r] r
  show ?thesis by (elim exE conjE, intro exI conjI)
qed

end
