(* ===== verification/Manager.thy ===== *)
theory Manager
  imports Config Staging Payload ProofValidity
begin

text \<open>
  The manager's in-memory state (\<^verbatim>\<open>internal/exec/manager/manager.go\<close>, \<^verbatim>\<open>state_bindings.go\<close>) and what it reads
  from PostgreSQL (\<^verbatim>\<open>stake_indexer_registers.go\<close>, \<^verbatim>\<open>stake_bindings.go\<close>) and Redis. The environment \<open>env\<close> holds the
  table contents, the outcome of each query and the Redis values at the time of the call. Go maps are association
  lists; the manager is never nil.
\<close>

section \<open>Tables the manager reads\<close>

record StakeIndexerRegister =
  reg_IndexerID :: string
  reg_Name :: string
  reg_RewardAddress :: string
  reg_UserAddress :: string
  reg_IndexRatio :: f64
  reg_LastUpdateHeight :: u32
  reg_RegisterTxID :: string
  reg_Height :: u32
  reg_TxIdx :: u32

record StakeBinding =
  sb_UserAddress :: string
  sb_IndexerID :: string
  sb_AddressType :: string
  sb_StakeAddress :: string
  sb_Height :: u32
  sb_StakeTxID :: string
  sb_StakeTxIdx :: u32

record StakeClaimedReward =
  cr_UserAddress :: string
  cr_IndexerID :: string
  cr_RewardType :: string
  cr_Amount :: u64
  cr_TxID :: string
  cr_Height :: u32
  cr_TxIdx :: u32

record FIP101InscriptionEvent =
  ev_TxID :: string
  ev_Op :: string
  ev_Height :: int
  ev_InscriptionContent :: string
  ev_IndexerID :: string
  ev_UserAddress :: string
  ev_RewardAddress :: string
  ev_StakeAddress :: string
  ev_Amount :: u64
  ev_IndexRatio :: f64
  ev_IndexerName :: string
  ev_ProveBlockHeight :: u32
  ev_ProveDataHash :: string
  ev_BizInvalidFlags :: u64
  ev_TxIdx :: u32

datatype db_call =
    QRegisterByID string
  | QRegisterByUser string
  | QBindingsRange u32 u32
  | QSyncBlock u32
  | QProofs u32
  | QPendingByHeight u32
  | XDeletePending u32
  | XUpsertPending u32
  | XUpsertAllocated u32
  | QAddrDeltas u32
  | QEventsAt u32
  | QLatestCommitted

datatype rres = RNil | RErr | RVal string

datatype mgr_error = DbError db_call | RedisError | InvalidIndexerIDFormat string | DeriveFailed
  | RpcFailed | StateApiFailed | HashEmpty | ProofResolution proof_error | ParseError

record env =
  db_ok :: "db_call \<Rightarrow> bool"
  db_registers :: "StakeIndexerRegister list"
  db_bindings :: "StakeBinding list"
  rd_HGet :: "string \<Rightarrow> string \<Rightarrow> rres"
  rd_Get :: "string \<Rightarrow> rres"

definition GetStakeIndexerRegisterByID :: "env \<Rightarrow> string \<Rightarrow> mgr_error + StakeIndexerRegister option" where
  "GetStakeIndexerRegisterByID env indexerID =
     (if \<not> db_ok env (QRegisterByID indexerID) then Inl (DbError (QRegisterByID indexerID))
      else Inr (find (\<lambda>r. reg_IndexerID r = indexerID) (db_registers env)))"

definition ExistsStakeIndexerRegisterByUserAddress :: "env \<Rightarrow> string \<Rightarrow> mgr_error + bool" where
  "ExistsStakeIndexerRegisterByUserAddress env userAddress0 =
     (let userAddress = TrimSpace userAddress0 in
      if userAddress = '''' then Inr False
      else if \<not> db_ok env (QRegisterByUser userAddress) then Inl (DbError (QRegisterByUser userAddress))
      else Inr (\<exists>r \<in> set (db_registers env). reg_UserAddress r = userAddress))"

text \<open>\<^verbatim>\<open>upsertStakeIndexerRegister\<close>: one row per indexer id.\<close>

definition upsertStakeIndexerRegister :: "StakeIndexerRegister list \<Rightarrow> StakeIndexerRegister \<Rightarrow> StakeIndexerRegister list" where
  "upsertStakeIndexerRegister t reg0 =
     (let reg = reg0\<lparr>reg_UserAddress := TrimSpace (reg_UserAddress reg0)\<rparr> in
      if reg_IndexerID reg \<in> set (map reg_IndexerID t)
      then map (\<lambda>r. if reg_IndexerID r = reg_IndexerID reg then reg else r) t
      else t @ [reg])"

text \<open>\<^verbatim>\<open>insertStakeBinding\<close>: the first binding of a stake address stays.\<close>

definition insertStakeBinding :: "StakeBinding list \<Rightarrow> StakeBinding \<Rightarrow> StakeBinding list" where
  "insertStakeBinding t item =
     (if sb_StakeAddress item \<in> set (map sb_StakeAddress t) then t else t @ [item])"

definition ListStakeBindingsRange :: "env \<Rightarrow> u32 \<Rightarrow> u32 \<Rightarrow> mgr_error + StakeBinding list" where
  "ListStakeBindingsRange env startHeightExclusive endHeightInclusive =
     (if endHeightInclusive \<le> startHeightExclusive then Inr []
      else if \<not> db_ok env (QBindingsRange startHeightExclusive endHeightInclusive)
      then Inl (DbError (QBindingsRange startHeightExclusive endHeightInclusive))
      else Inr (sort_key (\<lambda>b. (sb_Height b, sb_StakeTxIdx b, sb_StakeAddress b))
        (filter (\<lambda>b. sb_Height b > startHeightExclusive \<and> sb_Height b \<le> endHeightInclusive) (db_bindings env))))"

section \<open>The manager\<close>

record StakeAddressInfo =
  sa_Address :: string
  sa_IndexerID :: string

record WaitForUpsert =
  StakeIndexerRegisterList :: "StakeIndexerRegister list"
  StakeProofList :: "StakeProof list"
  StakeClaimedRewardList :: "StakeClaimedReward list"
  StakeBindingList :: "StakeBinding list"
  FIP101InscriptionEvents :: "FIP101InscriptionEvent list"

record Manager =
  m_cfg :: StakeRewardConfigInfo
  slowState :: slowWriteState
  pendingRewardMode :: bool
  stakeAddrToIndexer :: "(string, StakeAddressInfo) gomap"
  indexerToAddrStakeAmount :: "(string, (string, u64) gomap) gomap"
  indexerToUserStakeAddress :: "(string, (string, string) gomap) gomap"
  stakeBindingsLoadedHeight :: u32
  registerOwnerSeen :: "string set"
  waitForUpsert :: WaitForUpsert

definition emptyWaitForUpsert :: WaitForUpsert where
  "emptyWaitForUpsert = \<lparr>StakeIndexerRegisterList = [], StakeProofList = [], StakeClaimedRewardList = [],
     StakeBindingList = [], FIP101InscriptionEvents = []\<rparr>"

definition newManagerWithMode :: "StakeRewardConfigInfo \<Rightarrow> bool \<Rightarrow> Manager" where
  "newManagerWithMode cfg pendingMode =
     \<lparr>m_cfg = cfg, slowState = newSlowWriteState, pendingRewardMode = pendingMode, stakeAddrToIndexer = [],
      indexerToAddrStakeAmount = [], indexerToUserStakeAddress = [], stakeBindingsLoadedHeight = 0,
      registerOwnerSeen = {}, waitForUpsert = emptyWaitForUpsert\<rparr>"

definition NewManager :: "StakeRewardConfigInfo \<Rightarrow> Manager" where
  "NewManager cfg = newManagerWithMode (if ProofWindow cfg = 0 then cfg\<lparr>ProofWindow := 144\<rparr> else cfg) False"

definition NewPendingManager :: "StakeRewardConfigInfo \<Rightarrow> Manager" where
  "NewPendingManager cfg = newManagerWithMode cfg True"

definition isRewardClaimSenderAddress :: "Manager \<Rightarrow> string \<Rightarrow> bool" where
  "isRewardClaimSenderAddress m address0 =
     (let address = TrimSpace address0 in
      if address = '''' then False
      else list_ex (\<lambda>configured. EqualFold address (TrimSpace configured)) (RewardClaimSenderAddressKeys (m_cfg m)))"

definition hasRewardClaimSenderInput :: "Manager \<Rightarrow> TxSnapshot \<Rightarrow> bool" where
  "hasRewardClaimSenderInput m tx = list_ex (\<lambda>i. isRewardClaimSenderAddress m (in_AddressKey i)) (tx_Inputs tx)"

definition shouldTrackStakeAddress :: "Manager \<Rightarrow> string \<Rightarrow> bool" where
  "shouldTrackStakeAddress m address0 =
     (let address = TrimSpace address0 in
      if address = '''' then False
      else if mget (stakeAddrToIndexer m) address \<noteq> None then True
      else isRewardClaimSenderAddress m address)"

definition cacheStakeBinding :: "string \<Rightarrow> string \<Rightarrow> string \<Rightarrow> string \<Rightarrow> Manager \<Rightarrow> Manager" where
  "cacheStakeBinding userAddress0 indexerID0 addressType0 stakeAddress0 m =
     (let userAddress = TrimSpace userAddress0; indexerID = TrimSpace indexerID0;
          addressType = TrimSpace addressType0; stakeAddress = TrimSpace stakeAddress0 in
      if userAddress = '''' \<or> indexerID = '''' \<or> addressType = '''' \<or> stakeAddress = '''' then m
      else m\<lparr>stakeAddrToIndexer := mput (stakeAddrToIndexer m) stakeAddress
               \<lparr>sa_Address = userAddress, sa_IndexerID = indexerID\<rparr>,
             indexerToUserStakeAddress := mput (indexerToUserStakeAddress m) indexerID
               (mput (mget0 [] (indexerToUserStakeAddress m) indexerID) userAddress stakeAddress)\<rparr>)"

section \<open>Loading bindings and applying balance deltas\<close>

fun cache_bindings :: "StakeBinding list \<Rightarrow> Manager \<Rightarrow> Manager" where
  "cache_bindings [] m = m"
| "cache_bindings (b # bs) m =
     cache_bindings bs (cacheStakeBinding (sb_UserAddress b) (sb_IndexerID b) (sb_AddressType b) (sb_StakeAddress b) m)"

definition snapshot_balance_key :: "Manager \<Rightarrow> string \<Rightarrow> string" where
  "snapshot_balance_key m stakeAddress =
     (if pendingRewardMode m then GetPendingSnapshotBalanceKey stakeAddress else GetSnapshotBalanceKey stakeAddress)"

text \<open>The last loop of \<^verbatim>\<open>LoadStakeBindingsToHeight\<close>; it ranges over a map from stake address to the pending Redis
  reply, so each address occurs once. An unparsable or missing balance counts as 0.\<close>

fun load_balances :: "env \<Rightarrow> string list \<Rightarrow> Manager \<Rightarrow> mgr_error + Manager" where
  "load_balances env [] m = Inr m"
| "load_balances env (stakeAddress # rest) m =
     (case rd_Get env (snapshot_balance_key m stakeAddress) of
        RErr \<Rightarrow> Inl RedisError
      | reply \<Rightarrow>
          (case mget (stakeAddrToIndexer m) stakeAddress of
             None \<Rightarrow> load_balances env rest m
           | Some info \<Rightarrow>
               let balance = (case reply of RVal s \<Rightarrow> s | _ \<Rightarrow> '''');
                   iBalance = (case ParseUint 64 balance of None \<Rightarrow> 0 | Some n \<Rightarrow> word_of_nat n);
                   amounts = indexerToAddrStakeAmount m in
               load_balances env rest
                 (m\<lparr>indexerToAddrStakeAmount := mput amounts (sa_IndexerID info)
                     (mput (mget0 [] amounts (sa_IndexerID info)) (sa_Address info) iBalance)\<rparr>)))"

definition LoadStakeBindingsToHeight ::
    "(string list \<Rightarrow> string list) \<Rightarrow> env \<Rightarrow> u32 \<Rightarrow> bool \<Rightarrow> Manager \<Rightarrow> mgr_error + Manager" where
  "LoadStakeBindingsToHeight ord env height withBalance m0 =
     (let m = (if height < stakeBindingsLoadedHeight m0
               then m0\<lparr>stakeBindingsLoadedHeight := 0, stakeAddrToIndexer := [], indexerToAddrStakeAmount := [],
                       indexerToUserStakeAddress := []\<rparr>
               else m0) in
      if height = stakeBindingsLoadedHeight m then Inr m
      else case ListStakeBindingsRange env (stakeBindingsLoadedHeight m) height of
        Inl e \<Rightarrow> Inl e
      | Inr items \<Rightarrow>
          let m = cache_bindings items (m\<lparr>stakeBindingsLoadedHeight := height\<rparr>) in
          if withBalance then load_balances env (ord (remdups (map sb_StakeAddress items))) m else Inr m)"

text \<open>An \<^verbatim>\<open>int64\<close> delta added to a \<^verbatim>\<open>uint64\<close> stake; a decrease stops at 0.\<close>

definition apply_delta :: "u64 \<Rightarrow> int \<Rightarrow> u64" where
  "apply_delta current delta =
     (if delta > 0 then current + word_of_int delta
      else let dec = word_of_int (- delta) in if dec \<ge> current then 0 else current - dec)"

fun StageStakeBalanceDeltas_loop :: "(string \<times> int) list \<Rightarrow> Manager \<Rightarrow> Manager" where
  "StageStakeBalanceDeltas_loop [] m = m"
| "StageStakeBalanceDeltas_loop ((address, delta) # rest) m =
     (if address = '''' \<or> delta = 0 then StageStakeBalanceDeltas_loop rest m
      else case mget (stakeAddrToIndexer m) address of
        None \<Rightarrow> StageStakeBalanceDeltas_loop rest m
      | Some info \<Rightarrow>
          let stakeAddrs = mget0 [] (indexerToAddrStakeAmount m) (sa_IndexerID info);
              current = apply_delta (mget0 0 stakeAddrs (sa_Address info)) delta;
              stakeAddrs = (if current = 0 then mdel stakeAddrs (sa_Address info)
                            else mput stakeAddrs (sa_Address info) current) in
          StageStakeBalanceDeltas_loop rest
            (m\<lparr>indexerToAddrStakeAmount := mput (indexerToAddrStakeAmount m) (sa_IndexerID info) stakeAddrs\<rparr>))"

definition StageStakeBalanceDeltas :: "(string, int) gomap \<Rightarrow> Manager \<Rightarrow> Manager" where
  "StageStakeBalanceDeltas addressDeltas m =
     (if addressDeltas = [] then m
      else if stakeAddrToIndexer m = [] then m
      else StageStakeBalanceDeltas_loop addressDeltas m)"

definition getIndexerStakeAmount :: "Manager \<Rightarrow> string \<Rightarrow> (string, f64) gomap" where
  "getIndexerStakeAmount m indexerID =
     map (\<lambda>(address, amount). (address, f64_of_u64 amount)) (mget0 [] (indexerToAddrStakeAmount m) indexerID)"


section \<open>What the deltas do to a stake\<close>

definition stake_of :: "Manager \<Rightarrow> string \<Rightarrow> string \<Rightarrow> u64" where
  "stake_of m indexerID user = mget0 0 (mget0 [] (indexerToAddrStakeAmount m) indexerID) user"

lemma apply_delta_int:
  assumes "- (2 ^ 63) \<le> delta" "delta < 2 ^ 63" "uint current + delta < 2 ^ 64"
  shows "uint (apply_delta current delta) = max 0 (uint current + delta)"
proof (cases "delta > 0")
  case True
  then show ?thesis using assms by (simp add: apply_delta_def uint_word_ariths uint_word_of_int)
next
  case False
  have "0 \<le> - delta" "- delta < 2 ^ 64" using False assms(1) by simp_all
  moreover have "uint (word_of_int k :: u64) = k" if "0 \<le> k" "k < 2 ^ 64" for k
    using that by (simp add: uint_word_of_int)
  ultimately have d: "uint (word_of_int (- delta) :: u64) = - delta" by blast
  show ?thesis
  proof (cases "- delta \<ge> uint current")
    case True
    then have "(word_of_int (- delta) :: u64) \<ge> current" using d by (simp add: word_le_def)
    with True False show ?thesis by (simp add: apply_delta_def Let_def)
  next
    case False
    then have "\<not> (word_of_int (- delta) :: u64) \<ge> current" using d by (simp add: word_le_def)
    moreover have "uint (current - word_of_int (- delta)) = uint current - uint (word_of_int (- delta) :: u64)"
      using False d by (intro uint_sub_lem [THEN iffD1]) simp
    ultimately show ?thesis using False \<open>\<not> delta > 0\<close> d by (simp add: apply_delta_def Let_def)
  qed
qed

lemma deltas_loop_keeps [simp]:
  "stakeAddrToIndexer (StageStakeBalanceDeltas_loop ds m) = stakeAddrToIndexer m"
  by (induction ds m rule: StageStakeBalanceDeltas_loop.induct) (auto simp: Let_def split: option.split)

lemma stake_of_put:
  "stake_of (m\<lparr>indexerToAddrStakeAmount := mput (indexerToAddrStakeAmount m) i
      (if c = 0 then mdel (mget0 [] (indexerToAddrStakeAmount m) i) u
       else mput (mget0 [] (indexerToAddrStakeAmount m) i) u c)\<rparr>) i' u' =
    (if i' = i \<and> u' = u then c else stake_of m i' u')"
  by (simp add: stake_of_def)

definition binding_inj :: "(string, StakeAddressInfo) gomap \<Rightarrow> bool" where
  "binding_inj b \<longleftrightarrow> (\<forall>x y i j. mget b x = Some i \<longrightarrow> mget b y = Some j \<longrightarrow>
     sa_Address i = sa_Address j \<longrightarrow> sa_IndexerID i = sa_IndexerID j \<longrightarrow> x = y)"

lemma deltas_loop_stake:
  assumes "mwf ds" "binding_inj (stakeAddrToIndexer m)" "mget (stakeAddrToIndexer m) a = Some info" "a \<noteq> ''''"
  shows "stake_of (StageStakeBalanceDeltas_loop ds m) (sa_IndexerID info) (sa_Address info) =
    (case mget ds a of None \<Rightarrow> stake_of m (sa_IndexerID info) (sa_Address info)
     | Some d \<Rightarrow> if d = 0 then stake_of m (sa_IndexerID info) (sa_Address info)
                else apply_delta (stake_of m (sa_IndexerID info) (sa_Address info)) d)"
  using assms
proof (induction ds m rule: StageStakeBalanceDeltas_loop.induct)
  case (1 m)
  then show ?case by simp
next
  case (2 x d ds m)
  have wf: "mwf ds" "mget ds x = None" using "2.prems"(1) by (simp_all add: mwf_def mget_None_iff)
  show ?case
  proof (cases "x = '''' \<or> d = 0")
    case True
    then have "x \<noteq> a \<or> d = 0" using "2.prems"(4) by auto
    then show ?thesis using True "2.IH"(1) [OF True wf(1) "2.prems"(2-4)] wf(2)
      by (auto simp: mget_def)
  next
    case False
    show ?thesis
    proof (cases "mget (stakeAddrToIndexer m) x")
      case None
      then have "x \<noteq> a" using "2.prems"(3) by auto
      then show ?thesis using False None "2.IH"(2) [OF False None wf(1) "2.prems"(2-4)] by (simp add: mget_def)
    next
      case (Some i)
      let ?sa = "mget0 [] (indexerToAddrStakeAmount m) (sa_IndexerID i)"
      let ?c = "apply_delta (mget0 0 ?sa (sa_Address i)) d"
      let ?m = "m\<lparr>indexerToAddrStakeAmount := mput (indexerToAddrStakeAmount m) (sa_IndexerID i)
          (if ?c = 0 then mdel ?sa (sa_Address i) else mput ?sa (sa_Address i) ?c)\<rparr>"
      have step: "StageStakeBalanceDeltas_loop ((x, d) # ds) m = StageStakeBalanceDeltas_loop ds ?m"
        using False Some by (simp add: Let_def)
      have IH: "stake_of (StageStakeBalanceDeltas_loop ds ?m) (sa_IndexerID info) (sa_Address info) =
          (case mget ds a of None \<Rightarrow> stake_of ?m (sa_IndexerID info) (sa_Address info)
           | Some d \<Rightarrow> if d = 0 then stake_of ?m (sa_IndexerID info) (sa_Address info)
                else apply_delta (stake_of ?m (sa_IndexerID info) (sa_Address info)) d)"
        using "2.IH"(3) [OF False Some refl refl refl] wf(1) "2.prems"(2-4) by simp
      show ?thesis
      proof (cases "x = a")
        case True
        then have "i = info" using Some "2.prems"(3) by simp
        have st: "stake_of ?m (sa_IndexerID info) (sa_Address info) = ?c"
          unfolding stake_of_put using \<open>i = info\<close> by simp
        have "mget ((x, d) # ds) a = Some d" "mget ds a = None" using True wf(2) by (simp_all add: mget_def)
        then show ?thesis unfolding step IH st using False \<open>i = info\<close> by (simp add: stake_of_def)
      next
        case neq: False
        then have "\<not> (sa_Address info = sa_Address i \<and> sa_IndexerID info = sa_IndexerID i)"
          using "2.prems"(2,3) Some unfolding binding_inj_def by metis
        then have st: "stake_of ?m (sa_IndexerID info) (sa_Address info) = stake_of m (sa_IndexerID info) (sa_Address info)"
          unfolding stake_of_put by auto
        have "mget ((x, d) # ds) a = mget ds a" using neq by (simp add: mget_def)
        then show ?thesis unfolding step IH st by simp
      qed
    qed
  qed
qed

lemma stage_deltas_stake:
  assumes "mwf ds" "binding_inj (stakeAddrToIndexer m)" "mget (stakeAddrToIndexer m) a = Some info" "a \<noteq> ''''"
    and "mget0 0 ds a = d" "- (2 ^ 63) \<le> d" "d < 2 ^ 63"
    and "uint (stake_of m (sa_IndexerID info) (sa_Address info)) + d < 2 ^ 64"
  shows "uint (stake_of (StageStakeBalanceDeltas ds m) (sa_IndexerID info) (sa_Address info)) =
    max 0 (uint (stake_of m (sa_IndexerID info) (sa_Address info)) + d)"
proof (cases "ds = [] \<or> stakeAddrToIndexer m = []")
  case True
  then have "d = 0" "StageStakeBalanceDeltas ds m = m" using assms(3,5) by (auto simp: StageStakeBalanceDeltas_def)
  then show ?thesis by simp
next
  case False
  then have s: "StageStakeBalanceDeltas ds m = StageStakeBalanceDeltas_loop ds m"
    by (simp add: StageStakeBalanceDeltas_def)
  have "uint (apply_delta (stake_of m (sa_IndexerID info) (sa_Address info)) d) =
      max 0 (uint (stake_of m (sa_IndexerID info) (sa_Address info)) + d)"
    by (rule apply_delta_int [OF assms(6-8)])
  then show ?thesis
    unfolding s deltas_loop_stake [OF assms(1-4)] using assms(5)
    by (auto simp: mget0_def mget_def split: option.split)
qed

text \<open>C23. Applying the balance deltas of a block changes the stake behind each bound stake address by exactly its delta,
  stopping at zero, and no other stake, provided the bindings give different stake addresses different
  (indexer, user) pairs and the sum fits 64 bits.\<close>

theorem StageStakeBalanceDeltas_stake:
  assumes "mwf ds" "binding_inj (stakeAddrToIndexer m)" "mget (stakeAddrToIndexer m) a = Some info" "a \<noteq> ''''"
    and "mget0 0 ds a = d" "- (2 ^ 63) \<le> d" "d < 2 ^ 63"
    and "uint (stake_of m (sa_IndexerID info) (sa_Address info)) + d < 2 ^ 64"
  shows "uint (stake_of (StageStakeBalanceDeltas ds m) (sa_IndexerID info) (sa_Address info)) =
    max 0 (uint (stake_of m (sa_IndexerID info) (sa_Address info)) + d)"
  by (rule stage_deltas_stake [OF assms])

definition sample_manager :: Manager where
  "sample_manager = (newManagerWithMode DefaultConfig False)
     \<lparr>stakeAddrToIndexer := [(''s1'', \<lparr>sa_Address = ''u1'', sa_IndexerID = ''1:2''\<rparr>)],
      indexerToAddrStakeAmount := [(''1:2'', [(''u1'', 500)])]\<rparr>"

theorem StageStakeBalanceDeltas_stake_witness:
  "uint (stake_of (StageStakeBalanceDeltas [(''s1'', - 200)] sample_manager) ''1:2'' ''u1'') = 300"
proof -
  have "mwf [(''s1'', - 200 :: int)]" "binding_inj (stakeAddrToIndexer sample_manager)"
    "mget (stakeAddrToIndexer sample_manager) ''s1'' = Some \<lparr>sa_Address = ''u1'', sa_IndexerID = ''1:2''\<rparr>"
    "stake_of sample_manager ''1:2'' ''u1'' = 500"
    by (simp_all add: mwf_def binding_inj_def sample_manager_def newManagerWithMode_def mget_def stake_of_def mget0_def)
  with StageStakeBalanceDeltas_stake [of "[(''s1'', - 200)]" sample_manager "''s1''"
      "\<lparr>sa_Address = ''u1'', sa_IndexerID = ''1:2''\<rparr>" "- 200"]
  show ?thesis by (simp add: mget0_def)
qed

end
