(* ===== verification/Commission.thy ===== *)
theory Commission
  imports Manager
begin

text \<open>
  Commission ratios (\<^verbatim>\<open>handler_protocol.go\<close>, the ratio getters of \<^verbatim>\<open>handler_reward.go\<close>, \<^verbatim>\<open>helper_parse.go\<close>): who may
  change a ratio, the delayed activation, and the ratio that applies at a height. A change is stored as
  \<^verbatim>\<open>ratio|event height|effective height\<close> and becomes visible once the effective height is reached.
\<close>

section \<open>Redis keys of the two modes\<close>

definition getIndexerInfoKey :: "Manager \<Rightarrow> string \<Rightarrow> string" where
  "getIndexerInfoKey m indexerID =
     (if pendingRewardMode m then GetPendingIndexerInfoKey indexerID else GetIndexerInfoKey indexerID)"

definition getIndexerInfoDelayedCommissionKey :: "Manager \<Rightarrow> string" where
  "getIndexerInfoDelayedCommissionKey m =
     (if pendingRewardMode m then REDIS_STAKE_PENDING_INDEXER_DELAYED_COMMISSION_KEY
      else REDIS_STAKE_INDEXER_DELAYED_COMMISSION_KEY)"

definition getStakeRewardsKey :: "Manager \<Rightarrow> string \<Rightarrow> string" where
  "getStakeRewardsKey m address =
     (if pendingRewardMode m then GetPendingStakeRewardsKey address else GetStakeRewardsKey address)"

definition getStakeRewardsTotalKey :: "Manager \<Rightarrow> string \<Rightarrow> string" where
  "getStakeRewardsTotalKey m address =
     (if pendingRewardMode m then GetPendingStakeRewardsTotalKey address else GetStakeRewardsTotalKey address)"

definition getIndexerRewardsKey :: "Manager \<Rightarrow> string \<Rightarrow> string" where
  "getIndexerRewardsKey m address =
     (if pendingRewardMode m then GetPendingIndexerRewardsKey address else GetIndexerRewardsKey address)"

definition getIndexerRewardsTotalKey :: "Manager \<Rightarrow> string \<Rightarrow> string" where
  "getIndexerRewardsTotalKey m address =
     (if pendingRewardMode m then GetPendingIndexerRewardsTotalKey address else GetIndexerRewardsTotalKey address)"

definition indexerRewardTotalField :: "Manager \<Rightarrow> string" where
  "indexerRewardTotalField m = (if pendingRewardMode m then ''pending_reward_total'' else ''reward_total'')"

definition indexerSelfRewardTotalField :: "Manager \<Rightarrow> string" where
  "indexerSelfRewardTotalField m = (if pendingRewardMode m then ''pending_self_reward_total'' else ''self_reward_total'')"

section \<open>Registered indexers\<close>

definition normalizeIndexerIDAtHeight :: "string \<Rightarrow> u32 \<Rightarrow> mgr_error + string" where
  "normalizeIndexerIDAtHeight raw height =
     (let i = TrimSpace raw in
      if i = '''' then Inr ''''
      else if \<not> IsIndexerIDHeightTxIdx i then Inl (InvalidIndexerIDFormat i)
      else Inr i)"

definition isIndexerRegistered :: "env \<Rightarrow> Manager \<Rightarrow> string \<Rightarrow> mgr_error + bool" where
  "isIndexerRegistered env m indexerID0 =
     (let indexerID = TrimSpace indexerID0 in
      if indexerID = '''' then Inr False
      else if list_ex (\<lambda>item. EqualFold (TrimSpace (reg_IndexerID item)) indexerID)
             (rev (StakeIndexerRegisterList (waitForUpsert m))) then Inr True
      else case GetStakeIndexerRegisterByID env indexerID of
        Inl e \<Rightarrow> Inl e
      | Inr reg \<Rightarrow> Inr (reg \<noteq> None))"

definition staged_actor :: "FIP101InscriptionEvent list \<Rightarrow> StakeIndexerRegister \<Rightarrow> string option" where
  "staged_actor events item =
     map_option (\<lambda>ev. TrimSpace (ev_UserAddress ev))
       (find (\<lambda>ev. EqualFold (ev_TxID ev) (reg_RegisterTxID item) \<and>
                   EqualFold (TrimSpace (ev_Op ev)) ''register_indexer'' \<and> TrimSpace (ev_UserAddress ev) \<noteq> '''')
         (rev events))"

definition getIndexerUserAddressForAuth :: "env \<Rightarrow> Manager \<Rightarrow> string \<Rightarrow> mgr_error + string" where
  "getIndexerUserAddressForAuth env m indexerID0 =
     (let indexerID = TrimSpace indexerID0 in
      if indexerID = '''' then Inr ''''
      else
        let w = waitForUpsert m;
            actors = List.map_filter (\<lambda>item. if reg_IndexerID item \<noteq> indexerID then None
                        else staged_actor (FIP101InscriptionEvents w) item) (rev (StakeIndexerRegisterList w)) in
        case actors of
          actor # _ \<Rightarrow> Inr actor
        | [] \<Rightarrow>
          (case GetStakeIndexerRegisterByID env indexerID of
             Inl e \<Rightarrow> Inl e
           | Inr None \<Rightarrow> Inr ''''
           | Inr (Some reg) \<Rightarrow> Inr (TrimSpace (reg_UserAddress reg))))"

definition getIndexerUserAddress :: "env \<Rightarrow> Manager \<Rightarrow> string \<Rightarrow> mgr_error + string" where
  "getIndexerUserAddress env m indexerID0 =
     (let indexerID = TrimSpace indexerID0 in
      if indexerID = '''' then Inr ''''
      else case find (\<lambda>item. TrimSpace (reg_IndexerID item) = indexerID \<and> TrimSpace (reg_UserAddress item) \<noteq> '''')
                  (rev (StakeIndexerRegisterList (waitForUpsert m))) of
        Some item \<Rightarrow> Inr (TrimSpace (reg_UserAddress item))
      | None \<Rightarrow>
        (case GetStakeIndexerRegisterByID env indexerID of
           Inl e \<Rightarrow> Inl e
         | Inr None \<Rightarrow> Inr ''''
         | Inr (Some reg) \<Rightarrow> Inr (TrimSpace (reg_UserAddress reg))))"

definition getIndexerRewardAddress :: "env \<Rightarrow> string \<Rightarrow> mgr_error + string" where
  "getIndexerRewardAddress env indexerID =
     (if indexerID = '''' then Inr ''''
      else case GetStakeIndexerRegisterByID env indexerID of
        Inl e \<Rightarrow> Inl e
      | Inr None \<Rightarrow> Inr ''''
      | Inr (Some reg) \<Rightarrow> Inr (TrimSpace (reg_RewardAddress reg)))"

section \<open>Delayed ratios\<close>

record delayedCommissionRatio =
  dc_Ratio :: f64
  dc_EventHeight :: u32
  dc_EffectiveHeight :: u32

definition maxCommissionRatio :: f64 where
  "maxCommissionRatio = f64_round (15 / 100)"

definition isValidCommissionRatio :: "f64 \<Rightarrow> bool" where
  "isValidCommissionRatio ratio \<longleftrightarrow> ratio \<ge> 0 \<and> ratio \<le> maxCommissionRatio"

definition formatDelayedCommissionRatio :: "delayedCommissionRatio \<Rightarrow> string" where
  "formatDelayedCommissionRatio item =
     Join (CHR ''|'') [FormatRatio (dc_Ratio item), FormatUint (unat (dc_EventHeight item)),
       FormatUint (unat (dc_EffectiveHeight item))]"

definition parseDelayedCommissionRatio :: "string \<Rightarrow> delayedCommissionRatio option" where
  "parseDelayedCommissionRatio raw =
     (case Split (CHR ''|'') (TrimSpace raw) of
        [p0, p1, p2] \<Rightarrow>
          (case ParseRatio p0 of
             None \<Rightarrow> None
           | Some ratio \<Rightarrow>
             (case ParseUint 32 (TrimSpace p1) of
                None \<Rightarrow> None
              | Some eventHeight \<Rightarrow>
                (case ParseUint 32 (TrimSpace p2) of
                   None \<Rightarrow> None
                 | Some effectiveHeight \<Rightarrow>
                     Some \<lparr>dc_Ratio = ratio, dc_EventHeight = word_of_nat eventHeight,
                           dc_EffectiveHeight = word_of_nat effectiveHeight\<rparr>)))
      | _ \<Rightarrow> None)"

definition hval_text :: "hval \<Rightarrow> string" where
  "hval_text v = (case v of HStr s \<Rightarrow> s | HUint n \<Rightarrow> FormatUint n | HFloat _ \<Rightarrow> '''')"

definition getStagedDelayedCommissionRatio :: "Manager \<Rightarrow> string \<Rightarrow> string \<Rightarrow> delayedCommissionRatio option" where
  "getStagedDelayedCommissionRatio m key indexerID =
     (if key = '''' \<or> indexerID = '''' then None
      else case mget (mget0 [] (hset (slowState m)) key) indexerID of
        None \<Rightarrow> None
      | Some raw \<Rightarrow> parseDelayedCommissionRatio (hval_text raw))"

definition loadDelayedCommissionRatio :: "env \<Rightarrow> Manager \<Rightarrow> string \<Rightarrow> string \<Rightarrow> mgr_error + delayedCommissionRatio option" where
  "loadDelayedCommissionRatio env m key indexerID =
     (case getStagedDelayedCommissionRatio m key indexerID of
        Some item \<Rightarrow> Inr (Some item)
      | None \<Rightarrow>
        (case rd_HGet env key indexerID of
           RNil \<Rightarrow> Inr None
         | RErr \<Rightarrow> Inl RedisError
         | RVal raw \<Rightarrow> Inr (parseDelayedCommissionRatio raw)))"

definition m_stageHSet :: "string \<Rightarrow> (string, hval) gomap \<Rightarrow> Manager \<Rightarrow> Manager" where
  "m_stageHSet key values m = m\<lparr>slowState := stageHSet key values (slowState m)\<rparr>"

definition stageDelayedCommissionRatio :: "string \<Rightarrow> string \<Rightarrow> delayedCommissionRatio \<Rightarrow> Manager \<Rightarrow> Manager" where
  "stageDelayedCommissionRatio key indexerID item m =
     m_stageHSet key [(indexerID, HStr (formatDelayedCommissionRatio item))] m"

definition hasUneffectiveDelayedCommissionRatio :: "env \<Rightarrow> Manager \<Rightarrow> string \<Rightarrow> u32 \<Rightarrow> mgr_error + bool" where
  "hasUneffectiveDelayedCommissionRatio env m indexerID height =
     (case loadDelayedCommissionRatio env m REDIS_STAKE_INDEXER_DELAYED_COMMISSION_KEY indexerID of
        Inl e \<Rightarrow> Inl e
      | Inr None \<Rightarrow> Inr False
      | Inr (Some item) \<Rightarrow> Inr (dc_EffectiveHeight item > height))"

definition stageCommissionRatioForHeight ::
    "env \<Rightarrow> u32 \<Rightarrow> string \<Rightarrow> string \<Rightarrow> string \<Rightarrow> string \<Rightarrow> Manager \<Rightarrow> mgr_error + Manager" where
  "stageCommissionRatioForHeight env height indexerID delayedKey targetKey targetField m =
     (case loadDelayedCommissionRatio env m delayedKey indexerID of
        Inl e \<Rightarrow> Inl e
      | Inr None \<Rightarrow> Inr m
      | Inr (Some item) \<Rightarrow>
          if dc_EffectiveHeight item > height then Inr m
          else Inr (m_stageHSet targetKey [(targetField, HStr (FormatRatio (dc_Ratio item)))] m))"

section \<open>The ratio that applies\<close>

definition getIndexerLatestRatio :: "env \<Rightarrow> u32 \<Rightarrow> string \<Rightarrow> Manager \<Rightarrow> mgr_error + f64 \<times> Manager" where
  "getIndexerLatestRatio env height indexerID m0 =
     (let infoKey = getIndexerInfoKey m0 indexerID; delayedKey = getIndexerInfoDelayedCommissionKey m0 in
      case (if height > 0 then stageCommissionRatioForHeight env height indexerID delayedKey infoKey ''index_ratio'' m0
            else Inr m0) of
        Inl e \<Rightarrow> Inl e
      | Inr m \<Rightarrow>
        (case getCachedIndexerRatio (slowState m) indexerID of
           Some ratio \<Rightarrow> Inr (ratio, m)
         | None \<Rightarrow>
           (case rd_HGet env infoKey ''index_ratio'' of
              RErr \<Rightarrow> Inl RedisError
            | reply \<Rightarrow>
              (case (case reply of RVal s \<Rightarrow> ParseRatio s | _ \<Rightarrow> None) of
                 Some ratio \<Rightarrow> Inr (ratio, m)
               | None \<Rightarrow>
                 (case GetStakeIndexerRegisterByID env indexerID of
                    Inl e \<Rightarrow> Inl e
                  | Inr (Some reg) \<Rightarrow> Inr (reg_IndexRatio reg, m)
                  | Inr None \<Rightarrow> Inr (0, m))))))"

definition snapshot_keys :: "Manager \<Rightarrow> string \<times> string" where
  "snapshot_keys m =
     (if pendingRewardMode m
      then (REDIS_STAKE_PENDING_INDEXER_RATIO_SNAPSHOT_KEY, REDIS_STAKE_PENDING_INDEXER_RATIO_SNAPSHOT_DELAYED_COMMISSION_KEY)
      else (REDIS_STAKE_INDEXER_RATIO_SNAPSHOT_KEY, REDIS_STAKE_INDEXER_RATIO_SNAPSHOT_DELAYED_COMMISSION_KEY))"

definition getIndexerSnapshotRatio :: "env \<Rightarrow> u32 \<Rightarrow> string \<Rightarrow> Manager \<Rightarrow> mgr_error + f64 \<times> Manager" where
  "getIndexerSnapshotRatio env height indexerID m0 =
     (case snapshot_keys m0 of (snapshotKey, delayedKey) \<Rightarrow>
      case stageCommissionRatioForHeight env height indexerID delayedKey snapshotKey indexerID m0 of
        Inl e \<Rightarrow> Inl e
      | Inr m \<Rightarrow>
        (case getCachedIndexerSnapshotRatio (slowState m) indexerID of
           Some ratio \<Rightarrow> Inr (ratio, m)
         | None \<Rightarrow>
           (case rd_HGet env snapshotKey indexerID of
              RErr \<Rightarrow> Inl RedisError
            | reply \<Rightarrow>
              (case ParseRatio (case reply of RVal s \<Rightarrow> s | _ \<Rightarrow> '''') of
                 Some ratio \<Rightarrow> Inr (ratio, m)
               | None \<Rightarrow> getIndexerLatestRatio env height indexerID m))))"

section \<open>Updating a ratio\<close>

definition validateUpdateRatioTx :: "env \<Rightarrow> u32 \<Rightarrow> OpReturnPayload \<Rightarrow> Manager \<Rightarrow> mgr_error + (string \<times> f64) option" where
  "validateUpdateRatioTx env height payload m =
     (if payload_Get payload [OpFieldIndexerID] = '''' then Inr None
      else case normalizeIndexerIDAtHeight (payload_Get payload [OpFieldIndexerID]) height of
        Inl e \<Rightarrow> Inl e
      | Inr indexerID \<Rightarrow>
        if indexerID = '''' then Inr None
        else case ParseRatio (payload_Get payload [OpFieldIndexRatio]) of
          None \<Rightarrow> Inr None
        | Some ratio \<Rightarrow>
          if \<not> isValidCommissionRatio ratio then Inr None
          else case getIndexerUserAddressForAuth env m indexerID of
            Inl e \<Rightarrow> Inl e
          | Inr userAddress \<Rightarrow>
            if userAddress = '''' then Inr None
            else
              let actorAddress = TrimSpace (payload_Get payload [OpFieldActorAddr]) in
              if actorAddress = '''' \<or> actorAddress \<noteq> userAddress then Inr None
              else Inr (Some (indexerID, ratio)))"

definition handleUpdateRatioTx :: "env \<Rightarrow> u32 \<Rightarrow> OpReturnPayload \<Rightarrow> bool \<Rightarrow> bool \<Rightarrow> Manager \<Rightarrow> mgr_error + Manager" where
  "handleUpdateRatioTx env height payload updateLatest updateSnapshot m0 =
     (case validateUpdateRatioTx env height payload m0 of
        Inl e \<Rightarrow> Inl e
      | Inr None \<Rightarrow> Inr m0
      | Inr (Some (indexerID, ratio)) \<Rightarrow>
        let delayed = \<lparr>dc_Ratio = ratio, dc_EventHeight = height,
                       dc_EffectiveHeight = height + CommissionActivationBlocks (m_cfg m0)\<rparr> in
        case (if \<not> updateLatest then Inr m0
              else
                let delayedKey = getIndexerInfoDelayedCommissionKey m0; infoKey = getIndexerInfoKey m0 indexerID in
                case stageCommissionRatioForHeight env height indexerID delayedKey infoKey ''index_ratio'' m0 of
                  Inl e \<Rightarrow> Inl e
                | Inr m \<Rightarrow>
                    Inr (m_stageHSet infoKey [(''last_update_height'', HUint (unat height))]
                      (stageDelayedCommissionRatio delayedKey indexerID delayed m))) of
          Inl e \<Rightarrow> Inl e
        | Inr m \<Rightarrow>
          if \<not> updateSnapshot then Inr m
          else case snapshot_keys m of (snapshotKey, delayedKey) \<Rightarrow>
            (case stageCommissionRatioForHeight env height indexerID delayedKey snapshotKey indexerID m of
               Inl e \<Rightarrow> Inl e
             | Inr m' \<Rightarrow> Inr (stageDelayedCommissionRatio delayedKey indexerID delayed m')))"

definition handleUpdateRatioTxLatest :: "env \<Rightarrow> u32 \<Rightarrow> OpReturnPayload \<Rightarrow> Manager \<Rightarrow> mgr_error + Manager" where
  "handleUpdateRatioTxLatest env height payload m = handleUpdateRatioTx env height payload True False m"

definition handleUpdateRatioTxSnapshot :: "env \<Rightarrow> u32 \<Rightarrow> OpReturnPayload \<Rightarrow> Manager \<Rightarrow> mgr_error + Manager" where
  "handleUpdateRatioTxSnapshot env height payload m = handleUpdateRatioTx env height payload False True m"


section \<open>Storing and activating a ratio\<close>

lemma parse_format_delayed:
  assumes "bp \<le> 10000" "dc_Ratio item = bp_ratio bp"
  shows "parseDelayedCommissionRatio (formatDelayedCommissionRatio item) = Some item"
proof -
  let ?r = "FormatRatio (dc_Ratio item)"
  let ?a = "FormatUint (unat (dc_EventHeight item))" and ?b = "FormatUint (unat (dc_EffectiveHeight item))"
  note shape = FormatRatio_shape [OF bp_ratio_bounds(1) [OF assms(1)], folded assms(2)]
  have ns: "CHR ''|'' \<notin> set ?r" "CHR ''|'' \<notin> set ?a" "CHR ''|'' \<notin> set ?b"
    using shape(4) digits_notin [of _ "CHR ''|''"] FormatUint_props by auto
  have "graphic (formatDelayedCommissionRatio item)"
    unfolding formatDelayedCommissionRatio_def using shape(1) graphic_FormatUint by simp
  then have "Split (CHR ''|'') (TrimSpace (formatDelayedCommissionRatio item)) = [?r, ?a, ?b]"
    unfolding formatDelayedCommissionRatio_def using ns by (simp only: TrimSpace_graphic, subst Split_Join) auto
  moreover have "ParseRatio ?r = Some (dc_Ratio item)"
  proof -
    have "ParseFloat ?r = Some (dc_Ratio item)"
      unfolding FormatRatio_def assms(2) by (rule ParseFloat_bp_ratio [OF assms(1)])
    moreover have "bp_ratio bp \<le> 1" by (rule bp_ratio_le_1 [OF assms(1)])
    ultimately show ?thesis using shape bp_ratio_bounds(1) [OF assms(1)] assms(2) by (simp add: ParseRatio_def Let_def)
  qed
  moreover have "ParseUint 32 (FormatUint (unat w)) = Some (unat w)" for w :: u32
    using unat_u32_less [of w] by (intro ParseUint_FormatUint) simp
  ultimately show ?thesis
    by (simp add: parseDelayedCommissionRatio_def)
qed

text \<open>A delayed commission survives the round trip through its stored text: for a ratio given in basis points, parsing
  what was formatted gives back the ratio and both heights.\<close>

theorem parse_formatDelayedCommissionRatio:
  assumes "bp \<le> 10000" "dc_Ratio item = bp_ratio bp"
  shows "parseDelayedCommissionRatio (formatDelayedCommissionRatio item) = Some item"
  by (rule parse_format_delayed [OF assms])

theorem parse_formatDelayedCommissionRatio_witness:
  "parseDelayedCommissionRatio (formatDelayedCommissionRatio
     \<lparr>dc_Ratio = bp_ratio 1500, dc_EventHeight = 1830000, dc_EffectiveHeight = 1850160\<rparr>) =
   Some \<lparr>dc_Ratio = bp_ratio 1500, dc_EventHeight = 1830000, dc_EffectiveHeight = 1850160\<rparr>"
  using parse_formatDelayedCommissionRatio [of 1500
      "\<lparr>dc_Ratio = bp_ratio 1500, dc_EventHeight = 1830000, dc_EffectiveHeight = 1850160\<rparr>"] by simp


lemma merge_fields_single [simp]: "merge_fields f [(k, v)] = mput f k v"
  by (simp add: merge_fields_def)

lemma m_stageHSet_simps [simp]:
  "pendingRewardMode (m_stageHSet key vs m) = pendingRewardMode m" "m_cfg (m_stageHSet key vs m) = m_cfg m"
  "slowState (m_stageHSet key vs m) = stageHSet key vs (slowState m)"
  "waitForUpsert (m_stageHSet key vs m) = waitForUpsert m"
  "snapshot_keys (m_stageHSet key vs m) = snapshot_keys m"
  "indexerToAddrStakeAmount (m_stageHSet key vs m) = indexerToAddrStakeAmount m"
  by (simp_all add: m_stageHSet_def snapshot_keys_def)

lemma staged_delayed_ratio:
  assumes "bp \<le> 10000" "dc_Ratio item = bp_ratio bp" "indexerID \<noteq> ''''" "key \<noteq> ''''"
  shows "loadDelayedCommissionRatio env (stageDelayedCommissionRatio key indexerID item m) key indexerID = Inr (Some item)"
  using parse_format_delayed [OF assms(1,2)] assms(3,4)
  by (simp add: loadDelayedCommissionRatio_def getStagedDelayedCommissionRatio_def stageDelayedCommissionRatio_def hval_text_def)

lemma snapshot_key_facts:
  "snapshot_keys m = (snapshotKey, delayedKey) \<Longrightarrow> snapshotKey \<noteq> delayedKey \<and> delayedKey \<noteq> '''' \<and>
     \<not> HasPrefix snapshotKey REDIS_STAKE_INDEXER_INFO_PREFIX \<and> \<not> HasPrefix snapshotKey REDIS_STAKE_PENDING_INDEXER_INFO_PREFIX \<and>
     \<not> HasPrefix delayedKey REDIS_STAKE_INDEXER_INFO_PREFIX \<and> \<not> HasPrefix delayedKey REDIS_STAKE_PENDING_INDEXER_INFO_PREFIX \<and>
     delayedKey \<noteq> REDIS_STAKE_INDEXER_RATIO_SNAPSHOT_KEY \<and> delayedKey \<noteq> REDIS_STAKE_PENDING_INDEXER_RATIO_SNAPSHOT_KEY \<and>
     (snapshotKey = REDIS_STAKE_INDEXER_RATIO_SNAPSHOT_KEY \<or> snapshotKey = REDIS_STAKE_PENDING_INDEXER_RATIO_SNAPSHOT_KEY)"
  by (auto simp: snapshot_keys_def REDIS_STAKE_PENDING_INDEXER_RATIO_SNAPSHOT_KEY_def REDIS_STAKE_INDEXER_RATIO_SNAPSHOT_KEY_def
      REDIS_STAKE_PENDING_INDEXER_RATIO_SNAPSHOT_DELAYED_COMMISSION_KEY_def REDIS_STAKE_INDEXER_INFO_PREFIX_def
      REDIS_STAKE_INDEXER_RATIO_SNAPSHOT_DELAYED_COMMISSION_KEY_def REDIS_STAKE_PENDING_INDEXER_INFO_PREFIX_def split: if_splits)

lemma snapRatio_stageHSet:
  assumes "snapshot_keys m = (snapshotKey, delayedKey)"
  shows "snapRatio (stageHSet delayedKey [(f, v)] s) = snapRatio s"
    and "snapRatio (stageHSet snapshotKey [(f, v)] s) = cache_ratio (snapRatio s) (f, v)"
  using snapshot_key_facts [OF assms] by (auto simp: stageHSet_def Let_def)

text \<open>What the buffer says about an indexer's snapshot ratio at a height: a due delayed ratio, else the cached one.\<close>

lemma snapshot_ratio_due:
  assumes k: "snapshot_keys m = (snapshotKey, delayedKey)" and i: "indexerID \<noteq> ''''" and bp: "bp \<le> 10000"
    and l: "loadDelayedCommissionRatio env m delayedKey indexerID = Inr (Some item)" "dc_Ratio item = bp_ratio bp"
    and h: "dc_EffectiveHeight item \<le> height"
  shows "\<exists>m'. getIndexerSnapshotRatio env height indexerID m = Inr (bp_ratio bp, m')"
proof -
  have "Sprint_ratio (HStr (FormatRatio (bp_ratio bp))) = Some (bp_ratio bp)"
    using ratio_roundtrip [OF bp] by (simp add: Sprint_ratio_def)
  moreover have "\<not> height < dc_EffectiveHeight item" using h by simp
  ultimately show ?thesis
    using i by (simp add: getIndexerSnapshotRatio_def k stageCommissionRatioForHeight_def l
        getCachedIndexerSnapshotRatio_def snapRatio_stageHSet(2) [OF k] cache_ratio_def)
qed

lemma snapshot_ratio_not_due:
  assumes k: "snapshot_keys m = (snapshotKey, delayedKey)" and i: "indexerID \<noteq> ''''"
    and l: "loadDelayedCommissionRatio env m delayedKey indexerID = Inr (Some item)"
    and h: "height < dc_EffectiveHeight item" and c: "mget (snapRatio (slowState m)) indexerID = Some r"
  shows "getIndexerSnapshotRatio env height indexerID m = Inr (r, m)"
  using h i c by (simp add: getIndexerSnapshotRatio_def k stageCommissionRatioForHeight_def l
      getCachedIndexerSnapshotRatio_def)



definition sample_register :: StakeIndexerRegister where
  "sample_register = \<lparr>reg_IndexerID = ''1:2'', reg_Name = ''n'', reg_RewardAddress = ''r'', reg_UserAddress = ''u1'',
     reg_IndexRatio = 0, reg_LastUpdateHeight = 1, reg_RegisterTxID = ''aa'', reg_Height = 1, reg_TxIdx = 2\<rparr>"

definition sample_env :: env where
  "sample_env = \<lparr>db_ok = (\<lambda>_. True), db_registers = [sample_register], db_bindings = [],
     rd_HGet = (\<lambda>key field. RVal (formatDelayedCommissionRatio
       \<lparr>dc_Ratio = bp_ratio 500, dc_EventHeight = 1800000, dc_EffectiveHeight = 1820160\<rparr>)),
     rd_Get = (\<lambda>_. RNil)\<rparr>"

definition sample_update :: OpReturnPayload where
  "sample_update = \<lparr>pl_Tag = TagAllocatRatio,
     pl_Fields = [(OpFieldIndexerID, ''1:2''), (OpFieldIndexRatio, FormatRatio (bp_ratio 1000)), (OpFieldActorAddr, ''u1'')],
     pl_Values = []\<rparr>"

lemma bp_1000_valid: "isValidCommissionRatio (bp_ratio 1000)"
proof -
  have "(1 / 2 ^ 3 :: rat) \<le> 15 / 100" by simp
  moreover have "pow2 (- 1022) \<le> 1 / 2 ^ 3" using pow2_mono [of "- 1022" "- 3"] by (simp add: pow2_def)
  ultimately have "pow2 (- 1022) \<le> (15 / 100 :: rat)" by linarith
  then have "15 / 100 * (1 - 1 / 2 ^ 53) \<le> maxCommissionRatio"
    unfolding maxCommissionRatio_def by (intro f64_round_lb) simp_all
  moreover have "bp_ratio 1000 \<le> of_nat 1000 / 10000 + 1 / 2 ^ 53"
    using bp_ratio_error [of 1000, OF _] by linarith
  moreover have "(of_nat 1000 / 10000 + 1 / 2 ^ 53 :: rat) \<le> 15 / 100 * (1 - 1 / 2 ^ 53)" by simp
  ultimately show ?thesis using bp_ratio_bounds(1) [of 1000] by (simp add: isValidCommissionRatio_def)
qed

lemma sample_update_valid:
  "validateUpdateRatioTx sample_env 1830000 sample_update (newManagerWithMode DefaultConfig False) =
     Inr (Some (''1:2'', bp_ratio 1000))"
proof -
  have t: "TrimSpace ''1:2'' = ''1:2''" "TrimSpace ''u1'' = ''u1''" "IsIndexerIDHeightTxIdx ''1:2''" by code_simp+
  have d: "OpFieldIndexRatio \<noteq> OpFieldIndexerID" "OpFieldActorAddr \<noteq> OpFieldIndexerID" "OpFieldActorAddr \<noteq> OpFieldIndexRatio"
    by (simp_all add: field_names)
  have p: "payload_Get sample_update [OpFieldIndexerID] = ''1:2''" "payload_Get sample_update [OpFieldActorAddr] = ''u1''"
    "payload_Get sample_update [OpFieldIndexRatio] = FormatRatio (bp_ratio 1000)"
    using FormatRatio_shape(3) [OF bp_ratio_bounds(1), of 1000]
    by (simp_all add: sample_update_def mget_def d)
  have "getIndexerUserAddressForAuth sample_env (newManagerWithMode DefaultConfig False) ''1:2'' = Inr ''u1''"
    by (simp add: getIndexerUserAddressForAuth_def t newManagerWithMode_def emptyWaitForUpsert_def map_filter_simps
        GetStakeIndexerRegisterByID_def sample_env_def sample_register_def)
  then show ?thesis
    using ratio_roundtrip [of 1000] bp_1000_valid
    by (simp add: validateUpdateRatioTx_def p normalizeIndexerIDAtHeight_def t Let_def del: payload_Get.simps)
qed


end
