(* ===== verification/RewardTables.thy ===== *)
theory RewardTables
  imports Float64 Go_Strings "HOL-Library.Multiset"
begin

text \<open>
  \<^verbatim>\<open>internal/component/pg/stake_allocated_reward.go\<close>, \<^verbatim>\<open>stake_pending_reward.go\<close>: the two reward tables, which have the same columns and
  the same unique key (height, indexer, stake address). A table is the list of its rows in the order of the serial
  id; integer columns are \<^verbatim>\<open>BIGINT\<close>. The driver refuses a \<^verbatim>\<open>uint64\<close> with the high bit set, which fails the
  statement and the transaction; reading clamps negative columns to 0. One record stands for the Go structs of both
  tables; \<open>rw_Amount\<close> is the allocated amount in one and the pending amount in the other.
\<close>

record StakeReward =
  rw_UserAddress :: string
  rw_IndexerID :: string
  rw_StakeAddress :: string
  rw_RewardType :: string
  rw_Height :: u32
  rw_StakeAmountSnapshot :: u64
  rw_IndexerTotalStake :: u64
  rw_IndexerEffectivePct :: f64
  rw_StakeAmountEffective :: u64
  rw_PlatformTotalStake :: u64
  rw_TotalEffectiveStake :: u64
  rw_ReleasePercent :: f64
  rw_BlockRewardAmount :: u64
  rw_IndexerRatio :: f64
  rw_Amount :: u64

type_synonym StakeAllocatedReward = StakeReward
type_synonym StakePendingReward = StakeReward

definition StakeRewardTypeStake :: string where "StakeRewardTypeStake = ''stake''"
definition StakeRewardTypeIndexer :: string where "StakeRewardTypeIndexer = ''indexer''"
definition StakeRewardTypeEarlySupporterRewardStake :: string where
  "StakeRewardTypeEarlySupporterRewardStake = ''early_supporter_reward_stake''"
definition StakeRewardTypeEarlySupporterRewardIndexer :: string where
  "StakeRewardTypeEarlySupporterRewardIndexer = ''early_supporter_reward_indexer''"

definition IsStandardClaimRewardType :: "string \<Rightarrow> bool" where
  "IsStandardClaimRewardType t \<longleftrightarrow> t = StakeRewardTypeStake \<or> t = StakeRewardTypeIndexer"

definition IsEarlySupporterClaimRewardType :: "string \<Rightarrow> bool" where
  "IsEarlySupporterClaimRewardType t \<longleftrightarrow>
     t = StakeRewardTypeEarlySupporterRewardStake \<or> t = StakeRewardTypeEarlySupporterRewardIndexer"

text \<open>A row as the database holds it.\<close>

record reward_row =
  row_user :: string
  row_indexer :: string
  row_stake_address :: string
  row_type :: string
  row_height :: int
  row_stake_snapshot :: int
  row_indexer_total :: int
  row_effective_pct :: f64
  row_stake_effective :: int
  row_platform_total :: int
  row_total_effective :: int
  row_release_pct :: f64
  row_block_reward :: int
  row_ratio :: f64
  row_amount :: int

definition bigint_ok :: "u64 \<Rightarrow> bool" where
  "bigint_ok n \<longleftrightarrow> unat n < 2 ^ 63"

definition row_of :: "StakeReward \<Rightarrow> reward_row option" where
  "row_of r =
     (if list_all bigint_ok [rw_StakeAmountSnapshot r, rw_IndexerTotalStake r, rw_StakeAmountEffective r,
           rw_PlatformTotalStake r, rw_TotalEffectiveStake r, rw_BlockRewardAmount r, rw_Amount r]
      then Some \<lparr>row_user = rw_UserAddress r, row_indexer = rw_IndexerID r, row_stake_address = rw_StakeAddress r,
        row_type = rw_RewardType r, row_height = uint (rw_Height r),
        row_stake_snapshot = uint (rw_StakeAmountSnapshot r), row_indexer_total = uint (rw_IndexerTotalStake r),
        row_effective_pct = rw_IndexerEffectivePct r, row_stake_effective = uint (rw_StakeAmountEffective r),
        row_platform_total = uint (rw_PlatformTotalStake r), row_total_effective = uint (rw_TotalEffectiveStake r),
        row_release_pct = rw_ReleasePercent r, row_block_reward = uint (rw_BlockRewardAmount r),
        row_ratio = rw_IndexerRatio r, row_amount = uint (rw_Amount r)\<rparr>
      else None)"

definition clamp0 :: "int \<Rightarrow> int" where
  "clamp0 n = (if n < 0 then 0 else n)"

definition clamp_pct :: "f64 \<Rightarrow> f64" where
  "clamp_pct p = (let p = (if p < 0 then 0 else p) in if p > 100 then 100 else p)"

definition scan_row :: "reward_row \<Rightarrow> StakeReward" where
  "scan_row w =
     \<lparr>rw_UserAddress = row_user w, rw_IndexerID = row_indexer w, rw_StakeAddress = row_stake_address w,
      rw_RewardType = row_type w, rw_Height = word_of_int (clamp0 (row_height w)),
      rw_StakeAmountSnapshot = word_of_int (clamp0 (row_stake_snapshot w)),
      rw_IndexerTotalStake = word_of_int (clamp0 (row_indexer_total w)),
      rw_IndexerEffectivePct = clamp_pct (row_effective_pct w),
      rw_StakeAmountEffective = word_of_int (clamp0 (row_stake_effective w)),
      rw_PlatformTotalStake = word_of_int (clamp0 (row_platform_total w)),
      rw_TotalEffectiveStake = word_of_int (clamp0 (row_total_effective w)),
      rw_ReleasePercent = clamp_pct (row_release_pct w),
      rw_BlockRewardAmount = word_of_int (clamp0 (row_block_reward w)),
      rw_IndexerRatio = (if row_ratio w < 0 then 0 else row_ratio w),
      rw_Amount = word_of_int (clamp0 (row_amount w))\<rparr>"

type_synonym reward_table = "reward_row list"

definition row_key :: "reward_row \<Rightarrow> int \<times> string \<times> string" where
  "row_key w = (row_height w, row_indexer w, row_stake_address w)"

text \<open>\<^verbatim>\<open>INSERT ... ON CONFLICT (height, indexer_id, stake_address) DO UPDATE\<close>: the row with the key keeps its id.\<close>

fun put_row :: "reward_row \<Rightarrow> reward_table \<Rightarrow> reward_table" where
  "put_row w [] = [w]"
| "put_row w (v # vs) = (if row_key v = row_key w then w # vs else v # put_row w vs)"

definition upsertStakeAllocatedReward :: "reward_table \<Rightarrow> StakeAllocatedReward \<Rightarrow> reward_table option" where
  "upsertStakeAllocatedReward t item = map_option (\<lambda>w. put_row w t) (row_of item)"

definition upsertStakePendingReward :: "reward_table \<Rightarrow> StakePendingReward \<Rightarrow> reward_table option" where
  "upsertStakePendingReward t item = map_option (\<lambda>w. put_row w t) (row_of item)"

text \<open>The batches run in one transaction: \<open>None\<close> is a failed batch, which leaves the table as it was.\<close>

definition UpsertStakeAllocatedRewardBatch :: "reward_table \<Rightarrow> StakeAllocatedReward list \<Rightarrow> reward_table option" where
  "UpsertStakeAllocatedRewardBatch t items =
     foldl (\<lambda>acc item. case acc of None \<Rightarrow> None | Some t \<Rightarrow> upsertStakeAllocatedReward t item) (Some t) items"

definition UpsertStakePendingRewardBatch :: "reward_table \<Rightarrow> StakePendingReward list \<Rightarrow> reward_table option" where
  "UpsertStakePendingRewardBatch t items =
     foldl (\<lambda>acc item. case acc of None \<Rightarrow> None | Some t \<Rightarrow> upsertStakePendingReward t item) (Some t) items"

definition page_limit :: "int \<Rightarrow> nat" where
  "page_limit limit = nat (let limit = (if limit \<le> 0 then 50 else limit) in if limit > 500 then 500 else limit)"

definition page :: "int \<Rightarrow> int \<Rightarrow> 'a list \<Rightarrow> 'a list" where
  "page limit offset xs = take (page_limit limit) (drop (nat (if offset < 0 then 0 else offset)) xs)"

definition rows_by_user :: "reward_table \<Rightarrow> string \<Rightarrow> reward_row list" where
  "rows_by_user t user = rev (sort_key row_height (filter (\<lambda>w. row_user w = user) t))"

definition ListStakeAllocatedRewardsByUserAddress :: "reward_table \<Rightarrow> string \<Rightarrow> int \<Rightarrow> int \<Rightarrow> StakeAllocatedReward list" where
  "ListStakeAllocatedRewardsByUserAddress t user limit offset = map scan_row (page limit offset (rows_by_user t user))"

definition ListStakePendingRewardsByUserAddress :: "reward_table \<Rightarrow> string \<Rightarrow> int \<Rightarrow> int \<Rightarrow> StakePendingReward list" where
  "ListStakePendingRewardsByUserAddress t user limit offset = map scan_row (page limit offset (rows_by_user t user))"

definition CountStakeAllocatedRewardsByUserAddress :: "reward_table \<Rightarrow> string \<Rightarrow> nat" where
  "CountStakeAllocatedRewardsByUserAddress t user = length (filter (\<lambda>w. row_user w = user) t)"

definition CountStakePendingRewardsByUserAddress :: "reward_table \<Rightarrow> string \<Rightarrow> nat" where
  "CountStakePendingRewardsByUserAddress t user = length (filter (\<lambda>w. row_user w = user) t)"

definition GetLatestStakeAllocatedRewardHeight :: "reward_table \<Rightarrow> u32 option" where
  "GetLatestStakeAllocatedRewardHeight t =
     (case rev (sort_key row_height t) of [] \<Rightarrow> None | w # _ \<Rightarrow> Some (word_of_int (row_height w)))"

definition ListStakePendingRewardsByHeight :: "reward_table \<Rightarrow> u32 \<Rightarrow> StakePendingReward list" where
  "ListStakePendingRewardsByHeight t height = map scan_row (filter (\<lambda>w. row_height w = uint height) t)"

definition DeleteStakePendingRewardsByHeight :: "reward_table \<Rightarrow> u32 \<Rightarrow> reward_table" where
  "DeleteStakePendingRewardsByHeight t height = filter (\<lambda>w. row_height w \<noteq> uint height) t"


section \<open>Rows and items\<close>

text \<open>An item whose columns the reader does not clamp.\<close>

definition item_ok :: "StakeReward \<Rightarrow> bool" where
  "item_ok r \<longleftrightarrow> row_of r \<noteq> None \<and> 0 \<le> rw_IndexerEffectivePct r \<and> rw_IndexerEffectivePct r \<le> 100 \<and>
     0 \<le> rw_ReleasePercent r \<and> rw_ReleasePercent r \<le> 100 \<and> 0 \<le> rw_IndexerRatio r"

lemma clamp0_uint [simp]: "clamp0 (uint w) = uint w"
  by (simp add: clamp0_def not_less)

lemma clamp_pct_id: "0 \<le> p \<Longrightarrow> p \<le> 100 \<Longrightarrow> clamp_pct p = p"
  by (simp add: clamp_pct_def not_less)

lemma scan_row_of:
  assumes "item_ok r" "row_of r = Some w"
  shows "scan_row w = r"
proof -
  have w: "w = the (row_of r)" using assms(2) by simp
  have c: "list_all bigint_ok [rw_StakeAmountSnapshot r, rw_IndexerTotalStake r, rw_StakeAmountEffective r,
      rw_PlatformTotalStake r, rw_TotalEffectiveStake r, rw_BlockRewardAmount r, rw_Amount r]"
    using assms(2) unfolding row_of_def by (metis (mono_tags) option.distinct(1))
  have p: "clamp_pct (rw_IndexerEffectivePct r) = rw_IndexerEffectivePct r" "clamp_pct (rw_ReleasePercent r) = rw_ReleasePercent r"
    "\<not> rw_IndexerRatio r < 0"
    using assms(1) by (simp_all add: item_ok_def clamp_pct_id not_less)
  show ?thesis
    unfolding w row_of_def if_P [OF c] option.sel
    by (rule StakeReward.equality) (simp_all add: scan_row_def p)
qed

definition item_key :: "StakeReward \<Rightarrow> int \<times> string \<times> string" where
  "item_key r = (uint (rw_Height r), rw_IndexerID r, rw_StakeAddress r)"

lemma row_of_key: "row_of r = Some w \<Longrightarrow> row_key w = item_key r \<and> row_height w = uint (rw_Height r)"
  by (auto simp: row_of_def row_key_def item_key_def split: if_splits)

section \<open>Upserts\<close>

definition table_wf :: "reward_table \<Rightarrow> bool" where
  "table_wf t \<longleftrightarrow> distinct (map row_key t)"

lemma put_row_new: "row_key w \<notin> set (map row_key t) \<Longrightarrow> put_row w t = t @ [w]"
  by (induction t) auto

lemma put_row_same: "table_wf t \<Longrightarrow> w \<in> set t \<Longrightarrow> put_row w t = t"
  by (induction t) (auto simp: table_wf_def image_iff)

lemma put_row_keys: "set (map row_key (put_row w t)) = insert (row_key w) (set (map row_key t))"
  by (induction t) auto

lemma put_row_wf: "table_wf t \<Longrightarrow> table_wf (put_row w t)"
proof (induction t)
  case Nil
  then show ?case by (simp add: table_wf_def)
next
  case (Cons v vs)
  then show ?case using put_row_keys [of w vs] by (auto simp: table_wf_def)
qed

lemma put_row_in: "w \<in> set (put_row w t)"
  by (induction t) auto

lemma put_row_other: "row_key v \<noteq> row_key w \<Longrightarrow> v \<in> set (put_row w t) \<longleftrightarrow> v \<in> set t"
  by (induction t) auto

text \<open>Both batches fold the same step.\<close>

definition upsert_all :: "reward_table \<Rightarrow> StakeReward list \<Rightarrow> reward_table option" where
  "upsert_all t items = foldl (\<lambda>acc item. case acc of None \<Rightarrow> None
     | Some t \<Rightarrow> map_option (\<lambda>w. put_row w t) (row_of item)) (Some t) items"

lemma batch_upsert_all:
  "UpsertStakeAllocatedRewardBatch t items = upsert_all t items"
  "UpsertStakePendingRewardBatch t items = upsert_all t items"
  unfolding UpsertStakeAllocatedRewardBatch_def UpsertStakePendingRewardBatch_def upsert_all_def
    upsertStakeAllocatedReward_def upsertStakePendingReward_def by (rule refl)+

lemma upsert_all_Nil [simp]: "upsert_all t [] = Some t"
  by (simp add: upsert_all_def)

lemma foldl_option_None: "foldl (\<lambda>acc x. case acc of None \<Rightarrow> None | Some t \<Rightarrow> f t x) None xs = None"
  by (induction xs) simp_all

lemma upsert_all_Cons:
  "upsert_all t (r # rs) = (case row_of r of None \<Rightarrow> None | Some w \<Rightarrow> upsert_all (put_row w t) rs)"
  by (simp add: upsert_all_def foldl_option_None split: option.split)

lemma upsert_all_Some:
  "upsert_all t rs = Some t' \<Longrightarrow> \<forall>r \<in> set rs. row_of r \<noteq> None"
  by (induction rs arbitrary: t) (auto simp: upsert_all_Cons split: option.splits)

lemma upsert_all_wf: "table_wf t \<Longrightarrow> upsert_all t rs = Some t' \<Longrightarrow> table_wf t'"
  by (induction rs arbitrary: t) (auto simp: upsert_all_Cons dest: put_row_wf split: option.splits)

lemma upsert_all_keeps:
  "upsert_all t rs = Some t' \<Longrightarrow> row_key v \<notin> set (map item_key rs) \<Longrightarrow> v \<in> set t' \<longleftrightarrow> v \<in> set t"
proof (induction rs arbitrary: t)
  case (Cons r rs)
  then obtain w where w: "row_of r = Some w" "upsert_all (put_row w t) rs = Some t'"
    by (auto simp: upsert_all_Cons split: option.splits)
  then have "row_key v \<noteq> row_key w" using row_of_key [OF w(1)] Cons.prems(2) by auto
  with Cons.IH [OF w(2)] Cons.prems(2) show ?case by (simp add: put_row_other)
qed simp

lemma upsert_all_in:
  "upsert_all t rs = Some t' \<Longrightarrow> distinct (map item_key rs) \<Longrightarrow> r \<in> set rs \<Longrightarrow> row_of r = Some w \<Longrightarrow> w \<in> set t'"
proof (induction rs arbitrary: t)
  case (Cons q rs)
  then obtain v where v: "row_of q = Some v" "upsert_all (put_row v t) rs = Some t'"
    by (auto simp: upsert_all_Cons split: option.splits)
  show ?case
  proof (cases "r = q")
    case True
    then have "row_key w \<notin> set (map item_key rs)" "w = v"
      using Cons.prems(2,4) row_of_key [of r w] v(1) by auto
    with upsert_all_keeps [OF v(2)] put_row_in [of v t] show ?thesis by blast
  next
    case False
    with Cons.IH [OF v(2)] Cons.prems show ?thesis by simp
  qed
qed simp

lemma upsert_all_new:
  "upsert_all t rs = Some t' \<Longrightarrow> distinct (map item_key rs) \<Longrightarrow> set (map item_key rs) \<inter> set (map row_key t) = {} \<Longrightarrow>
     t' = t @ map (the \<circ> row_of) rs"
proof (induction rs arbitrary: t)
  case (Cons r rs)
  then obtain w where w: "row_of r = Some w" "upsert_all (put_row w t) rs = Some t'"
    by (auto simp: upsert_all_Cons split: option.splits)
  have k: "row_key w = item_key r" using row_of_key [OF w(1)] by simp
  then have "put_row w t = t @ [w]" using Cons.prems(3) by (intro put_row_new) auto
  moreover have "t' = put_row w t @ map (the \<circ> row_of) rs"
    using Cons.prems k calculation by (intro Cons.IH [OF w(2)]) auto
  ultimately show ?case using w(1) by simp
qed simp

lemma upsert_all_present:
  "table_wf t \<Longrightarrow> \<forall>r \<in> set rs. \<exists>w. row_of r = Some w \<and> w \<in> set t \<Longrightarrow> upsert_all t rs = Some t"
  by (induction rs) (auto simp: upsert_all_Cons put_row_same)


text \<open>C34. Replaying a batch is harmless: storing the same allocated rewards a second time (as happens when a block is
  processed again after a crash) leaves the table exactly as the first run left it, keeps one row per height,
  indexer and stake address, and touches no row with another key.\<close>

theorem UpsertStakeAllocatedRewardBatch_replay:
  assumes "table_wf t" "distinct (map item_key items)" "UpsertStakeAllocatedRewardBatch t items = Some t'"
  shows "UpsertStakeAllocatedRewardBatch t' items = Some t' \<and> table_wf t' \<and>
    (\<forall>v. row_key v \<notin> set (map item_key items) \<longrightarrow> (v \<in> set t' \<longleftrightarrow> v \<in> set t))"
proof -
  have u: "upsert_all t items = Some t'" using assms(3) by (simp add: batch_upsert_all)
  have wf: "table_wf t'" by (rule upsert_all_wf [OF assms(1) u])
  have "\<exists>w. row_of r = Some w \<and> w \<in> set t'" if "r \<in> set items" for r
    using upsert_all_Some [OF u] upsert_all_in [OF u assms(2) that] that by auto
  then have "upsert_all t' items = Some t'" using wf by (intro upsert_all_present) auto
  with wf upsert_all_keeps [OF u] show ?thesis by (simp add: batch_upsert_all)
qed

definition sample_reward :: "string \<Rightarrow> u64 \<Rightarrow> StakeReward" where
  "sample_reward addr amount =
     \<lparr>rw_UserAddress = addr, rw_IndexerID = ''1761438:1'', rw_StakeAddress = addr, rw_RewardType = ''stake'',
      rw_Height = 1830000, rw_StakeAmountSnapshot = 5, rw_IndexerTotalStake = 10, rw_IndexerEffectivePct = 100,
      rw_StakeAmountEffective = 10, rw_PlatformTotalStake = 20, rw_TotalEffectiveStake = 20, rw_ReleasePercent = 45,
      rw_BlockRewardAmount = 2500000000, rw_IndexerRatio = 0, rw_Amount = amount\<rparr>"

theorem UpsertStakeAllocatedRewardBatch_replay_witness:
  "\<exists>t'. UpsertStakeAllocatedRewardBatch [] [sample_reward ''a'' 7, sample_reward ''b'' 9] = Some t' \<and>
     UpsertStakeAllocatedRewardBatch t' [sample_reward ''a'' 7, sample_reward ''b'' 9] = Some t' \<and> length t' = 2"
proof -
  let ?rs = "[sample_reward ''a'' 7, sample_reward ''b'' 9]"
  have "\<exists>t'. UpsertStakeAllocatedRewardBatch [] ?rs = Some t' \<and> length t' = 2"
    unfolding batch_upsert_all
    by (simp add: upsert_all_Cons row_of_def bigint_ok_def sample_reward_def row_key_def)
  then obtain t' where t: "UpsertStakeAllocatedRewardBatch [] ?rs = Some t'" "length t' = 2" by (elim exE conjE)
  have "table_wf []" "distinct (map item_key ?rs)"
    by (simp_all add: table_wf_def item_key_def sample_reward_def)
  from UpsertStakeAllocatedRewardBatch_replay [OF this t(1)] t show ?thesis by (intro exI conjI) simp_all
qed

text \<open>C35. The pending rewards of a height are replaced as a whole: after deleting the rows of the height and storing a new
  batch for it, listing the height gives back exactly the items stored, in order, and the rows of all other
  heights are unchanged.\<close>

theorem pending_rewards_replace:
  assumes "\<forall>r \<in> set items. rw_Height r = h \<and> item_ok r" "distinct (map item_key items)"
  shows "\<exists>t'. UpsertStakePendingRewardBatch (DeleteStakePendingRewardsByHeight t h) items = Some t' \<and>
    ListStakePendingRewardsByHeight t' h = items \<and>
    (\<forall>h'. h' \<noteq> h \<longrightarrow> ListStakePendingRewardsByHeight t' h' = ListStakePendingRewardsByHeight t h')"
proof -
  let ?t = "DeleteStakePendingRewardsByHeight t h"
  have row: "\<exists>w. row_of r = Some w" if "r \<in> set items" for r using assms(1) that by (auto simp: item_ok_def)
  have "\<exists>t'. upsert_all t0 items = Some t'" for t0
    using row by (induction items arbitrary: t0) (auto simp: upsert_all_Cons split: option.split)
  then obtain t' where u: "upsert_all ?t items = Some t'" by blast
  have "set (map item_key items) \<inter> set (map row_key ?t) = {}"
    using assms(1) by (auto simp: item_key_def row_key_def DeleteStakePendingRewardsByHeight_def)
  then have t': "t' = ?t @ map (the \<circ> row_of) items" by (rule upsert_all_new [OF u assms(2)])
  have hh: "row_height ((the \<circ> row_of) r) = uint h" "scan_row ((the \<circ> row_of) r) = r" if "r \<in> set items" for r
    using row [OF that] assms(1) that row_of_key [of r] scan_row_of [of r] by auto
  have rows: "filter (\<lambda>w. row_height w = uint h) (map (the \<circ> row_of) items) = map (the \<circ> row_of) items"
    using hh(1) by (auto intro!: filter_True)
  have "ListStakePendingRewardsByHeight t' h = items"
    using hh(2) rows by (simp add: ListStakePendingRewardsByHeight_def t' DeleteStakePendingRewardsByHeight_def
        conj_commute map_idI)
  moreover have "ListStakePendingRewardsByHeight t' h' = ListStakePendingRewardsByHeight t h'" if "h' \<noteq> h" for h'
  proof -
    have ne: "uint h \<noteq> uint h'" using that by (metis word_uint_eq_iff)
    have "filter (\<lambda>w. row_height w = uint h') (map (the \<circ> row_of) items) = []"
      using hh(1) ne by (auto simp: filter_empty_conv)
    moreover have "filter (\<lambda>w. row_height w = uint h') ?t = filter (\<lambda>w. row_height w = uint h') t"
      unfolding DeleteStakePendingRewardsByHeight_def filter_filter by (rule filter_cong) (use ne in auto)
    ultimately show ?thesis by (simp add: ListStakePendingRewardsByHeight_def t')
  qed
  ultimately show ?thesis using u by (auto simp: batch_upsert_all)
qed

theorem pending_rewards_replace_witness:
  "\<exists>t'. UpsertStakePendingRewardBatch (DeleteStakePendingRewardsByHeight [] 1830000)
       [sample_reward ''a'' 7, sample_reward ''b'' 9] = Some t' \<and>
     ListStakePendingRewardsByHeight t' 1830000 = [sample_reward ''a'' 7, sample_reward ''b'' 9]"
proof -
  have h: "\<forall>r \<in> set [sample_reward ''a'' 7, sample_reward ''b'' 9]. rw_Height r = 1830000 \<and> item_ok r"
    by (simp add: item_ok_def row_of_def bigint_ok_def sample_reward_def)
  have d: "distinct (map item_key [sample_reward ''a'' 7, sample_reward ''b'' 9])"
    by (simp add: item_key_def sample_reward_def)
  from pending_rewards_replace [OF h d, of "[]"] show ?thesis by (elim exE conjE, intro exI conjI)
qed

end
