(* ===== verification/RewardMath.thy ===== *)
theory RewardMath
  imports Float64 GoMap
begin

text \<open>
  The float arithmetic of \<^verbatim>\<open>handleBlockReward\<close> (\<^verbatim>\<open>internal/exec/manager/handler_reward.go\<close>): quantization and
  proportional shares. The locale \<open>quantizer\<close> is the contract the two rounding modes share, an upper bound on the
  quantized value; the bound on the sum of all shares is proved once in it and obtained for truncation (from the
  stage-2 height on) and for rounding (before) by interpretation.
\<close>

declare of_nat_unat [simp del]

definition rewardTruncationEpsilon :: f64 where
  "rewardTruncationEpsilon = f64_round (1 / 10 ^ 9)"

definition quantizeReward :: "f64 \<Rightarrow> bool \<Rightarrow> u64" where
  "quantizeReward value useTruncation =
     (if value \<le> 0 then 0
      else if useTruncation then u64_of_f64 (math_Floor (f64_add value rewardTruncationEpsilon))
      else u64_of_f64 (math_Round value))"

text \<open>\<^verbatim>\<open>float64(amount) * (float64(weight) / float64(total))\<close>.\<close>

definition proportional :: "u64 \<Rightarrow> u64 \<Rightarrow> u64 \<Rightarrow> f64" where
  "proportional amount weight tot =
     f64_mul (f64_of_u64 amount) (f64_div (f64_of_u64 weight) (f64_of_u64 tot))"

section \<open>Relative error\<close>

lemma f64_round_ub_normal: "x = 0 \<or> 1 / 2 ^ 200 \<le> x \<Longrightarrow> f64_round x \<le> x * (1 + 1 / 2 ^ 53)"
proof -
  have p: "pow2 (- 1022) \<le> 1 / 2 ^ 200" using pow2_mono [of "- 1022" "- 200"] by (simp add: pow2_def)
  assume x: "x = 0 \<or> 1 / 2 ^ 200 \<le> x"
  have "(0 :: rat) \<le> 1 / 2 ^ 200" by simp
  with x have "0 \<le> x" by linarith
  with x p show ?thesis by (intro f64_round_ub) linarith+
qed

lemma f64_round_lb_normal: "x = 0 \<or> 1 / 2 ^ 200 \<le> x \<Longrightarrow> x * (1 - 1 / 2 ^ 53) \<le> f64_round x"
proof -
  have p: "pow2 (- 1022) \<le> 1 / 2 ^ 200" using pow2_mono [of "- 1022" "- 200"] by (simp add: pow2_def)
  assume x: "x = 0 \<or> 1 / 2 ^ 200 \<le> x"
  have "(0 :: rat) \<le> 1 / 2 ^ 200" by simp
  with x have "0 \<le> x" by linarith
  with x p show ?thesis by (intro f64_round_lb) linarith+
qed

lemma of_nat_normal: "of_nat n = (0::rat) \<or> 1 / 2 ^ 200 \<le> (of_nat n :: rat)"
proof (cases n)
  case (Suc k)
  have "1 / 2 ^ 200 \<le> (1 :: rat)" by simp
  also have "\<dots> \<le> of_nat n" using Suc by simp
  finally show ?thesis ..
qed simp

lemma f64_of_u64_ub: "f64_of_u64 n \<le> of_nat (unat n) * (1 + 1 / 2 ^ 53)"
  unfolding f64_of_u64_unat by (rule f64_round_ub_normal) (rule of_nat_normal)

lemma f64_of_u64_lb: "of_nat (unat n) * (1 - 1 / 2 ^ 53) \<le> f64_of_u64 n"
  unfolding f64_of_u64_unat by (rule f64_round_lb_normal) (rule of_nat_normal)

lemma f64_of_u64_ge: "n \<noteq> 0 \<Longrightarrow> 1 / 2 \<le> f64_of_u64 n"
proof -
  assume "n \<noteq> 0"
  then have "1 \<le> unat n" by (simp add: unat_gt_0 Suc_leI)
  then have "(1 :: rat) \<le> of_nat (unat n)" using of_nat_mono [of 1 "unat n", where 'a = rat] by simp
  then have "1 * (1 - 1 / 2 ^ 53) \<le> of_nat (unat n) * (1 - 1 / 2 ^ 53 :: rat)" by (rule mult_right_mono) simp
  with f64_of_u64_lb [of n] show ?thesis by simp
qed

lemma f64_of_u64_le: "f64_of_u64 n \<le> 2 ^ 65"
proof -
  have "unat n \<le> 2 ^ 64" using less_imp_le [OF unat_u64_less [of n]] by simp
  then have "(of_nat (unat n) :: rat) \<le> 2 ^ 64" by (metis of_nat_le_iff of_nat_numeral of_nat_power)
  then have "of_nat (unat n) * (1 + 1 / 2 ^ 53) \<le> (2 ^ 64 * (1 + 1 / 2 ^ 53) :: rat)" by (rule mult_right_mono) simp
  with f64_of_u64_ub [of n] show ?thesis by simp
qed

lemma quotient_normal: "b = 0 \<or> 1 / 2 \<le> b \<Longrightarrow> 0 < c \<Longrightarrow> c \<le> 2 ^ 65 \<Longrightarrow> b / c = 0 \<or> 1 / 2 ^ 66 \<le> b / c" for b c :: rat
proof -
  assume b: "b = 0 \<or> 1 / 2 \<le> b" and c: "0 < c" "c \<le> 2 ^ 65"
  show ?thesis
  proof (cases "b = 0")
    case False
    then have "(1 / 2) / 2 ^ 65 \<le> b / c" using b c by (intro frac_le) auto
    then show ?thesis by simp
  qed simp
qed

lemma zero_or_half: "f64_of_u64 n = 0 \<or> 1 / 2 \<le> f64_of_u64 n"
  using f64_of_u64_ge [of n] by (cases "n = 0") (simp_all add: f64_of_u64_def)

lemma proportional_ub:
  assumes "t \<noteq> 0"
  shows "proportional u w t \<le> of_nat (unat u) * of_nat (unat w) / of_nat (unat t) * (1 + 6 / 2 ^ 53)"
    and "0 \<le> proportional u w t"
proof -
  let ?d = "1 + 1 / 2 ^ 53 :: rat" and ?e = "1 - 1 / 2 ^ 53 :: rat"
  let ?a = "f64_of_u64 u" and ?b = "f64_of_u64 w" and ?c = "f64_of_u64 t"
  define U W T where "U = (of_nat (unat u) :: rat)" and "W = (of_nat (unat w) :: rat)" and "T = (of_nat (unat t) :: rat)"
  have pos: "0 \<le> U" "0 \<le> W" "0 < T" using assms by (simp_all add: U_def W_def T_def unat_gt_0)
  have c: "0 < ?c" "?c \<le> 2 ^ 65" using f64_of_u64_ge [OF assms] f64_of_u64_le [of t] by linarith+
  have bc: "?b / ?c = 0 \<or> 1 / 2 ^ 66 \<le> ?b / ?c" by (rule quotient_normal [OF zero_or_half c])
  have "1 / 2 ^ 200 \<le> (1 / 2 ^ 66 :: rat)" by simp
  with bc have bc': "?b / ?c = 0 \<or> 1 / 2 ^ 200 \<le> ?b / ?c" by linarith
  have q: "f64_div ?b ?c \<le> ?b / ?c * ?d"
    unfolding f64_div_def by (rule f64_round_ub_normal [OF bc'])
  have q0: "f64_div ?b ?c = 0 \<or> 1 / 2 ^ 67 \<le> f64_div ?b ?c"
  proof (cases "?b / ?c = 0")
    case True
    then show ?thesis unfolding f64_div_def True by simp
  next
    case False
    have "?b / ?c * ?e \<le> f64_div ?b ?c"
      unfolding f64_div_def by (rule f64_round_lb_normal [OF bc'])
    moreover have "1 / 2 ^ 66 * ?e \<le> ?b / ?c * ?e" using bc False by (intro mult_right_mono) auto
    ultimately show ?thesis by simp
  qed
  then have qn: "0 \<le> f64_div ?b ?c" by auto
  have m: "?a * f64_div ?b ?c = 0 \<or> 1 / 2 ^ 200 \<le> ?a * f64_div ?b ?c"
  proof (cases "?a = 0 \<or> f64_div ?b ?c = 0")
    case False
    then have "(1 / 2) * (1 / 2 ^ 67) \<le> ?a * f64_div ?b ?c"
      using zero_or_half [of u] q0 by (intro mult_mono) auto
    moreover have "1 / 2 ^ 200 \<le> (1 / 2) * (1 / 2 ^ 67 :: rat)" by simp
    ultimately show ?thesis by linarith
  qed auto
  show "0 \<le> proportional u w t"
    unfolding proportional_def f64_mul_def by (rule f64_round_nonneg) (simp add: qn)
  have "proportional u w t \<le> ?a * f64_div ?b ?c * ?d"
    unfolding proportional_def f64_mul_def by (rule f64_round_ub_normal [OF m])
  also have "\<dots> \<le> (U * ?d) * (W * ?d / (T * ?e) * ?d) * ?d"
  proof (intro mult_right_mono mult_mono)
    show "?a \<le> U * ?d" unfolding U_def by (rule f64_of_u64_ub)
    have "?b / ?c \<le> W * ?d / (T * ?e)"
      by (rule frac_le) (use pos f64_of_u64_ub [of w] f64_of_u64_lb [of t] in \<open>simp_all add: W_def T_def\<close>)
    then have "?b / ?c * ?d \<le> W * ?d / (T * ?e) * ?d" by (rule mult_right_mono) simp
    with q show "f64_div ?b ?c \<le> W * ?d / (T * ?e) * ?d" by linarith
  qed (use pos qn in simp_all)
  also have "\<dots> = U * W / T * (?d ^ 4 / ?e)" by (simp add: power4_eq_xxxx)
  also have "\<dots> \<le> U * W / T * (1 + 6 / 2 ^ 53)"
    by (rule mult_left_mono) (use pos in \<open>simp_all add: power4_eq_xxxx\<close>)
  finally show "proportional u w t \<le> of_nat (unat u) * of_nat (unat w) / of_nat (unat t) * (1 + 6 / 2 ^ 53)"
    by (simp only: U_def W_def T_def)
qed


section \<open>Sums of quantized shares\<close>

lemma sum_list_linear: "(\<Sum>x \<leftarrow> xs. f x * c + e) = (\<Sum>x \<leftarrow> xs. f x) * c + of_nat (length xs) * e" for c e :: rat
  by (induction xs) (simp_all add: algebra_simps)

locale quantizer =
  fixes q :: "f64 \<Rightarrow> u64" and eps :: rat
  assumes q_ub: "0 \<le> x \<Longrightarrow> x < 2 ^ 60 \<Longrightarrow> of_nat (unat (q x)) \<le> x * (1 + 1 / 2 ^ 53) + eps"
    and eps_nonneg: "0 \<le> eps"
begin

lemma share_ub:
  assumes "t \<noteq> 0" "unat u < 2 ^ 50" "of_nat (unat w) \<le> (of_nat (unat t) :: rat) * 2"
  shows "of_nat (unat (q (proportional u w t))) \<le>
    of_nat (unat u) * of_nat (unat w) / of_nat (unat t) * (1 + 8 / 2 ^ 53) + eps"
proof -
  define U W T where "U = (of_nat (unat u) :: rat)" and "W = (of_nat (unat w) :: rat)" and "T = (of_nat (unat t) :: rat)"
  have pos: "0 \<le> U" "0 \<le> W" "0 < T" using assms(1) by (simp_all add: U_def W_def T_def unat_gt_0)
  have p: "proportional u w t \<le> U * W / T * (1 + 6 / 2 ^ 53)" "0 \<le> proportional u w t"
    using proportional_ub [OF assms(1)] by (simp_all only: U_def W_def T_def)
  have U: "U \<le> 2 ^ 50"
    unfolding U_def using less_imp_le [OF assms(2)] by (metis of_nat_le_iff of_nat_numeral of_nat_power)
  have "W / T \<le> 2" using assms(3) pos by (simp add: W_def T_def pos_divide_le_eq mult.commute)
  then have "U * (W / T) \<le> 2 ^ 50 * 2" using U pos by (intro mult_mono) simp_all
  then have "U * W / T * (1 + 6 / 2 ^ 53) \<le> (2 ^ 50 * 2) * (1 + 6 / 2 ^ 53 :: rat)"
    by (intro mult_right_mono) simp_all
  then have "proportional u w t < 2 ^ 60" using p(1) by simp
  then have "of_nat (unat (q (proportional u w t))) \<le> proportional u w t * (1 + 1 / 2 ^ 53) + eps"
    by (rule q_ub [OF p(2)])
  also have "proportional u w t * (1 + 1 / 2 ^ 53) \<le> U * W / T * (1 + 6 / 2 ^ 53) * (1 + 1 / 2 ^ 53)"
    by (rule mult_right_mono [OF p(1)]) simp
  also have "\<dots> \<le> U * W / T * (1 + 8 / 2 ^ 53)"
    unfolding mult.assoc by (intro mult_left_mono) (use pos in simp_all)
  finally show ?thesis by (simp add: U_def W_def T_def)
qed

lemma shares_ub:
  assumes "t \<noteq> 0" "unat u < 2 ^ 50"
    and w: "(\<Sum>w \<leftarrow> ws. of_nat (unat (w :: u64))) \<le> (of_nat (unat t) :: rat) * (1 + 2 / 2 ^ 53)"
  shows "(\<Sum>w \<leftarrow> ws. of_nat (unat (q (proportional u w t)))) \<le>
    of_nat (unat u) * (1 + 11 / 2 ^ 53) + of_nat (length ws) * eps"
proof -
  define U T where "U = (of_nat (unat u) :: rat)" and "T = (of_nat (unat t) :: rat)"
  have pos: "0 \<le> U" "0 < T" using assms(1) by (simp_all add: U_def T_def unat_gt_0)
  let ?k = "1 + 8 / 2 ^ 53 :: rat"
  have "of_nat (unat w) \<le> T * 2" if "w \<in> set ws" for w
  proof -
    have "of_nat (unat w) \<le> (\<Sum>w \<leftarrow> ws. (of_nat (unat w) :: rat))"
      using that by (intro member_le_sum_list) auto
    also have "\<dots> \<le> T * (1 + 2 / 2 ^ 53)" using w by (simp only: T_def)
    also have "\<dots> \<le> T * 2" using pos by (intro mult_left_mono) simp_all
    finally show ?thesis .
  qed
  then have "(\<Sum>w \<leftarrow> ws. of_nat (unat (q (proportional u w t)))) \<le>
      (\<Sum>w \<leftarrow> ws. U * of_nat (unat w) / T * ?k + eps)"
    using share_ub [OF assms(1,2)] unfolding U_def T_def by (intro sum_list_mono) blast
  also have "\<dots> = (\<Sum>w \<leftarrow> ws. of_nat (unat w) * (U / T * ?k) + eps)" by (simp add: mult_ac)
  also have "\<dots> = (\<Sum>w \<leftarrow> ws. of_nat (unat w)) * (U / T * ?k) + of_nat (length ws) * eps"
    by (rule sum_list_linear)
  also have "(\<Sum>w \<leftarrow> ws. of_nat (unat w)) * (U / T * ?k) \<le> T * (1 + 2 / 2 ^ 53) * (U / T * ?k)"
    using w pos by (intro mult_right_mono) (simp_all add: T_def)
  also have "\<dots> = U * ((1 + 2 / 2 ^ 53) * ?k)" using pos by simp
  also have "\<dots> \<le> U * (1 + 11 / 2 ^ 53)" using pos by (intro mult_left_mono) simp_all
  finally show ?thesis by (simp add: U_def)
qed

end


lemma epsilon_bounds: "0 \<le> rewardTruncationEpsilon" "rewardTruncationEpsilon \<le> 11 / 10 ^ 10"
proof -
  have n: "(1 / 10 ^ 9 :: rat) = 0 \<or> 1 / 2 ^ 200 \<le> (1 / 10 ^ 9 :: rat)" by simp
  show "0 \<le> rewardTruncationEpsilon" unfolding rewardTruncationEpsilon_def by (rule f64_round_nonneg) simp
  have "rewardTruncationEpsilon \<le> 1 / 10 ^ 9 * (1 + 1 / 2 ^ 53)"
    unfolding rewardTruncationEpsilon_def by (rule f64_round_ub_normal [OF n])
  also have "\<dots> \<le> 11 / 10 ^ 10" by simp
  finally show "rewardTruncationEpsilon \<le> 11 / 10 ^ 10" .
qed

lemma epsilon_normal: "1 / 2 ^ 200 \<le> rewardTruncationEpsilon"
proof -
  have n: "(1 / 10 ^ 9 :: rat) = 0 \<or> 1 / 2 ^ 200 \<le> (1 / 10 ^ 9 :: rat)" by simp
  have "1 / 10 ^ 9 * (1 - 1 / 2 ^ 53) \<le> rewardTruncationEpsilon"
    unfolding rewardTruncationEpsilon_def by (rule f64_round_lb_normal [OF n])
  moreover have "(1 / 2 ^ 200 :: rat) \<le> 1 / 10 ^ 9 * (1 - 1 / 2 ^ 53)" by simp
  ultimately show ?thesis by linarith
qed

lemma unat_u64_of_f64_int:
  assumes "0 \<le> n" "n < 2 ^ 64"
  shows "of_nat (unat (u64_of_f64 (of_int n))) = (of_int n :: rat)"
  using assms by (simp add: unat_u64_of_f64 nat_less_iff)

lemma quantize_trunc_ub:
  assumes "0 \<le> x" "x < 2 ^ 60"
  shows "of_nat (unat (quantizeReward x True)) \<le> x * (1 + 1 / 2 ^ 53) + 2 / 10 ^ 9"
proof (cases "x = 0")
  case True
  then show ?thesis by (simp add: quantizeReward_def)
next
  case False
  let ?y = "f64_add x rewardTruncationEpsilon"
  have "1 / 2 ^ 200 \<le> x + rewardTruncationEpsilon" using assms epsilon_normal by linarith
  then have "?y \<le> (x + rewardTruncationEpsilon) * (1 + 1 / 2 ^ 53)"
    unfolding f64_add_def by (intro f64_round_ub_normal) blast
  also have "\<dots> = x * (1 + 1 / 2 ^ 53) + rewardTruncationEpsilon * (1 + 1 / 2 ^ 53)" by (rule distrib_right)
  also have "rewardTruncationEpsilon * (1 + 1 / 2 ^ 53) \<le> 11 / 10 ^ 10 * (1 + 1 / 2 ^ 53)"
    by (rule mult_right_mono [OF epsilon_bounds(2)]) simp
  finally have y: "?y \<le> x * (1 + 1 / 2 ^ 53) + 2 / 10 ^ 9" by simp
  have "x * (1 + 1 / 2 ^ 53) \<le> 2 ^ 60 * (1 + 1 / 2 ^ 53)" using assms by (intro mult_right_mono) simp_all
  with y have "?y < 2 ^ 62" by simp
  then have "\<lfloor>?y\<rfloor> < 2 ^ 64" by (simp add: floor_less_iff)
  moreover have "0 \<le> ?y"
    unfolding f64_add_def by (rule f64_round_nonneg) (use assms(1) epsilon_bounds(1) in linarith)
  ultimately have "of_nat (unat (quantizeReward x True)) = (of_int \<lfloor>?y\<rfloor> :: rat)"
    using False assms(1) by (simp add: quantizeReward_def math_Floor_def unat_u64_of_f64_int)
  with y show ?thesis by linarith
qed

lemma quantize_round_ub:
  assumes "0 \<le> x" "x < 2 ^ 60"
  shows "of_nat (unat (quantizeReward x False)) \<le> x * (1 + 1 / 2 ^ 53) + 1 / 2"
proof (cases "x = 0")
  case True
  then show ?thesis by (simp add: quantizeReward_def)
next
  case False
  have "\<lfloor>x + 1 / 2\<rfloor> < 2 ^ 64" using assms(2) by (simp add: floor_less_iff)
  then have "of_nat (unat (quantizeReward x False)) = (of_int \<lfloor>x + 1 / 2\<rfloor> :: rat)"
    using False assms(1) by (simp add: quantizeReward_def math_Round_def unat_u64_of_f64_int)
  also have "\<dots> \<le> x + 1 / 2" by simp
  also have "x \<le> x * (1 + 1 / 2 ^ 53)" using assms(1) by (simp add: mult_le_cancel_left1 distrib_left)
  finally show ?thesis by simp
qed

interpretation truncating: quantizer "\<lambda>x. quantizeReward x True" "2 / 10 ^ 9"
  by unfold_locales (rule quantize_trunc_ub, assumption+, simp)

interpretation rounding: quantizer "\<lambda>x. quantizeReward x False" "1 / 2"
  by unfold_locales (rule quantize_round_ub, assumption+, simp)

text \<open>Truncated shares never add up to more than the amount shared out.\<close>

lemma truncated_shares_le:
  assumes "t \<noteq> 0" "unat u < 2 ^ 49" "length ws \<le> 10 ^ 8"
    and "(\<Sum>w \<leftarrow> ws. of_nat (unat (w :: u64))) \<le> (of_nat (unat t) :: rat) * (1 + 2 / 2 ^ 53)"
  shows "(\<Sum>w \<leftarrow> ws. unat (quantizeReward (proportional u w t) True)) \<le> unat u"
proof -
  let ?s = "\<Sum>w \<leftarrow> ws. unat (quantizeReward (proportional u w t) True)"
  have "(of_nat ?s :: rat) = (\<Sum>w \<leftarrow> ws. of_nat (unat (quantizeReward (proportional u w t) True)))"
    by (induction ws) simp_all
  also have "\<dots> \<le> of_nat (unat u) * (1 + 11 / 2 ^ 53) + of_nat (length ws) * (2 / 10 ^ 9)"
    by (rule truncating.shares_ub) (use assms in simp_all)
  also have "\<dots> < of_nat (unat u) + 1"
  proof -
    have "(of_nat (unat u) :: rat) \<le> 2 ^ 49"
      using less_imp_le [OF assms(2)] by (metis of_nat_le_iff of_nat_numeral of_nat_power)
    moreover have "(of_nat (length ws) :: rat) \<le> 10 ^ 8"
      using assms(3) by (metis of_nat_le_iff of_nat_numeral of_nat_power)
    ultimately show ?thesis by (simp add: distrib_left)
  qed
  finally have "(of_nat ?s :: rat) < of_nat (unat u + 1)" by simp
  then have "?s < unat u + 1" by (simp only: of_nat_less_iff)
  then show ?thesis by simp
qed

end
