(* ===== verification/StakeAddress.thy ===== *)
theory StakeAddress
  imports Payload Config
begin

text \<open>
  \<^verbatim>\<open>internal/parser/protocol/address_type.go\<close> and \<^verbatim>\<open>stake_address.go\<close>: the eight address-type codes, the address a
  public key owns under a code, and the stake address of an indexer, key and code. The elliptic-curve, hashing and
  address-encoding functions of the btcd libraries are the parameters of the record \<open>btc\<close>: a public key is its
  33-byte compressed form, and \<open>None\<close> is an error of the library.
\<close>

section \<open>Address types\<close>

definition AddressTypeP2TR :: string where "AddressTypeP2TR = ''P2TR''"
definition AddressTypeP2WPKH :: string where "AddressTypeP2WPKH = ''P2WPKH''"
definition AddressTypeP2PKH :: string where "AddressTypeP2PKH = ''P2PKH''"
definition AddressTypeP2SHP2WPKH :: string where "AddressTypeP2SHP2WPKH = ''P2SH-P2WPKH''"

definition ParseAddressTypeCode :: "string \<Rightarrow> nat option" where
  "ParseAddressTypeCode raw0 =
     (let raw = TrimSpace raw0 in
      if raw = '''' then None
      else case ParseUint 64 raw of
        Some code \<Rightarrow> if code \<ge> 1 \<and> code \<le> 8 then Some code else None
      | None \<Rightarrow>
          let up = ToUpper raw in
          if up = AddressTypeP2TR then Some 1
          else if up = AddressTypeP2WPKH then Some 2
          else if up = AddressTypeP2PKH then Some 4
          else if up = AddressTypeP2SHP2WPKH then Some 6
          else None)"

definition AddressTypeFromCode :: "nat \<Rightarrow> string option" where
  "AddressTypeFromCode code =
     (if code = 1 \<or> code = 8 then Some AddressTypeP2TR
      else if code = 2 \<or> code = 3 then Some AddressTypeP2WPKH
      else if code = 4 \<or> code = 5 then Some AddressTypeP2PKH
      else if code = 6 \<or> code = 7 then Some AddressTypeP2SHP2WPKH
      else None)"

definition ParseAddressType :: "string \<Rightarrow> string option" where
  "ParseAddressType raw =
     (case ParseAddressTypeCode raw of None \<Rightarrow> None | Some code \<Rightarrow> AddressTypeFromCode code)"

lemma ParseAddressTypeCode_range: "ParseAddressTypeCode raw = Some c \<Longrightarrow> 1 \<le> c \<and> c \<le> 8"
  by (auto simp: ParseAddressTypeCode_def Let_def split: if_splits option.splits)

lemma ParseAddressTypeCode_Format: "1 \<le> c \<Longrightarrow> c \<le> 8 \<Longrightarrow> ParseAddressTypeCode (FormatUint c) = Some c"
  using ParseUint_FormatUint [of c 64] by (simp add: ParseAddressTypeCode_def del: FormatUint.simps)

section \<open>Keys and addresses\<close>

datatype btc_addr_kind = AkTaproot | AkWitnessPubKeyHash | AkPubKeyHash | AkScriptHash | AkWitnessScriptHash | AkOther

datatype script_item = SData "byte list" | SOp byte

record btc =
  schnorr_ParsePubKey :: "byte list \<Rightarrow> byte list option"
  btcec_ParsePubKey :: "byte list \<Rightarrow> byte list option"
  ComputeTaprootKeyNoScript :: "byte list \<Rightarrow> byte list option"
  ComputeTaprootOutputKey :: "byte list \<Rightarrow> byte list \<Rightarrow> byte list"
  ScriptBuilder :: "script_item list \<Rightarrow> byte list option"
  TapHash :: "byte list \<Rightarrow> byte list"
  Hash160 :: "byte list \<Rightarrow> byte list"
  NewAddressTaproot :: "byte list \<Rightarrow> string option"
  NewAddressWitnessPubKeyHash :: "byte list \<Rightarrow> string option"
  NewAddressPubKeyHash :: "byte list \<Rightarrow> string option"
  NewAddressScriptHash :: "byte list \<Rightarrow> string option"
  DecodeAddress :: "string \<Rightarrow> (btc_addr_kind \<times> byte list) option"
  PayToAddrScript :: "string \<Rightarrow> byte list option"

text \<open>\<^verbatim>\<open>schnorr.SerializePubKey\<close>: the compressed form without its parity byte.\<close>

definition x_only :: "byte list \<Rightarrow> byte list" where
  "x_only compressed = drop 1 compressed"

record normalizedStakePubKey =
  XOnly :: "byte list"
  Compressed :: "byte list"
  Raw :: "byte list"

definition normalizeStakePubKey :: "btc \<Rightarrow> string \<Rightarrow> normalizedStakePubKey option" where
  "normalizeStakePubKey b pubKeyHex0 =
     (let pubKeyHex = TrimPrefix (TrimPrefix (TrimSpace pubKeyHex0) ''0x'') ''0X'' in
      if pubKeyHex = '''' then None
      else case hex_decode pubKeyHex of
        None \<Rightarrow> None
      | Some raw \<Rightarrow>
          if length raw = 32 then
            (case schnorr_ParsePubKey b raw of
               None \<Rightarrow> None
             | Some parsed \<Rightarrow> Some \<lparr>XOnly = raw, Compressed = parsed, Raw = raw\<rparr>)
          else if length raw = 33 \<or> length raw = 65 then
            (case btcec_ParsePubKey b raw of
               None \<Rightarrow> None
             | Some parsed \<Rightarrow> Some \<lparr>XOnly = x_only parsed, Compressed = parsed, Raw = raw\<rparr>)
          else None)"

definition compressedPubKeyByCode :: "normalizedStakePubKey \<Rightarrow> nat \<Rightarrow> byte list option" where
  "compressedPubKeyByCode key code =
     (if length (XOnly key) \<noteq> 32 then None
      else if code = 2 \<or> code = 4 \<or> code = 6 then Some (0x02 # XOnly key)
      else if code = 3 \<or> code = 5 \<or> code = 7 then Some (0x03 # XOnly key)
      else None)"

definition DeriveAddressFromPubKeyAndType :: "btc \<Rightarrow> string \<Rightarrow> string \<Rightarrow> string option" where
  "DeriveAddressFromPubKeyAndType b pubKeyHex addressType =
     (case ParseAddressTypeCode addressType of
        None \<Rightarrow> None
      | Some code \<Rightarrow>
        (case normalizeStakePubKey b pubKeyHex of
           None \<Rightarrow> None
         | Some key \<Rightarrow>
           if code = 1 \<or> code = 8 then
             (case ComputeTaprootKeyNoScript b (Compressed key) of
                None \<Rightarrow> None
              | Some out \<Rightarrow> NewAddressTaproot b (x_only out))
           else case compressedPubKeyByCode key code of
             None \<Rightarrow> None
           | Some compressed \<Rightarrow>
             if code = 2 \<or> code = 3 then NewAddressWitnessPubKeyHash b (Hash160 b compressed)
             else if code = 4 \<or> code = 5 then NewAddressPubKeyHash b (Hash160 b compressed)
             else if code = 6 \<or> code = 7 then NewAddressScriptHash b ([0x00, 0x14] @ Hash160 b compressed)
             else None))"

definition taprootOnlyScriptPubKeyHex :: string where
  "taprootOnlyScriptPubKeyHex = ''50929b74c1a04954b78b4b6035e97a5e078a5a0f28ec96d547bfee9ace803ac0''"

definition parseTaprootOnlyInternalKey :: "btc \<Rightarrow> byte list option" where
  "parseTaprootOnlyInternalKey b =
     (case hex_decode taprootOnlyScriptPubKeyHex of
        None \<Rightarrow> None
      | Some raw \<Rightarrow> if length raw \<noteq> 32 then None else schnorr_ParsePubKey b raw)"

definition stake_leaf :: "string \<Rightarrow> nat \<Rightarrow> byte list \<Rightarrow> script_item list" where
  "stake_leaf indexerID code xonly =
     [SData (bytes_of_string indexerID), SOp 0x75, SData (bytes_of_string (FormatUint code)), SOp 0x75,
      SData xonly, SOp 0xAC]"

definition DeriveStakeAddress :: "btc \<Rightarrow> string \<Rightarrow> string \<Rightarrow> string \<Rightarrow> string option" where
  "DeriveStakeAddress b indexerID0 pubKeyHex addressType =
     (let indexerID = TrimSpace indexerID0 in
      if indexerID = '''' then None
      else case ParseAddressTypeCode addressType of
        None \<Rightarrow> None
      | Some code \<Rightarrow>
        (case normalizeStakePubKey b pubKeyHex of
           None \<Rightarrow> None
         | Some key \<Rightarrow>
           (case parseTaprootOnlyInternalKey b of
              None \<Rightarrow> None
            | Some internalKey \<Rightarrow>
              (case ScriptBuilder b (stake_leaf indexerID code (XOnly key)) of
                 None \<Rightarrow> None
               | Some leafScript \<Rightarrow>
                   NewAddressTaproot b (x_only (ComputeTaprootOutputKey b internalKey (TapHash b leafScript)))))))"

definition witnessPubKeyHashCandidates :: "btc \<Rightarrow> normalizedStakePubKey \<Rightarrow> byte list list" where
  "witnessPubKeyHashCandidates b key =
     (if Compressed key = [] then []
      else
        let first = Hash160 b (Compressed key) in
        first #
        (if length (Raw key) = 32 then
           (case btcec_ParsePubKey b (0x03 # Raw key) of
              None \<Rightarrow> []
            | Some oddParsed \<Rightarrow> let oddHash = Hash160 b oddParsed in if oddHash \<noteq> first then [oddHash] else [])
         else []))"

definition StakePubKeyMatchesInputAddress :: "btc \<Rightarrow> string \<Rightarrow> string \<Rightarrow> bool" where
  "StakePubKeyMatchesInputAddress b pubKeyHex inputAddress0 =
     (let inputAddress = TrimSpace inputAddress0 in
      if inputAddress = '''' then False
      else case DecodeAddress b inputAddress of
        None \<Rightarrow> False
      | Some (kind, target) \<Rightarrow>
        (case normalizeStakePubKey b pubKeyHex of
           None \<Rightarrow> False
         | Some key \<Rightarrow>
           (case kind of
              AkTaproot \<Rightarrow>
                (case ComputeTaprootKeyNoScript b (Compressed key) of
                   None \<Rightarrow> False
                 | Some out \<Rightarrow>
                   (case NewAddressTaproot b (x_only out) of
                      None \<Rightarrow> False
                    | Some expected \<Rightarrow> EqualFold expected inputAddress))
            | AkWitnessPubKeyHash \<Rightarrow> target \<in> set (witnessPubKeyHashCandidates b key)
            | AkPubKeyHash \<Rightarrow> target \<in> set (witnessPubKeyHashCandidates b key)
            | AkScriptHash \<Rightarrow>
                list_ex (\<lambda>c. target = Hash160 b ([0x00, 0x14] @ c)) (witnessPubKeyHashCandidates b key)
            | _ \<Rightarrow> False)))"


section \<open>What determines an address\<close>

text \<open>The two taproot codes 1 and 8 share one user address but not one stake script: for every key the derived user
  addresses are equal, while the leaf scripts that determine the stake addresses always differ. One user can
  therefore hold two stake addresses with the same indexer.\<close>

theorem taproot_codes_share_user_address:
  "DeriveAddressFromPubKeyAndType b pk ''1'' = DeriveAddressFromPubKeyAndType b pk ''8'' \<and>
   stake_leaf indexerID 1 xonly \<noteq> stake_leaf indexerID 8 xonly"
proof -
  have p: "ParseAddressTypeCode ''1'' = Some 1" "ParseAddressTypeCode ''8'' = Some 8" by code_simp+
  have n: "bytes_of_string (FormatUint 1) \<noteq> bytes_of_string (FormatUint 8)" by code_simp
  have "DeriveAddressFromPubKeyAndType b pk ''1'' = DeriveAddressFromPubKeyAndType b pk ''8''"
    unfolding DeriveAddressFromPubKeyAndType_def p by (simp cong: option.case_cong)
  moreover have "stake_leaf indexerID 1 xonly \<noteq> stake_leaf indexerID 8 xonly"
    unfolding stake_leaf_def using n by blast
  ultimately show ?thesis ..
qed

end
