(* ===== verification/ProtocolParser.thy ===== *)
theory ProtocolParser
  imports StakeAddress Config
begin

text \<open>
  \<^verbatim>\<open>internal/parser/protocol/fip101_parser.go\<close>: the CSV payload of an inscription, the claim in an \<^verbatim>\<open>OP_RETURN\<close>
  output and the single data push it must be. The JSON rendering that \<^verbatim>\<open>ParseFIP101PayloadFromCSV\<close> returns beside the
  payload is used by no caller and is left out. Error values carry no text.
\<close>

definition fip101Protocol :: string where "fip101Protocol = ''fip101''"
definition fip101Version :: string where "fip101Version = ''1''"
definition fip101ClaimReward :: string where "fip101ClaimReward = ''FIP-101:claim_reward''"
definition MaxIndexerNameLen :: nat where "MaxIndexerNameLen = 64"

datatype csv_error = InvalidUtf8 | EmptyCsv | InvalidRows | InvalidColumns | InvalidProtocol | InvalidVersion
  | UnsupportedOp | InvalidSchema | InvalidRatio | InvalidRewardAddr | InvalidName | MissingIndexerID
  | InvalidProve | ClaimMustUseOpReturn

section \<open>UTF-8\<close>

definition byte_in :: "char \<Rightarrow> nat \<Rightarrow> nat \<Rightarrow> bool" where
  "byte_in c lo hi \<longleftrightarrow> lo \<le> of_char c \<and> of_char c \<le> hi"

definition cont :: "char \<Rightarrow> bool" where
  "cont c \<longleftrightarrow> byte_in c 0x80 0xBF"

text \<open>The length of the well-formed encoding at the head of a string, as in the tables of \<^verbatim>\<open>unicode/utf8\<close>.\<close>

definition rune_len :: "string \<Rightarrow> nat option" where
  "rune_len s = (case s of
      [] \<Rightarrow> None
    | c # r \<Rightarrow>
        if of_char c < (0x80 :: nat) then Some 1
        else case r of
          [] \<Rightarrow> None
        | d # r2 \<Rightarrow>
          if byte_in c 0xC2 0xDF then (if cont d then Some 2 else None)
          else case r2 of
            [] \<Rightarrow> None
          | e # r3 \<Rightarrow>
            if byte_in c 0xE0 0xEF then
              (if (if of_char c = (0xE0 :: nat) then byte_in d 0xA0 0xBF
                   else if of_char c = (0xED :: nat) then byte_in d 0x80 0x9F else cont d) \<and> cont e
               then Some 3 else None)
            else case r3 of
              [] \<Rightarrow> None
            | f # _ \<Rightarrow>
              if byte_in c 0xF0 0xF4 \<and>
                 (if of_char c = (0xF0 :: nat) then byte_in d 0x90 0xBF
                  else if of_char c = (0xF4 :: nat) then byte_in d 0x80 0x8F else cont d) \<and> cont e \<and> cont f
              then Some 4 else None)"

lemma rune_len_bounds: "rune_len s = Some n \<Longrightarrow> 0 < n \<and> n \<le> length s"
  by (auto simp: rune_len_def split: list.splits if_splits)

function utf8_Valid :: "string \<Rightarrow> bool" where
  "utf8_Valid s = (if s = [] then True else case rune_len s of None \<Rightarrow> False | Some n \<Rightarrow> utf8_Valid (drop n s))"
  by auto

termination
  by (relation "measure length") (auto dest: rune_len_bounds)

declare utf8_Valid.simps [simp del]

text \<open>\<^verbatim>\<open>[]rune(raw)\<close> for a valid string, one element per encoded rune.\<close>

function runes :: "string \<Rightarrow> string list" where
  "runes s = (if s = [] then [] else
     let n = (case rune_len s of None \<Rightarrow> 1 | Some n \<Rightarrow> n) in take n s # runes (drop n s))"
  by auto

termination
  by (relation "measure length") (auto dest: rune_len_bounds split: option.splits)

declare runes.simps [simp del]

definition TruncateRunes :: "string \<Rightarrow> nat \<Rightarrow> string" where
  "TruncateRunes raw limit =
     (if limit = 0 then ''''
      else let rs = runes raw in if length rs \<le> limit then raw else concat (take limit rs))"

section \<open>Fields\<close>

definition contains_char :: "char \<Rightarrow> string \<Rightarrow> bool" where
  "contains_char c s \<longleftrightarrow> c \<in> set s"

definition parseSingleCSVRecord :: "string \<Rightarrow> csv_error + string list" where
  "parseSingleCSVRecord raw =
     (let normalized = TrimSpace raw in
      if normalized = '''' then Inl EmptyCsv
      else if contains_char (char_of (10 :: nat)) normalized \<or> contains_char (char_of (13 :: nat)) normalized then Inl InvalidRows
      else Inr (map TrimSpace (Split (CHR '','') normalized)))"

definition parseCSVUint64 :: "string \<Rightarrow> nat option" where
  "parseCSVUint64 raw0 = (let raw = TrimSpace raw0 in if raw = '''' then None else ParseUint 64 raw)"

definition alnum :: "char \<Rightarrow> bool" where
  "alnum c \<longleftrightarrow> byte_in c 65 90 \<or> byte_in c 97 122 \<or> byte_in c 48 57"

text \<open>\<^verbatim>\<open>^[A-Za-z0-9][A-Za-z0-9 ._-]{0,63}$\<close>\<close>

definition IsValidIndexerName :: "string \<Rightarrow> bool" where
  "IsValidIndexerName name = (case name of
      [] \<Rightarrow> False
    | c # cs \<Rightarrow> alnum c \<and> length cs \<le> 63 \<and> list_all (\<lambda>c. alnum c \<or> c \<in> set '' ._-'') cs)"

definition mapOperationToTag :: "string \<Rightarrow> string" where
  "mapOperationToTag op =
     (if op = ''register_indexer'' then TagRegister
      else if op = ''stake'' then TagStake
      else if op = ''submit_proof'' then TagProveStake
      else if op = ''commission_rate'' then TagAllocatRatio
      else '''')"

definition payloadTagToOperation :: "string \<Rightarrow> string" where
  "payloadTagToOperation tag =
     (if tag = TagRegister then ''register_indexer''
      else if tag = TagStake then ''stake''
      else if tag = TagProveStake then ''submit_proof''
      else if tag = TagAllocatRatio then ''commission_rate''
      else if tag = TagPledgedReward then ''claim_reward''
      else ToLower (TrimSpace tag))"

definition ratioBPToString :: "nat \<Rightarrow> string" where
  "ratioBPToString bp0 =
     (let bp = (if bp0 > 10000 then 10000 else bp0) in
      FormatFloat_f 8 (f64_div (f64_round (of_nat bp)) 10000))"

definition validateRewardAddressAndNetwork :: "btc \<Rightarrow> string \<Rightarrow> bool" where
  "validateRewardAddressAndNetwork b rewardAddr0 =
     (let rewardAddr = TrimSpace rewardAddr0 in
      if rewardAddr = '''' then False
      else case DecodeAddress b rewardAddr of
        None \<Rightarrow> False
      | Some (kind, _) \<Rightarrow>
        (case PayToAddrScript b rewardAddr of
           None \<Rightarrow> False
         | Some script \<Rightarrow> if script = [] then False else kind \<noteq> AkOther))"

section \<open>The CSV payload\<close>

definition actor_fields :: "byte list \<Rightarrow> string \<Rightarrow> string \<Rightarrow> (string, string) gomap" where
  "actor_fields actorPubKey actorAddress actorAddressType =
     mput (mput (mput (mput [] OpFieldActorPubKey (hex_encode actorPubKey))
       OpFieldActorAddr (TrimSpace actorAddress)) OpFieldPubKey (hex_encode actorPubKey))
       OpFieldAddressType (TrimSpace actorAddressType)"

definition parse_register :: "btc \<Rightarrow> string list \<Rightarrow> (string, string) gomap \<Rightarrow> csv_error + (string, string) gomap" where
  "parse_register b rec flds =
     (if length rec \<noteq> 6 then Inl InvalidSchema
      else case parseCSVUint64 (rec ! 3) of
        None \<Rightarrow> Inl InvalidRatio
      | Some ratioBP \<Rightarrow>
        if ratioBP > 10000 then Inl InvalidRatio
        else
          let rewardAddr = TrimSpace (rec ! 4) in
          if rewardAddr = '''' then Inl InvalidRewardAddr
          else if \<not> validateRewardAddressAndNetwork b rewardAddr then Inl InvalidRewardAddr
          else
            let name = TruncateRunes (TrimSpace (rec ! 5)) MaxIndexerNameLen in
            if \<not> IsValidIndexerName name then Inl InvalidName
            else Inr (mput (mput (mput flds OpFieldIndexerName name) OpFieldIndexRatio (ratioBPToString ratioBP))
                   OpFieldRewardAddr rewardAddr))"

definition parse_ratio_op :: "string list \<Rightarrow> (string, string) gomap \<Rightarrow> csv_error + (string, string) gomap" where
  "parse_ratio_op rec flds =
     (if length rec \<noteq> 5 then Inl InvalidSchema
      else
        let indexerID = TrimSpace (rec ! 3) in
        if indexerID = '''' then Inl MissingIndexerID
        else case parseCSVUint64 (rec ! 4) of
          None \<Rightarrow> Inl InvalidRatio
        | Some ratioBP \<Rightarrow>
          if ratioBP > 10000 then Inl InvalidRatio
          else Inr (mput (mput flds OpFieldIndexerID indexerID) OpFieldIndexRatio (ratioBPToString ratioBP)))"

definition parse_prove :: "string list \<Rightarrow> (string, string) gomap \<Rightarrow> csv_error + (string, string) gomap" where
  "parse_prove rec flds =
     (if length rec \<noteq> 6 then Inl InvalidSchema
      else
        let indexerID = TrimSpace (rec ! 3); proveHash = TrimSpace (rec ! 5) in
        case parseCSVUint64 (rec ! 4) of
          None \<Rightarrow> Inl InvalidProve
        | Some proveHeight \<Rightarrow>
          if indexerID = '''' \<or> proveHash = '''' then Inl InvalidProve
          else case hex_decode (TrimPrefix (ToLower proveHash) ''0x'') of
            None \<Rightarrow> Inl InvalidProve
          | Some proveHashRaw \<Rightarrow>
            if length proveHashRaw \<noteq> 32 then Inl InvalidProve
            else Inr (mput (mput (mput flds OpFieldIndexerID indexerID)
                   OpFieldBlockHeight (FormatUint proveHeight)) OpFieldBlockHash (hex_encode proveHashRaw)))"

definition parse_stake :: "string list \<Rightarrow> (string, string) gomap \<Rightarrow> csv_error + (string, string) gomap" where
  "parse_stake rec flds =
     (if length rec \<noteq> 4 then Inl InvalidSchema
      else
        let indexerID = TrimSpace (rec ! 3) in
        if indexerID = '''' then Inl MissingIndexerID else Inr (mput flds OpFieldIndexerID indexerID))"

definition ParseFIP101PayloadFromCSV :: "btc \<Rightarrow> string \<Rightarrow> byte list \<Rightarrow> string \<Rightarrow> string \<Rightarrow> csv_error + OpReturnPayload" where
  "ParseFIP101PayloadFromCSV b raw actorPubKey actorAddress actorAddressType =
     (if \<not> utf8_Valid raw then Inl InvalidUtf8
      else case parseSingleCSVRecord raw of
        Inl e \<Rightarrow> Inl e
      | Inr rec \<Rightarrow>
        if length rec < 3 then Inl InvalidColumns
        else if \<not> EqualFold (TrimSpace (rec ! 0)) fip101Protocol then Inl InvalidProtocol
        else if TrimSpace (rec ! 1) \<noteq> fip101Version then Inl InvalidVersion
        else
          let tag = mapOperationToTag (ToLower (TrimSpace (rec ! 2)));
              flds = actor_fields actorPubKey actorAddress actorAddressType in
          if tag = '''' then Inl UnsupportedOp
          else case (if tag = TagRegister then parse_register b rec flds
                     else if tag = TagAllocatRatio then parse_ratio_op rec flds
                     else if tag = TagProveStake then parse_prove rec flds
                     else if tag = TagStake then parse_stake rec flds
                     else if tag = TagPledgedReward then Inl ClaimMustUseOpReturn
                     else Inr flds) of
            Inl e \<Rightarrow> Inl e
          | Inr flds \<Rightarrow> Inr \<lparr>pl_Tag = tag, pl_Fields = flds, pl_Values = []\<rparr>)"

section \<open>Claims in outputs\<close>

definition claim_payload :: "(string, string) gomap \<Rightarrow> OpReturnPayload" where
  "claim_payload flds = \<lparr>pl_Tag = TagPledgedReward, pl_Fields = flds, pl_Values = []\<rparr>"

text \<open>\<^verbatim>\<open>strings.FieldsFunc\<close> with the separators comma, space, tab and line ends.\<close>

definition is_sep :: "char \<Rightarrow> bool" where
  "is_sep c \<longleftrightarrow> c = CHR '','' \<or> c = CHR '' '' \<or> c = char_of (9 :: nat) \<or> c = char_of (10 :: nat) \<or> c = char_of (13 :: nat)"

function FieldsFunc :: "string \<Rightarrow> string list" where
  "FieldsFunc s =
     (case dropWhile is_sep s of
        [] \<Rightarrow> []
      | c # r \<Rightarrow> (c # takeWhile (\<lambda>x. \<not> is_sep x) r) # FieldsFunc (dropWhile (\<lambda>x. \<not> is_sep x) r))"
  by auto

termination
proof (relation "measure length")
  fix s c r
  assume "dropWhile is_sep s = c # r"
  then have "length r < length s" using length_dropWhile_le [of is_sep s] by simp
  with length_dropWhile_le [of "\<lambda>x. \<not> is_sep x" r]
  show "(dropWhile (\<lambda>x. \<not> is_sep x) r, s) \<in> measure length" by simp
qed simp

declare FieldsFunc.simps [simp del]

definition parseClaimRewardOpReturnContent :: "string \<Rightarrow> OpReturnPayload option" where
  "parseClaimRewardOpReturnContent content0 =
     (let content = TrimSpace content0 in
      if content = fip101ClaimReward then Some (claim_payload [])
      else if \<not> HasPrefix content fip101ClaimReward then None
      else
        let rest = TrimSpace (TrimPrefix content fip101ClaimReward) in
        if rest = '''' then Some (claim_payload [])
        else
          let rest = (if HasPrefix rest '','' \<or> HasPrefix rest '':'' then TrimSpace (tl rest) else rest) in
          if rest = '''' then Some (claim_payload [])
          else if rest = OpValueEarlySupporterReward then
            Some (claim_payload [(OpFieldRewardClaimType, OpValueEarlySupporterReward)])
          else if HasPrefix rest (OpValueEarlySupporterReward @ '':'') then
            (let indexerID = TrimSpace (TrimPrefix rest (OpValueEarlySupporterReward @ '':'')) in
             if \<not> IsIndexerIDHeightTxIdx indexerID then None
             else Some (claim_payload [(OpFieldRewardClaimType, OpValueEarlySupporterReward), (OpFieldIndexerID, indexerID)]))
          else
            (case FieldsFunc rest of
               [] \<Rightarrow> Some (claim_payload [])
             | f # _ \<Rightarrow>
               let indexerID = TrimSpace f in
               if \<not> IsIndexerIDHeightTxIdx indexerID then None
               else Some (claim_payload [(OpFieldIndexerID, indexerID)])))"

definition readScriptPushData :: "byte list \<Rightarrow> nat \<Rightarrow> (byte list \<times> nat) option" where
  "readScriptPushData script offset0 =
     (if offset0 \<ge> length script then None
      else
        let op = unat (script ! offset0); offset = offset0 + 1;
            rd = (\<lambda>size offset. if size > length script - offset then None
                     else Some (take size (drop offset script), offset + size)) in
        if 1 \<le> op \<and> op \<le> 0x4b then rd op offset
        else if op = 0x4c then
          (if offset \<ge> length script then None else rd (unat (script ! offset)) (offset + 1))
        else if op = 0x4d then
          (if offset + 2 > length script then None else rd (le_decode (take 2 (drop offset script))) (offset + 2))
        else if op = 0x4e then
          (if offset + 4 > length script then None else rd (le_decode (take 4 (drop offset script))) (offset + 4))
        else None)"

definition opReturnSinglePushText :: "byte list \<Rightarrow> string option" where
  "opReturnSinglePushText pkScript =
     (let offset = (if length pkScript > 1 \<and> pkScript ! 0 = 0 \<and> pkScript ! 1 = 0x6a then 2
                    else if length pkScript > 0 \<and> pkScript ! 0 = 0x6a then 1 else 0) in
      if offset = 0 then None
      else if offset \<ge> length pkScript then None
      else case readScriptPushData pkScript offset of
        None \<Rightarrow> None
      | Some (data, next) \<Rightarrow> if next \<noteq> length pkScript then None else Some (string_of_bytes data))"

fun claim_from_outputs :: "OutputSnapshot list \<Rightarrow> (OpReturnPayload \<times> string) option" where
  "claim_from_outputs [] = None"
| "claim_from_outputs (o1 # os) =
     (case opReturnSinglePushText (out_PkScript o1) of
        None \<Rightarrow> claim_from_outputs os
      | Some content \<Rightarrow>
        (case parseClaimRewardOpReturnContent content of
           None \<Rightarrow> claim_from_outputs os
         | Some payload \<Rightarrow> Some (payload, content)))"

definition parseFIP101ClaimRewardFromOutputs :: "TxSnapshot \<Rightarrow> (OpReturnPayload \<times> string) option" where
  "parseFIP101ClaimRewardFromOutputs tx = claim_from_outputs (tx_Outputs tx)"


section \<open>What an accepted payload guarantees\<close>

lemma ratioBPToString_bp: "bp \<le> 10000 \<Longrightarrow> ratioBPToString bp = FormatRatio (bp_ratio bp)"
proof -
  assume "bp \<le> 10000"
  then have "bp < 2 ^ 53" by simp
  then show ?thesis using \<open>bp \<le> 10000\<close>
    by (simp add: ratioBPToString_def f64_round_nat f64_div_def bp_ratio_def FormatRatio_def)
qed

lemma payload_Get_single:
  "normalizeFieldKey k = k \<Longrightarrow> payload_Get p [k] = (case mget (pl_Fields p) k of None \<Rightarrow> '''' | Some v \<Rightarrow> v)"
  by (simp split: option.split)

lemmas get_simps = payload_Get_single actor_fields_def field_names normalizeFieldKey_names [unfolded field_names]

definition payload_ok :: "OpReturnPayload \<Rightarrow> bool" where
  "payload_ok p \<longleftrightarrow>
     pl_Tag p \<in> {TagRegister, TagAllocatRatio, TagProveStake, TagStake} \<and>
     (pl_Tag p \<in> {TagRegister, TagAllocatRatio} \<longrightarrow>
        (\<exists>bp \<le> 10000. ParseRatio (payload_Get p [OpFieldIndexRatio]) = Some (bp_ratio bp))) \<and>
     (pl_Tag p = TagRegister \<longrightarrow>
        IsValidIndexerName (payload_Get p [OpFieldIndexerName]) \<and> payload_Get p [OpFieldRewardAddr] \<noteq> '''') \<and>
     (pl_Tag p \<in> {TagAllocatRatio, TagProveStake, TagStake} \<longrightarrow> payload_Get p [OpFieldIndexerID] \<noteq> '''') \<and>
     (pl_Tag p = TagProveStake \<longrightarrow>
        (\<exists>raw. length raw = 32 \<and> payload_Get p [OpFieldBlockHash] = hex_encode raw) \<and>
        (\<exists>n < 2 ^ 64. payload_Get p [OpFieldBlockHeight] = FormatUint n))"

lemma tag_neqs:
  "TagRegister \<noteq> TagAllocatRatio" "TagRegister \<noteq> TagStake" "TagRegister \<noteq> TagProveStake" "TagRegister \<noteq> TagPledgedReward"
  "TagAllocatRatio \<noteq> TagStake" "TagAllocatRatio \<noteq> TagProveStake" "TagAllocatRatio \<noteq> TagPledgedReward"
  "TagStake \<noteq> TagProveStake" "TagStake \<noteq> TagPledgedReward" "TagProveStake \<noteq> TagPledgedReward"
  using tags_distinct by simp_all

lemma parse_register_ok:
  assumes "parse_register b rec flds = Inr fs"
  shows "payload_ok \<lparr>pl_Tag = TagRegister, pl_Fields = fs, pl_Values = []\<rparr>"
proof -
  from assms obtain bp where bp: "bp \<le> 10000" and name: "IsValidIndexerName (TruncateRunes (TrimSpace (rec ! 5)) MaxIndexerNameLen)"
    and addr: "TrimSpace (rec ! 4) \<noteq> ''''"
    and fs: "fs = mput (mput (mput flds OpFieldIndexerName (TruncateRunes (TrimSpace (rec ! 5)) MaxIndexerNameLen))
      OpFieldIndexRatio (ratioBPToString bp)) OpFieldRewardAddr (TrimSpace (rec ! 4))"
    by (auto simp: parse_register_def Let_def not_less split: if_splits option.splits)
  have "ParseRatio (ratioBPToString bp) = Some (bp_ratio bp)" using ratio_roundtrip [OF bp] ratioBPToString_bp [OF bp] by simp
  with bp name addr show ?thesis
    by (auto simp: payload_ok_def fs get_simps tag_neqs simp del: payload_Get.simps)
qed

lemma parse_ratio_op_ok:
  assumes "parse_ratio_op rec flds = Inr fs"
  shows "payload_ok \<lparr>pl_Tag = TagAllocatRatio, pl_Fields = fs, pl_Values = []\<rparr>"
proof -
  from assms obtain bp where bp: "bp \<le> 10000" and i: "TrimSpace (rec ! 3) \<noteq> ''''"
    and fs: "fs = mput (mput flds OpFieldIndexerID (TrimSpace (rec ! 3))) OpFieldIndexRatio (ratioBPToString bp)"
    by (auto simp: parse_ratio_op_def Let_def not_less split: if_splits option.splits)
  have "ParseRatio (ratioBPToString bp) = Some (bp_ratio bp)" using ratio_roundtrip [OF bp] ratioBPToString_bp [OF bp] by simp
  with bp i show ?thesis
    by (auto simp: payload_ok_def fs get_simps tag_neqs tag_neqs [symmetric] simp del: payload_Get.simps)
qed

lemma parse_prove_ok:
  assumes "parse_prove rec flds = Inr fs"
  shows "payload_ok \<lparr>pl_Tag = TagProveStake, pl_Fields = fs, pl_Values = []\<rparr>"
proof -
  from assms obtain n raw where n: "parseCSVUint64 (rec ! 4) = Some n" and i: "TrimSpace (rec ! 3) \<noteq> ''''"
    and raw: "length raw = 32"
    and fs: "fs = mput (mput (mput flds OpFieldIndexerID (TrimSpace (rec ! 3))) OpFieldBlockHeight (FormatUint n))
      OpFieldBlockHash (hex_encode raw)"
    by (auto simp: parse_prove_def Let_def split: if_splits option.splits simp del: FormatUint.simps)
  have "n < 2 ^ 64" using n by (auto simp: parseCSVUint64_def Let_def ParseUint_Some split: if_splits)
  with raw i show ?thesis
    by (auto simp: payload_ok_def fs get_simps tag_neqs tag_neqs [symmetric] simp del: payload_Get.simps FormatUint.simps)
qed

lemma parse_stake_ok:
  assumes "parse_stake rec flds = Inr fs"
  shows "payload_ok \<lparr>pl_Tag = TagStake, pl_Fields = fs, pl_Values = []\<rparr>"
proof -
  from assms have i: "TrimSpace (rec ! 3) \<noteq> ''''" and fs: "fs = mput flds OpFieldIndexerID (TrimSpace (rec ! 3))"
    by (auto simp: parse_stake_def Let_def split: if_splits)
  then show ?thesis
    by (auto simp: payload_ok_def fs get_simps tag_neqs tag_neqs [symmetric] simp del: payload_Get.simps)
qed


text \<open>C29. Every CSV payload the parser accepts is well formed: its operation is one of register, commission change, proof
  and stake; a ratio is at most 10000 basis points and reads back as that float; a registration has a valid name and a
  reward address; the other operations name an indexer; a proof carries a 32-byte hash in hex and a 64-bit height.\<close>

theorem ParseFIP101PayloadFromCSV_ok:
  assumes "ParseFIP101PayloadFromCSV b raw key addr addrType = Inr p"
  shows "payload_ok p \<and> pl_Values p = []"
proof -
  from assms obtain rec where "parseSingleCSVRecord raw = Inr rec"
    by (auto simp: ParseFIP101PayloadFromCSV_def split: if_splits sum.splits)
  let ?op = "ToLower (TrimSpace (rec ! 2))"
  let ?f = "actor_fields key addr addrType"
  from assms obtain fs where p: "p = \<lparr>pl_Tag = mapOperationToTag ?op, pl_Fields = fs, pl_Values = []\<rparr>"
    and t: "mapOperationToTag ?op \<noteq> ''''"
    and r: "(if mapOperationToTag ?op = TagRegister then parse_register b rec ?f
       else if mapOperationToTag ?op = TagAllocatRatio then parse_ratio_op rec ?f
       else if mapOperationToTag ?op = TagProveStake then parse_prove rec ?f
       else if mapOperationToTag ?op = TagStake then parse_stake rec ?f
       else if mapOperationToTag ?op = TagPledgedReward then Inl ClaimMustUseOpReturn
       else Inr ?f) = Inr fs"
    unfolding ParseFIP101PayloadFromCSV_def \<open>parseSingleCSVRecord raw = Inr rec\<close>
    by (auto simp: Let_def split: if_splits sum.splits)
  consider "mapOperationToTag ?op = TagRegister" | "mapOperationToTag ?op = TagAllocatRatio"
    | "mapOperationToTag ?op = TagProveStake" | "mapOperationToTag ?op = TagStake"
    using t by (auto simp: mapOperationToTag_def split: if_splits)
  then have "payload_ok p"
  proof cases
    case 1
    then show ?thesis using r parse_register_ok by (simp add: p)
  next
    case 2
    then show ?thesis using r parse_ratio_op_ok tag_neqs by (simp add: p)
  next
    case 3
    then show ?thesis using r parse_prove_ok tag_neqs by (simp add: p)
  next
    case 4
    then show ?thesis using r parse_stake_ok tag_neqs by (simp add: p)
  qed
  with p show ?thesis by simp
qed

section \<open>Round trips\<close>

lemma byte_in_ascii: "(of_char c :: nat) < 128 \<Longrightarrow> rune_len (c # s) = Some 1"
  by (simp add: rune_len_def)

lemma utf8_Valid_ascii: "ascii s \<Longrightarrow> utf8_Valid s"
proof (induction s)
  case Nil
  then show ?case by (simp add: utf8_Valid.simps)
next
  case (Cons c s)
  then have "rune_len (c # s) = Some 1" by (intro byte_in_ascii) simp
  with Cons show ?case by (subst utf8_Valid.simps) simp
qed

lemma graphic_no_newline: "graphic s \<Longrightarrow> \<not> contains_char (char_of (10 :: nat)) s \<and> \<not> contains_char (char_of (13 :: nat)) s"
  by (auto simp: graphic_def contains_char_def)

lemma parseSingleCSVRecord_Join:
  assumes "ps \<noteq> []" "\<forall>p \<in> set ps. graphic p \<and> CHR '','' \<notin> set p" "Join (CHR '','') ps \<noteq> ''''"
  shows "parseSingleCSVRecord (Join (CHR '','') ps) = Inr ps"
proof -
  have g: "graphic (Join (CHR '','') ps)"
    using assms(2) by (induction "CHR '',''" ps rule: Join.induct) auto
  have "map TrimSpace ps = ps" using assms(2) by (auto intro!: map_idI)
  moreover have "Split (CHR '','') (Join (CHR '','') ps) = ps" by (rule Split_Join) (use assms in auto)
  ultimately show ?thesis
    using g assms(3) graphic_no_newline [OF g] by (simp add: parseSingleCSVRecord_def)
qed

lemma FormatUint_no_comma: "CHR '','' \<notin> set (FormatUint n)"
  using digits_notin [of "FormatUint n" "CHR '',''"] FormatUint_props [of n] by (auto simp: is_digit_def)

lemma BuildIndexerID_facts:
  "graphic (BuildIndexerID h t)" "CHR '','' \<notin> set (BuildIndexerID h t)" "BuildIndexerID h t \<noteq> ''''"
  using FormatUint_no_comma by (simp_all add: BuildIndexerID_def del: FormatUint.simps)

lemma BuildIndexerID_valid: "IsIndexerIDHeightTxIdx (BuildIndexerID h t)"
proof -
  have "CHR '':'' \<notin> set (FormatUint n)" for n
    using digits_notin [of "FormatUint n" "CHR '':''"] FormatUint_props [of n] by auto
  then have "SplitN2 (CHR '':'') (BuildIndexerID h t) = [FormatUint (unat h), FormatUint (unat t)]"
    unfolding BuildIndexerID_def by (simp add: SplitN2_append del: FormatUint.simps)
  moreover have "ParseUint 32 (FormatUint (unat w)) = Some (unat w)" for w :: u32
    using unat_u32_less [of w] by (intro ParseUint_FormatUint) simp
  ultimately show ?thesis
    using BuildIndexerID_facts(1) [of h t] by (simp add: IsIndexerIDHeightTxIdx_def del: FormatUint.simps)
qed

definition proof_csv :: "string \<Rightarrow> nat \<Rightarrow> byte list \<Rightarrow> string" where
  "proof_csv indexerID height hash =
     Join (CHR '','') [''fip101'', ''1'', ''submit_proof'', indexerID, FormatUint height, hex_encode hash]"

lemma hex_encode_lower: "ToLower (hex_encode bs) = hex_encode bs" and hex_no_comma: "CHR '','' \<notin> set (hex_encode bs)"
  and hex_no_0x: "TrimPrefix (hex_encode bs) ''0x'' = hex_encode bs"
proof -
  have d: "ascii_lower (hex_digit d) = hex_digit d \<and> hex_digit d \<noteq> CHR '','' \<and> hex_digit d \<noteq> CHR ''x''" if "d < 16" for d
  proof -
    have "d \<in> set [0..<16]" using that by simp
    moreover have "list_all (\<lambda>d. ascii_lower (hex_digit d) = hex_digit d \<and> hex_digit d \<noteq> CHR '','' \<and> hex_digit d \<noteq> CHR ''x'') [0..<16]"
      by code_simp
    ultimately show ?thesis by (auto simp: list_all_iff)
  qed
  have all: "\<forall>c \<in> set (hex_encode bs). ascii_lower c = c \<and> c \<noteq> CHR '','' \<and> c \<noteq> CHR ''x''"
  proof
    fix c assume "c \<in> set (hex_encode bs)"
    then obtain b :: byte where "c = hex_digit (unat b div 16) \<or> c = hex_digit (unat b mod 16)"
      by (auto simp: hex_encode_def)
    then show "ascii_lower c = c \<and> c \<noteq> CHR '','' \<and> c \<noteq> CHR ''x''"
      using d [OF byte_nibbles(1) [of b]] d [OF byte_nibbles(2) [of b]] by (elim disjE) simp_all
  qed
  then show "CHR '','' \<notin> set (hex_encode bs)" by auto
  show "ToLower (hex_encode bs) = hex_encode bs"
    using all by (simp add: ToLower_ascii graphic_ascii map_idI)
  have "CHR ''x'' \<notin> set (hex_encode bs)" using all by auto
  moreover have "\<not> HasPrefix s ''0x''" if "CHR ''x'' \<notin> set s" for s
    using that unfolding HasPrefix_iff by (elim contrapos_nn exE) simp
  ultimately show "TrimPrefix (hex_encode bs) ''0x'' = hex_encode bs" by (simp add: TrimPrefix_def)
qed

lemma proof_csv_parses:
  assumes "height < 2 ^ 64" "length hash = 32"
  shows "\<exists>p. ParseFIP101PayloadFromCSV b (proof_csv (BuildIndexerID h t) height hash) key addr addrType = Inr p \<and>
    pl_Tag p = TagProveStake \<and> payload_Get p [OpFieldIndexerID] = BuildIndexerID h t \<and>
    payload_Get p [OpFieldBlockHeight] = FormatUint height \<and> payload_Get p [OpFieldBlockHash] = hex_encode hash"
proof -
  let ?id = "BuildIndexerID h t"
  let ?rec = "[''fip101'', ''1'', ''submit_proof'', ?id, FormatUint height, hex_encode hash]"
  have g: "\<forall>p \<in> set ?rec. graphic p \<and> CHR '','' \<notin> set p"
    using BuildIndexerID_facts FormatUint_no_comma hex_no_comma by (simp del: FormatUint.simps)
  have r: "parseSingleCSVRecord (proof_csv ?id height hash) = Inr ?rec"
    unfolding proof_csv_def by (rule parseSingleCSVRecord_Join) (use g in simp_all)
  have u: "utf8_Valid (proof_csv ?id height hash)"
    using g unfolding proof_csv_def by (intro utf8_Valid_ascii) (auto simp: graphic_ascii simp del: FormatUint.simps)
  have n: "hex_encode hash \<noteq> ''''" using assms(2) length_hex_encode [of hash] by (metis length_0_conv mult_eq_0_iff zero_neq_numeral)
  have csv: "parseCSVUint64 (FormatUint height) = Some height"
    using ParseUint_FormatUint [of height 64] assms(1) by (simp add: parseCSVUint64_def del: FormatUint.simps)
  have pp: "parse_prove ?rec f = Inr (mput (mput (mput f OpFieldIndexerID ?id) OpFieldBlockHeight (FormatUint height))
      OpFieldBlockHash (hex_encode hash))" for f
    using n csv assms(2) BuildIndexerID_facts [of h t]
    by (simp add: parse_prove_def hex_encode_lower hex_no_0x del: FormatUint.simps)
  have lit: "EqualFold (TrimSpace ''fip101'') ''fip101''" "TrimSpace ''1'' = ''1''"
    "mapOperationToTag (ToLower (TrimSpace ''submit_proof'')) = TagProveStake" "TagProveStake \<noteq> ''''"
    by code_simp+
  show ?thesis
    using u r pp lit tag_neqs n BuildIndexerID_facts [of h t]
    by (simp add: ParseFIP101PayloadFromCSV_def Let_def get_simps fip101Protocol_def fip101Version_def
        del: payload_Get.simps FormatUint.simps)
qed

text \<open>C36. A canonical proof message is understood as written: for every indexer id, prove height and 32-byte hash, parsing the
  CSV line that states them yields a proof payload with exactly that id, height and (lower-case) hash.\<close>

theorem proof_csv_roundtrip:
  assumes "height < 2 ^ 64" "length hash = 32"
  shows "\<exists>p. ParseFIP101PayloadFromCSV b (proof_csv (BuildIndexerID h t) height hash) key addr addrType = Inr p \<and>
    pl_Tag p = TagProveStake \<and> payload_Get p [OpFieldIndexerID] = BuildIndexerID h t \<and>
    payload_Get p [OpFieldBlockHeight] = FormatUint height \<and> payload_Get p [OpFieldBlockHash] = hex_encode hash"
  by (rule proof_csv_parses [OF assms])

text \<open>A stand-in for the library, for examples.\<close>

definition sample_btc :: btc where
  "sample_btc = \<lparr>schnorr_ParsePubKey = (\<lambda>r. Some (2 # r)), btcec_ParsePubKey = Some, ComputeTaprootKeyNoScript = Some,
     ComputeTaprootOutputKey = (\<lambda>k h. k), ScriptBuilder = (\<lambda>_. Some []), TapHash = id, Hash160 = take 20,
     NewAddressTaproot = (\<lambda>k. Some (hex_encode k)), NewAddressWitnessPubKeyHash = (\<lambda>k. Some (hex_encode k)),
     NewAddressPubKeyHash = (\<lambda>k. Some (hex_encode k)), NewAddressScriptHash = (\<lambda>k. Some (hex_encode k)),
     DecodeAddress = (\<lambda>a. Some (AkTaproot, bytes_of_string a)), PayToAddrScript = (\<lambda>a. Some (bytes_of_string a))\<rparr>"

theorem proof_csv_roundtrip_witness:
  "\<exists>p. ParseFIP101PayloadFromCSV sample_btc (proof_csv (BuildIndexerID 1761438 1) 1830000 (replicate 32 0xab)) [] ''bc1'' ''1'' = Inr p \<and>
    payload_Get p [OpFieldIndexerID] = BuildIndexerID 1761438 1"
  using proof_csv_roundtrip [of 1830000 "replicate 32 0xab" sample_btc 1761438 1 "[]" "''bc1''" "''1''"]
  by (auto simp del: payload_Get.simps)

theorem ParseFIP101PayloadFromCSV_ok_witness:
  "\<exists>p. ParseFIP101PayloadFromCSV sample_btc (proof_csv (BuildIndexerID 1761438 1) 1830000 (replicate 32 0xab)) [] ''bc1'' ''1'' = Inr p \<and>
    payload_ok p"
proof -
  have "(1830000 :: nat) < 2 ^ 64" "length (replicate 32 (0xab :: byte)) = 32" by simp_all
  from proof_csv_parses [OF this, of sample_btc 1761438 1 "[]" "''bc1''" "''1''"] obtain p where
    "ParseFIP101PayloadFromCSV sample_btc (proof_csv (BuildIndexerID 1761438 1) 1830000 (replicate 32 0xab)) [] ''bc1'' ''1'' = Inr p"
    by (elim exE conjE)
  then show ?thesis using conjunct1 [OF ParseFIP101PayloadFromCSV_ok] by (intro exI conjI)
qed


lemma FieldsFunc_no_sep:
  assumes "s \<noteq> []" "\<forall>c \<in> set s. \<not> is_sep c"
  shows "FieldsFunc s = [s]"
proof -
  obtain c r where s: "s = c # r" using assms(1) by (cases s) auto
  have *: "takeWhile (\<lambda>x. \<not> is_sep x) r = r" "\<not> is_sep c"
    using assms(2) s by (auto simp: takeWhile_eq_all_conv)
  have d: "dropWhile (\<lambda>x. \<not> is_sep x) r = []" using assms(2) s by (auto simp: dropWhile_eq_Nil_conv)
  have e: "FieldsFunc [] = []" by (subst FieldsFunc.simps) simp
  show ?thesis unfolding s by (subst FieldsFunc.simps) (simp add: * d e)
qed

lemma readScriptPushData_small:
  assumes "1 \<le> length d" "length d \<le> 75" "length pre = n"
  shows "readScriptPushData (pre @ word_of_nat (length d) # d) n = Some (d, n + 1 + length d)"
proof -
  have "unat (word_of_nat (length d) :: byte) = length d" using assms by (simp add: unat_byte_of_nat)
  then show ?thesis using assms by (simp add: readScriptPushData_def nth_append)
qed

definition claim_text :: "string \<Rightarrow> string" where
  "claim_text indexerID = fip101ClaimReward @ '':'' @ indexerID"

definition claim_script :: "string \<Rightarrow> byte list" where
  "claim_script indexerID =
     0x6a # word_of_nat (length (claim_text indexerID)) # bytes_of_string (claim_text indexerID)"

lemma BuildIndexerID_digits:
  "\<exists>c r. BuildIndexerID h t = c # r \<and> is_digit c" "\<forall>c \<in> set (BuildIndexerID h t). is_digit c \<or> c = CHR '':''"
proof -
  obtain c r where c: "FormatUint (unat h) = c # r" using FormatUint_ne_Nil [of "unat h"] by (cases "FormatUint (unat h)") auto
  then have "is_digit c" using FormatUint_props [of "unat h"] by simp
  with c show "\<exists>c r. BuildIndexerID h t = c # r \<and> is_digit c" by (simp add: BuildIndexerID_def del: FormatUint.simps)
  show "\<forall>c \<in> set (BuildIndexerID h t). is_digit c \<or> c = CHR '':''"
    using FormatUint_props [of "unat h"] FormatUint_props [of "unat t"]
    by (auto simp: BuildIndexerID_def list_all_iff simp del: FormatUint.simps)
qed

lemma length_BuildIndexerID: "length (BuildIndexerID h t) \<le> 21"
proof -
  have "unat w < 10 ^ 10" for w :: u32
    by (rule less_trans [OF unat_u32_less]) simp
  from length_FormatUint_le [OF this] have "length (FormatUint (unat w)) \<le> 10" for w :: u32 by simp
  from this [of h] this [of t] show ?thesis by (simp add: BuildIndexerID_def del: FormatUint.simps)
qed

lemma parse_claim_text: "parseClaimRewardOpReturnContent (claim_text (BuildIndexerID h t)) =
    Some (claim_payload [(OpFieldIndexerID, BuildIndexerID h t)])"
proof -
  let ?id = "BuildIndexerID h t"
  obtain c r where c: "?id = c # r" "is_digit c" using BuildIndexerID_digits(1) by blast
  have g: "graphic ?id" by (rule BuildIndexerID_facts(1))
  have trim: "TrimSpace (claim_text ?id) = claim_text ?id"
    using g by (intro TrimSpace_graphic) (simp add: claim_text_def fip101ClaimReward_def)
  have early: "?id \<noteq> OpValueEarlySupporterReward" "\<not> HasPrefix ?id (OpValueEarlySupporterReward @ '':'')"
    using c by (auto simp: OpValueEarlySupporterReward_def is_digit_def)
  have "\<not> is_sep (CHR '':'')" by code_simp
  moreover have "\<not> is_sep x" if "is_digit x" for x
    using that by (auto simp: is_sep_def is_digit_def)
  ultimately have "\<not> is_sep x" if "is_digit x \<or> x = CHR '':''" for x using that by auto
  then have "\<forall>x \<in> set ?id. \<not> is_sep x" using BuildIndexerID_digits(2) [of h t] by simp
  then have f: "FieldsFunc ?id = [?id]" using BuildIndexerID_facts(3) by (intro FieldsFunc_no_sep)
  have "TrimSpace (CHR '':'' # ?id) = CHR '':'' # ?id" "TrimSpace ?id = ?id" using g by simp_all
  moreover have "HasPrefix (claim_text ?id) fip101ClaimReward" "TrimPrefix (claim_text ?id) fip101ClaimReward = CHR '':'' # ?id"
    "claim_text ?id \<noteq> fip101ClaimReward"
    by (simp_all add: claim_text_def)
  ultimately show ?thesis
    unfolding parseClaimRewardOpReturnContent_def
    using trim early f BuildIndexerID_valid [of h t] BuildIndexerID_facts(3) [of h t] by (simp add: Let_def)
qed

text \<open>C37. A canonical claim is found: an output whose script is \<^verbatim>\<open>OP_RETURN\<close> with the single push
  \<^verbatim>\<open>FIP-101:claim_reward:<indexer id>\<close> makes the transaction a claim for exactly that indexer, when no
  earlier output carries a claim.\<close>

theorem claim_script_roundtrip:
  assumes "out_PkScript o1 = claim_script (BuildIndexerID h t)" "claim_from_outputs before = None"
    "tx_Outputs tx = before @ o1 # after"
  shows "\<exists>p. parseFIP101ClaimRewardFromOutputs tx = Some (p, claim_text (BuildIndexerID h t)) \<and>
    pl_Tag p = TagPledgedReward \<and> payload_Get p [OpFieldIndexerID] = BuildIndexerID h t"
proof -
  let ?id = "BuildIndexerID h t"
  have len: "length (claim_text ?id) \<le> 75" "1 \<le> length (claim_text ?id)"
    using length_BuildIndexerID [of h t] by (simp_all add: claim_text_def fip101ClaimReward_def)
  have "readScriptPushData (claim_script ?id) 1 = Some (bytes_of_string (claim_text ?id), 2 + length (claim_text ?id))"
    using readScriptPushData_small [of "bytes_of_string (claim_text ?id)" "[0x6a]" 1] len by (simp add: claim_script_def)
  moreover have "length (claim_script ?id) = 2 + length (claim_text ?id)" by (simp add: claim_script_def)
  ultimately have "opReturnSinglePushText (claim_script ?id) = Some (claim_text ?id)"
    by (simp add: opReturnSinglePushText_def) (simp add: claim_script_def)
  then have "claim_from_outputs (o1 # after) = Some (claim_payload [(OpFieldIndexerID, ?id)], claim_text ?id)"
    using assms(1) parse_claim_text by simp
  moreover have "claim_from_outputs (before @ os) = claim_from_outputs os" for os
    using assms(2) by (induction before) (auto split: option.splits)
  ultimately show ?thesis
    using assms(3) by (simp add: parseFIP101ClaimRewardFromOutputs_def claim_payload_def payload_Get_single mget_def
        del: payload_Get.simps)
qed

theorem claim_script_roundtrip_witness:
  "\<exists>p. parseFIP101ClaimRewardFromOutputs \<lparr>tx_TxID = ''aa'', tx_TxIdx = 1, tx_Inputs = [],
      tx_Outputs = [\<lparr>out_OutputIdx = 0, out_Satoshi = 5000, out_AddressKey = ''bc1'', out_PkScript = [0x51]\<rparr>,
        \<lparr>out_OutputIdx = 1, out_Satoshi = 0, out_AddressKey = '''', out_PkScript = claim_script (BuildIndexerID 1761438 1)\<rparr>]\<rparr> =
    Some (p, claim_text (BuildIndexerID 1761438 1)) \<and> payload_Get p [OpFieldIndexerID] = BuildIndexerID 1761438 1"
proof -
  let ?a = "\<lparr>out_OutputIdx = 0, out_Satoshi = 5000, out_AddressKey = ''bc1'', out_PkScript = [0x51 :: byte]\<rparr>"
  let ?b = "\<lparr>out_OutputIdx = 1, out_Satoshi = 0, out_AddressKey = '''', out_PkScript = claim_script (BuildIndexerID 1761438 1)\<rparr>"
  have "claim_from_outputs [?a] = None" by (simp add: opReturnSinglePushText_def)
  from claim_script_roundtrip [OF _ this, of ?b 1761438 1 "\<lparr>tx_TxID = ''aa'', tx_TxIdx = 1, tx_Inputs = [], tx_Outputs = [?a, ?b]\<rparr>" "[]"]
  show ?thesis by (simp del: payload_Get.simps) blast
qed

end
