(* ===== verification/ChainData.thy ===== *)
theory ChainData
  imports Go_Strings Go_Strconv GoMap "HOL-Library.Monad_Syntax"
begin

text \<open>
  Where the indexer keeps and gets block data: the table \<^verbatim>\<open>sync_blocks\<close> (\<^verbatim>\<open>internal/component/pg/sync_blocks.go\<close>)
  and the state API client (\<^verbatim>\<open>internal/component/stateapi/client.go\<close>). The table is the list of its rows; its
  refinement of a finite map from heights to blocks is the last section. The HTTP round trip of the client is a
  parameter.
\<close>

section \<open>The reward version\<close>

text \<open>\<^verbatim>\<open>fmt.Sprintf("%08x", version)\<close> is the hexadecimal text of the four bytes, most significant first.\<close>

definition isRewardBlockVersionByVersion :: "u32 \<Rightarrow> bool" where
  "isRewardBlockVersionByVersion version =
     (let hexVersion = hex_encode (rev (put_u32 version)) in
      HasPrefix hexVersion ''2026'' \<and> length hexVersion > 5 \<and> hexVersion ! 5 = CHR ''1'')"

lemma hex_digit_eq_iff: "d < 16 \<Longrightarrow> e < 16 \<Longrightarrow> hex_digit d = hex_digit e \<longleftrightarrow> d = e"
  by (metis hex_val_digit option.inject)

lemma hex_digits_2026: "CHR ''0'' = hex_digit 0" "CHR ''1'' = hex_digit 1" "CHR ''2'' = hex_digit 2" "CHR ''6'' = hex_digit 6"
  by code_simp+

lemma put_u32_bytes:
  "put_u32 v = [word_of_nat (unat v mod 256), word_of_nat (unat v div 256 mod 256),
     word_of_nat (unat v div 65536 mod 256), word_of_nat (unat v div 16777216 mod 256)]"
proof -
  have four: "4 = Suc (Suc (Suc (Suc 0)))" by simp
  show ?thesis
    unfolding put_u32_def four le_encode.simps by (simp flip: div_mult2_eq)
qed

text \<open>C39. The textual version test is the bit test on the word: a block pays rewards exactly when the upper half of its
  version is \<^verbatim>\<open>0x2026\<close> and bits 8 to 11 are 1, whatever the other bits.\<close>

theorem isRewardBlockVersion_bits:
  "isRewardBlockVersionByVersion v \<longleftrightarrow> drop_bit 16 v = 0x2026 \<and> take_bit 4 (drop_bit 8 v) = 1"
proof -
  let ?n = "unat v"
  have b: "unat (word_of_nat (k mod 256) :: byte) = k mod 256" for k by (simp add: word_nat)
  have c: "unat (word_of_nat (?n div 16777216) :: byte) = ?n div 16777216"
    unfolding unat_byte_of_nat by (rule mod_less) (rule less_mult_imp_div_less, use unat_u32_less [of v] in simp)
  have "isRewardBlockVersionByVersion v \<longleftrightarrow>
      ?n div 16777216 mod 256 div 16 = 2 \<and> ?n div 16777216 mod 256 mod 16 = 0 \<and>
      ?n div 65536 mod 256 div 16 = 2 \<and> ?n div 65536 mod 256 mod 16 = 6 \<and> ?n div 256 mod 256 mod 16 = 1"
    by (simp add: isRewardBlockVersionByVersion_def put_u32_bytes hex_encode_def b c hex_digits_2026 hex_digit_eq_iff
        less_mult_imp_div_less del: unat_of_nat)
  also have "\<dots> \<longleftrightarrow> ?n div 65536 div 256 = 32 \<and> ?n div 65536 mod 256 = 38 \<and> ?n div 256 mod 16 = 1"
  proof -
    have "?n div 65536 div 256 mod 256 = ?n div 65536 div 256"
      by (rule mod_less) (rule less_mult_imp_div_less, rule less_mult_imp_div_less, use unat_u32_less [of v] in simp)
    moreover have "?n div 16777216 = ?n div 65536 div 256" by (simp flip: div_mult2_eq)
    moreover have "k div 16 = 2 \<and> k mod 16 = 0 \<longleftrightarrow> k = 32" "k div 16 = 2 \<and> k mod 16 = 6 \<longleftrightarrow> k = 38" for k :: nat
      by presburger+
    moreover have "k mod 256 mod 16 = k mod 16" for k :: nat by (simp add: mod_mod_cancel)
    ultimately show ?thesis by metis
  qed
  also have "\<dots> \<longleftrightarrow> ?n div 65536 = 0x2026 \<and> ?n div 256 mod 16 = 1"
  proof -
    have "k = 0x2026" if "k div 256 = 32" "k mod 256 = 38" for k :: nat
      using arg_cong2 [where f = "\<lambda>a b. a * 256 + b", OF that] by (simp only: div_mult_mod_eq)
    then have "k div 256 = 32 \<and> k mod 256 = 38 \<longleftrightarrow> k = 0x2026" for k :: nat by auto
    then show ?thesis by blast
  qed
  also have "\<dots> \<longleftrightarrow> drop_bit 16 v = 0x2026 \<and> take_bit 4 (drop_bit 8 v) = 1"
    by (simp add: word_eq_unat_iff unat_div_distrib unat_mod_distrib drop_bit_eq_div take_bit_eq_mod)
  finally show ?thesis .
qed


section \<open>The table\<close>

record SyncBlock =
  syb_Height :: u32
  syb_BlockHash :: string
  syb_ParentHash :: string
  syb_Version :: u32
  syb_CoinbaseReward :: u64
  syb_State :: string
  syb_IsRewardBlockVersion :: bool

type_synonym sync_table = "SyncBlock list"

text \<open>The row a block is stored as. The driver refuses a \<^verbatim>\<open>uint64\<close> with the high bit set, which fails the statement.\<close>

definition sync_row :: "SyncBlock \<Rightarrow> SyncBlock option" where
  "sync_row b =
     (if unat (syb_CoinbaseReward b) < 2 ^ 63
      then Some (b\<lparr>syb_IsRewardBlockVersion := isRewardBlockVersionByVersion (syb_Version b)\<rparr>)
      else None)"

fun put_sync :: "SyncBlock \<Rightarrow> sync_table \<Rightarrow> sync_table" where
  "put_sync b [] = [b]"
| "put_sync b (c # cs) = (if syb_Height c = syb_Height b then b # cs else c # put_sync b cs)"

definition UpsertSyncBlock :: "SyncBlock \<Rightarrow> sync_table \<Rightarrow> sync_table option" where
  "UpsertSyncBlock block t = map_option (\<lambda>b. put_sync b t) (sync_row block)"

text \<open>One \<^verbatim>\<open>INSERT\<close> of a chunk: it stores all rows or fails, and PostgreSQL refuses a statement that would update the
  same row twice.\<close>

definition insert_chunk :: "SyncBlock list \<Rightarrow> sync_table \<Rightarrow> sync_table option" where
  "insert_chunk chunk t =
     (if distinct (map syb_Height chunk)
      then map_option (\<lambda>rows. fold put_sync rows t) (those (map sync_row chunk)) else None)"

text \<open>The table after the chunks that succeeded and whether all did. Inside a transaction the caller rolls back; without
  one the chunks before the failing one stay.\<close>

function upsert_chunks :: "SyncBlock list \<Rightarrow> sync_table \<Rightarrow> sync_table \<times> bool" where
  "upsert_chunks blocks t =
     (if blocks = [] then (t, True)
      else case insert_chunk (take 200 blocks) t of
        None \<Rightarrow> (t, False)
      | Some t' \<Rightarrow> upsert_chunks (drop 200 blocks) t')"
  by pat_completeness auto
termination
  by (relation "measure (length \<circ> fst)") auto

declare upsert_chunks.simps [simp del]

definition UpsertSyncBlocksBatch :: "SyncBlock list \<Rightarrow> sync_table \<Rightarrow> sync_table \<times> bool" where
  "UpsertSyncBlocksBatch blocks t = (if blocks = [] then (t, True) else upsert_chunks blocks t)"

definition DeleteSyncBlocksFromHeight :: "u32 \<Rightarrow> sync_table \<Rightarrow> sync_table" where
  "DeleteSyncBlocksFromHeight fromHeight t = filter (\<lambda>b. \<not> syb_Height b \<ge> fromHeight) t"

definition MarkSyncBlocksCommittedRange :: "u32 \<Rightarrow> u32 \<Rightarrow> sync_table \<Rightarrow> sync_table" where
  "MarkSyncBlocksCommittedRange startHeight endHeight t =
     (if endHeight < startHeight then t
      else map (\<lambda>b. if syb_Height b \<ge> startHeight \<and> syb_Height b \<le> endHeight then b\<lparr>syb_State := ''committed''\<rparr> else b) t)"

definition GetSyncBlock :: "sync_table \<Rightarrow> u32 \<Rightarrow> SyncBlock option" where
  "GetSyncBlock t height = find (\<lambda>b. syb_Height b = height) t"

definition GetLatestCommittedSyncBlockHeight :: "sync_table \<Rightarrow> u32 option" where
  "GetLatestCommittedSyncBlockHeight t =
     (case rev (sort (map syb_Height (filter (\<lambda>b. syb_State b = ''committed'') t))) of [] \<Rightarrow> None | h # _ \<Rightarrow> Some h)"

definition ListSyncBlocksRange :: "sync_table \<Rightarrow> u32 \<Rightarrow> u32 \<Rightarrow> SyncBlock list" where
  "ListSyncBlocksRange t startHeight endHeight =
     sort_key syb_Height (filter (\<lambda>b. syb_Height b \<ge> startHeight \<and> syb_Height b < endHeight) t)"

definition CountRewardVersionBlocksInRange :: "sync_table \<Rightarrow> u32 \<Rightarrow> u32 \<Rightarrow> nat" where
  "CountRewardVersionBlocksInRange t startHeight endHeight =
     (if endHeight < startHeight then 0
      else length (filter (\<lambda>b. syb_Height b \<ge> startHeight \<and> syb_Height b \<le> endHeight \<and> syb_IsRewardBlockVersion b) t))"

section \<open>The state API client\<close>

record Client =
  cl_baseURL :: string
  cl_auth :: string
  cl_timeout :: int

record HeightState =
  hs_BlockHash :: string
  hs_StateHash :: string

record queryFip101Envelope =
  qe_Code :: int
  qe_Msg :: string
  qe_Detail :: "HeightState list"

datatype api_error = NotConfigured | RequestFailed | UnexpectedStatus nat | DecodeFailed | ApiMessage string | EmptyDetail

text \<open>The reply to a request with a URL and an \<^verbatim>\<open>Authorization\<close> header (none when empty): a transport failure, or a
  status with the body decoded as JSON.\<close>

datatype http_reply = NoReply | Reply nat "queryFip101Envelope option"

type_synonym http = "string \<Rightarrow> string option \<Rightarrow> http_reply"

definition Init_client :: "string \<Rightarrow> string \<Rightarrow> int \<Rightarrow> Client option" where
  "Init_client baseURL0 auth timeout =
     (let baseURL = rev (dropWhile (\<lambda>c. c = CHR ''/'') (rev (TrimSpace baseURL0))) in
      if baseURL = '''' then None
      else Some \<lparr>cl_baseURL = baseURL, cl_auth = TrimSpace auth, cl_timeout = (if timeout \<le> 0 then 5000000000 else timeout)\<rparr>)"

definition client_GetHeightState :: "http \<Rightarrow> Client \<Rightarrow> u64 \<Rightarrow> api_error + HeightState" where
  "client_GetHeightState get c height =
     (let h = FormatUint (unat height);
          url = cl_baseURL c @ ''/brc20/statehash?start='' @ h @ ''&end='' @ h in
      case get url (if cl_auth c \<noteq> '''' then Some (cl_auth c) else None) of
        NoReply \<Rightarrow> Inl RequestFailed
      | Reply status body \<Rightarrow>
          if status \<noteq> 200 then Inl (UnexpectedStatus status)
          else case body of
            None \<Rightarrow> Inl DecodeFailed
          | Some envelope \<Rightarrow>
              if qe_Code envelope \<noteq> 0 then
                (let msg = TrimSpace (qe_Msg envelope) in
                 Inl (ApiMessage (if msg = '''' then ''state api returned non-zero code'' else msg)))
              else case qe_Detail envelope of
                [] \<Rightarrow> Inl EmptyDetail
              | st # _ \<Rightarrow> Inr st)"

definition GetHeightState :: "http \<Rightarrow> Client option \<Rightarrow> u64 \<Rightarrow> api_error + HeightState" where
  "GetHeightState get defaultClient height =
     (case defaultClient of None \<Rightarrow> Inl NotConfigured | Some c \<Rightarrow> client_GetHeightState get c height)"


section \<open>The table refines a map from heights to blocks\<close>

type_synonym chain = "u32 \<rightharpoonup> SyncBlock"

definition table_ok :: "sync_table \<Rightarrow> bool" where
  "table_ok t \<longleftrightarrow> distinct (map syb_Height t)"

definition abs_table :: "sync_table \<Rightarrow> chain" where
  "abs_table t = GetSyncBlock t"

text \<open>A block the database accepts, and the row it becomes.\<close>

definition storable :: "SyncBlock \<Rightarrow> bool" where
  "storable b \<longleftrightarrow> unat (syb_CoinbaseReward b) < 2 ^ 63"

definition stored :: "SyncBlock \<Rightarrow> SyncBlock" where
  "stored b = b\<lparr>syb_IsRewardBlockVersion := isRewardBlockVersionByVersion (syb_Version b)\<rparr>"

datatype sync_op = OpUpsert SyncBlock | OpBatch "SyncBlock list" | OpDelete u32 | OpCommit u32 u32

fun op_ok :: "sync_op \<Rightarrow> bool" where
  "op_ok (OpUpsert b) = storable b"
| "op_ok (OpBatch bs) = (list_all storable bs \<and> distinct (map syb_Height bs))"
| "op_ok (OpDelete h) = True"
| "op_ok (OpCommit a b) = True"

fun exec_op :: "sync_op \<Rightarrow> sync_table \<Rightarrow> sync_table" where
  "exec_op (OpUpsert b) t = (case UpsertSyncBlock b t of None \<Rightarrow> t | Some t' \<Rightarrow> t')"
| "exec_op (OpBatch bs) t = fst (UpsertSyncBlocksBatch bs t)"
| "exec_op (OpDelete h) t = DeleteSyncBlocksFromHeight h t"
| "exec_op (OpCommit a b) t = MarkSyncBlocksCommittedRange a b t"

fun spec_op :: "sync_op \<Rightarrow> chain \<Rightarrow> chain" where
  "spec_op (OpUpsert b) c = c(syb_Height b \<mapsto> stored b)"
| "spec_op (OpBatch bs) c = (\<lambda>h. case find (\<lambda>b. syb_Height b = h) bs of Some b \<Rightarrow> Some (stored b) | None \<Rightarrow> c h)"
| "spec_op (OpDelete h0) c = (\<lambda>h. if h \<ge> h0 then None else c h)"
| "spec_op (OpCommit a b) c = (\<lambda>h. if a \<le> h \<and> h \<le> b then map_option (syb_State_update (\<lambda>_. ''committed'')) (c h) else c h)"

lemma stored_height [simp]: "syb_Height (stored b) = syb_Height b"
  by (simp add: stored_def)

lemma sync_row_storable: "storable b \<Longrightarrow> sync_row b = Some (stored b)"
  by (simp add: sync_row_def storable_def stored_def)

lemma find_put_sync: "find (\<lambda>b. syb_Height b = h) (put_sync b t) =
    (if h = syb_Height b then Some b else find (\<lambda>b. syb_Height b = h) t)"
  by (induction t) auto

lemma heights_put_sync: "set (map syb_Height (put_sync b t)) = insert (syb_Height b) (set (map syb_Height t))"
  by (induction t) auto

lemma put_sync_ok: "table_ok t \<Longrightarrow> table_ok (put_sync b t)"
  unfolding table_ok_def by (induction t) (use heights_put_sync in auto)

lemma those_storable: "list_all storable bs \<Longrightarrow> those (map sync_row bs) = Some (map stored bs)"
  by (induction bs) (simp_all add: sync_row_storable)

lemma insert_chunk_ok:
  assumes "list_all storable bs" "distinct (map syb_Height bs)"
  shows "insert_chunk bs t = Some (fold put_sync (map stored bs) t)"
  using assms by (simp add: insert_chunk_def those_storable)

lemma upsert_chunks_ok:
  "list_all storable bs \<Longrightarrow> distinct (map syb_Height bs) \<Longrightarrow> upsert_chunks bs t = (fold put_sync (map stored bs) t, True)"
proof (induction bs t rule: upsert_chunks.induct)
  case (1 bs t)
  have parts: "map stored bs = map stored (take 200 bs) @ map stored (drop 200 bs)"
    by (simp flip: map_append)
  have "list_all storable (take 200 bs)" "list_all storable (drop 200 bs)"
    using "1.prems"(1) by (auto simp: list_all_iff dest: in_set_takeD in_set_dropD)
  moreover have "distinct (map syb_Height (take 200 bs))" "distinct (map syb_Height (drop 200 bs))"
    using "1.prems"(2) by (simp_all flip: take_map drop_map)
  ultimately show ?case
    using "1.IH" by (subst upsert_chunks.simps) (simp add: insert_chunk_ok parts del: map_append)
qed

lemma batch_ok:
  "list_all storable bs \<Longrightarrow> distinct (map syb_Height bs) \<Longrightarrow>
    UpsertSyncBlocksBatch bs t = (fold put_sync (map stored bs) t, True)"
  by (simp add: UpsertSyncBlocksBatch_def upsert_chunks_ok)

lemma fold_put_ok: "table_ok t \<Longrightarrow> table_ok (fold put_sync bs t)"
  by (induction bs arbitrary: t) (simp_all add: put_sync_ok)

lemma find_fold_put:
  "distinct (map syb_Height bs) \<Longrightarrow> find (\<lambda>b. syb_Height b = h) (fold put_sync (map stored bs) t) =
    (case find (\<lambda>b. syb_Height b = h) bs of Some b \<Rightarrow> Some (stored b) | None \<Rightarrow> find (\<lambda>b. syb_Height b = h) t)"
proof (induction bs arbitrary: t)
  case (Cons b bs)
  have "find (\<lambda>b. syb_Height b = h) bs = None" if "h = syb_Height b"
    using Cons.prems that by (auto simp: find_None_iff image_iff)
  then show ?case using Cons by (auto simp: find_put_sync split: option.split)
qed simp

lemma find_filter_height:
  "find (\<lambda>b. syb_Height b = h) (filter (\<lambda>b. P (syb_Height b)) t) =
    (if P h then find (\<lambda>b. syb_Height b = h) t else None)"
  by (induction t) auto

lemma find_map_height:
  "(\<And>b. syb_Height (f b) = syb_Height b) \<Longrightarrow>
    find (\<lambda>b. syb_Height b = h) (map f t) = map_option f (find (\<lambda>b. syb_Height b = h) t)"
  by (induction t) auto

lemma find_heightD: "find (\<lambda>b. syb_Height b = h) t = Some b \<Longrightarrow> syb_Height b = h"
  by (auto simp: find_Some_iff)

lemma heights_commit: "map syb_Height (MarkSyncBlocksCommittedRange a b t) = map syb_Height t"
  by (simp add: MarkSyncBlocksCommittedRange_def)

lemma exec_op_ok: "table_ok t \<Longrightarrow> op_ok op \<Longrightarrow> table_ok (exec_op op t)"
proof (cases op)
  case (OpDelete h)
  then show "table_ok t \<Longrightarrow> table_ok (exec_op op t)"
    by (simp add: table_ok_def DeleteSyncBlocksFromHeight_def distinct_map_filter)
next
  case (OpCommit a b)
  then show "table_ok t \<Longrightarrow> table_ok (exec_op op t)" by (simp add: table_ok_def heights_commit)
qed (simp_all add: UpsertSyncBlock_def sync_row_storable put_sync_ok batch_ok fold_put_ok)

lemma exec_op_abs: "op_ok op \<Longrightarrow> abs_table (exec_op op t) = spec_op op (abs_table t)"
proof (cases op)
  case (OpCommit a b)
  let ?f = "\<lambda>c. if syb_Height c \<ge> a \<and> syb_Height c \<le> b then c\<lparr>syb_State := ''committed''\<rparr> else c"
  have f: "find (\<lambda>b. syb_Height b = h) (map ?f t) = map_option ?f (find (\<lambda>b. syb_Height b = h) t)" for h
    by (rule find_map_height) simp
  have "abs_table (exec_op op t) h = spec_op op (abs_table t) h" for h
  proof (cases "b < a")
    case True
    then show ?thesis using OpCommit
      by (auto simp: abs_table_def GetSyncBlock_def MarkSyncBlocksCommittedRange_def)
  next
    case False
    then show ?thesis using OpCommit
      by (cases "find (\<lambda>b. syb_Height b = h) t")
        (auto simp: abs_table_def GetSyncBlock_def MarkSyncBlocksCommittedRange_def f dest: find_heightD)
  qed
  then show ?thesis by (simp add: fun_eq_iff)
qed (auto simp: abs_table_def GetSyncBlock_def UpsertSyncBlock_def sync_row_storable batch_ok find_put_sync
      find_fold_put DeleteSyncBlocksFromHeight_def find_filter_height [where P = "\<lambda>h. \<not> h \<ge> k" for k] fun_eq_iff
      split: option.split)

text \<open>The queries on the abstract chain.\<close>

definition committed_heights :: "chain \<Rightarrow> u32 set" where
  "committed_heights c = {h. \<exists>b. c h = Some b \<and> syb_State b = ''committed''}"

lemma abs_table_iff: "table_ok t \<Longrightarrow> abs_table t h = Some b \<longleftrightarrow> b \<in> set t \<and> syb_Height b = h"
  unfolding abs_table_def GetSyncBlock_def table_ok_def by (induction t) auto

lemma GetLatest_abs:
  assumes "table_ok t"
  shows "(case GetLatestCommittedSyncBlockHeight t of
      None \<Rightarrow> committed_heights (abs_table t) = {}
    | Some h \<Rightarrow> h \<in> committed_heights (abs_table t) \<and> (\<forall>k \<in> committed_heights (abs_table t). k \<le> h))"
proof -
  let ?hs = "map syb_Height (filter (\<lambda>b. syb_State b = ''committed'') t)"
  have c: "committed_heights (abs_table t) = set (rev (sort ?hs))"
    using abs_table_iff [OF assms] by (auto simp: committed_heights_def)
  have "sorted_wrt (\<ge>) (rev (sort ?hs))" by (simp add: sorted_wrt_rev)
  then show ?thesis
    unfolding c GetLatestCommittedSyncBlockHeight_def by (cases "rev (sort ?hs)") auto
qed

lemma ListSyncBlocksRange_abs:
  assumes "table_ok t"
  shows "set (ListSyncBlocksRange t a e) = {b. a \<le> syb_Height b \<and> syb_Height b < e \<and> abs_table t (syb_Height b) = Some b}"
    and "sorted_wrt (<) (map syb_Height (ListSyncBlocksRange t a e))"
proof -
  show "set (ListSyncBlocksRange t a e) = {b. a \<le> syb_Height b \<and> syb_Height b < e \<and> abs_table t (syb_Height b) = Some b}"
    using abs_table_iff [OF assms] by (auto simp: ListSyncBlocksRange_def)
  have "distinct (map syb_Height (ListSyncBlocksRange t a e))"
    using assms by (auto simp: table_ok_def ListSyncBlocksRange_def distinct_map intro: inj_on_subset)
  then show "sorted_wrt (<) (map syb_Height (ListSyncBlocksRange t a e))"
    by (simp add: strict_sorted_iff ListSyncBlocksRange_def)
qed

lemma run_refines:
  "table_ok t \<Longrightarrow> list_all op_ok ops \<Longrightarrow>
    table_ok (fold exec_op ops t) \<and> abs_table (fold exec_op ops t) = fold spec_op ops (abs_table t)"
  by (induction ops arbitrary: t) (simp_all add: exec_op_ok exec_op_abs)

text \<open>C15. The table of synced blocks refines a map from heights to blocks: after any sequence of upserts, batches (of
  whatever length, cut into statements of 200 rows), deletions from a height and commits of a range, looking a height
  up gives what the same sequence does to the map, the reward flag being recomputed from the version; the latest
  committed height is the greatest height whose block is committed; and a range lists exactly the map's blocks in the
  range in strictly increasing height.\<close>

theorem sync_blocks_refines:
  assumes "table_ok t" "list_all op_ok ops"
  shows "let t' = fold exec_op ops t; c' = fold spec_op ops (abs_table t) in
    (\<forall>h. GetSyncBlock t' h = c' h) \<and>
    (case GetLatestCommittedSyncBlockHeight t' of
       None \<Rightarrow> committed_heights c' = {}
     | Some h \<Rightarrow> h \<in> committed_heights c' \<and> (\<forall>k \<in> committed_heights c'. k \<le> h)) \<and>
    set (ListSyncBlocksRange t' a e) = {b. a \<le> syb_Height b \<and> syb_Height b < e \<and> c' (syb_Height b) = Some b} \<and>
    sorted_wrt (<) (map syb_Height (ListSyncBlocksRange t' a e))"
proof -
  note r = run_refines [OF assms]
  show ?thesis
    unfolding Let_def conjunct2 [OF r, symmetric]
    using GetLatest_abs [OF conjunct1 [OF r]] ListSyncBlocksRange_abs [OF conjunct1 [OF r], of a e]
    by (simp add: abs_table_def)
qed

definition sample_block :: "u32 \<Rightarrow> SyncBlock" where
  "sample_block h = \<lparr>syb_Height = h, syb_BlockHash = ''aa'', syb_ParentHash = ''bb'', syb_Version = 0x20260100,
     syb_CoinbaseReward = 25, syb_State = ''prepared'', syb_IsRewardBlockVersion = False\<rparr>"

theorem sync_blocks_refines_witness:
  "GetSyncBlock (fold exec_op [OpBatch [sample_block 7, sample_block 8], OpCommit 7 7, OpDelete 8] []) 7 =
    Some (sample_block 7\<lparr>syb_State := ''committed'', syb_IsRewardBlockVersion := True\<rparr>)"
proof -
  have c: "table_ok []" "list_all op_ok [OpBatch [sample_block 7, sample_block 8], OpCommit 7 7, OpDelete 8]"
    by code_simp+
  have "isRewardBlockVersionByVersion 0x20260100" by code_simp
  with sync_blocks_refines [OF c, unfolded Let_def, THEN conjunct1, rule_format, of 7] show ?thesis
    by (simp add: stored_def sample_block_def)
qed

end
