(* ===== verification/Reward.thy ===== *)
theory Reward
  imports Commission RewardTables RewardMath ProtocolParser ChainData
begin

text \<open>
  The distribution of a block's reward (\<^verbatim>\<open>internal/exec/manager/handler_reward.go\<close>). The manager is the one of
  \<^verbatim>\<open>Manager\<close>; the database tables the handler changes are the other fields of its state, so that an error leaves
  behind what was staged and written before it. \<open>env\<close> and \<open>chain_env\<close> hold what the handler reads: Redis, the outcome
  of each database call, the synced blocks, the node's answers and the state API. The two Go maps the handler builds
  and ranges over are visited in an arbitrary order \<open>ord\<close>; maps of the manager are visited in the order of the list that
  stands for them. Logging is left out.
\<close>

record chain_env =
  ce_SyncBlocks :: sync_table
  ce_BlockHashRPC :: "u32 \<Rightarrow> string option"
  ce_http :: http
  ce_client :: "Client option"

record rstate =
  rs_m :: Manager
  rs_proofs :: "StakeProof list"
  rs_allocated :: reward_table
  rs_pending :: reward_table

text \<open>\<^verbatim>\<open>None\<close> as the error is success.\<close>

type_synonym reward_result = "rstate \<times> mgr_error option"

section \<open>Constants and small helpers\<close>

definition stakeStatusRewardReleasePercentField :: string where
  "stakeStatusRewardReleasePercentField = ''reward_release_percent''"
definition stakeStatusPendingRewardSyncHeight :: string where
  "stakeStatusPendingRewardSyncHeight = ''pending_reward_sync_height''"
definition stakeStatusPendingRewardTotalAmount :: string where
  "stakeStatusPendingRewardTotalAmount = ''pending_reward_total_amount''"
definition delaySubmitStage1StakePercent :: u64 where
  "delaySubmitStage1StakePercent = 95"

definition m_stage :: "(slowWriteState \<Rightarrow> slowWriteState) \<Rightarrow> Manager \<Rightarrow> Manager" where
  "m_stage f m = m\<lparr>slowState := f (slowState m)\<rparr>"

definition isRewardBlockVersion :: "u32 \<Rightarrow> bool" where
  "isRewardBlockVersion version =
     (let hexVersion = hex_encode (rev (put_u32 version)) in
      HasPrefix hexVersion ''2026'' \<and> length hexVersion > 5 \<and> hexVersion ! 5 = CHR ''1'')"

definition shouldUseRewardTruncation :: "StakeRewardConfigInfo \<Rightarrow> u32 \<Rightarrow> bool" where
  "shouldUseRewardTruncation cfg height \<longleftrightarrow> height \<ge> Stage2StartHeight cfg"

definition shouldUseStage3DelayPenalty :: "StakeRewardConfigInfo \<Rightarrow> u32 \<Rightarrow> bool" where
  "shouldUseStage3DelayPenalty cfg height \<longleftrightarrow> Stage3StartHeight cfg > 0 \<and> height \<ge> Stage3StartHeight cfg"

definition resolveRewardProofWindow :: "StakeRewardConfigInfo \<Rightarrow> u32 \<Rightarrow> u32 option" where
  "resolveRewardProofWindow cfg height = RewardProofWindowByHeight cfg height"

definition resolveRewardReleasePercent :: "StakeRewardConfigInfo \<Rightarrow> u32 \<Rightarrow> f64" where
  "resolveRewardReleasePercent cfg height =
     (let releasePercent = RewardReleasePercentByHeight cfg height in
      if releasePercent > 100 then 100 else releasePercent)"

section \<open>The share of its stake a delayed indexer keeps\<close>

text \<open>Division by a zero step is not reached: the step is tested first.\<close>

definition resolveStage2DelaySubmitStakePercent :: "StakeRewardConfigInfo \<Rightarrow> u32 \<Rightarrow> u64" where
  "resolveStage2DelaySubmitStakePercent cfg delayedBlocks =
     (let stepBlocks = DelaySubmitStage2StepBlocks cfg; stepPercent = DelaySubmitStage2StepPercent cfg in
      if stepBlocks = 0 \<or> stepPercent = 0 then 100
      else
        let steps = (ucast ((delayedBlocks - 1) div stepBlocks) :: u64);
            penaltyPercent = steps * stepPercent in
        if penaltyPercent \<ge> 100 then 0 else 100 - penaltyPercent)"

fun stage3_percent :: "u32 \<Rightarrow> u32 list \<Rightarrow> u64 list \<Rightarrow> u64" where
  "stage3_percent delayedBlocks (maxDelayBlocks # blocks) (percent # percents) =
     (if delayedBlocks \<le> maxDelayBlocks then percent else stage3_percent delayedBlocks blocks percents)"
| "stage3_percent delayedBlocks _ _ = 0"

definition resolveStage3DelaySubmitStakePercent :: "StakeRewardConfigInfo \<Rightarrow> u32 \<Rightarrow> u64" where
  "resolveStage3DelaySubmitStakePercent cfg delayedBlocks =
     (let blocks = (if length (DelaySubmitStage3Blocks cfg) \<noteq> 7 then [720, 840, 960, 1080, 1200, 1320, 1440]
                    else DelaySubmitStage3Blocks cfg) in
      stage3_percent delayedBlocks blocks [100, 95, 87, 75, 59, 35, 10])"

definition resolveDelaySubmitStakePercent :: "StakeRewardConfigInfo \<Rightarrow> u32 \<Rightarrow> StakeProof \<Rightarrow> u64" where
  "resolveDelaySubmitStakePercent cfg rewardHeight p =
     (if sp_VerifyStatus p \<noteq> StakeProofVerifyValidDelayed then 100
      else if \<not> shouldUseRewardTruncation cfg rewardHeight then delaySubmitStage1StakePercent
      else if sp_Height p \<le> sp_ProveBlockHeight p then 100
      else
        let delayedBlocks = sp_Height p - sp_ProveBlockHeight p in
        if shouldUseStage3DelayPenalty cfg rewardHeight then resolveStage3DelaySubmitStakePercent cfg delayedBlocks
        else resolveStage2DelaySubmitStakePercent cfg delayedBlocks)"

definition percent_step :: "StakeRewardConfigInfo \<Rightarrow> u32 \<Rightarrow> (string, u64) gomap \<Rightarrow> StakeProof \<Rightarrow> (string, u64) gomap" where
  "percent_step cfg rewardHeight acc item =
     (let indexerID = TrimSpace (sp_IndexerID item) in
      if indexerID = '''' then acc
      else if \<not> IsIndexerRewardAllowedAtHeight cfg indexerID rewardHeight then acc
      else
        let stakePercent = resolveDelaySubmitStakePercent cfg rewardHeight item in
        case mget acc indexerID of
          None \<Rightarrow> mput acc indexerID stakePercent
        | Some currentPercent \<Rightarrow> if stakePercent > currentPercent then mput acc indexerID stakePercent else acc)"

definition resolveRewardStakePercentByIndexer :: "StakeRewardConfigInfo \<Rightarrow> u32 \<Rightarrow> StakeProof list \<Rightarrow> (string, u64) gomap" where
  "resolveRewardStakePercentByIndexer cfg rewardHeight proofs = foldl (percent_step cfg rewardHeight) [] proofs"

section \<open>Proofs of the height\<close>

definition resolveProofHashInputs :: "env \<Rightarrow> chain_env \<Rightarrow> u32 \<Rightarrow> mgr_error + string \<times> string" where
  "resolveProofHashInputs env ce height =
     (if \<not> db_ok env (QSyncBlock height) then Inl (DbError (QSyncBlock height))
      else
        let blockHash = (case GetSyncBlock (ce_SyncBlocks ce) height of None \<Rightarrow> '''' | Some b \<Rightarrow> TrimSpace (syb_BlockHash b)) in
        case (if blockHash = '''' then ce_BlockHashRPC ce height else Some blockHash) of
          None \<Rightarrow> Inl RpcFailed
        | Some blockHash \<Rightarrow>
          (case GetHeightState (ce_http ce) (ce_client ce) (ucast height) of
             Inl _ \<Rightarrow> Inl StateApiFailed
           | Inr st \<Rightarrow>
             let stateHash = TrimSpace (hs_StateHash st) in
             if stateHash = '''' then Inl HashEmpty
             else
               let blockHash = (if blockHash = '''' then TrimSpace (hs_BlockHash st) else blockHash) in
               if blockHash = '''' then Inl HashEmpty else Inr (blockHash, stateHash)))"

definition validity_rules :: "StakeRewardConfigInfo \<Rightarrow> StakeProofValidityRules" where
  "validity_rules cfg =
     \<lparr>r_DelaySubmitTriggerBlocks = DelaySubmitTriggerBlocks cfg,
      r_DelaySubmitStage2StepBlocks = DelaySubmitStage2StepBlocks cfg,
      r_DelaySubmitStage2StepPercent = DelaySubmitStage2StepPercent cfg,
      r_DelaySubmitStage3Blocks = DelaySubmitStage3Blocks cfg,
      r_Stage2StartHeight = Stage2StartHeight cfg, r_Stage3StartHeight = Stage3StartHeight cfg\<rparr>"

text \<open>The valid proofs and the table after the status write-back; \<open>None\<close> where the window computation panics. A failing
  query or transaction leaves the table alone.\<close>

definition resolveStakeProofValidityForReward ::
    "(groups \<Rightarrow> groups) \<Rightarrow> env \<Rightarrow> u32 \<Rightarrow> string \<Rightarrow> string \<Rightarrow> rstate \<Rightarrow> (mgr_error + StakeProof list \<times> StakeProof list) option" where
  "resolveStakeProofValidityForReward gord env height blockHash stateHash s =
     (case resolveRewardProofWindow (m_cfg (rs_m s)) height of
        None \<Rightarrow> None
      | Some window \<Rightarrow>
          Some (if \<not> db_ok env (QProofs height) then Inl (DbError (QProofs height))
                else case resolveStakeProofValidityByProveHeight gord (rs_proofs s) height window blockHash stateHash
                    (validity_rules (m_cfg (rs_m s))) (pendingRewardMode (rs_m s)) of
                  Inl e \<Rightarrow> Inl (ProofResolution e)
                | Inr r \<Rightarrow> Inr r))"

section \<open>Weights\<close>

record indexerStakeWeight =
  iw_raw :: u64
  iw_effective :: u64
  iw_effectivePercent :: u64
  iw_penalized :: bool

record stake_totals =
  st_byIndexer :: "(string, indexerStakeWeight) gomap"
  st_effective :: u64
  st_raw :: u64

definition raw_stake :: "Manager \<Rightarrow> string \<Rightarrow> u64" where
  "raw_stake m indexerID = sum_list (map (\<lambda>(_, stakeAmount). u64_of_f64 stakeAmount) (getIndexerStakeAmount m indexerID))"

definition weight_step :: "Manager \<Rightarrow> stake_totals \<Rightarrow> string \<times> u64 \<Rightarrow> stake_totals" where
  "weight_step m t entry =
     (case entry of (indexerID, stakePercent) \<Rightarrow>
      if getIndexerStakeAmount m indexerID = [] then t
      else
        let rawStake = raw_stake m indexerID in
        if rawStake = 0 then t
        else
          let effectiveStake = rawStake * stakePercent div 100 in
          if effectiveStake = 0 then t
          else t\<lparr>st_byIndexer := mput (st_byIndexer t) indexerID
                   \<lparr>iw_raw = rawStake, iw_effective = effectiveStake, iw_effectivePercent = stakePercent,
                    iw_penalized = stakePercent < 100\<rparr>,
                 st_raw := st_raw t + rawStake, st_effective := st_effective t + effectiveStake\<rparr>)"

definition stake_weights :: "Manager \<Rightarrow> (string \<times> u64) list \<Rightarrow> stake_totals" where
  "stake_weights m percents = foldl (weight_step m) \<lparr>st_byIndexer = [], st_effective = 0, st_raw = 0\<rparr> percents"

section \<open>Allocation\<close>

record reward_ctx =
  rc_height :: u32
  rc_rewardAmount :: u64
  rc_releasePercent :: f64
  rc_useTruncation :: bool
  rc_unlocked :: u64
  rc_totals :: stake_totals

definition reward_row_of :: "reward_ctx \<Rightarrow> indexerStakeWeight \<Rightarrow> f64 \<Rightarrow> string \<Rightarrow> string \<Rightarrow> string \<Rightarrow> string \<Rightarrow> u64 \<Rightarrow> u64 \<Rightarrow> StakeAllocatedReward" where
  "reward_row_of c w indexerRatio user indexerID stakeAddress rewardType stakeAmount amount =
     \<lparr>rw_UserAddress = user, rw_IndexerID = indexerID, rw_StakeAddress = stakeAddress, rw_RewardType = rewardType,
      rw_Height = rc_height c, rw_StakeAmountSnapshot = stakeAmount, rw_IndexerTotalStake = iw_raw w,
      rw_IndexerEffectivePct = f64_of_u64 (iw_effectivePercent w), rw_StakeAmountEffective = iw_effective w,
      rw_PlatformTotalStake = st_raw (rc_totals c), rw_TotalEffectiveStake = st_effective (rc_totals c),
      rw_ReleasePercent = rc_releasePercent c, rw_BlockRewardAmount = rc_rewardAmount c,
      rw_IndexerRatio = indexerRatio, rw_Amount = amount\<rparr>"

definition getStakeAddressByIndexerAndUser :: "string \<Rightarrow> string \<Rightarrow> Manager \<Rightarrow> string \<times> Manager" where
  "getStakeAddressByIndexerAndUser indexerID userAddress m =
     (if indexerID = '''' \<or> userAddress = '''' then ('''', m)
      else
        let userMap = mget0 [] (indexerToUserStakeAddress m) indexerID;
            stakeAddress = TrimSpace (mget0 '''' userMap userAddress) in
        if stakeAddress \<noteq> '''' then (stakeAddress, m)
        else case find (\<lambda>(_, info). sa_IndexerID info = indexerID \<and> sa_Address info = userAddress) (stakeAddrToIndexer m) of
          None \<Rightarrow> ('''', m)
        | Some (stakeAddress, _) \<Rightarrow>
            (stakeAddress, m\<lparr>indexerToUserStakeAddress := mput (indexerToUserStakeAddress m) indexerID
               (mput userMap userAddress stakeAddress)\<rparr>))"

text \<open>One staker of an indexer: its share of the pool is staged, and recorded as a row when its stake address is known.\<close>

definition address_step ::
    "reward_ctx \<Rightarrow> string \<Rightarrow> indexerStakeWeight \<Rightarrow> f64 \<Rightarrow> u64 \<Rightarrow> Manager \<times> StakeAllocatedReward list \<Rightarrow> string \<times> u64
      \<Rightarrow> Manager \<times> StakeAllocatedReward list" where
  "address_step c indexerID w indexerRatio addressRewardPool acc entry =
     (case acc of (m, rows) \<Rightarrow> case entry of (address, stakeAmount) \<Rightarrow>
      if stakeAmount = 0 \<or> addressRewardPool = 0 then (m, rows)
      else
        let reward = quantizeReward (proportional addressRewardPool stakeAmount (iw_raw w)) (rc_useTruncation c) in
        if reward = 0 then (m, rows)
        else
          let m = m_stage (stageIncrBy (getStakeRewardsTotalKey m address) reward)
                    (m_stage (stageZIncrBy (getStakeRewardsKey m address) (f64_of_u64 reward) indexerID) m) in
          case getStakeAddressByIndexerAndUser indexerID address m of (stakeAddress, m) \<Rightarrow>
          if stakeAddress = '''' then (m, rows)
          else (m, rows @ [reward_row_of c w indexerRatio address indexerID stakeAddress StakeRewardTypeStake stakeAmount reward]))"

text \<open>The manager that \<^verbatim>\<open>getIndexerSnapshotRatio\<close> leaves behind when it returns an error.\<close>

definition ratio_failed :: "env \<Rightarrow> u32 \<Rightarrow> string \<Rightarrow> Manager \<Rightarrow> Manager" where
  "ratio_failed env height indexerID m0 =
     (case snapshot_keys m0 of (snapshotKey, delayedKey) \<Rightarrow>
      case stageCommissionRatioForHeight env height indexerID delayedKey snapshotKey indexerID m0 of
        Inl _ \<Rightarrow> m0
      | Inr m \<Rightarrow>
          if rd_HGet env snapshotKey indexerID = RErr \<or> height = 0 then m
          else case stageCommissionRatioForHeight env height indexerID (getIndexerInfoDelayedCommissionKey m)
              (getIndexerInfoKey m indexerID) ''index_ratio'' m of
            Inl _ \<Rightarrow> m
          | Inr m' \<Rightarrow> m')"

text \<open>The indexer's own reward goes to the owner it is registered for.\<close>

definition indexer_own ::
    "env \<Rightarrow> reward_ctx \<Rightarrow> string \<Rightarrow> indexerStakeWeight \<Rightarrow> f64 \<Rightarrow> u64 \<Rightarrow> Manager \<times> StakeAllocatedReward list
      \<Rightarrow> (Manager \<times> mgr_error) + (Manager \<times> StakeAllocatedReward list)" where
  "indexer_own env c indexerID w indexerRatio indexerReward acc =
     (case acc of (m, rows) \<Rightarrow>
      if indexerReward > 0 then
        (case getIndexerUserAddress env m indexerID of
           Inl e \<Rightarrow> Inl (m, e)
         | Inr userAddress \<Rightarrow>
             if userAddress = '''' then Inr (m, rows)
             else Inr (m_stage (stageIncrBy (getIndexerRewardsTotalKey m userAddress) indexerReward)
                  (m_stage (stageZIncrBy (getIndexerRewardsKey m userAddress) (f64_of_u64 indexerReward) indexerID) m),
                rows @ [reward_row_of c w indexerRatio userAddress indexerID indexerID StakeRewardTypeIndexer (iw_raw w) indexerReward]))
      else Inr (m, rows))"

text \<open>One indexer: its share of the unlocked reward, split by its ratio between itself and its stakers.\<close>

definition indexer_step ::
    "env \<Rightarrow> reward_ctx \<Rightarrow> Manager \<times> StakeAllocatedReward list \<Rightarrow> string \<times> indexerStakeWeight
      \<Rightarrow> (Manager \<times> mgr_error) + (Manager \<times> StakeAllocatedReward list)" where
  "indexer_step env c acc entry =
     (case acc of (m, rows) \<Rightarrow> case entry of (indexerID, w) \<Rightarrow>
      let firstLayerReward = quantizeReward (proportional (rc_unlocked c) (iw_effective w) (st_effective (rc_totals c)))
            (rc_useTruncation c) in
      case getIndexerSnapshotRatio env (rc_height c) indexerID m of
        Inl e \<Rightarrow> Inl (ratio_failed env (rc_height c) indexerID m, e)
      | Inr (indexerRatio, m) \<Rightarrow>
        let q = quantizeReward (f64_mul (f64_of_u64 firstLayerReward) indexerRatio) (rc_useTruncation c);
            indexerReward = (if q > firstLayerReward then firstLayerReward else q);
            addressRewardPool = firstLayerReward - indexerReward;
            m = m_stage (stageHIncrByFloat (getIndexerInfoKey m indexerID) (indexerRewardTotalField m) (f64_of_u64 firstLayerReward)) m;
            m = m_stage (stageHIncrByFloat (getIndexerInfoKey m indexerID) (indexerSelfRewardTotalField m) (f64_of_u64 indexerReward)) m in
        case indexer_own env c indexerID w indexerRatio indexerReward (m, rows) of
          Inl err \<Rightarrow> Inl err
        | Inr (m, rows) \<Rightarrow>
            Inr (foldl (address_step c indexerID w indexerRatio addressRewardPool) (m, rows)
              (mget0 [] (indexerToAddrStakeAmount m) indexerID)))"

fun indexer_loop ::
    "env \<Rightarrow> reward_ctx \<Rightarrow> (string \<times> indexerStakeWeight) list \<Rightarrow> Manager \<times> StakeAllocatedReward list
      \<Rightarrow> (Manager \<times> mgr_error) + (Manager \<times> StakeAllocatedReward list)" where
  "indexer_loop env c [] acc = Inr acc"
| "indexer_loop env c (e # es) acc =
     (case indexer_step env c acc e of Inl err \<Rightarrow> Inl err | Inr acc \<Rightarrow> indexer_loop env c es acc)"

section \<open>Storing\<close>

definition resolvePendingRewardTotalAmount :: "env \<Rightarrow> u64" where
  "resolvePendingRewardTotalAmount env =
     (case rd_HGet env GetStakeIndexerStatusKey stakeStatusPendingRewardTotalAmount of
        RVal raw \<Rightarrow> (case ParseUint 64 (TrimSpace raw) of None \<Rightarrow> 0 | Some n \<Rightarrow> word_of_nat n)
      | _ \<Rightarrow> 0)"

definition subtract_step :: "Manager \<Rightarrow> StakePendingReward \<Rightarrow> Manager" where
  "subtract_step m item =
     (if rw_Amount item = 0 then m
      else
        let infoKey = GetPendingIndexerInfoKey (rw_IndexerID item);
            m = m_stage (stageHIncrByFloat infoKey ''pending_reward_total'' (- f64_of_u64 (rw_Amount item))) m in
        if rw_RewardType item = StakeRewardTypeIndexer then
          m_stage (stageIncrBy (GetPendingIndexerRewardsTotalKey (rw_UserAddress item)) (- rw_Amount item))
            (m_stage (stageZIncrBy (GetPendingIndexerRewardsKey (rw_UserAddress item)) (- f64_of_u64 (rw_Amount item)) (rw_IndexerID item))
              (m_stage (stageHIncrByFloat infoKey ''pending_self_reward_total'' (- f64_of_u64 (rw_Amount item))) m))
        else
          m_stage (stageIncrBy (GetPendingStakeRewardsTotalKey (rw_UserAddress item)) (- rw_Amount item))
            (m_stage (stageZIncrBy (GetPendingStakeRewardsKey (rw_UserAddress item)) (- f64_of_u64 (rw_Amount item)) (rw_IndexerID item)) m))"

definition subtractPendingRewardByHeight :: "env \<Rightarrow> u32 \<Rightarrow> rstate \<Rightarrow> reward_result" where
  "subtractPendingRewardByHeight env height s =
     (if \<not> db_ok env (QPendingByHeight height) then (s, Some (DbError (QPendingByHeight height)))
      else
        let pendingItems = ListStakePendingRewardsByHeight (rs_pending s) height in
        if pendingItems = [] then (s, None)
        else
          let totalPendingAmount = sum_list (map rw_Amount pendingItems);
              m = foldl subtract_step (rs_m s) pendingItems;
              current = resolvePendingRewardTotalAmount env;
              current = (if totalPendingAmount \<ge> current then 0 else current - totalPendingAmount);
              m = m_stageHSet GetStakeIndexerStatusKey [(stakeStatusPendingRewardTotalAmount, HUint (unat current))] m;
              s = s\<lparr>rs_m := m\<rparr> in
          if \<not> db_ok env (XDeletePending height) then (s, Some (DbError (XDeletePending height)))
          else (s\<lparr>rs_pending := DeleteStakePendingRewardsByHeight (rs_pending s) height\<rparr>, None))"

definition store_pending :: "env \<Rightarrow> u32 \<Rightarrow> StakeAllocatedReward list \<Rightarrow> rstate \<Rightarrow> reward_result" where
  "store_pending env height allocatedRewards s =
     (if \<not> db_ok env (QPendingByHeight height) then (s, Some (DbError (QPendingByHeight height)))
      else
        let existingTotal = sum_list (map rw_Amount (ListStakePendingRewardsByHeight (rs_pending s) height));
            totalPendingAmount = sum_list (map rw_Amount allocatedRewards) in
        if \<not> db_ok env (XDeletePending height) then (s, Some (DbError (XDeletePending height)))
        else
          let s = s\<lparr>rs_pending := DeleteStakePendingRewardsByHeight (rs_pending s) height\<rparr> in
          case (if db_ok env (XUpsertPending height) then UpsertStakePendingRewardBatch (rs_pending s) allocatedRewards else None) of
            None \<Rightarrow> (s, Some (DbError (XUpsertPending height)))
          | Some t \<Rightarrow>
              let current = resolvePendingRewardTotalAmount env;
                  current = (if existingTotal \<ge> current then 0 else current - existingTotal) in
              (s\<lparr>rs_pending := t, rs_m := m_stageHSet GetStakeIndexerStatusKey
                  [(stakeStatusPendingRewardSyncHeight, HUint (unat height)),
                   (stakeStatusPendingRewardTotalAmount, HUint (unat (current + totalPendingAmount)))] (rs_m s)\<rparr>, None))"

definition store_allocated :: "env \<Rightarrow> u32 \<Rightarrow> u64 \<Rightarrow> StakeAllocatedReward list \<Rightarrow> rstate \<Rightarrow> reward_result" where
  "store_allocated env height unlocked allocatedRewards s =
     (let s = s\<lparr>rs_m := m_stageHSet GetStakeIndexerStatusKey
                  [(''latest_allocated_reward_height'', HUint (unat height)),
                   (''latest_allocated_reward_amount'', HUint (unat unlocked))] (rs_m s)\<rparr> in
      case (if db_ok env (XUpsertAllocated height) then UpsertStakeAllocatedRewardBatch (rs_allocated s) allocatedRewards else None) of
        None \<Rightarrow> (s, Some (DbError (XUpsertAllocated height)))
      | Some t \<Rightarrow> subtractPendingRewardByHeight env height (s\<lparr>rs_allocated := t\<rparr>))"

section \<open>The handler\<close>

definition distribute ::
    "((string \<times> indexerStakeWeight) list \<Rightarrow> (string \<times> indexerStakeWeight) list) \<Rightarrow> env \<Rightarrow> BlockSnapshot \<Rightarrow> stake_totals \<Rightarrow> rstate
      \<Rightarrow> reward_result" where
  "distribute iord env block totals s =
     (let cfg = m_cfg (rs_m s); height = bs_Height block;
          releasePercent = resolveRewardReleasePercent cfg height;
          useTruncation = shouldUseRewardTruncation cfg height;
          s = s\<lparr>rs_m := m_stageHSet GetStakeIndexerStatusKey
                [(stakeStatusRewardReleasePercentField, HFloat releasePercent)] (rs_m s)\<rparr>;
          unlocked = quantizeReward (f64_div (f64_mul (f64_of_u64 (bs_CoinbaseReward block)) releasePercent) 100) useTruncation in
      if unlocked = 0 then (s, None)
      else
        let c = \<lparr>rc_height = height, rc_rewardAmount = bs_CoinbaseReward block, rc_releasePercent = releasePercent,
                 rc_useTruncation = useTruncation, rc_unlocked = unlocked, rc_totals = totals\<rparr> in
        case indexer_loop env c (iord (st_byIndexer totals)) (rs_m s, []) of
          Inl (m, e) \<Rightarrow> (s\<lparr>rs_m := m\<rparr>, Some e)
        | Inr (m, allocatedRewards) \<Rightarrow>
            let s = s\<lparr>rs_m := m\<rparr> in
            if allocatedRewards = [] then (s, None)
            else if pendingRewardMode m then store_pending env height allocatedRewards s
            else store_allocated env height unlocked allocatedRewards s)"

definition handleBlockReward ::
    "(groups \<Rightarrow> groups) \<Rightarrow> ((string \<times> u64) list \<Rightarrow> (string \<times> u64) list) \<Rightarrow>
     ((string \<times> indexerStakeWeight) list \<Rightarrow> (string \<times> indexerStakeWeight) list) \<Rightarrow>
     env \<Rightarrow> chain_env \<Rightarrow> BlockSnapshot \<Rightarrow> rstate \<Rightarrow> reward_result option" where
  "handleBlockReward gord pord iord env ce block s =
     (let cfg = m_cfg (rs_m s); height = bs_Height block in
      if height < StartRewardHeight cfg then Some (s, None)
      else if \<not> isRewardBlockVersion (bs_Version block) then Some (s, None)
      else if bs_CoinbaseReward block = 0 then Some (s, None)
      else case resolveProofHashInputs env ce height of
        Inl e \<Rightarrow> Some (s, Some e)
      | Inr (blockHash, stateHash) \<Rightarrow>
        (case resolveStakeProofValidityForReward gord env height blockHash stateHash s of
           None \<Rightarrow> None
         | Some (Inl e) \<Rightarrow> Some (s, Some e)
         | Some (Inr (validProofs, proofs)) \<Rightarrow>
           let s = s\<lparr>rs_proofs := proofs\<rparr> in
           if validProofs = [] then Some (s, None)
           else
             let stakePercentByIndexer = resolveRewardStakePercentByIndexer cfg height validProofs in
             if stakePercentByIndexer = [] then Some (s, None)
             else
               let totals = stake_weights (rs_m s) (pord stakePercentByIndexer) in
               if st_effective totals = 0 then Some (s, None)
               else Some (distribute iord env block totals s)))"

section \<open>Replaying ratio events\<close>

definition payloadFromRatioEvent :: "btc \<Rightarrow> FIP101InscriptionEvent \<Rightarrow> OpReturnPayload option" where
  "payloadFromRatioEvent b event =
     (let content = TrimSpace (ev_InscriptionContent event) in
      if content = '''' then None
      else case ParseFIP101PayloadFromCSV b content [] (TrimSpace (ev_UserAddress event)) '''' of
        Inl _ \<Rightarrow> None
      | Inr payload \<Rightarrow> if pl_Tag payload \<noteq> TagAllocatRatio then None else Some payload)"

text \<open>The manager after the events handled and the error of the first that failed.\<close>

fun ApplyFIP101EventsForSnapshot :: "env \<Rightarrow> btc \<Rightarrow> u32 \<Rightarrow> FIP101InscriptionEvent list \<Rightarrow> Manager \<Rightarrow> Manager \<times> mgr_error option" where
  "ApplyFIP101EventsForSnapshot env b height [] m = (m, None)"
| "ApplyFIP101EventsForSnapshot env b height (event # events) m =
     (if ev_BizInvalidFlags event \<noteq> 0 then ApplyFIP101EventsForSnapshot env b height events m
      else if TrimSpace (ToLower (ev_Op event)) \<noteq> ''commission_rate'' then ApplyFIP101EventsForSnapshot env b height events m
      else case payloadFromRatioEvent b event of
        None \<Rightarrow> ApplyFIP101EventsForSnapshot env b height events m
      | Some payload \<Rightarrow>
        (case handleUpdateRatioTxSnapshot env height payload m of
           Inl e \<Rightarrow> (m, Some e)
         | Inr m \<Rightarrow> ApplyFIP101EventsForSnapshot env b height events m))"


section \<open>Penalties\<close>

lemma stage3_percent_in: "stage3_percent d bs ps = 0 \<or> stage3_percent d bs ps \<in> set ps"
  by (induction d bs ps rule: stage3_percent.induct) auto

lemma stage2_percent_le: "resolveStage2DelaySubmitStakePercent cfg d \<le> 100"
proof -
  have "100 - x \<le> 100" if "\<not> x \<ge> 100" for x :: u64
    using that by (simp add: word_le_nat_alt word_less_nat_alt unat_sub not_le)
  then show ?thesis by (simp add: resolveStage2DelaySubmitStakePercent_def Let_def)
qed

lemma stage3_percent_le: "resolveStage3DelaySubmitStakePercent cfg d \<le> 100"
proof -
  have "stage3_percent d bs [100, 95, 87, 75, 59, 35, 10] \<le> 100" for bs
    using stage3_percent_in [of d bs "[100, 95, 87, 75, 59, 35, 10]"] by auto
  then show ?thesis unfolding resolveStage3DelaySubmitStakePercent_def Let_def .
qed

lemma percent_le: "resolveDelaySubmitStakePercent cfg h p \<le> 100"
  by (simp add: resolveDelaySubmitStakePercent_def Let_def stage2_percent_le stage3_percent_le delaySubmitStage1StakePercent_def)

lemma stage3_percent_pos:
  assumes "length bs = 7" "increasing_blocks bs" "bs ! 0 < d" "d \<le> bs ! 6"
  shows "0 < stage3_percent d bs [100, 95, 87, 75, 59, 35, 10] \<and> stage3_percent d bs [100, 95, 87, 75, 59, 35, 10] < 100"
proof -
  obtain a b c e f g h where bs: "bs = [a, b, c, e, f, g, h]"
    using assms(1) by (auto simp: length_Suc_conv numeral_eq_Suc)
  show ?thesis using assms(3,4) unfolding bs by (simp add: not_le)
qed

lemma stage3_percent_mono:
  "d \<le> e \<Longrightarrow> length bs = 7 \<Longrightarrow> stage3_percent e bs [100, 95, 87, 75, 59, 35, 10] \<le> stage3_percent d bs [100, 95, 87, 75, 59, 35, 10]"
proof -
  assume d: "d \<le> e" and "length bs = 7"
  then obtain a b c e' f g h where bs: "bs = [a, b, c, e', f, g, h]"
    by (auto simp: length_Suc_conv numeral_eq_Suc)
  show ?thesis unfolding bs using d by auto
qed

text \<open>The steps and the penalty of stage 2, without wrap-around for a step of at most 100 percent.\<close>

lemma stage2_penalty:
  assumes "DelaySubmitStage2StepPercent cfg \<le> 100"
  shows "unat ((ucast (x div DelaySubmitStage2StepBlocks cfg) :: u64) * DelaySubmitStage2StepPercent cfg) =
    unat x div unat (DelaySubmitStage2StepBlocks cfg) * unat (DelaySubmitStage2StepPercent cfg)"
proof -
  have p: "unat (DelaySubmitStage2StepPercent cfg) \<le> 100" using assms by (simp add: word_le_nat_alt)
  have "unat x div unat (DelaySubmitStage2StepBlocks cfg) \<le> unat x" by (rule div_le_dividend)
  then have "unat x div unat (DelaySubmitStage2StepBlocks cfg) * unat (DelaySubmitStage2StepPercent cfg) \<le> 4294967296 * 100"
    using p unat_u32_less [of x] by (intro mult_le_mono) linarith+
  then have "unat x div unat (DelaySubmitStage2StepBlocks cfg) * unat (DelaySubmitStage2StepPercent cfg) < 2 ^ 64" by simp
  moreover have "unat x div unat (DelaySubmitStage2StepBlocks cfg) mod 4294967296 = unat x div unat (DelaySubmitStage2StepBlocks cfg)"
    using unat_u32_less [of x] by (intro mod_less le_less_trans [OF div_le_dividend])
  ultimately show ?thesis
    by (simp add: unat_word_ariths unsigned_ucast_eq take_bit_eq_mod unat_div_distrib)
qed

lemma stage2_percent_mono:
  assumes "DelaySubmitStage2StepPercent cfg \<le> 100" "1 \<le> d" "d \<le> e"
  shows "resolveStage2DelaySubmitStakePercent cfg e \<le> resolveStage2DelaySubmitStakePercent cfg d"
proof -
  let ?p = "\<lambda>d. (ucast ((d - 1) div DelaySubmitStage2StepBlocks cfg) :: u64) * DelaySubmitStage2StepPercent cfg"
  have "unat (d - 1) \<le> unat (e - 1)"
    using assms(2,3) by (simp add: unat_sub word_le_nat_alt)
  then have "?p d \<le> ?p e"
    unfolding word_le_nat_alt stage2_penalty [OF assms(1)] by (intro mult_le_mono1 div_le_mono)
  then show ?thesis
    by (auto simp: resolveStage2DelaySubmitStakePercent_def Let_def word_le_nat_alt unat_sub)
qed

lemma submit_delay_mono:
  fixes a b h :: u32
  assumes "h < a" "a \<le> b"
  shows "1 \<le> a - h" "a - h \<le> b - h"
  using assms by (simp_all add: word_le_nat_alt word_less_nat_alt unat_sub)

lemma rules_simps [simp]:
  "r_Stage3StartHeight (validity_rules cfg) = Stage3StartHeight cfg" "r_Stage2StartHeight (validity_rules cfg) = Stage2StartHeight cfg"
  "r_DelaySubmitStage3Blocks (validity_rules cfg) = DelaySubmitStage3Blocks cfg"
  "r_DelaySubmitStage2StepBlocks (validity_rules cfg) = DelaySubmitStage2StepBlocks cfg"
  "r_DelaySubmitStage2StepPercent (validity_rules cfg) = DelaySubmitStage2StepPercent cfg"
  "r_DelaySubmitTriggerBlocks (validity_rules cfg) = DelaySubmitTriggerBlocks cfg"
  by (simp_all add: validity_rules_def)

lemma percent_valid: "resolveDelaySubmitStakePercent cfg h (p\<lparr>sp_VerifyStatus := StakeProofVerifyValid\<rparr>) = 100"
  by (simp add: resolveDelaySubmitStakePercent_def verify_status_defs)

text \<open>The three schedules, by the height the proof is for.\<close>

lemma status_cases:
  assumes "cfg_wf cfg" "Stage2StartHeight cfg \<le> Stage3StartHeight cfg"
  obtains
    (stage3) "shouldUseRewardTruncation cfg (sp_ProveBlockHeight p)"
      "shouldUseStage3DelayPenalty cfg (sp_ProveBlockHeight p)"
      "\<And>q. sp_ProveBlockHeight q = sp_ProveBlockHeight p \<Longrightarrow>
        resolveValidStakeProofStatus q (validity_rules cfg) = resolveStage3StakeProofStatus q (DelaySubmitStage3Blocks cfg)"
  | (stage2) "shouldUseRewardTruncation cfg (sp_ProveBlockHeight p)" "\<not> shouldUseStage3DelayPenalty cfg (sp_ProveBlockHeight p)"
      "\<And>q. sp_ProveBlockHeight q = sp_ProveBlockHeight p \<Longrightarrow>
        resolveValidStakeProofStatus q (validity_rules cfg) = resolveStage2StakeProofStatus q (validity_rules cfg)"
  | (stage1) "\<not> shouldUseRewardTruncation cfg (sp_ProveBlockHeight p)" "\<not> shouldUseStage3DelayPenalty cfg (sp_ProveBlockHeight p)"
      "\<And>q. sp_ProveBlockHeight q = sp_ProveBlockHeight p \<Longrightarrow>
        resolveValidStakeProofStatus q (validity_rules cfg) =
          (if shouldApplyDelaySubmitPenalty q (DelaySubmitTriggerBlocks cfg) then StakeProofVerifyValidDelayed else StakeProofVerifyValid)"
proof -
  have s: "0 < Stage2StartHeight cfg" "0 < Stage3StartHeight cfg" using assms(1) by (simp_all add: cfg_wf_def)
  show ?thesis
  proof (cases "sp_ProveBlockHeight p \<ge> Stage3StartHeight cfg")
    case True
    then have "Stage2StartHeight cfg \<le> sp_ProveBlockHeight p" using assms(2) by (rule order_trans [rotated])
    with True show ?thesis using s
      by (intro stage3) (simp_all add: shouldUseStage3DelayPenalty_def shouldUseRewardTruncation_def resolveValidStakeProofStatus_def)
  next
    case 3: False
    show ?thesis
    proof (cases "sp_ProveBlockHeight p \<ge> Stage2StartHeight cfg")
      case True
      then show ?thesis using s 3
        by (intro stage2) (simp_all add: shouldUseStage3DelayPenalty_def shouldUseRewardTruncation_def resolveValidStakeProofStatus_def)
    next
      case False
      then show ?thesis using s 3
        by (intro stage1) (simp_all add: shouldUseStage3DelayPenalty_def shouldUseRewardTruncation_def resolveValidStakeProofStatus_def)
    qed
  qed
qed

lemma blocks7: "cfg_wf cfg \<Longrightarrow> length (DelaySubmitStage3Blocks cfg) = 7 \<and> increasing_blocks (DelaySubmitStage3Blocks cfg)"
  by (simp add: cfg_wf_def)

lemma percent_delayed:
  assumes "cfg_wf cfg" "Stage2StartHeight cfg \<le> Stage3StartHeight cfg" "sp_ProveBlockHeight p < sp_Height p"
    and "resolveValidStakeProofStatus p (validity_rules cfg) = StakeProofVerifyValidDelayed"
  shows "0 < resolveDelaySubmitStakePercent cfg (sp_ProveBlockHeight p) (p\<lparr>sp_VerifyStatus := StakeProofVerifyValidDelayed\<rparr>) \<and>
    resolveDelaySubmitStakePercent cfg (sp_ProveBlockHeight p) (p\<lparr>sp_VerifyStatus := StakeProofVerifyValidDelayed\<rparr>) < 100"
proof (cases rule: status_cases [OF assms(1,2), of p, case_names stage3 stage2 stage1])
  case stage3
  then have "resolveStage3StakeProofStatus p (DelaySubmitStage3Blocks cfg) = StakeProofVerifyValidDelayed" using assms(4) by simp
  then have "DelaySubmitStage3Blocks cfg ! 0 < sp_Height p - sp_ProveBlockHeight p"
    "sp_Height p - sp_ProveBlockHeight p \<le> DelaySubmitStage3Blocks cfg ! 6"
    using assms(3) blocks7 [OF assms(1)]
    by (simp_all add: resolveStage3StakeProofStatus_def Let_def verify_status_defs split: if_splits)
  from stage3_percent_pos [OF _ _ this] blocks7 [OF assms(1)] stage3 assms(3) show ?thesis
    by (simp add: resolveDelaySubmitStakePercent_def resolveStage3DelaySubmitStakePercent_def Let_def)
next
  case stage2
  then have "resolveStage2StakeProofStatus p (validity_rules cfg) = StakeProofVerifyValidDelayed" using assms(4) by simp
  then show ?thesis using stage2 assms(3)
    by (auto simp: resolveStage2StakeProofStatus_def resolveDelaySubmitStakePercent_def resolveStage2DelaySubmitStakePercent_def
        Let_def verify_status_defs word_less_nat_alt word_le_nat_alt unat_sub split: if_splits)
next
  case stage1
  then show ?thesis by (simp add: resolveDelaySubmitStakePercent_def delaySubmitStage1StakePercent_def)
qed

lemma status_values:
  "resolveValidStakeProofStatus p rules \<in> {StakeProofVerifyValid, StakeProofVerifyValidDelayed, StakeProofVerifyExpired}"
  by (simp add: resolveValidStakeProofStatus_def resolveStage3StakeProofStatus_def resolveStage2StakeProofStatus_def Let_def)

lemma delayed_stays_delayed:
  assumes "cfg_wf cfg" "Stage2StartHeight cfg \<le> Stage3StartHeight cfg" "DelaySubmitStage2StepPercent cfg \<le> 100"
    and "sp_ProveBlockHeight p < sp_Height p" "sp_Height p \<le> sp_Height q" "sp_ProveBlockHeight q = sp_ProveBlockHeight p"
    and "resolveValidStakeProofStatus p (validity_rules cfg) = StakeProofVerifyValidDelayed"
    and "resolveValidStakeProofStatus q (validity_rules cfg) \<noteq> StakeProofVerifyExpired"
  shows "resolveValidStakeProofStatus q (validity_rules cfg) = StakeProofVerifyValidDelayed \<and>
    resolveDelaySubmitStakePercent cfg (sp_ProveBlockHeight p) (q\<lparr>sp_VerifyStatus := StakeProofVerifyValidDelayed\<rparr>) \<le>
    resolveDelaySubmitStakePercent cfg (sp_ProveBlockHeight p) (p\<lparr>sp_VerifyStatus := StakeProofVerifyValidDelayed\<rparr>)"
proof -
  let ?d = "sp_Height p - sp_ProveBlockHeight p" and ?e = "sp_Height q - sp_ProveBlockHeight p"
  note de = submit_delay_mono [OF assms(4,5)]
  have q: "sp_ProveBlockHeight p < sp_Height q" using assms(4,5) by simp
  have n: "\<not> sp_Height p \<le> sp_ProveBlockHeight p" "\<not> sp_Height q \<le> sp_ProveBlockHeight p" using assms(4) q by simp_all
  show ?thesis
  proof (cases rule: status_cases [OF assms(1,2), of p, case_names stage3 stage2 stage1])
    case stage3
    then have "resolveStage3StakeProofStatus p (DelaySubmitStage3Blocks cfg) = StakeProofVerifyValidDelayed"
      "resolveStage3StakeProofStatus q (DelaySubmitStage3Blocks cfg) \<noteq> StakeProofVerifyExpired" using assms(6-8) by simp_all
    then have "DelaySubmitStage3Blocks cfg ! 0 < ?d" "?e \<le> DelaySubmitStage3Blocks cfg ! 6"
      using assms(4,6) q blocks7 [OF assms(1)]
      by (simp_all add: resolveStage3StakeProofStatus_def Let_def verify_status_defs split: if_splits)
    moreover from this(1) de(2) have "DelaySubmitStage3Blocks cfg ! 0 < ?e" by (rule less_le_trans)
    moreover from calculation(2) have "\<not> DelaySubmitStage3Blocks cfg ! 6 < ?e" by simp
    ultimately show ?thesis
      using stage3 n assms(6) blocks7 [OF assms(1)] stage3_percent_mono [OF de(2)]
      by (simp add: resolveStage3StakeProofStatus_def resolveDelaySubmitStakePercent_def
          resolveStage3DelaySubmitStakePercent_def Let_def)
  next
    case stage2
    let ?pen = "\<lambda>d. (ucast ((d - 1) div DelaySubmitStage2StepBlocks cfg) :: u64) * DelaySubmitStage2StepPercent cfg"
    have "unat (?d - 1) \<le> unat (?e - 1)"
      using de by (simp add: unat_sub word_le_nat_alt)
    then have pen: "?pen ?d \<le> ?pen ?e"
      unfolding word_le_nat_alt stage2_penalty [OF assms(3)] by (intro mult_le_mono1 div_le_mono)
    have st: "resolveStage2StakeProofStatus p (validity_rules cfg) = StakeProofVerifyValidDelayed"
      "resolveStage2StakeProofStatus q (validity_rules cfg) \<noteq> StakeProofVerifyExpired" using stage2 assms(6-8) by simp_all
    then have "0 < ?pen ?d" "\<not> ?pen ?e \<ge> 100"
      using assms(4,6) q by (auto simp: resolveStage2StakeProofStatus_def Let_def verify_status_defs split: if_splits)
    moreover have "DelaySubmitStage2StepBlocks cfg \<noteq> 0" "DelaySubmitStage2StepPercent cfg \<noteq> 0"
      using assms(1) by (auto simp: cfg_wf_def)
    moreover from \<open>0 < ?pen ?d\<close> pen have "0 < ?pen ?e" by (rule less_le_trans)
    ultimately show ?thesis
      using stage2 n assms(6) stage2_percent_mono [OF assms(3) de]
      by (simp add: resolveStage2StakeProofStatus_def resolveDelaySubmitStakePercent_def Let_def)
  next
    case stage1
    then have "shouldApplyDelaySubmitPenalty p (DelaySubmitTriggerBlocks cfg)"
      using assms(7) by (simp add: verify_status_defs split: if_splits)
    then have "shouldApplyDelaySubmitPenalty q (DelaySubmitTriggerBlocks cfg)"
      using de(2) q assms(6) by (auto simp: shouldApplyDelaySubmitPenalty_def split: if_splits)
    then show ?thesis using stage1 assms(6)
      by (simp add: resolveDelaySubmitStakePercent_def delaySubmitStage1StakePercent_def)
  qed
qed

text \<open>C40. The penalty for a late proof agrees with the status it was given: for an accepted configuration, a proof that
  is resolved as valid counts with its full stake, one that is delayed but not expired counts with a share strictly
  between 0 and 100 percent, and submitting later never increases the share.\<close>

theorem delay_percent_consistent:
  fixes percent
  assumes "cfg_wf cfg" "Stage2StartHeight cfg \<le> Stage3StartHeight cfg" "DelaySubmitStage2StepPercent cfg \<le> 100"
    and "percent = (\<lambda>r. resolveDelaySubmitStakePercent cfg (sp_ProveBlockHeight p)
           (r\<lparr>sp_VerifyStatus := resolveValidStakeProofStatus r (validity_rules cfg)\<rparr>))"
    and "sp_ProveBlockHeight p < sp_Height p" "sp_Height p \<le> sp_Height q" "sp_ProveBlockHeight q = sp_ProveBlockHeight p"
    and "resolveValidStakeProofStatus p (validity_rules cfg) \<noteq> StakeProofVerifyExpired"
    and "resolveValidStakeProofStatus q (validity_rules cfg) \<noteq> StakeProofVerifyExpired"
  shows "(resolveValidStakeProofStatus p (validity_rules cfg) = StakeProofVerifyValid \<and> percent p = 100 \<or>
     resolveValidStakeProofStatus p (validity_rules cfg) = StakeProofVerifyValidDelayed \<and> 0 < percent p \<and> percent p < 100) \<and>
    percent q \<le> percent p"
proof -
  consider "resolveValidStakeProofStatus p (validity_rules cfg) = StakeProofVerifyValid"
    | "resolveValidStakeProofStatus p (validity_rules cfg) = StakeProofVerifyValidDelayed"
    using status_values [of p "validity_rules cfg"] assms(8) by blast
  then show ?thesis
  proof cases
    case 1
    then show ?thesis unfolding assms(4) using percent_le by (simp add: percent_valid)
  next
    case 2
    then show ?thesis
      unfolding assms(4) using percent_delayed [OF assms(1,2,5) 2] delayed_stays_delayed [OF assms(1-3,5-7) 2 assms(9)] by simp
  qed
qed

theorem delay_percent_consistent_witness:
  "let p = \<lparr>sp_IndexerID = ''9:1'', sp_ProveBlockHeight = 1925281, sp_ProveDataHash = ''ab'', sp_TxID = ''aa'',
        sp_Height = 1926081, sp_TxIdx = 0, sp_VerifyStatus = 0\<rparr> in
    resolveDelaySubmitStakePercent DefaultConfig 1925281
      (p\<lparr>sp_VerifyStatus := resolveValidStakeProofStatus p (validity_rules DefaultConfig)\<rparr>) < 100"
proof -
  let ?p = "\<lparr>sp_IndexerID = ''9:1'', sp_ProveBlockHeight = 1925281, sp_ProveDataHash = ''ab'', sp_TxID = ''aa'',
        sp_Height = 1926081, sp_TxIdx = 0, sp_VerifyStatus = 0\<rparr>"
  have c: "Stage2StartHeight DefaultConfig \<le> Stage3StartHeight DefaultConfig" "DelaySubmitStage2StepPercent DefaultConfig \<le> 100"
    by (simp_all add: DefaultConfig_def)
  have s: "resolveValidStakeProofStatus ?p (validity_rules DefaultConfig) = StakeProofVerifyValidDelayed" by code_simp
  show ?thesis
    using delay_percent_consistent [OF DefaultConfig_wf c refl, of ?p ?p] unfolding s by (simp add: s verify_status_defs)
qed

end
