(* ===== verification/Script.thy ===== *)
theory Script
  imports Go_Strconv GoMap
begin

text \<open>
  The script decoder, \<^verbatim>\<open>lib/script\<close>: reading one opcode or push, the template of a locking script
  (\<^verbatim>\<open>GetLockingScriptType\<close>) and its classification (\<^verbatim>\<open>ExtractPkScriptForTxo\<close>), and the extraction of
  the inscription envelopes of a tapscript (\<^verbatim>\<open>ExtractPkScriptForNFTJubilee\<close>).

  The Go loops walk an offset \<^verbatim>\<open>p\<close> over the script and only ever read \<^verbatim>\<open>pkScript[p:]\<close>; the
  definitions carry that suffix. A nil slice is \<open>None\<close> where the code tests for it. The hash
  \<^verbatim>\<open>GetHash160\<close> (SHA-256, then the third-party RIPEMD-160) is a parameter.
\<close>

section \<open>Opcodes\<close>

definition OP_0 :: byte where "OP_0 = 0x00"
definition OP_FALSE :: byte where "OP_FALSE = 0x00"
definition OP_DATA_1 :: byte where "OP_DATA_1 = 0x01"
definition OP_DATA_2 :: byte where "OP_DATA_2 = 0x02"
definition OP_DATA_20 :: byte where "OP_DATA_20 = 0x14"
definition OP_DATA_32 :: byte where "OP_DATA_32 = 0x20"
definition OP_PUSHDATA1 :: byte where "OP_PUSHDATA1 = 0x4c"
definition OP_PUSHDATA2 :: byte where "OP_PUSHDATA2 = 0x4d"
definition OP_PUSHDATA4 :: byte where "OP_PUSHDATA4 = 0x4e"
definition OP_1 :: byte where "OP_1 = 0x51"
definition OP_TRUE :: byte where "OP_TRUE = 0x51"
definition OP_8 :: byte where "OP_8 = 0x58"
definition OP_16 :: byte where "OP_16 = 0x60"
definition OP_IF :: byte where "OP_IF = 0x63"
definition OP_ENDIF :: byte where "OP_ENDIF = 0x68"
definition OP_RETURN :: byte where "OP_RETURN = 0x6a"
definition OP_DUP :: byte where "OP_DUP = 0x76"
definition OP_EQUAL :: byte where "OP_EQUAL = 0x87"
definition OP_EQUALVERIFY :: byte where "OP_EQUALVERIFY = 0x88"
definition OP_HASH160 :: byte where "OP_HASH160 = 0xa9"
definition OP_CHECKSIG :: byte where "OP_CHECKSIG = 0xac"
definition OP_CHECKSIGVERIFY :: byte where "OP_CHECKSIGVERIFY = 0xad"
definition OP_CHECKMULTISIG :: byte where "OP_CHECKMULTISIG = 0xae"

lemmas op_defs = OP_0_def OP_FALSE_def OP_DATA_1_def OP_DATA_2_def OP_DATA_20_def OP_DATA_32_def OP_PUSHDATA1_def
  OP_PUSHDATA2_def OP_PUSHDATA4_def OP_1_def OP_TRUE_def OP_8_def OP_16_def OP_IF_def OP_ENDIF_def OP_RETURN_def
  OP_DUP_def OP_EQUAL_def OP_EQUALVERIFY_def OP_HASH160_def OP_CHECKSIG_def OP_CHECKSIGVERIFY_def OP_CHECKMULTISIG_def

section \<open>Reading one element\<close>

text \<open>The length of a push and the bytes of its header, \<open>(0, 0)\<close> when there is none.\<close>

definition SafeDecodeVarIntForScript :: "byte list \<Rightarrow> nat \<times> nat" where
  "SafeDecodeVarIntForScript raw =
     (if length raw < 1 then (0, 0)
      else if raw ! 0 < OP_PUSHDATA1 then (unat (raw ! 0), 1)
      else if raw ! 0 = OP_PUSHDATA1 then if length raw < 2 then (0, 0) else (unat (raw ! 1), 2)
      else if raw ! 0 = OP_PUSHDATA2 then if length raw < 3 then (0, 0) else (le_decode (take 2 (drop 1 raw)), 3)
      else if raw ! 0 = OP_PUSHDATA4 then if length raw < 5 then (0, 0) else (le_decode (take 4 (drop 1 raw)), 5)
      else (0, 0))"

text \<open>The size of the next element, its data (\<open>None\<close> for nil), whether it pushes and whether it is an
  opcode.\<close>

definition GetOpcodeFormScript :: "byte list \<Rightarrow> nat \<times> byte list option \<times> bool \<times> bool" where
  "GetOpcodeFormScript raw =
     (if length raw < 1 then (0, None, False, False)
      else let c = raw ! 0 in
        if c > OP_16 then (1, Some [c], False, True)
        else if c \<ge> OP_1 then (1, Some [c - OP_1 + 1], True, True)
        else if c = OP_0 then (1, Some [], True, True)
        else if 0 < c \<and> c < 0x4f then
          (let (cnt, cntsize) = SafeDecodeVarIntForScript raw in
           if cntsize + cnt = 0 \<or> cntsize + cnt > length raw then (cntsize + cnt, None, False, False)
           else (cntsize + cnt, Some (take cnt (drop cntsize raw)), True, False))
        else (1, Some [c], True, True))"

text \<open>Data (nil for an opcode), size, pushed by an opcode, end of the envelope, readable.\<close>

definition ExtractPkScript_next :: "byte list \<Rightarrow> byte list option \<times> nat \<times> bool \<times> bool \<times> bool" where
  "ExtractPkScript_next pkScript =
     (case GetOpcodeFormScript pkScript of
        (sz, None, _, _) \<Rightarrow> (None, sz, False, False, False)
      | (sz, Some d, isPush, isOpcode) \<Rightarrow>
          if isPush then (Some d, sz, isOpcode, False, True)
          else if d ! 0 = OP_ENDIF then (None, sz, True, True, True)
          else (None, sz, True, False, True))"

lemma GetOpcodeFormScript_size:
  assumes "GetOpcodeFormScript raw = (sz, Some d, isPush, isOpcode)"
  shows "1 \<le> sz" "sz \<le> length raw"
  using assms by (auto simp: GetOpcodeFormScript_def SafeDecodeVarIntForScript_def Let_def Suc_le_eq split: if_splits prod.splits)

lemma GetOpcodeFormScript_opcode:
  assumes "GetOpcodeFormScript raw = (sz, Some d, False, isOpcode)"
  shows "d = [raw ! 0]" "raw ! 0 > OP_16"
  using assms by (auto simp: GetOpcodeFormScript_def Let_def split: if_splits prod.splits)

lemma ExtractPkScript_next_size:
  assumes "ExtractPkScript_next raw = (data, sz, op, finish, True)"
  shows "1 \<le> sz" "sz \<le> length raw"
proof -
  obtain sz' dopt isPush isOpcode where g: "GetOpcodeFormScript raw = (sz', dopt, isPush, isOpcode)"
    by (cases "GetOpcodeFormScript raw")
  with assms obtain d where d: "dopt = Some d" by (cases dopt) (auto simp: ExtractPkScript_next_def)
  with g assms have "sz' = sz" by (auto simp: ExtractPkScript_next_def split: if_splits)
  with GetOpcodeFormScript_size [OF g [unfolded d]] show "1 \<le> sz" "sz \<le> length raw" by simp_all
qed

lemma opcode_decreases:
  assumes "(sz, Some d, isPush, isOpcode) = GetOpcodeFormScript raw"
  shows "1 \<le> sz \<and> sz \<le> length raw"
  using GetOpcodeFormScript_size [OF assms [symmetric]] by simp

lemma next_decreases:
  assumes "(data, sz, op, finish, True) = ExtractPkScript_next raw"
  shows "1 \<le> sz \<and> sz \<le> length raw"
  using ExtractPkScript_next_size [OF assms [symmetric]] by simp

section \<open>Script templates\<close>

text \<open>The template of a locking script: the opcodes and push headers with their data left out, at most 32.\<close>

function locking_type_loop :: "nat \<Rightarrow> byte list \<Rightarrow> byte list \<Rightarrow> byte list" where
  "locking_type_loop lenType rest scriptType =
     (if rest \<noteq> [] \<and> lenType < 32 then
        let c = rest ! 0 in
        if 0 < c \<and> c < 0x4f then
          (let (cnt, cntsize) = SafeDecodeVarIntForScript rest in
           if cnt + cntsize > length rest then scriptType
           else locking_type_loop (lenType + 1) (drop (cnt + cntsize) rest) (scriptType @ [c]))
        else locking_type_loop (lenType + 1) (drop 1 rest) (scriptType @ [c])
      else scriptType)"
  by pat_completeness auto
termination by (relation "measure (\<lambda>(n, _, _). 32 - n)") auto

declare locking_type_loop.simps [simp del]

definition GetLockingScriptType :: "byte list \<Rightarrow> byte list" where
  "GetLockingScriptType pkScript = locking_type_loop 0 pkScript []"

definition asSmallInt :: "byte \<Rightarrow> nat" where
  "asSmallInt op = (if op = OP_0 then 0 else unat (op - (OP_1 - 1)))"

definition isSmallInt :: "byte \<Rightarrow> bool" where
  "isSmallInt op \<longleftrightarrow> op = OP_0 \<or> (op \<ge> OP_1 \<and> op \<le> OP_16)"

definition isPubkey :: "byte list \<Rightarrow> bool" where
  "isPubkey t \<longleftrightarrow> length t = 2 \<and> (t ! 0 = 33 \<or> t ! 0 = 65) \<and> t ! 1 = OP_CHECKSIG"

definition isPubkeyHash :: "byte list \<Rightarrow> bool" where
  "isPubkeyHash t \<longleftrightarrow> length t = 5 \<and> t ! 0 = OP_DUP \<and> t ! 1 = OP_HASH160 \<and> t ! 2 = OP_DATA_20 \<and>
     t ! 3 = OP_EQUALVERIFY \<and> t ! 4 = OP_CHECKSIG"

definition isPayToAnchor :: "byte list \<Rightarrow> bool" where
  "isPayToAnchor t \<longleftrightarrow> length t = 4 \<and> t ! 0 = OP_1 \<and> t ! 1 = OP_DATA_2 \<and> t ! 2 = 0x4e \<and> t ! 3 = 0x73"

definition isPayToScriptHash :: "byte list \<Rightarrow> bool" where
  "isPayToScriptHash t \<longleftrightarrow> length t = 3 \<and> t ! 0 = OP_HASH160 \<and> t ! 1 = OP_DATA_20 \<and> t ! 2 = OP_EQUAL"

definition isPayToWitnessScriptHash :: "byte list \<Rightarrow> bool" where
  "isPayToWitnessScriptHash t \<longleftrightarrow> length t = 2 \<and> t ! 0 = OP_0 \<and> t ! 1 = OP_DATA_32"

definition isPayToWitnessPubKeyHash :: "byte list \<Rightarrow> bool" where
  "isPayToWitnessPubKeyHash t \<longleftrightarrow> length t = 2 \<and> t ! 0 = OP_0 \<and> t ! 1 = OP_DATA_20"

definition isPayToTaproot :: "byte list \<Rightarrow> bool" where
  "isPayToTaproot t \<longleftrightarrow> length t = 2 \<and> t ! 0 = OP_1 \<and> t ! 1 = OP_DATA_32"

definition isMultiSig :: "byte list \<Rightarrow> bool" where
  "isMultiSig t =
     (let l = length t in
      if l < 4 then False
      else if \<not> isSmallInt (t ! 0) then False
      else if \<not> isSmallInt (t ! (l - 2)) then False
      else if t ! (l - 1) \<noteq> OP_CHECKMULTISIG then False
      else if l - 2 - 1 \<noteq> asSmallInt (t ! (l - 2)) then False
      else list_all (\<lambda>pop. pop = 33 \<or> pop = 65) (take (l - 3) (drop 1 t)))"

definition IsOpreturn :: "byte list \<Rightarrow> bool" where
  "IsOpreturn t \<longleftrightarrow> (length t > 0 \<and> t ! 0 = OP_RETURN) \<or> (length t > 1 \<and> t ! 0 = OP_FALSE \<and> t ! 1 = OP_RETURN)"

definition IsLockingScriptOnlyEqual :: "byte list \<Rightarrow> bool" where
  "IsLockingScriptOnlyEqual pkScript =
     (if length pkScript = 0 then True
      else if pkScript ! (length pkScript - 1) \<noteq> OP_EQUAL then False
      else let (cnt, cntsize) = SafeDecodeVarIntForScript pkScript in length pkScript = cnt + cntsize + 1)"

datatype CodeType = CodeType_NONE | CodeType_P2PK | CodeType_P2PKH | CodeType_P2SH | CodeType_P2WPKH | CodeType_P2WSH
  | CodeType_P2TR | CodeType_P2A

record AddressData =
  ad_HasAddress :: bool
  ad_CodeType :: CodeType
  ad_AddressPkh :: "byte list"

definition no_address :: AddressData where
  "no_address = \<lparr>ad_HasAddress = False, ad_CodeType = CodeType_NONE, ad_AddressPkh = replicate 20 0\<rparr>"

definition has_address :: "CodeType \<Rightarrow> byte list \<Rightarrow> AddressData" where
  "has_address ct pkh = \<lparr>ad_HasAddress = True, ad_CodeType = ct, ad_AddressPkh = copy_at (replicate 20 0) 0 pkh\<rparr>"

text \<open>\<open>None\<close> is the panic of \<^verbatim>\<open>pkScript[3:23]\<close> on a short script.\<close>

definition ExtractPkScriptForTxo :: "(byte list \<Rightarrow> byte list) \<Rightarrow> byte list \<Rightarrow> byte list \<Rightarrow> AddressData option" where
  "ExtractPkScriptForTxo hash160 pkScript t =
     (if length pkScript = 0 then Some no_address
      else if isPubkeyHash t then map_option (has_address CodeType_P2PKH) (slice pkScript 3 23)
      else if isPayToWitnessPubKeyHash t then Some (has_address CodeType_P2WPKH (hash160 pkScript))
      else if isPayToWitnessScriptHash t then Some (has_address CodeType_P2WSH (hash160 pkScript))
      else if isPayToTaproot t then Some (has_address CodeType_P2TR (hash160 pkScript))
      else if isPayToAnchor t then Some (has_address CodeType_P2A (hash160 pkScript))
      else if isPayToScriptHash t then Some (has_address CodeType_P2SH (hash160 pkScript))
      else if isPubkey t then Some (has_address CodeType_P2PK (hash160 pkScript))
      else Some no_address)"

section \<open>Inscription envelopes\<close>

record NFTData =
  IsKeyVerify :: bool
  IsUnrecognizedEven :: bool
  IsDuplicateField :: bool
  IsIncompleteField :: bool
  IsPushnum :: bool
  IsStutter :: bool
  HasPointer :: bool
  HasParent :: bool
  HasDeligate :: bool
  HasMetaProtocal :: bool
  HasMetadata :: bool
  HasContentEncoding :: bool
  Pointer :: u64
  Parents :: "byte list list"
  Deligate :: "byte list"
  MetaProtocol :: "byte list"
  Metadata :: "byte list"
  ContentEncoding :: "byte list"
  ContentType :: "byte list"
  ContentBody :: "byte list"
  TapScriptPk :: "byte list"
  ParentsId :: "string list"

definition new_nft :: "bool \<Rightarrow> byte list \<Rightarrow> bool \<Rightarrow> NFTData" where
  "new_nft stutter tapScriptPk isPubKeyVerify =
     \<lparr>IsKeyVerify = isPubKeyVerify, IsUnrecognizedEven = False, IsDuplicateField = False, IsIncompleteField = False,
      IsPushnum = False, IsStutter = stutter, HasPointer = False, HasParent = False, HasDeligate = False,
      HasMetaProtocal = False, HasMetadata = False, HasContentEncoding = False, Pointer = 0, Parents = [], Deligate = [],
      MetaProtocol = [], Metadata = [], ContentEncoding = [], ContentType = [], ContentBody = [], TapScriptPk = tapScriptPk,
      ParentsId = []\<rparr>"

text \<open>\<^verbatim>\<open>HashString\<close> on 32 bytes.\<close>

definition HashString :: "byte list \<Rightarrow> string" where
  "HashString data = hex_encode (rev (take 32 data))"

definition GetNFTIdFromScript :: "byte list \<Rightarrow> string option" where
  "GetNFTIdFromScript script =
     (let n = length script in
      if n < 32 \<or> n > 36 then None
      else if n > 32 \<and> n < 36 \<and> script ! (n - 1) = 0 then None
      else Some (HashString (take 32 script) @ ''i'' @ FormatUint (le_decode (drop 32 script))))"

definition ORDINALS_TAG_CONTENTTYPE :: byte where "ORDINALS_TAG_CONTENTTYPE = 1"
definition ORDINALS_TAG_POINTER :: byte where "ORDINALS_TAG_POINTER = 2"
definition ORDINALS_TAG_PARENT :: byte where "ORDINALS_TAG_PARENT = 3"
definition ORDINALS_TAG_METADATA :: byte where "ORDINALS_TAG_METADATA = 5"
definition ORDINALS_TAG_METAPROTOCOL :: byte where "ORDINALS_TAG_METAPROTOCOL = 7"
definition ORDINALS_TAG_CONTENTENCODING :: byte where "ORDINALS_TAG_CONTENTENCODING = 9"
definition ORDINALS_TAG_DELEGATE :: byte where "ORDINALS_TAG_DELEGATE = 11"

lemmas tag_defs = ORDINALS_TAG_CONTENTTYPE_def ORDINALS_TAG_POINTER_def ORDINALS_TAG_PARENT_def ORDINALS_TAG_METADATA_def
  ORDINALS_TAG_METAPROTOCOL_def ORDINALS_TAG_CONTENTENCODING_def ORDINALS_TAG_DELEGATE_def


text \<open>The content pushes up to the end of the envelope: what is left, the content so far, whether the
  envelope was closed.\<close>

function body_loop :: "byte list \<Rightarrow> NFTData \<Rightarrow> byte list \<times> NFTData \<times> bool" where
  "body_loop rest nft =
     (if rest = [] then (rest, nft, False)
      else case ExtractPkScript_next rest of (data, sz, op, finish, ok) \<Rightarrow>
        if \<not> ok then (rest, nft, False)
        else if finish then (drop sz rest, nft, True)
        else case data of
          None \<Rightarrow> (drop sz rest, nft, False)
        | Some d \<Rightarrow>
            let nft1 = (if op \<and> \<not> (sz = 1 \<and> length d = 0) then nft\<lparr>IsPushnum := True\<rparr> else nft) in
            body_loop (drop sz rest) (nft1\<lparr>ContentBody := ContentBody nft1 @ d\<rparr>))"
  by pat_completeness auto
termination by (relation "measure (\<lambda>(rest, _). length rest)") (auto dest!: next_decreases)

text \<open>A field that is not the content: \<open>dup\<close> when the tag was seen before.\<close>

definition add_parent :: "byte list \<Rightarrow> NFTData \<Rightarrow> NFTData" where
  "add_parent data nft =
     (case GetNFTIdFromScript data of
        None \<Rightarrow> nft
      | Some nftId \<Rightarrow> nft\<lparr>ParentsId := ParentsId nft @ [nftId], Parents := Parents nft @ [data], HasParent := True\<rparr>)"

definition set_field :: "bool \<Rightarrow> byte \<Rightarrow> byte list \<Rightarrow> NFTData \<Rightarrow> NFTData" where
  "set_field dup tag data nft =
     (if \<not> dup then
        if tag = ORDINALS_TAG_CONTENTTYPE then nft\<lparr>ContentType := data\<rparr>
        else if tag = ORDINALS_TAG_CONTENTENCODING then nft\<lparr>ContentEncoding := data, HasContentEncoding := True\<rparr>
        else if tag = ORDINALS_TAG_DELEGATE then
          (case GetNFTIdFromScript data of None \<Rightarrow> nft | Some _ \<Rightarrow> nft\<lparr>Deligate := data, HasDeligate := True\<rparr>)
        else if tag = ORDINALS_TAG_PARENT then add_parent data nft
        else if tag = ORDINALS_TAG_METADATA then nft\<lparr>Metadata := data, HasMetadata := True\<rparr>
        else if tag = ORDINALS_TAG_METAPROTOCOL then nft\<lparr>MetaProtocol := data, HasMetaProtocal := True\<rparr>
        else if tag = ORDINALS_TAG_POINTER then
          nft\<lparr>Pointer := get_u64 (copy_at (replicate 8 0) 0 data), HasPointer := True\<rparr>
        else nft
      else if tag = ORDINALS_TAG_METADATA then nft\<lparr>Metadata := Metadata nft @ data, HasMetadata := True\<rparr>
      else if tag = ORDINALS_TAG_PARENT then add_parent data nft
      else nft)"

text \<open>The fields of one envelope: what is left, the inscription, whether the envelope was closed.\<close>

function tag_loop :: "byte list \<Rightarrow> byte list list \<Rightarrow> NFTData \<Rightarrow> byte list \<times> NFTData \<times> bool" where
  "tag_loop rest tags nft =
     (if rest = [] then (rest, nft, False)
      else case ExtractPkScript_next rest of (dataTag, sizeTag, opTag, finishTag, okTag) \<Rightarrow>
        if \<not> okTag then (rest, nft, False)
        else let rest1 = drop sizeTag rest in
        if finishTag then (rest1, nft, True)
        else case dataTag of
          None \<Rightarrow> (rest1, nft, False)
        | Some tag \<Rightarrow>
            if length tag = 0 then body_loop rest1 nft
            else
              let nft1 = (if opTag then nft\<lparr>IsPushnum := True\<rparr> else nft);
                  nft2 = (if unat (tag ! 0) mod 2 = 0 \<and> \<not> (length tag = 1 \<and> tag ! 0 = ORDINALS_TAG_POINTER)
                          then nft1\<lparr>IsUnrecognizedEven := True\<rparr> else nft1);
                  isDupTag = (tag \<in> set tags);
                  nft3 = (if isDupTag then nft2\<lparr>IsDuplicateField := True\<rparr> else nft2) in
              case ExtractPkScript_next rest1 of (data, sz, op, finish, ok) \<Rightarrow>
                if \<not> ok then (rest1, nft3, False)
                else let rest2 = drop sz rest1 in
                if finish then (rest2, nft3\<lparr>IsIncompleteField := True\<rparr>, True)
                else case data of
                  None \<Rightarrow> (rest2, nft3, False)
                | Some d \<Rightarrow>
                    let nft4 = (if op \<and> \<not> (sz = 1 \<and> length d = 0) then nft3\<lparr>IsPushnum := True\<rparr> else nft3) in
                    if length tag \<noteq> 1 then tag_loop rest2 (tag # tags) nft4
                    else tag_loop rest2 (tag # tags) (set_field isDupTag (tag ! 0) d nft4))"
  by pat_completeness auto
termination by (relation "measure (\<lambda>(rest, _). length rest)") (auto dest!: next_decreases)

declare body_loop.simps [simp del] tag_loop.simps [simp del]


lemma body_loop_length:
  "body_loop rest nft = (rest', nft', found) \<Longrightarrow> length rest' \<le> length rest"
proof (induction "length rest" arbitrary: rest nft rule: less_induct)
  case less
  obtain data sz op finish ok where nx: "ExtractPkScript_next rest = (data, sz, op, finish, ok)"
    by (cases "ExtractPkScript_next rest")
  show ?case
  proof (cases "rest \<noteq> [] \<and> ok")
    case True
    then have sz: "0 < sz" using nx ExtractPkScript_next_size(1) [of rest] by (simp add: Suc_le_eq)
    have IH: "body_loop (drop k rest) n = (rest', nft', found) \<Longrightarrow> 0 < k \<Longrightarrow> length rest' \<le> length rest" for k n
      using less.hyps [of "drop k rest" n] True by simp
    show ?thesis using less.prems nx True sz
      by (subst (asm) body_loop.simps) (auto simp: Let_def split: if_splits option.splits dest: IH)
  next
    case False
    then have "rest' = rest" using less.prems nx by (subst (asm) body_loop.simps) (auto split: if_splits)
    then show ?thesis by simp
  qed
qed

lemma tag_loop_length:
  "tag_loop rest tags nft = (rest', nft', found) \<Longrightarrow> length rest' \<le> length rest"
proof (induction "length rest" arbitrary: rest tags nft rule: less_induct)
  case less
  obtain tag sz op finish ok where nx: "ExtractPkScript_next rest = (tag, sz, op, finish, ok)"
    by (cases "ExtractPkScript_next rest")
  obtain data sz1 op1 finish1 ok1 where nx1: "ExtractPkScript_next (drop sz rest) = (data, sz1, op1, finish1, ok1)"
    by (cases "ExtractPkScript_next (drop sz rest)")
  show ?case
  proof (cases "rest \<noteq> [] \<and> ok")
    case True
    then have sz: "0 < sz" using nx ExtractPkScript_next_size(1) [of rest] by (simp add: Suc_le_eq)
    have IH: "tag_loop (drop k rest) t n = (rest', nft', found) \<Longrightarrow> 0 < k \<Longrightarrow> length rest' \<le> length rest" for k t n
      using less.hyps [of "drop k rest" t n] True by simp
    have B: "body_loop (drop sz rest) n = (rest', nft', found) \<Longrightarrow> length rest' \<le> length rest" for n
      using body_loop_length [of "drop sz rest" n] by simp
    show ?thesis using less.prems nx nx1 True sz
      by (subst (asm) tag_loop.simps)
        (simp only: Let_def prod.case simp_thms if_False if_True not_not split: if_split_asm option.split_asm,
         auto dest: IH B)
  next
    case False
    then have "rest' = rest" using less.prems nx by (subst (asm) tag_loop.simps) (auto split: if_splits)
    then show ?thesis by simp
  qed
qed

definition ord_magic :: "byte list" where
  "ord_magic = bytes_of_string ''ord''"

function envelope_loop :: "(bool \<Rightarrow> NFTData) \<Rightarrow> byte list \<Rightarrow> byte \<Rightarrow> byte \<Rightarrow> NFTData list \<Rightarrow> NFTData list" where
  "envelope_loop fresh rest prefix0 prefix1 nfts =
     (if rest = [] then nfts
      else let stutter = (prefix0 = OP_FALSE \<or> (prefix1 = OP_FALSE \<and> prefix0 = OP_IF)) in
        case GetOpcodeFormScript rest of (sz, data, isPush, _) \<Rightarrow>
        case data of None \<Rightarrow> nfts | Some d \<Rightarrow>
        let rest1 = drop sz rest in
        if \<not> isPush \<or> length d \<noteq> 0 then envelope_loop fresh rest1 OP_TRUE OP_TRUE nfts
        else if length rest1 < 6 then nfts
        else case GetOpcodeFormScript rest1 of (sz1, data1, isPush1, isOpcode1) \<Rightarrow>
        case data1 of None \<Rightarrow> nfts | Some d1 \<Rightarrow>
        if isPush1 \<or> \<not> isOpcode1 \<or> sz1 \<noteq> 1 \<or> d1 ! 0 \<noteq> OP_IF then envelope_loop fresh rest1 OP_FALSE prefix0 nfts
        else let rest2 = drop sz1 rest1 in
        case GetOpcodeFormScript rest2 of (sz2, data2, isPush2, _) \<Rightarrow>
        case data2 of None \<Rightarrow> nfts | Some d2 \<Rightarrow>
        if \<not> isPush2 \<or> d2 \<noteq> ord_magic then envelope_loop fresh rest2 OP_IF OP_FALSE nfts
        else case tag_loop (drop sz2 rest2) [] (fresh stutter) of (rest3, nft, found) \<Rightarrow>
          envelope_loop fresh rest3 OP_TRUE OP_TRUE (if found then nfts @ [nft] else nfts))"
  by pat_completeness auto
termination
  by (relation "measure (\<lambda>(_, rest, _). length rest)")
    (auto dest!: opcode_decreases tag_loop_length [OF sym])

declare envelope_loop.simps [simp del]

definition ExtractPkScriptForNFTJubilee :: "byte list \<Rightarrow> NFTData list" where
  "ExtractPkScriptForNFTJubilee pkScript =
     (if length pkScript = 0 then []
      else
        let long = (pkScript ! 0 = 32 \<and> length pkScript > 35);
            tapScriptPk = (if long then take 35 pkScript else []);
            isPubKeyVerify =
              (long \<and> pkScript ! 33 = OP_CHECKSIGVERIFY \<and> pkScript ! 34 \<ge> OP_1 \<and> pkScript ! 34 \<le> OP_8) in
        envelope_loop (\<lambda>stutter. new_nft stutter tapScriptPk isPubKeyVerify) pkScript OP_TRUE OP_TRUE [])"


section \<open>Writing an envelope and reading it back\<close>

text \<open>The push of some data as wallets write it: one length byte up to 75, then \<^verbatim>\<open>OP_PUSHDATA1\<close> and
  \<^verbatim>\<open>OP_PUSHDATA2\<close>.\<close>

definition push :: "byte list \<Rightarrow> byte list" where
  "push d =
     (if length d \<le> 75 then word_of_nat (length d) # d
      else if length d < 256 then OP_PUSHDATA1 # word_of_nat (length d) # d
      else OP_PUSHDATA2 # le_encode 2 (length d) @ d)"

lemma GetOpcodeFormScript_push:
  assumes "1 \<le> length d" "length d < 65536"
  shows "GetOpcodeFormScript (push d @ r) = (length (push d), Some d, True, False)"
proof -
  consider "length d \<le> 75" | "75 < length d" "length d < 256" | "256 \<le> length d" by linarith
  then show ?thesis
  proof cases
    case 1
    have "d \<noteq> []" using assms by auto
    have "unat (word_of_nat (length d) :: byte) = length d" using 1 by (simp add: unat_byte_of_nat)
    then have "\<not> OP_16 < (word_of_nat (length d) :: byte)" "\<not> OP_1 \<le> (word_of_nat (length d) :: byte)"
      "(word_of_nat (length d) :: byte) \<noteq> OP_0" "0 < (word_of_nat (length d) :: byte)"
      "(word_of_nat (length d) :: byte) < 0x4f" "(word_of_nat (length d) :: byte) < OP_PUSHDATA1"
      using 1 \<open>d \<noteq> []\<close> by (simp_all add: word_less_nat_alt word_le_nat_alt word_eq_unat_iff op_defs)
    then show ?thesis using 1 assms \<open>unat _ = _\<close>
      by (simp add: push_def GetOpcodeFormScript_def SafeDecodeVarIntForScript_def)
  next
    case 2
    then have "unat (word_of_nat (length d) :: byte) = length d" by (simp add: unat_byte_of_nat)
    then show ?thesis using 2
      by (simp add: push_def GetOpcodeFormScript_def SafeDecodeVarIntForScript_def op_defs)
  next
    case 3
    then have "le_decode (le_encode 2 (length d)) = length d" using assms by (simp add: le_decode_encode)
    then show ?thesis using 3
      by (simp add: push_def GetOpcodeFormScript_def SafeDecodeVarIntForScript_def op_defs del: le_encode.simps)
  qed
qed

lemma next_push:
  assumes "1 \<le> length d" "length d < 65536"
  shows "ExtractPkScript_next (push d @ r) = (Some d, length (push d), False, False, True)"
  by (simp add: ExtractPkScript_next_def GetOpcodeFormScript_push [OF assms])

lemma next_special [simp]:
  "ExtractPkScript_next (OP_ENDIF # r) = (None, 1, True, True, True)"
  "ExtractPkScript_next (OP_0 # r) = (Some [], 1, True, False, True)"
  by (simp_all add: ExtractPkScript_next_def GetOpcodeFormScript_def op_defs)

lemma push_ne [simp]: "push d \<noteq> []"
  by (simp add: push_def)

definition chunk_ok :: "byte list \<Rightarrow> bool" where
  "chunk_ok d \<longleftrightarrow> 1 \<le> length d \<and> length d \<le> 520"

lemma body_loop_pushes:
  "list_all chunk_ok chunks \<Longrightarrow>
     body_loop (concat (map push chunks) @ OP_ENDIF # r) nft = (r, nft\<lparr>ContentBody := ContentBody nft @ concat chunks\<rparr>, True)"
proof (induction chunks arbitrary: nft)
  case Nil
  show ?case by (subst body_loop.simps) simp
next
  case (Cons d chunks)
  then have "1 \<le> length d" "length d < 65536" by (simp_all add: chunk_ok_def)
  from next_push [OF this] Cons show ?case by (subst body_loop.simps) simp
qed

definition envelope :: "byte list \<Rightarrow> byte list list \<Rightarrow> byte list" where
  "envelope contentType chunks =
     [OP_FALSE, OP_IF] @ push ord_magic @ push [ORDINALS_TAG_CONTENTTYPE] @ push contentType @ [OP_0] @
     concat (map push chunks) @ [OP_ENDIF]"

text \<open>The reveal script of an operation: the actor's key, \<^verbatim>\<open>OP_CHECKSIGVERIFY\<close>, the address type as
  \<^verbatim>\<open>OP_1\<close> to \<^verbatim>\<open>OP_8\<close>, and the envelope.\<close>

definition reveal_script :: "byte list \<Rightarrow> nat \<Rightarrow> byte list \<Rightarrow> byte list list \<Rightarrow> byte list" where
  "reveal_script pk code contentType chunks =
     push pk @ [OP_CHECKSIGVERIFY, word_of_nat (0x50 + code)] @ envelope contentType chunks"


lemma envelope_loop_skip:
  assumes "GetOpcodeFormScript rest = (sz, Some d, isPush, isOpcode)" "\<not> isPush \<or> d \<noteq> []"
  shows "envelope_loop fresh rest a b nfts = envelope_loop fresh (drop sz rest) OP_TRUE OP_TRUE nfts"
proof -
  have "rest \<noteq> []" using assms(1) by (auto simp: GetOpcodeFormScript_def)
  with assms show ?thesis by (subst envelope_loop.simps) (auto simp: Let_def)
qed

lemma envelope_loop_hit:
  assumes "GetOpcodeFormScript rest = (sz, Some [], True, isOpcode)" "drop sz rest = rest1" "\<not> length rest1 < 6"
    "GetOpcodeFormScript rest1 = (1, Some [OP_IF], False, True)"
    "drop 1 rest1 = rest2" "GetOpcodeFormScript rest2 = (sz2, Some ord_magic, True, isOpcode2)"
    "tag_loop (drop sz2 rest2) [] (fresh (a = OP_FALSE \<or> (b = OP_FALSE \<and> a = OP_IF))) = (rest3, nft, found)"
  shows "envelope_loop fresh rest a b nfts = envelope_loop fresh rest3 OP_TRUE OP_TRUE (if found then nfts @ [nft] else nfts)"
proof -
  have "rest \<noteq> []" using assms(1) by (auto simp: GetOpcodeFormScript_def)
  then show ?thesis by (subst envelope_loop.simps) (simp add: assms [unfolded One_nat_def] Let_def)
qed

lemma tag_loop_fields:
  assumes "chunk_ok contentType" "list_all chunk_ok chunks"
  shows "tag_loop (push [ORDINALS_TAG_CONTENTTYPE] @ push contentType @ OP_0 # concat (map push chunks) @ OP_ENDIF # r) [] nft =
    (r, nft\<lparr>ContentType := contentType, ContentBody := ContentBody nft @ concat chunks\<rparr>, True)"
proof -
  let ?tail = "OP_0 # concat (map push chunks) @ OP_ENDIF # r"
  have t: "ExtractPkScript_next (push contentType @ ?tail) = (Some contentType, length (push contentType), False, False, True)"
    using assms(1) by (intro next_push) (auto simp: chunk_ok_def)
  have n: "ExtractPkScript_next (push [ORDINALS_TAG_CONTENTTYPE] @ push contentType @ ?tail) =
      (Some [ORDINALS_TAG_CONTENTTYPE], length (push [ORDINALS_TAG_CONTENTTYPE]), False, False, True)"
    by (intro next_push) simp_all
  have b: "tag_loop ?tail tags n1 = (r, n1\<lparr>ContentBody := ContentBody n1 @ concat chunks\<rparr>, True)" for tags n1
    by (subst tag_loop.simps) (simp add: Let_def body_loop_pushes [OF assms(2)])
  have "unat ORDINALS_TAG_CONTENTTYPE mod 2 = 1" "set_field False ORDINALS_TAG_CONTENTTYPE d n1 = n1\<lparr>ContentType := d\<rparr>" for d n1
    by (simp_all add: set_field_def tag_defs)
  then show ?thesis
    by (subst tag_loop.simps) (simp add: n t b Let_def)
qed

lemma envelope_loop_envelope:
  assumes "chunk_ok contentType" "list_all chunk_ok chunks" "\<And>st. ContentBody (fresh st) = []"
  shows "envelope_loop fresh (envelope contentType chunks @ r) OP_TRUE OP_TRUE nfts =
    envelope_loop fresh r OP_TRUE OP_TRUE (nfts @ [(fresh False)\<lparr>ContentType := contentType, ContentBody := concat chunks\<rparr>])"
proof -
  let ?in = "push [ORDINALS_TAG_CONTENTTYPE] @ push contentType @ OP_0 # concat (map push chunks) @ OP_ENDIF # r"
  have l: "1 \<le> length (push contentType)" by (simp add: Suc_le_eq)
  have o: "push ord_magic = [3, 0x6f, 0x72, 0x64]" by (simp add: push_def ord_magic_def bytes_of_string_def)
  have m: "GetOpcodeFormScript (push ord_magic @ ?in) = (length (push ord_magic), Some ord_magic, True, False)"
    by (intro GetOpcodeFormScript_push) (simp_all add: ord_magic_def)
  have i: "GetOpcodeFormScript (OP_IF # push ord_magic @ ?in) = (1, Some [OP_IF], False, True)"
    and z: "GetOpcodeFormScript (OP_FALSE # OP_IF # push ord_magic @ ?in) = (1, Some [], True, True)"
    by (simp_all add: GetOpcodeFormScript_def op_defs)
  have len: "\<not> length (OP_IF # push ord_magic @ ?in) < 6" using o by simp
  have st: "(OP_TRUE = OP_FALSE \<or> (OP_TRUE = OP_FALSE \<and> OP_TRUE = OP_IF)) = False" by (simp add: op_defs)
  have "tag_loop ?in [] (fresh (OP_TRUE = OP_FALSE \<or> (OP_TRUE = OP_FALSE \<and> OP_TRUE = OP_IF))) =
      (r, (fresh False)\<lparr>ContentType := contentType, ContentBody := concat chunks\<rparr>, True)"
    unfolding st by (simp add: tag_loop_fields [OF assms(1,2)] assms(3))
  then have "tag_loop (drop (length (push ord_magic)) (push ord_magic @ ?in)) []
      (fresh (OP_TRUE = OP_FALSE \<or> (OP_TRUE = OP_FALSE \<and> OP_TRUE = OP_IF))) =
      (r, (fresh False)\<lparr>ContentType := contentType, ContentBody := concat chunks\<rparr>, True)" by simp
  from envelope_loop_hit [where fresh = fresh and a = OP_TRUE and b = OP_TRUE and nfts = nfts, OF z _ len i _ m this]
  have "envelope_loop fresh (OP_FALSE # OP_IF # push ord_magic @ ?in) OP_TRUE OP_TRUE nfts =
    envelope_loop fresh r OP_TRUE OP_TRUE (nfts @ [(fresh False)\<lparr>ContentType := contentType, ContentBody := concat chunks\<rparr>])"
    by simp
  then show ?thesis by (simp add: envelope_def)
qed

lemma Jubilee_reveal_script:
  assumes "length pk = 32" "1 \<le> code" "code \<le> 8" "chunk_ok contentType" "list_all chunk_ok chunks"
  shows "ExtractPkScriptForNFTJubilee (reveal_script pk code contentType chunks) =
    [(new_nft False (take 35 (reveal_script pk code contentType chunks)) True)\<lparr>ContentType := contentType,
      ContentBody := concat chunks\<rparr>]"
proof -
  let ?s = "reveal_script pk code contentType chunks"
  define c where "c = (word_of_nat (0x50 + code) :: byte)"
  let ?e = "envelope contentType chunks"
  have u: "unat c = 0x50 + code" unfolding c_def using assms(3) by (subst unat_byte_of_nat) simp
  then have c: "OP_1 \<le> c" "c \<le> OP_8" "\<not> OP_16 < c"
    using assms(2,3) by (simp_all add: word_le_nat_alt word_less_nat_alt op_defs)
  have p: "push pk = 32 # pk" using assms(1) by (simp add: push_def)
  have s: "?s = 32 # pk @ OP_CHECKSIGVERIFY # c # ?e" by (simp add: reveal_script_def p c_def)
  have e: "?e \<noteq> []" by (simp add: envelope_def)
  have h: "?s \<noteq> []" "?s ! 0 = 32" "length ?s > 35" "?s ! 33 = OP_CHECKSIGVERIFY" "?s ! 34 = c"
    using assms(1) e by (simp_all add: s nth_Cons' nth_append)
  let ?f = "\<lambda>stutter. new_nft stutter (take 35 ?s) True"
  have "ExtractPkScriptForNFTJubilee ?s = envelope_loop ?f ?s OP_TRUE OP_TRUE []"
    using h c by (simp add: ExtractPkScriptForNFTJubilee_def)
  also have "\<dots> = envelope_loop ?f (OP_CHECKSIGVERIFY # c # ?e) OP_TRUE OP_TRUE []"
  proof -
    have "GetOpcodeFormScript ?s = (length (push pk), Some pk, True, False)"
      unfolding reveal_script_def using assms(1) by (intro GetOpcodeFormScript_push) simp_all
    moreover have "pk \<noteq> []" using assms(1) by auto
    moreover have "drop (length (push pk)) ?s = OP_CHECKSIGVERIFY # c # ?e" by (simp add: reveal_script_def c_def)
    ultimately show ?thesis using envelope_loop_skip [of ?s "length (push pk)" pk True False ?f OP_TRUE OP_TRUE "[]"] by simp
  qed
  also have "\<dots> = envelope_loop ?f (c # ?e) OP_TRUE OP_TRUE []"
    by (subst envelope_loop_skip [of _ 1 "[OP_CHECKSIGVERIFY]" False True]) (simp_all add: GetOpcodeFormScript_def op_defs)
  also have "\<dots> = envelope_loop ?f ?e OP_TRUE OP_TRUE []"
    using c by (subst envelope_loop_skip [of _ 1 "[c - OP_1 + 1]" True True]) (simp_all add: GetOpcodeFormScript_def)
  also have "\<dots> = envelope_loop ?f [] OP_TRUE OP_TRUE [(?f False)\<lparr>ContentType := contentType, ContentBody := concat chunks\<rparr>]"
    using envelope_loop_envelope [OF assms(4,5), of ?f "[]" "[]"] by (simp add: new_nft_def)
  also have "\<dots> = [(?f False)\<lparr>ContentType := contentType, ContentBody := concat chunks\<rparr>]"
    by (subst envelope_loop.simps) simp
  finally show ?thesis .
qed


text \<open>C28. Envelopes round-trip: from the reveal script of an operation (the actor's key, the address type, and
  one envelope with a content type and the content cut into pushes of at most 520 bytes) the decoder extracts
  exactly one inscription, with that content type, the concatenation of the chunks as its content, the key
  recognised, and none of the flags that make the parser reject it.\<close>

theorem reveal_script_roundtrip:
  assumes "length pk = 32" "1 \<le> code" "code \<le> 8" "chunk_ok contentType" "list_all chunk_ok chunks"
  shows "\<exists>nft. ExtractPkScriptForNFTJubilee (reveal_script pk code contentType chunks) = [nft] \<and>
    ContentType nft = contentType \<and> ContentBody nft = concat chunks \<and> IsKeyVerify nft \<and>
    \<not> IsUnrecognizedEven nft \<and> \<not> IsDuplicateField nft \<and> \<not> IsIncompleteField nft \<and> \<not> IsPushnum nft \<and> \<not> IsStutter nft"
  unfolding Jubilee_reveal_script [OF assms] by (simp add: new_nft_def)

theorem reveal_script_roundtrip_witness:
  "\<exists>nft. ExtractPkScriptForNFTJubilee (reveal_script (replicate 32 7) 1 [0x74, 0x78] [[1, 2], [3]]) = [nft] \<and>
    ContentType nft = [0x74, 0x78] \<and> ContentBody nft = [1, 2, 3]"
  using reveal_script_roundtrip [of "replicate 32 7" 1 "[0x74, 0x78]" "[[1, 2], [3]]"] by (auto simp: chunk_ok_def)

section \<open>Classification of locking scripts\<close>

lemma locking_op:
  assumes "\<not> (0 < c \<and> c < 0x4f)" "n < 32"
  shows "locking_type_loop n (c # r) t = locking_type_loop (n + 1) r (t @ [c])"
  using assms by (subst locking_type_loop.simps) (auto simp: Let_def)

lemma locking_push:
  assumes "unat c = length d" "1 \<le> length d" "length d \<le> 75" "n < 32"
  shows "locking_type_loop n (c # d @ r) t = locking_type_loop (n + 1) r (t @ [c])"
proof -
  have "d \<noteq> []" using assms(2) by auto
  then have "0 < c \<and> c < 0x4f" "c < OP_PUSHDATA1" using assms by (simp_all add: word_less_nat_alt op_defs)
  then show ?thesis using assms
    by (subst locking_type_loop.simps) (simp add: SafeDecodeVarIntForScript_def)
qed

lemma locking_end [simp]: "locking_type_loop n [] t = t"
  by (subst locking_type_loop.simps) simp

definition p2pkh_script :: "byte list \<Rightarrow> byte list" where
  "p2pkh_script h = [OP_DUP, OP_HASH160, OP_DATA_20] @ h @ [OP_EQUALVERIFY, OP_CHECKSIG]"

definition p2sh_script :: "byte list \<Rightarrow> byte list" where
  "p2sh_script h = [OP_HASH160, OP_DATA_20] @ h @ [OP_EQUAL]"

definition witness_script :: "byte \<Rightarrow> byte list \<Rightarrow> byte list" where
  "witness_script version prog = [version, word_of_nat (length prog)] @ prog"

lemma type_p2pkh: "length h = 20 \<Longrightarrow>
  GetLockingScriptType (p2pkh_script h) = [OP_DUP, OP_HASH160, OP_DATA_20, OP_EQUALVERIFY, OP_CHECKSIG]"
  by (simp add: GetLockingScriptType_def p2pkh_script_def locking_op locking_push op_defs)

lemma type_p2sh: "length h = 20 \<Longrightarrow> GetLockingScriptType (p2sh_script h) = [OP_HASH160, OP_DATA_20, OP_EQUAL]"
  by (simp add: GetLockingScriptType_def p2sh_script_def locking_op locking_push op_defs)

lemma type_witness:
  assumes "2 \<le> length prog" "length prog \<le> 40" "version = OP_0 \<or> version = OP_1"
  shows "GetLockingScriptType (witness_script version prog) = [version, word_of_nat (length prog)]"
proof -
  have "unat (word_of_nat (length prog) :: byte) = length prog" using assms(2) by (simp add: unat_byte_of_nat)
  with locking_push [of "word_of_nat (length prog)" prog 1 "[]" "[version]"] assms
  have "locking_type_loop 1 (word_of_nat (length prog) # prog) [version] = [version, word_of_nat (length prog)]" by simp
  moreover have "locking_type_loop 0 (version # r) [] = locking_type_loop 1 r [version]" for r
    using assms(3) locking_op [of version 0 r "[]"] by (auto simp: op_defs)
  ultimately show ?thesis by (simp add: GetLockingScriptType_def witness_script_def)
qed


lemma locking_type_loop_prefix: "\<exists>s. locking_type_loop n rest t = t @ s"
proof (induction n rest t rule: locking_type_loop.induct)
  case (1 n rest t)
  show ?case
  proof (cases "rest \<noteq> [] \<and> n < 32")
    case True
    show ?thesis
    proof (cases "0 < rest ! 0 \<and> rest ! 0 < 0x4f")
      case push: True
      obtain cnt cntsize where v: "SafeDecodeVarIntForScript rest = (cnt, cntsize)" by (cases "SafeDecodeVarIntForScript rest")
      show ?thesis
      proof (cases "cnt + cntsize > length rest")
        case False
        with 1(1) [of "rest ! 0" "(cnt, cntsize)" cnt cntsize] True push v obtain s where
          "locking_type_loop (n + 1) (drop (cnt + cntsize) rest) (t @ [rest ! 0]) = t @ rest ! 0 # s" by auto
        with True push v False show ?thesis by (subst locking_type_loop.simps) (auto simp: Let_def)
      qed (use True push v in \<open>subst locking_type_loop.simps, auto simp: Let_def\<close>)
    next
      case False
      with 1(2) True obtain s where "locking_type_loop (n + 1) (drop 1 rest) (t @ [rest ! 0]) = t @ rest ! 0 # s" by auto
      with True False show ?thesis by (subst locking_type_loop.simps) (auto simp: Let_def)
    qed
  qed (subst locking_type_loop.simps, auto)
qed

lemma locking_type_loop_inv:
  assumes "locking_type_loop n rest t = t @ c # s"
  shows "\<exists>k. 1 \<le> length rest \<and> rest ! 0 = c \<and> k \<le> length rest \<and>
    (if 0 < c \<and> c < 0x4f then k = fst (SafeDecodeVarIntForScript rest) + snd (SafeDecodeVarIntForScript rest) else k = 1) \<and>
    locking_type_loop (n + 1) (drop k rest) (t @ [c]) = (t @ [c]) @ s"
proof -
  have ne: "rest \<noteq> []" "n < 32" using assms by (subst (asm) locking_type_loop.simps, simp split: if_splits)+
  obtain cnt cntsize where v: "SafeDecodeVarIntForScript rest = (cnt, cntsize)" by (cases "SafeDecodeVarIntForScript rest")
  define k where "k = (if 0 < rest ! 0 \<and> rest ! 0 < 0x4f then cnt + cntsize else 1)"
  have eq: "k \<le> length rest" "locking_type_loop (n + 1) (drop k rest) (t @ [rest ! 0]) = t @ c # s"
    using assms ne v by (subst (asm) locking_type_loop.simps, auto simp: k_def Let_def Suc_le_eq split: if_splits)+
  moreover obtain s' where "locking_type_loop (n + 1) (drop k rest) (t @ [rest ! 0]) = (t @ [rest ! 0]) @ s'"
    using locking_type_loop_prefix by blast
  ultimately have "rest ! 0 = c" by simp
  with eq ne v show ?thesis by (intro exI [of _ k]) (auto simp: k_def Suc_le_eq)
qed

text \<open>A template that looks like pay-to-pubkey-hash comes from a script that has the twenty bytes.\<close>

lemma isPubkeyHash_length:
  assumes "isPubkeyHash (GetLockingScriptType pk)"
  shows "23 \<le> length pk"
proof -
  have "GetLockingScriptType pk = [OP_DUP, OP_HASH160, OP_DATA_20, OP_EQUALVERIFY, OP_CHECKSIG]" (is "_ = ?t")
    using assms by (intro nth_equalityI) (auto simp: isPubkeyHash_def less_Suc_eq numeral_eq_Suc)
  then have "locking_type_loop 0 pk [] = [] @ OP_DUP # [OP_HASH160, OP_DATA_20, OP_EQUALVERIFY, OP_CHECKSIG]"
    by (simp add: GetLockingScriptType_def)
  from locking_type_loop_inv [OF this] obtain p1 where p1: "1 \<le> length pk" "drop 1 pk = p1"
    "locking_type_loop 1 p1 [OP_DUP] = [OP_DUP] @ OP_HASH160 # [OP_DATA_20, OP_EQUALVERIFY, OP_CHECKSIG]"
    by (auto simp: op_defs)
  from locking_type_loop_inv [OF p1(3)] obtain p2 where p2: "1 \<le> length p1" "drop 1 p1 = p2"
    "locking_type_loop (1 + 1) p2 [OP_DUP, OP_HASH160] = [OP_DUP, OP_HASH160] @ OP_DATA_20 # [OP_EQUALVERIFY, OP_CHECKSIG]"
    by (auto simp: op_defs)
  from locking_type_loop_inv [OF p2(3)] have "21 \<le> length p2"
    by (auto simp: op_defs SafeDecodeVarIntForScript_def split: if_splits)
  with p1(1,2) p2(1,2) show ?thesis by auto
qed

lemma txo_standard:
  assumes "length h = 20" "length w = 32" "\<And>s. length (hash160 s) = 20"
  shows "\<forall>pk. ExtractPkScriptForTxo hash160 pk (GetLockingScriptType pk) \<noteq> None"
    "ExtractPkScriptForTxo hash160 (p2pkh_script h) (GetLockingScriptType (p2pkh_script h)) =
       Some \<lparr>ad_HasAddress = True, ad_CodeType = CodeType_P2PKH, ad_AddressPkh = h\<rparr>"
    "ExtractPkScriptForTxo hash160 (p2sh_script h) (GetLockingScriptType (p2sh_script h)) =
       Some \<lparr>ad_HasAddress = True, ad_CodeType = CodeType_P2SH, ad_AddressPkh = hash160 (p2sh_script h)\<rparr>"
    "ExtractPkScriptForTxo hash160 (witness_script OP_0 h) (GetLockingScriptType (witness_script OP_0 h)) =
       Some \<lparr>ad_HasAddress = True, ad_CodeType = CodeType_P2WPKH, ad_AddressPkh = hash160 (witness_script OP_0 h)\<rparr>"
    "ExtractPkScriptForTxo hash160 (witness_script OP_0 w) (GetLockingScriptType (witness_script OP_0 w)) =
       Some \<lparr>ad_HasAddress = True, ad_CodeType = CodeType_P2WSH, ad_AddressPkh = hash160 (witness_script OP_0 w)\<rparr>"
    "ExtractPkScriptForTxo hash160 (witness_script OP_1 w) (GetLockingScriptType (witness_script OP_1 w)) =
       Some \<lparr>ad_HasAddress = True, ad_CodeType = CodeType_P2TR, ad_AddressPkh = hash160 (witness_script OP_1 w)\<rparr>"
proof -
  have cp: "copy_at (replicate 20 0) 0 x = x" if "length x = 20" for x :: "byte list"
    using that by (simp add: copy_at_def)
  show "\<forall>pk. ExtractPkScriptForTxo hash160 pk (GetLockingScriptType pk) \<noteq> None"
    using isPubkeyHash_length by (auto simp: ExtractPkScriptForTxo_def slice_def)
  show "ExtractPkScriptForTxo hash160 (p2pkh_script h) (GetLockingScriptType (p2pkh_script h)) =
       Some \<lparr>ad_HasAddress = True, ad_CodeType = CodeType_P2PKH, ad_AddressPkh = h\<rparr>"
    using assms(1) unfolding type_p2pkh [OF assms(1)]
    by (simp add: ExtractPkScriptForTxo_def isPubkeyHash_def p2pkh_script_def slice_def has_address_def cp)
  show "ExtractPkScriptForTxo hash160 (p2sh_script h) (GetLockingScriptType (p2sh_script h)) =
       Some \<lparr>ad_HasAddress = True, ad_CodeType = CodeType_P2SH, ad_AddressPkh = hash160 (p2sh_script h)\<rparr>"
    unfolding type_p2sh [OF assms(1)] using assms(3)
    by (simp add: ExtractPkScriptForTxo_def isPubkeyHash_def isPayToWitnessPubKeyHash_def isPayToWitnessScriptHash_def
        isPayToTaproot_def isPayToAnchor_def isPayToScriptHash_def p2sh_script_def has_address_def cp)
  show "ExtractPkScriptForTxo hash160 (witness_script OP_0 h) (GetLockingScriptType (witness_script OP_0 h)) =
       Some \<lparr>ad_HasAddress = True, ad_CodeType = CodeType_P2WPKH, ad_AddressPkh = hash160 (witness_script OP_0 h)\<rparr>"
    using assms(1,3) type_witness [of h OP_0]
    by (simp add: ExtractPkScriptForTxo_def isPubkeyHash_def isPayToWitnessPubKeyHash_def witness_script_def has_address_def
        cp op_defs)
  show "ExtractPkScriptForTxo hash160 (witness_script OP_0 w) (GetLockingScriptType (witness_script OP_0 w)) =
       Some \<lparr>ad_HasAddress = True, ad_CodeType = CodeType_P2WSH, ad_AddressPkh = hash160 (witness_script OP_0 w)\<rparr>"
    using assms(2,3) type_witness [of w OP_0]
    by (simp add: ExtractPkScriptForTxo_def isPubkeyHash_def isPayToWitnessPubKeyHash_def isPayToWitnessScriptHash_def
        witness_script_def has_address_def cp op_defs)
  show "ExtractPkScriptForTxo hash160 (witness_script OP_1 w) (GetLockingScriptType (witness_script OP_1 w)) =
       Some \<lparr>ad_HasAddress = True, ad_CodeType = CodeType_P2TR, ad_AddressPkh = hash160 (witness_script OP_1 w)\<rparr>"
    using assms(2,3) type_witness [of w OP_1]
    by (simp add: ExtractPkScriptForTxo_def isPubkeyHash_def isPayToWitnessPubKeyHash_def isPayToWitnessScriptHash_def
        isPayToTaproot_def witness_script_def has_address_def cp op_defs)
qed


text \<open>The classification is total and right on standard scripts: for every locking script, classifying it by
  its own template never panics; pay-to-pubkey-hash yields its twenty-byte hash, and pay-to-script-hash, the
  version 0 programs of 20 and 32 bytes and the version 1 program of 32 bytes get their codes with the hash of
  the script.\<close>

theorem ExtractPkScriptForTxo_standard:
  assumes "length h = 20" "length w = 32" "\<And>s. length (hash160 s) = 20"
  shows "(\<forall>pk. ExtractPkScriptForTxo hash160 pk (GetLockingScriptType pk) \<noteq> None) \<and>
    ExtractPkScriptForTxo hash160 (p2pkh_script h) (GetLockingScriptType (p2pkh_script h)) =
       Some \<lparr>ad_HasAddress = True, ad_CodeType = CodeType_P2PKH, ad_AddressPkh = h\<rparr> \<and>
    ExtractPkScriptForTxo hash160 (p2sh_script h) (GetLockingScriptType (p2sh_script h)) =
       Some \<lparr>ad_HasAddress = True, ad_CodeType = CodeType_P2SH, ad_AddressPkh = hash160 (p2sh_script h)\<rparr> \<and>
    ExtractPkScriptForTxo hash160 (witness_script OP_0 h) (GetLockingScriptType (witness_script OP_0 h)) =
       Some \<lparr>ad_HasAddress = True, ad_CodeType = CodeType_P2WPKH, ad_AddressPkh = hash160 (witness_script OP_0 h)\<rparr> \<and>
    ExtractPkScriptForTxo hash160 (witness_script OP_0 w) (GetLockingScriptType (witness_script OP_0 w)) =
       Some \<lparr>ad_HasAddress = True, ad_CodeType = CodeType_P2WSH, ad_AddressPkh = hash160 (witness_script OP_0 w)\<rparr> \<and>
    ExtractPkScriptForTxo hash160 (witness_script OP_1 w) (GetLockingScriptType (witness_script OP_1 w)) =
       Some \<lparr>ad_HasAddress = True, ad_CodeType = CodeType_P2TR, ad_AddressPkh = hash160 (witness_script OP_1 w)\<rparr>"
  by (intro conjI) (rule txo_standard [OF assms])+

theorem ExtractPkScriptForTxo_standard_witness:
  "ExtractPkScriptForTxo (\<lambda>_. replicate 20 9) (p2pkh_script (replicate 20 1)) (GetLockingScriptType (p2pkh_script (replicate 20 1))) =
    Some \<lparr>ad_HasAddress = True, ad_CodeType = CodeType_P2PKH, ad_AddressPkh = replicate 20 1\<rparr> \<and>
   (\<forall>pk. ExtractPkScriptForTxo (\<lambda>_. replicate 20 9) pk (GetLockingScriptType pk) \<noteq> None)"
proof -
  have "length (replicate 20 (1 :: byte)) = 20" "length (replicate 32 (2 :: byte)) = 32"
    "\<And>s :: byte list. length (replicate 20 (9 :: byte)) = 20" by simp_all
  from ExtractPkScriptForTxo_standard [of "replicate 20 1" "replicate 32 2" "\<lambda>_. replicate 20 9", OF this] show ?thesis by simp
qed

text \<open>The anchor script is not recognised: the template of the pay-to-anchor script \<^verbatim>\<open>OP_1 <4e73>\<close> leaves
  the two data bytes out, while the test for it looks for them in the template, so it is classified as having no
  address.\<close>

theorem anchor_script_not_recognised:
  "GetLockingScriptType [OP_1, OP_DATA_2, 0x4e, 0x73] = [OP_1, OP_DATA_2] \<and>
   \<not> isPayToAnchor (GetLockingScriptType [OP_1, OP_DATA_2, 0x4e, 0x73]) \<and>
   ExtractPkScriptForTxo hash160 [OP_1, OP_DATA_2, 0x4e, 0x73] (GetLockingScriptType [OP_1, OP_DATA_2, 0x4e, 0x73]) =
     Some no_address"
proof -
  have "GetLockingScriptType [OP_1, OP_DATA_2, 0x4e, 0x73] = [OP_1, OP_DATA_2]"
    using type_witness [of "[0x4e, 0x73]" OP_1] by (simp add: witness_script_def op_defs)
  then show ?thesis
    by (simp add: ExtractPkScriptForTxo_def isPayToAnchor_def isPubkeyHash_def isPayToWitnessPubKeyHash_def
        isPayToWitnessScriptHash_def isPayToTaproot_def isPayToScriptHash_def isPubkey_def op_defs)
qed

end
