(* ===== verification/BlockModel.thy ===== *)
theory BlockModel
  imports Script Sha256
begin

text \<open>
  Blocks and transactions: the records of \<^verbatim>\<open>model/model.go\<close>, the variable-length integers of
  \<^verbatim>\<open>utils/utils.go\<close>, the parser of \<^verbatim>\<open>internal/parser/node\<close> and the stored form of an unspent output
  (\<^verbatim>\<open>TxoData.Marshal\<close> and \<^verbatim>\<open>Unmarshal\<close>). Every parser returns what it read and how many bytes it
  took; \<open>None\<close> is the panic of an index or slice out of range. Offsets are Go's 64-bit \<^verbatim>\<open>uint\<close>, with
  the wrap-around of a sum written out. The pointers in \<^verbatim>\<open>TxIns\<close> and \<^verbatim>\<open>TxOuts\<close> are never nil: the
  parser fills every entry.
\<close>

section \<open>Records\<close>

record TxIn =
  ti_InputHashHex :: string
  ti_InputHash :: "byte list"
  ti_InputVout :: u32
  ti_ScriptSig :: "byte list"
  ti_Sequence :: u32
  ti_ScriptWitness :: "byte list"
  ti_InputOutpointKey :: string
  ti_InputOutpoint :: "byte list"

record TxOut =
  to_Satoshi :: u64
  to_PkScript :: "byte list"

record Tx =
  mt_Raw :: "byte list"
  mt_TxIdHex :: string
  mt_TxId :: "byte list"
  mt_Size :: u32
  mt_WitOffset :: u32
  mt_LockTime :: u32
  mt_Version :: u32
  mt_TxInCnt :: u32
  mt_TxOutCnt :: u32
  mt_TxIns :: "TxIn list"
  mt_TxOuts :: "TxOut list"

record TxoData =
  td_BlockHeight :: u32
  td_TxIdx :: u32
  td_Satoshi :: u64
  td_PkScript :: "byte list"

text \<open>The sets and maps a block collects while it is processed; a Go set is the list of its members, balances
  are \<^verbatim>\<open>int64\<close>.\<close>

record ProcessBlock =
  pb_Height :: u32
  pb_SpentUtxoKeysMap :: "string list"
  pb_SpentUtxoDataMap :: "(string, TxoData) gomap"
  pb_NewUtxoDataMap :: "(string, TxoData) gomap"
  pb_AddressBalanceDeltaMap :: "(string, int) gomap"

record Block =
  mb_Raw :: "byte list"
  mb_Hash :: "byte list"
  mb_HashHex :: string
  mb_Height :: u32
  mb_Txs :: "Tx list"
  mb_Version :: u32
  mb_MerkleRoot :: "byte list"
  mb_BlockTime :: u32
  mb_Bits :: u32
  mb_Nonce :: u32
  mb_Size :: u32
  mb_TxCnt :: u32
  mb_Parent :: "byte list"
  mb_ParentHex :: string
  mb_ParseData :: "ProcessBlock option"

section \<open>Variable-length integers and hashes\<close>

definition uadd :: "nat \<Rightarrow> nat \<Rightarrow> nat" where
  "uadd a b = (a + b) mod 2 ^ 64"

definition DecodeVarIntForBlock :: "byte list \<Rightarrow> (nat \<times> nat) option" where
  "DecodeVarIntForBlock raw =
     (case index raw 0 of
        None \<Rightarrow> None
      | Some b \<Rightarrow>
          if b < 0xfd then Some (unat b, 1)
          else if b = 0xfd then map_option (\<lambda>bs. (le_decode bs, 3)) (slice raw 1 3)
          else if b = 0xfe then map_option (\<lambda>bs. (le_decode bs, 5)) (slice raw 1 5)
          else map_option (\<lambda>bs. (le_decode bs, 9)) (slice raw 1 9))"

text \<open>The bytes \<^verbatim>\<open>EncodeVarIntForBlock\<close> writes; the result of the Go function is their number.\<close>

definition EncodeVarIntForBlock :: "u64 \<Rightarrow> byte list" where
  "EncodeVarIntForBlock cnt =
     (if cnt < 0xfd then [word_of_nat (unat cnt)]
      else if cnt \<le> 0xffff then 0xfd # le_encode 2 (unat cnt)
      else if cnt \<le> 0xffffffff then 0xfe # le_encode 4 (unat cnt)
      else 0xff # le_encode 8 (unat cnt))"

definition GetHash256 :: "byte list \<Rightarrow> byte list" where
  "GetHash256 data = Sum256 (Sum256 data)"

definition GetWitnessHash256 :: "byte list \<Rightarrow> u32 \<Rightarrow> byte list option" where
  "GetWitnessHash256 data witOffset =
     (case (slice data 0 4, slice data 6 (unat witOffset), if 4 \<le> length data then slice_from data (length data - 4) else None) of
        (Some a, Some b, Some c) \<Rightarrow> Some (Sum256 (Sum256 (a @ b @ c)))
      | _ \<Rightarrow> None)"

section \<open>Transactions\<close>

text \<open>A counted loop of parsers over the suffix that is left.\<close>

fun parse_n :: "(byte list \<Rightarrow> ('a \<times> nat) option) \<Rightarrow> nat \<Rightarrow> byte list \<Rightarrow> nat \<Rightarrow> ('a list \<times> nat) option" where
  "parse_n p 0 raw offset = Some ([], offset)"
| "parse_n p (Suc n) raw offset =
     (case slice_from raw offset of
        None \<Rightarrow> None
      | Some rest \<Rightarrow>
          (case p rest of
             None \<Rightarrow> None
           | Some (x, used) \<Rightarrow>
               (case parse_n p n raw (uadd offset used) of
                  None \<Rightarrow> None
                | Some (xs, offset') \<Rightarrow> Some (x # xs, offset'))))"

definition NewTxIn :: "byte list \<Rightarrow> (TxIn \<times> nat) option" where
  "NewTxIn raw =
     (case (slice raw 0 32, slice raw 32 36, slice_from raw 36) of
        (Some hash, Some vout, Some rest) \<Rightarrow>
          (case DecodeVarIntForBlock rest of
             None \<Rightarrow> None
           | Some (scriptsig, scriptsigsize) \<Rightarrow>
               let a = uadd 36 scriptsigsize; b = uadd a scriptsig in
               (case (slice raw a b, slice raw b (uadd b 4)) of
                  (Some script, Some seqb) \<Rightarrow>
                    Some (\<lparr>ti_InputHashHex = HashString hash, ti_InputHash = hash, ti_InputVout = get_u32 vout,
                           ti_ScriptSig = script, ti_Sequence = get_u32 seqb, ti_ScriptWitness = [],
                           ti_InputOutpointKey = string_of_bytes (take 36 raw), ti_InputOutpoint = take 36 raw\<rparr>, uadd b 4)
                | _ \<Rightarrow> None))
      | _ \<Rightarrow> None)"

definition NewTxOut :: "byte list \<Rightarrow> (TxOut \<times> nat) option" where
  "NewTxOut raw =
     (case (slice raw 0 8, slice_from raw 8) of
        (Some sat, Some rest) \<Rightarrow>
          (case DecodeVarIntForBlock rest of
             None \<Rightarrow> None
           | Some (pkscript, pkscriptsize) \<Rightarrow>
               let a = uadd 8 pkscriptsize; b = uadd a pkscript in
               (case slice raw a b of
                  None \<Rightarrow> None
                | Some script \<Rightarrow> Some (\<lparr>to_Satoshi = get_u64 sat, to_PkScript = script\<rparr>, b)))
      | _ \<Rightarrow> None)"

text \<open>One witness item is skipped by its length only.\<close>

fun skip_items :: "nat \<Rightarrow> byte list \<Rightarrow> nat \<Rightarrow> nat option" where
  "skip_items 0 raw offset = Some offset"
| "skip_items (Suc n) raw offset =
     (case slice_from raw offset of
        None \<Rightarrow> None
      | Some rest \<Rightarrow>
          (case DecodeVarIntForBlock rest of
             None \<Rightarrow> None
           | Some (cnt, cntsize) \<Rightarrow> skip_items n raw (uadd (uadd offset cntsize) cnt)))"

definition NewTxWits :: "byte list \<Rightarrow> (byte list \<times> nat) option" where
  "NewTxWits raw =
     (case DecodeVarIntForBlock raw of
        None \<Rightarrow> None
      | Some (cnt, cntsize) \<Rightarrow>
          (case skip_items cnt raw cntsize of
             None \<Rightarrow> None
           | Some offset \<Rightarrow> map_option (\<lambda>wits. (wits, offset)) (slice raw 0 offset)))"

text \<open>The witness of an input as its items (\<^verbatim>\<open>utils.NewTxWit\<close>).\<close>

fun wit_items :: "nat \<Rightarrow> byte list \<Rightarrow> nat \<Rightarrow> (byte list list \<times> nat) option" where
  "wit_items 0 raw offset = Some ([], offset)"
| "wit_items (Suc n) raw offset =
     (case slice_from raw offset of
        None \<Rightarrow> None
      | Some rest \<Rightarrow>
          (case DecodeVarIntForBlock rest of
             None \<Rightarrow> None
           | Some (cnt, cntsize) \<Rightarrow>
               let a = uadd offset cntsize; b = uadd a cnt in
               (case slice raw a b of
                  None \<Rightarrow> None
                | Some item \<Rightarrow>
                    (case wit_items n raw b of None \<Rightarrow> None | Some (items, offset') \<Rightarrow> Some (item # items, offset')))))"

definition NewTxWit :: "byte list \<Rightarrow> (byte list list \<times> nat) option" where
  "NewTxWit raw = (case DecodeVarIntForBlock raw of None \<Rightarrow> None | Some (cnt, cntsize) \<Rightarrow> wit_items cnt raw cntsize)"

definition set_witnesses :: "TxIn list \<Rightarrow> byte list list \<Rightarrow> TxIn list" where
  "set_witnesses ins wits = map2 (\<lambda>i w. i\<lparr>ti_ScriptWitness := w\<rparr>) ins wits"

definition NewTx :: "byte list \<Rightarrow> (Tx \<times> nat) option" where
  "NewTx raw =
     (case (slice raw 0 4, index raw 4) of
        (Some ver, Some b4) \<Rightarrow>
          (case (if b4 = 0 then map_option (\<lambda>b5. b5 = 1) (index raw 5) else Some False) of
             None \<Rightarrow> None
           | Some isWit \<Rightarrow>
               let o1 = (if isWit then 6 else 4) in
               (case Option.bind (slice_from raw o1) DecodeVarIntForBlock of
                  None \<Rightarrow> None
                | Some (txincnt, txincntsize) \<Rightarrow>
                    (case parse_n NewTxIn txincnt raw (uadd o1 txincntsize) of
                       None \<Rightarrow> None
                     | Some (ins, o2) \<Rightarrow>
                         (case Option.bind (slice_from raw o2) DecodeVarIntForBlock of
                            None \<Rightarrow> None
                          | Some (txoutcnt, txoutcntsize) \<Rightarrow>
                              (case parse_n NewTxOut txoutcnt raw (uadd o2 txoutcntsize) of
                                 None \<Rightarrow> None
                               | Some (outs, o3) \<Rightarrow>
                                   (case (if isWit then parse_n NewTxWits (length ins) raw o3 else Some (map ti_ScriptWitness ins, o3)) of
                                      None \<Rightarrow> None
                                    | Some (wits, o4) \<Rightarrow>
                                        (case slice raw o4 (uadd o4 4) of
                                           None \<Rightarrow> None
                                         | Some lt \<Rightarrow>
                                             Some (\<lparr>mt_Raw = [], mt_TxIdHex = [], mt_TxId = [], mt_Size = 0,
                                                    mt_WitOffset = (if isWit then word_of_nat o3 else 0), mt_LockTime = get_u32 lt,
                                                    mt_Version = get_u32 ver, mt_TxInCnt = word_of_nat txincnt,
                                                    mt_TxOutCnt = word_of_nat txoutcnt, mt_TxIns = set_witnesses ins wits,
                                                    mt_TxOuts = outs\<rparr>, uadd o4 4))))))))
      | _ \<Rightarrow> None)"


section \<open>Blocks\<close>

definition finish_tx :: "Tx \<Rightarrow> byte list \<Rightarrow> nat \<Rightarrow> Tx option" where
  "finish_tx tx raw txoffset =
     map_option (\<lambda>txid. tx\<lparr>mt_Raw := raw, mt_TxId := txid, mt_Size := word_of_nat txoffset, mt_TxIdHex := HashString txid\<rparr>)
       (if mt_WitOffset tx > 0 then GetWitnessHash256 raw (mt_WitOffset tx) else Some (GetHash256 raw))"

text \<open>\<open>Some None\<close> is the result \<^verbatim>\<open>nil, false\<close> on a transaction without inputs or outputs.\<close>

fun txs_loop :: "nat \<Rightarrow> byte list \<Rightarrow> nat \<Rightarrow> Tx list option option" where
  "txs_loop 0 raw offset = Some (Some [])"
| "txs_loop (Suc n) raw offset =
     (case Option.bind (slice_from raw offset) NewTx of
        None \<Rightarrow> None
      | Some (tx, txoffset) \<Rightarrow>
          if mt_TxInCnt tx = 0 \<or> mt_TxOutCnt tx = 0 then Some None
          else
            (case Option.bind (slice raw offset (uadd offset txoffset)) (\<lambda>r. finish_tx tx r txoffset) of
               None \<Rightarrow> None
             | Some tx' \<Rightarrow>
                 (case txs_loop n raw (uadd offset txoffset) of
                    None \<Rightarrow> None
                  | Some rest \<Rightarrow> Some (map_option (Cons tx') rest))))"

definition NewTxs :: "byte list \<Rightarrow> Tx list option option" where
  "NewTxs raw = (case DecodeVarIntForBlock raw of None \<Rightarrow> None | Some (txcnt, txcnt_size) \<Rightarrow> txs_loop txcnt raw txcnt_size)"

definition InitBlock :: "Block \<Rightarrow> byte list \<Rightarrow> Block option" where
  "InitBlock block raw =
     (if length raw < 80 then None
      else
        (case DecodeVarIntForBlock (drop 80 raw) of
           None \<Rightarrow> None
         | Some (txcnt, _) \<Rightarrow>
             Some (block\<lparr>mb_Raw := raw, mb_Hash := GetHash256 (take 80 raw), mb_HashHex := HashString (GetHash256 (take 80 raw)),
               mb_Version := get_u32 (take 4 raw), mb_Parent := take 32 (drop 4 raw),
               mb_ParentHex := HashString (take 32 (drop 4 raw)), mb_MerkleRoot := take 32 (drop 36 raw),
               mb_BlockTime := get_u32 (take 4 (drop 68 raw)), mb_Bits := get_u32 (take 4 (drop 72 raw)),
               mb_Nonce := get_u32 (take 4 (drop 76 raw)), mb_Size := word_of_nat (length raw), mb_TxCnt := word_of_nat txcnt\<rparr>)))"

section \<open>Stored outputs\<close>

definition TxoData_Marshal :: "TxoData \<Rightarrow> byte list" where
  "TxoData_Marshal d =
     [0, 0, 0, 0] @ put_u32 (td_BlockHeight d) @ put_u32 (td_TxIdx d) @ put_u64 (td_Satoshi d) @
     le_encode 4 (length (td_PkScript d)) @ td_PkScript d"

text \<open>\<open>snappy_Decode\<close> is the third-party decompressor of the older stored form. The Go method updates its
  receiver; \<open>None\<close> is the result false.\<close>

definition TxoData_Unmarshal :: "(byte list \<Rightarrow> byte list option) \<Rightarrow> byte list \<Rightarrow> TxoData option" where
  "TxoData_Unmarshal snappy_Decode zbuf =
     (if length zbuf < 4 then None
      else
        (case (if le_decode (take 4 zbuf) \<noteq> 0 then snappy_Decode zbuf else Some zbuf) of
           None \<Rightarrow> None
         | Some buf \<Rightarrow>
             if length buf < 4 + 20 then None
             else let scriptSize = le_decode (take 4 (drop 20 buf)) in
               if length buf < 4 + 20 + scriptSize then None
               else Some \<lparr>td_BlockHeight = get_u32 (take 4 (drop 4 buf)), td_TxIdx = get_u32 (take 4 (drop 8 buf)),
                          td_Satoshi = get_u64 (take 8 (drop 12 buf)), td_PkScript = take scriptSize (drop 24 buf)\<rparr>))"

section \<open>Codecs\<close>

text \<open>What a parser and its writer promise each other: a written value is read back, whatever follows it.\<close>

locale codec =
  fixes enc :: "'a \<Rightarrow> byte list" and dec :: "byte list \<Rightarrow> ('b \<times> nat) option" and val :: "'a \<Rightarrow> 'b" and ok :: "'a \<Rightarrow> bool"
  assumes dec_enc: "ok x \<Longrightarrow> length (enc x @ r) < 2 ^ 64 \<Longrightarrow> dec (enc x @ r) = Some (val x, length (enc x))"
begin

lemma parse_n_enc:
  assumes "list_all ok xs" "length (pre @ concat (map enc xs) @ r) < 2 ^ 64"
  shows "parse_n dec (length xs) (pre @ concat (map enc xs) @ r) (length pre) =
    Some (map val xs, length pre + length (concat (map enc xs)))"
  using assms
proof (induction xs arbitrary: pre)
  case Nil
  then show ?case by simp
next
  case (Cons x xs)
  let ?raw = "pre @ concat (map enc (x # xs)) @ r"
  have "slice_from ?raw (length pre) = Some (enc x @ concat (map enc xs) @ r)" by simp
  moreover have "dec (enc x @ concat (map enc xs) @ r) = Some (val x, length (enc x))"
    using Cons.prems by (intro dec_enc) auto
  moreover have "uadd (length pre) (length (enc x)) = length (pre @ enc x)"
    using Cons.prems by (simp add: uadd_def)
  ultimately show ?case using Cons.IH [of "pre @ enc x"] Cons.prems by simp
qed

end


interpretation varint: codec EncodeVarIntForBlock DecodeVarIntForBlock unat "\<lambda>_. True"
proof
  fix x :: u64 and r :: "byte list"
  consider "unat x < 0xfd" | "0xfd \<le> unat x" "unat x \<le> 0xffff" | "0xffff < unat x" "unat x \<le> 0xffffffff" | "0xffffffff < unat x"
    by linarith
  then show "DecodeVarIntForBlock (EncodeVarIntForBlock x @ r) = Some (unat x, length (EncodeVarIntForBlock x))"
  proof cases
    case 1
    then have "unat (word_of_nat (unat x) :: byte) = unat x" by (subst unat_byte_of_nat) simp
    with 1 show ?thesis
      by (simp add: EncodeVarIntForBlock_def DecodeVarIntForBlock_def word_less_nat_alt index_def del: of_nat_unat)
  next
    case 2
    then show ?thesis
      by (simp add: EncodeVarIntForBlock_def DecodeVarIntForBlock_def word_less_nat_alt word_le_nat_alt index_def slice_def
          le_decode_encode del: le_encode.simps of_nat_unat)
  next
    case 3
    then show ?thesis
      by (simp add: EncodeVarIntForBlock_def DecodeVarIntForBlock_def word_less_nat_alt word_le_nat_alt index_def slice_def
          le_decode_encode del: le_encode.simps of_nat_unat)
  next
    case 4
    then show ?thesis
      by (simp add: EncodeVarIntForBlock_def DecodeVarIntForBlock_def word_less_nat_alt word_le_nat_alt index_def slice_def
          le_decode_encode del: le_encode.simps of_nat_unat)
  qed
qed

definition varint_n :: "nat \<Rightarrow> byte list" where
  "varint_n n = EncodeVarIntForBlock (word_of_nat n)"

lemma DecodeVarInt_n:
  assumes "n < 2 ^ 64" "length (varint_n n @ r) < 2 ^ 64"
  shows "DecodeVarIntForBlock (varint_n n @ r) = Some (n, length (varint_n n))"
  using varint.dec_enc [of "word_of_nat n" r] assms by (simp add: varint_n_def unat_u64_of_nat)

section \<open>Writing a transaction\<close>

definition in_bytes :: "TxIn \<Rightarrow> byte list" where
  "in_bytes i = ti_InputHash i @ put_u32 (ti_InputVout i) @ varint_n (length (ti_ScriptSig i)) @ ti_ScriptSig i @ put_u32 (ti_Sequence i)"

definition out_bytes :: "TxOut \<Rightarrow> byte list" where
  "out_bytes t = put_u64 (to_Satoshi t) @ varint_n (length (to_PkScript t)) @ to_PkScript t"

definition wit_bytes :: "byte list list \<Rightarrow> byte list" where
  "wit_bytes items = varint_n (length items) @ concat (map (\<lambda>i. varint_n (length i) @ i) items)"

text \<open>An input as the parser fills it before its witness is known.\<close>

definition parsed_in :: "TxIn \<Rightarrow> TxIn" where
  "parsed_in i = i\<lparr>ti_InputHashHex := HashString (ti_InputHash i), ti_ScriptWitness := [],
     ti_InputOutpointKey := string_of_bytes (ti_InputHash i @ put_u32 (ti_InputVout i)),
     ti_InputOutpoint := ti_InputHash i @ put_u32 (ti_InputVout i)\<rparr>"

interpretation txin: codec in_bytes NewTxIn parsed_in "\<lambda>i. length (ti_InputHash i) = 32"
proof
  fix i r
  assume hash: "length (ti_InputHash i) = 32" and len: "length (in_bytes i @ r) < 2 ^ 64"
  let ?h = "ti_InputHash i @ put_u32 (ti_InputVout i)"
  let ?v = "varint_n (length (ti_ScriptSig i))"
  let ?tail = "?v @ ti_ScriptSig i @ put_u32 (ti_Sequence i) @ r"
  have raw: "in_bytes i @ r = ?h @ ?tail" by (simp add: in_bytes_def)
  have "DecodeVarIntForBlock ?tail = Some (length (ti_ScriptSig i), length ?v)"
    using len hash by (intro DecodeVarInt_n) (simp_all add: in_bytes_def)
  moreover have "uadd 36 (length ?v) = 36 + length ?v" "uadd (36 + length ?v) (length (ti_ScriptSig i)) = 36 + length ?v + length (ti_ScriptSig i)"
    "uadd (36 + length ?v + length (ti_ScriptSig i)) 4 = 36 + length ?v + length (ti_ScriptSig i) + 4"
    using len hash by (simp_all add: in_bytes_def uadd_def)
  moreover have "slice (?h @ ?tail) (36 + length ?v) (36 + length ?v + length (ti_ScriptSig i)) = Some (ti_ScriptSig i)"
    "slice (?h @ ?tail) (36 + length ?v + length (ti_ScriptSig i)) (36 + length ?v + length (ti_ScriptSig i) + 4) = Some (put_u32 (ti_Sequence i))"
    using slice_append_mid [of "?h @ ?v" "36 + length ?v" "ti_ScriptSig i" "36 + length ?v + length (ti_ScriptSig i)" "put_u32 (ti_Sequence i) @ r"]
      slice_append_mid [of "?h @ ?v @ ti_ScriptSig i" "36 + length ?v + length (ti_ScriptSig i)" "put_u32 (ti_Sequence i)"
        "36 + length ?v + length (ti_ScriptSig i) + 4" r] hash by simp_all
  moreover have "slice (?h @ ?tail) 0 32 = Some (ti_InputHash i)" "slice (?h @ ?tail) 32 36 = Some (put_u32 (ti_InputVout i))"
    "slice_from (?h @ ?tail) 36 = Some ?tail" "take 36 (?h @ ?tail) = ?h"
    using hash slice_append_mid [of "ti_InputHash i" 32 "put_u32 (ti_InputVout i)" 36 ?tail] by (simp_all add: slice_def slice_from_def)
  ultimately show "NewTxIn (in_bytes i @ r) = Some (parsed_in i, length (in_bytes i))"
    unfolding raw NewTxIn_def using hash by (simp add: Let_def parsed_in_def in_bytes_def)
qed


interpretation txout: codec out_bytes NewTxOut "\<lambda>t. t" "\<lambda>_. True"
proof
  fix t :: TxOut and r
  assume len: "length (out_bytes t @ r) < 2 ^ 64"
  let ?v = "varint_n (length (to_PkScript t))"
  let ?raw = "put_u64 (to_Satoshi t) @ ?v @ to_PkScript t @ r"
  have raw: "out_bytes t @ r = ?raw" by (simp add: out_bytes_def)
  have "DecodeVarIntForBlock (?v @ to_PkScript t @ r) = Some (length (to_PkScript t), length ?v)"
    using len by (intro DecodeVarInt_n) (simp_all add: out_bytes_def)
  moreover have "uadd 8 (length ?v) = 8 + length ?v" "uadd (8 + length ?v) (length (to_PkScript t)) = 8 + length ?v + length (to_PkScript t)"
    using len by (simp_all add: out_bytes_def uadd_def)
  moreover have "slice ?raw 0 8 = Some (put_u64 (to_Satoshi t))" "slice_from ?raw 8 = Some (?v @ to_PkScript t @ r)"
    "slice ?raw (8 + length ?v) (8 + length ?v + length (to_PkScript t)) = Some (to_PkScript t)"
    using slice_append_mid [of "put_u64 (to_Satoshi t) @ ?v" "8 + length ?v" "to_PkScript t" "8 + length ?v + length (to_PkScript t)" r]
    by simp_all
  ultimately show "NewTxOut (out_bytes t @ r) = Some (t, length (out_bytes t))"
    unfolding raw NewTxOut_def by (simp add: Let_def out_bytes_def)
qed

definition item_bytes :: "byte list \<Rightarrow> byte list" where
  "item_bytes i = varint_n (length i) @ i"

lemma skip_items_bytes:
  "length (pre @ concat (map item_bytes items) @ r) < 2 ^ 64 \<Longrightarrow>
     skip_items (length items) (pre @ concat (map item_bytes items) @ r) (length pre) =
       Some (length pre + length (concat (map item_bytes items)))"
proof (induction items arbitrary: pre)
  case (Cons i items)
  let ?raw = "pre @ concat (map item_bytes (i # items)) @ r"
  have "slice_from ?raw (length pre) = Some (varint_n (length i) @ i @ concat (map item_bytes items) @ r)"
    by (simp add: item_bytes_def [of i])
  moreover have "DecodeVarIntForBlock (varint_n (length i) @ i @ concat (map item_bytes items) @ r) = Some (length i, length (varint_n (length i)))"
    using Cons.prems by (intro DecodeVarInt_n) (simp_all add: item_bytes_def [of i])
  moreover have "uadd (uadd (length pre) (length (varint_n (length i)))) (length i) = length (pre @ item_bytes i)"
    using Cons.prems by (simp add: uadd_def item_bytes_def [of i])
  ultimately show ?case using Cons.IH [of "pre @ item_bytes i"] Cons.prems by simp
qed simp

lemma wit_items_bytes:
  "length (pre @ concat (map item_bytes items) @ r) < 2 ^ 64 \<Longrightarrow>
     wit_items (length items) (pre @ concat (map item_bytes items) @ r) (length pre) =
       Some (items, length pre + length (concat (map item_bytes items)))"
proof (induction items arbitrary: pre)
  case (Cons i items)
  let ?raw = "pre @ concat (map item_bytes (i # items)) @ r"
  let ?v = "varint_n (length i)"
  have "slice_from ?raw (length pre) = Some (?v @ i @ concat (map item_bytes items) @ r)"
    by (simp add: item_bytes_def [of i])
  moreover have "DecodeVarIntForBlock (?v @ i @ concat (map item_bytes items) @ r) = Some (length i, length ?v)"
    using Cons.prems by (intro DecodeVarInt_n) (simp_all add: item_bytes_def [of i])
  moreover have "uadd (length pre) (length ?v) = length pre + length ?v"
    "uadd (length pre + length ?v) (length i) = length (pre @ item_bytes i)"
    using Cons.prems by (simp_all add: uadd_def item_bytes_def [of i])
  moreover have "slice ?raw (length pre + length ?v) (length (pre @ item_bytes i)) = Some i"
    using slice_append_mid [of "pre @ ?v" "length pre + length ?v" i "length (pre @ item_bytes i)" "concat (map item_bytes items) @ r"]
    by (simp add: item_bytes_def [of i])
  ultimately show ?case using Cons.IH [of "pre @ item_bytes i"] Cons.prems by (simp add: Let_def)
qed simp

lemma wit_bytes_alt: "wit_bytes items = varint_n (length items) @ concat (map item_bytes items)"
  by (simp add: wit_bytes_def item_bytes_def [abs_def])

lemma varint_count:
  assumes "length (wit_bytes items @ r) < 2 ^ 64"
  shows "DecodeVarIntForBlock (wit_bytes items @ r) = Some (length items, length (varint_n (length items)))"
proof -
  have one: "1 \<le> length (varint_n n)" for n by (simp add: varint_n_def EncodeVarIntForBlock_def)
  have "length items \<le> length (concat (map item_bytes items))"
  proof (induction items)
    case (Cons i items)
    then show ?case using one [of "length i"] by (simp add: item_bytes_def [of i])
  qed simp
  with assms show ?thesis by (simp add: wit_bytes_alt) (intro DecodeVarInt_n; simp)
qed

interpretation wits: codec wit_bytes NewTxWits wit_bytes "\<lambda>_. True"
proof
  fix items r
  assume len: "length (wit_bytes items @ r) < 2 ^ 64"
  then show "NewTxWits (wit_bytes items @ r) = Some (wit_bytes items, length (wit_bytes items))"
    using varint_count [OF len] skip_items_bytes [of "varint_n (length items)" items r]
    by (simp add: NewTxWits_def wit_bytes_alt slice_def)
qed

lemma NewTxWit_bytes:
  assumes "length (wit_bytes items) < 2 ^ 64"
  shows "NewTxWit (wit_bytes items) = Some (items, length (wit_bytes items))"
  using varint_count [of items "[]"] wit_items_bytes [of "varint_n (length items)" items "[]"] assms
  by (simp add: NewTxWit_def wit_bytes_alt)


text \<open>A transaction to be written: with witnesses, one list of items per input.\<close>

record wire_tx =
  wt_Version :: u32
  wt_Ins :: "TxIn list"
  wt_Outs :: "TxOut list"
  wt_Wits :: "byte list list list option"
  wt_LockTime :: u32

definition wire_marker :: "wire_tx \<Rightarrow> byte list" where
  "wire_marker t = (case wt_Wits t of None \<Rightarrow> [] | Some _ \<Rightarrow> [0, 1])"

definition wire_body :: "wire_tx \<Rightarrow> byte list" where
  "wire_body t = varint_n (length (wt_Ins t)) @ concat (map in_bytes (wt_Ins t)) @
     varint_n (length (wt_Outs t)) @ concat (map out_bytes (wt_Outs t))"

definition wire_wits :: "wire_tx \<Rightarrow> byte list" where
  "wire_wits t = (case wt_Wits t of None \<Rightarrow> [] | Some ws \<Rightarrow> concat (map wit_bytes ws))"

definition wire_bytes :: "wire_tx \<Rightarrow> byte list" where
  "wire_bytes t = put_u32 (wt_Version t) @ wire_marker t @ wire_body t @ wire_wits t @ put_u32 (wt_LockTime t)"

text \<open>The serialization without marker and witnesses, whose double hash identifies the transaction.\<close>

definition stripped_bytes :: "wire_tx \<Rightarrow> byte list" where
  "stripped_bytes t = put_u32 (wt_Version t) @ wire_body t @ put_u32 (wt_LockTime t)"

definition wire_ok :: "wire_tx \<Rightarrow> bool" where
  "wire_ok t \<longleftrightarrow> wt_Ins t \<noteq> [] \<and> wt_Outs t \<noteq> [] \<and> list_all (\<lambda>i. length (ti_InputHash i) = 32) (wt_Ins t) \<and>
     (case wt_Wits t of None \<Rightarrow> True | Some ws \<Rightarrow> length ws = length (wt_Ins t)) \<and> length (wire_bytes t) < 2 ^ 32"

definition wire_ins :: "wire_tx \<Rightarrow> TxIn list" where
  "wire_ins t = (case wt_Wits t of None \<Rightarrow> map parsed_in (wt_Ins t)
     | Some ws \<Rightarrow> map2 (\<lambda>i w. (parsed_in i)\<lparr>ti_ScriptWitness := wit_bytes w\<rparr>) (wt_Ins t) ws)"

definition parsed_wire :: "wire_tx \<Rightarrow> Tx" where
  "parsed_wire t = \<lparr>mt_Raw = [], mt_TxIdHex = [], mt_TxId = [], mt_Size = 0,
     mt_WitOffset = (case wt_Wits t of None \<Rightarrow> 0 | Some _ \<Rightarrow> word_of_nat (6 + length (wire_body t))),
     mt_LockTime = wt_LockTime t, mt_Version = wt_Version t, mt_TxInCnt = word_of_nat (length (wt_Ins t)),
     mt_TxOutCnt = word_of_nat (length (wt_Outs t)), mt_TxIns = wire_ins t, mt_TxOuts = wt_Outs t\<rparr>"

lemma varint_n_first:
  assumes "n \<noteq> 0" "n < 2 ^ 64"
  shows "\<exists>b bs. varint_n n = b # bs \<and> b \<noteq> 0"
proof -
  have u: "unat (word_of_nat n :: u64) = n" using assms(2) by (simp add: unat_u64_of_nat)
  show ?thesis
  proof (cases "n < 253")
    case True
    then have "(word_of_nat n :: byte) \<noteq> 0" using assms(1) by (simp add: word_eq_unat_iff unat_byte_of_nat)
    with True u show ?thesis by (simp add: varint_n_def EncodeVarIntForBlock_def word_less_nat_alt del: of_nat_unat)
  next
    case False
    with u show ?thesis by (simp add: varint_n_def EncodeVarIntForBlock_def word_less_nat_alt del: of_nat_unat)
  qed
qed

lemma length_in_bytes: "length (ti_InputHash i) = 32 \<Longrightarrow> 1 \<le> length (in_bytes i)"
  by (simp add: in_bytes_def)

lemma length_out_bytes: "1 \<le> length (out_bytes i)"
  by (simp add: out_bytes_def)

lemma length_concat_ge:
  "(\<And>x. x \<in> set xs \<Longrightarrow> 1 \<le> length (f x)) \<Longrightarrow> length xs \<le> length (concat (map f xs))"
proof (induction xs)
  case (Cons x xs)
  have "1 \<le> length (f x)" "length xs \<le> length (concat (map f xs))" using Cons by simp_all
  then show ?case by simp
qed simp

lemma set_witnesses_map:
  "length ws = length ins \<Longrightarrow>
   set_witnesses (map parsed_in ins) (map wit_bytes ws) = map2 (\<lambda>i w. (parsed_in i)\<lparr>ti_ScriptWitness := wit_bytes w\<rparr>) ins ws"
  by (induction ins arbitrary: ws) (auto simp: set_witnesses_def length_Suc_conv)

lemma set_witnesses_same: "set_witnesses ins (map ti_ScriptWitness ins) = ins"
  by (induction ins) (auto simp: set_witnesses_def)

lemma wire_counts:
  assumes "wire_ok t"
  shows "length (wt_Ins t) \<le> length (wire_body t)" "length (wt_Outs t) \<le> length (wire_body t)"
    "length (wire_body t) \<le> length (wire_bytes t)"
proof -
  have "length (wt_Ins t) \<le> length (concat (map in_bytes (wt_Ins t)))"
    using assms length_in_bytes by (intro length_concat_ge) (auto simp: wire_ok_def list_all_iff)
  moreover have "length (wt_Outs t) \<le> length (concat (map out_bytes (wt_Outs t)))"
    using length_out_bytes by (intro length_concat_ge)
  ultimately show "length (wt_Ins t) \<le> length (wire_body t)" "length (wt_Outs t) \<le> length (wire_body t)"
    by (simp_all add: wire_body_def)
  show "length (wire_body t) \<le> length (wire_bytes t)" by (simp add: wire_bytes_def)
qed

text \<open>The witness marker is read off the fifth and sixth byte.\<close>

lemma wire_marker_read:
  assumes "wire_ok t" "wire_bytes t @ r = raw"
  shows "index raw 4 \<noteq> None" "(if the (index raw 4) = 0 then map_option (\<lambda>b5. b5 = 1) (index raw 5) else Some False) = Some (wt_Wits t \<noteq> None)"
proof -
  have "length (wt_Ins t) \<noteq> 0" "length (wt_Ins t) < 2 ^ 64"
    using assms(1) wire_counts [OF assms(1)] by (auto simp: wire_ok_def)
  from varint_n_first [OF this] obtain b bs where b: "varint_n (length (wt_Ins t)) = b # bs" "b \<noteq> 0" by auto
  let ?tail = "wire_wits t @ put_u32 (wt_LockTime t) @ r"
  have raw: "raw = put_u32 (wt_Version t) @ wire_marker t @ wire_body t @ ?tail" using assms(2) by (simp add: wire_bytes_def)
  show "index raw 4 \<noteq> None"
    by (cases "wt_Wits t") (simp_all add: raw index_def wire_marker_def wire_body_def b)
  show "(if the (index raw 4) = 0 then map_option (\<lambda>b5. b5 = 1) (index raw 5) else Some False) = Some (wt_Wits t \<noteq> None)"
    by (cases "wt_Wits t") (simp_all add: raw index_def wire_marker_def wire_body_def b nth_append)
qed


interpretation tx: codec wire_bytes NewTx parsed_wire wire_ok
proof
  fix t r
  assume ok: "wire_ok t" and len: "length (wire_bytes t @ r) < 2 ^ 64"
  define raw where "raw = wire_bytes t @ r"
  define P where "P = put_u32 (wt_Version t) @ wire_marker t"
  define Is where "Is = concat (map in_bytes (wt_Ins t))"
  define Os where "Os = concat (map out_bytes (wt_Outs t))"
  define vi where "vi = varint_n (length (wt_Ins t))"
  define vo where "vo = varint_n (length (wt_Outs t))"
  define L where "L = put_u32 (wt_LockTime t)"
  have cnt: "length (wt_Ins t) < 2 ^ 64" "length (wt_Outs t) < 2 ^ 64" using ok wire_counts [OF ok] by (auto simp: wire_ok_def)
  have raw: "raw = P @ vi @ Is @ vo @ Os @ wire_wits t @ L @ r"
    by (simp add: raw_def wire_bytes_def wire_body_def P_def Is_def Os_def vi_def vo_def L_def)
  have lraw: "length raw < 2 ^ 64" using len by (simp add: raw_def)
  let ?o1 = "if wt_Wits t \<noteq> None then 6 else 4"
  have o1: "length P = ?o1" by (cases "wt_Wits t") (simp_all add: P_def wire_marker_def)
  have L: "length L = 4" "get_u32 L = wt_LockTime t" by (simp_all add: L_def)
  have ver: "slice raw 0 4 = Some (put_u32 (wt_Version t))" by (simp add: raw P_def)
  have rin: "Option.bind (slice_from raw ?o1) DecodeVarIntForBlock = Some (length (wt_Ins t), length vi)"
    using DecodeVarInt_n [OF cnt(1), of "Is @ vo @ Os @ wire_wits t @ L @ r"] lraw o1 by (simp add: raw vi_def)
  have ins: "parse_n NewTxIn (length (wt_Ins t)) raw (uadd ?o1 (length vi)) = Some (map parsed_in (wt_Ins t), length (P @ vi @ Is))"
    using txin.parse_n_enc [of "wt_Ins t" "P @ vi" "vo @ Os @ wire_wits t @ L @ r"] ok lraw o1
    by (simp add: raw Is_def wire_ok_def uadd_def list_all_iff)
  have rout: "Option.bind (slice_from raw (length (P @ vi @ Is))) DecodeVarIntForBlock = Some (length (wt_Outs t), length vo)"
    using DecodeVarInt_n [OF cnt(2), of "Os @ wire_wits t @ L @ r"] lraw slice_from_append [of "P @ vi @ Is" _ "vo @ Os @ wire_wits t @ L @ r"]
    by (simp add: raw vo_def)
  have outs: "parse_n NewTxOut (length (wt_Outs t)) raw (uadd (length (P @ vi @ Is)) (length vo)) = Some (wt_Outs t, length (P @ vi @ Is @ vo @ Os))"
    using txout.parse_n_enc [of "wt_Outs t" "P @ vi @ Is @ vo" "wire_wits t @ L @ r"] lraw
    by (simp add: raw Os_def uadd_def list_all_iff add.assoc)
  let ?o4 = "length (P @ vi @ Is @ vo @ Os @ wire_wits t)"
  have wits: "(if wt_Wits t \<noteq> None then parse_n NewTxWits (length (map parsed_in (wt_Ins t))) raw (length (P @ vi @ Is @ vo @ Os))
      else Some (map ti_ScriptWitness (map parsed_in (wt_Ins t)), length (P @ vi @ Is @ vo @ Os))) =
    Some (case wt_Wits t of None \<Rightarrow> map ti_ScriptWitness (map parsed_in (wt_Ins t)) | Some ws \<Rightarrow> map wit_bytes ws, ?o4)"
  proof (cases "wt_Wits t")
    case (Some ws)
    then have "length (wt_Ins t) = length ws" using ok by (simp add: wire_ok_def)
    then show ?thesis using wits.parse_n_enc [of ws "P @ vi @ Is @ vo @ Os" "L @ r"] lraw Some
      by (simp add: raw wire_wits_def list_all_iff add.assoc)
  qed (simp add: wire_wits_def)
  have lock: "slice raw ?o4 (uadd ?o4 4) = Some L" and fin: "uadd ?o4 4 = length (wire_bytes t)"
    using slice_append_mid [of "P @ vi @ Is @ vo @ Os @ wire_wits t" ?o4 L "?o4 + 4" r] lraw L
    by (simp_all add: raw uadd_def wire_bytes_def wire_body_def P_def Is_def Os_def vi_def vo_def L_def add.assoc)
  obtain b4 where b4: "index raw 4 = Some b4" using wire_marker_read(1) [OF ok] raw_def by blast
  have mark: "(if b4 = 0 then map_option (\<lambda>b5. b5 = 1) (index raw 5) else Some False) = Some (wt_Wits t \<noteq> None)"
    using wire_marker_read(2) [OF ok, of r raw] b4 by (simp add: raw_def)
  have w: "set_witnesses (map parsed_in (wt_Ins t)) (case wt_Wits t of None \<Rightarrow> map ti_ScriptWitness (map parsed_in (wt_Ins t))
      | Some ws \<Rightarrow> map wit_bytes ws) = wire_ins t"
    using ok by (cases "wt_Wits t") (simp_all add: wire_ins_def set_witnesses_same set_witnesses_map wire_ok_def del: map_map)
  have off: "wt_Wits t = Some ws \<Longrightarrow> length (P @ vi @ Is @ vo @ Os) = 6 + length (wire_body t)" for ws
    by (simp add: P_def wire_marker_def wire_body_def Is_def Os_def vi_def vo_def)
  show "NewTx (wire_bytes t @ r) = Some (parsed_wire t, length (wire_bytes t))"
    unfolding raw_def [symmetric] NewTx_def ver b4 option.case prod.case mark Let_def rin ins rout outs wits fin lock [unfolded fin] w L
    using off by (cases "wt_Wits t") (simp_all add: parsed_wire_def del: length_append)
qed


text \<open>A transaction of a block as the parser leaves it.\<close>

definition finished_wire :: "wire_tx \<Rightarrow> Tx" where
  "finished_wire t = (parsed_wire t)\<lparr>mt_Raw := wire_bytes t, mt_TxId := GetHash256 (stripped_bytes t),
     mt_Size := word_of_nat (length (wire_bytes t)), mt_TxIdHex := HashString (GetHash256 (stripped_bytes t))\<rparr>"

lemma finish_wire:
  assumes "wire_ok t"
  shows "finish_tx (parsed_wire t) (wire_bytes t) (length (wire_bytes t)) = Some (finished_wire t)"
proof (cases "wt_Wits t")
  case None
  then have "wire_bytes t = stripped_bytes t" by (simp add: wire_bytes_def stripped_bytes_def wire_marker_def wire_wits_def)
  then show ?thesis using None by (simp add: finish_tx_def finished_wire_def parsed_wire_def)
next
  case (Some ws)
  define off where "off = (word_of_nat (6 + length (wire_body t)) :: u32)"
  have "6 + length (wire_body t) < 2 ^ 32" using assms Some by (simp add: wire_ok_def wire_bytes_def wire_marker_def)
  then have o: "unat off = 6 + length (wire_body t)" unfolding off_def by (subst unat_u32_of_nat) simp
  then have "off > 0" by (simp add: word_less_nat_alt)
  let ?mid = "put_u32 (wt_Version t) @ wire_marker t"
  have b: "wire_bytes t = ?mid @ wire_body t @ wire_wits t @ put_u32 (wt_LockTime t)" by (simp add: wire_bytes_def)
  have l: "length ?mid = 6" using Some by (simp add: wire_marker_def)
  have "slice (wire_bytes t) 0 4 = Some (put_u32 (wt_Version t))" by (simp add: b)
  moreover have "slice (wire_bytes t) 6 (6 + length (wire_body t)) = Some (wire_body t)"
    unfolding b using l by (intro slice_append_mid) simp_all
  moreover have "slice_from (wire_bytes t) (length (wire_bytes t) - 4) = Some (put_u32 (wt_LockTime t))"
    using slice_from_append [of "?mid @ wire_body t @ wire_wits t" _ "put_u32 (wt_LockTime t)"] by (simp add: b)
  moreover have "4 \<le> length (wire_bytes t)" by (simp add: b)
  ultimately have "GetWitnessHash256 (wire_bytes t) off = Some (GetHash256 (stripped_bytes t))"
    by (simp add: GetWitnessHash256_def o GetHash256_def stripped_bytes_def)
  moreover have "mt_WitOffset (parsed_wire t) = off" using Some by (simp add: parsed_wire_def off_def)
  ultimately show ?thesis using \<open>off > 0\<close> by (simp add: finish_tx_def finished_wire_def)
qed

lemma parsed_wire_counts:
  assumes "wire_ok t"
  shows "mt_TxInCnt (parsed_wire t) \<noteq> 0" "mt_TxOutCnt (parsed_wire t) \<noteq> 0"
  using assms wire_counts [OF assms] by (auto simp: parsed_wire_def wire_ok_def word_eq_unat_iff unat_u32_of_nat)

lemma txs_loop_wire:
  "list_all wire_ok ts \<Longrightarrow> length (pre @ concat (map wire_bytes ts) @ r) < 2 ^ 64 \<Longrightarrow>
     txs_loop (length ts) (pre @ concat (map wire_bytes ts) @ r) (length pre) = Some (Some (map finished_wire ts))"
proof (induction ts arbitrary: pre)
  case (Cons t ts)
  let ?raw = "pre @ concat (map wire_bytes (t # ts)) @ r"
  have ok: "wire_ok t" using Cons.prems by simp
  have "Option.bind (slice_from ?raw (length pre)) NewTx = Some (parsed_wire t, length (wire_bytes t))"
    using tx.dec_enc [OF ok, of "concat (map wire_bytes ts) @ r"] Cons.prems by simp
  moreover have u: "uadd (length pre) (length (wire_bytes t)) = length (pre @ wire_bytes t)"
    using Cons.prems by (simp add: uadd_def)
  moreover have "slice ?raw (length pre) (length (pre @ wire_bytes t)) = Some (wire_bytes t)"
    using slice_append_mid [of pre "length pre" "wire_bytes t" _ "concat (map wire_bytes ts) @ r"] by simp
  moreover have "txs_loop (length ts) ?raw (length (pre @ wire_bytes t)) = Some (Some (map finished_wire ts))"
    using Cons.IH [of "pre @ wire_bytes t"] Cons.prems by simp
  ultimately show ?case using parsed_wire_counts [OF ok] finish_wire [OF ok] by simp
qed simp

text \<open>C27. Blocks parse: the transactions of a block written in the wire format, with or without witnesses, are all
  read back with their inputs, outputs and witnesses, and the identifier of each is the double hash of its
  serialization without marker and witnesses, whether it carries witnesses or not.\<close>

theorem NewTxs_wire:
  assumes "list_all wire_ok ts" "length (varint_n (length ts) @ concat (map wire_bytes ts) @ r) < 2 ^ 64"
  shows "NewTxs (varint_n (length ts) @ concat (map wire_bytes ts) @ r) = Some (Some (map finished_wire ts)) \<and>
    (\<forall>t \<in> set ts. mt_TxId (finished_wire t) = GetHash256 (stripped_bytes t) \<and> mt_TxOuts (finished_wire t) = wt_Outs t \<and>
      length (mt_TxIns (finished_wire t)) = length (wt_Ins t))"
proof -
  have "length ts \<le> length (concat (map wire_bytes ts))"
    by (intro length_concat_ge) (simp add: wire_bytes_def)
  with assms(2) have "length ts < 2 ^ 64" by simp
  from DecodeVarInt_n [OF this assms(2)] txs_loop_wire [OF assms]
  have "NewTxs (varint_n (length ts) @ concat (map wire_bytes ts) @ r) = Some (Some (map finished_wire ts))"
    by (simp add: NewTxs_def)
  moreover have "length (wire_ins t) = length (wt_Ins t)" if "t \<in> set ts" for t
    using that assms(1) by (auto simp: wire_ins_def wire_ok_def list_all_iff split: option.splits)
  ultimately show ?thesis by (simp add: finished_wire_def parsed_wire_def)
qed

definition sample_wire :: wire_tx where
  "sample_wire = \<lparr>wt_Version = 2, wt_Ins = [\<lparr>ti_InputHashHex = [], ti_InputHash = replicate 32 1, ti_InputVout = 0,
     ti_ScriptSig = [], ti_Sequence = 5, ti_ScriptWitness = [], ti_InputOutpointKey = [], ti_InputOutpoint = []\<rparr>],
     wt_Outs = [\<lparr>to_Satoshi = 7, to_PkScript = [0x51]\<rparr>], wt_Wits = Some [[[1, 2], [3]]], wt_LockTime = 0\<rparr>"

theorem NewTxs_wire_witness:
  "NewTxs (varint_n 1 @ wire_bytes sample_wire) = Some (Some [finished_wire sample_wire])"
proof -
  have "list_all wire_ok [sample_wire]" by code_simp
  moreover have "length (varint_n (length [sample_wire]) @ concat (map wire_bytes [sample_wire]) @ []) < 2 ^ 64" by code_simp
  ultimately show ?thesis using NewTxs_wire [of "[sample_wire]" "[]"] by simp
qed

text \<open>The witness kept for an input can be taken apart: what \<^verbatim>\<open>NewTxWits\<close> cuts out of a block,
  \<^verbatim>\<open>NewTxWit\<close> splits into exactly the items written, without a panic.\<close>

theorem witness_items:
  assumes "length (wit_bytes items @ r) < 2 ^ 64"
  shows "\<exists>w. NewTxWits (wit_bytes items @ r) = Some (w, length w) \<and> NewTxWit w = Some (items, length w)"
  using wits.dec_enc [of items r] NewTxWit_bytes [of items] assms by (intro exI [of _ "wit_bytes items"]) simp

theorem witness_items_witness:
  "\<exists>w. NewTxWits (wit_bytes [[1, 2], []] @ [9]) = Some (w, length w) \<and> NewTxWit w = Some ([[1, 2], []], length w)"
  by (rule witness_items) code_simp

text \<open>A stored output is read back: unmarshalling what marshalling wrote gives the same height, index, value
  and script, and never reaches the decompressor.\<close>

theorem TxoData_roundtrip:
  assumes "length (td_PkScript d) < 2 ^ 32"
  shows "TxoData_Unmarshal snappy_Decode (TxoData_Marshal d) = Some d"
  using assms by (simp add: TxoData_Unmarshal_def TxoData_Marshal_def le_decode_encode del: le_encode.simps)

theorem TxoData_roundtrip_witness:
  "TxoData_Unmarshal (\<lambda>_. None) (TxoData_Marshal \<lparr>td_BlockHeight = 9, td_TxIdx = 1, td_Satoshi = 546, td_PkScript = [0x51]\<rparr>) =
    Some \<lparr>td_BlockHeight = 9, td_TxIdx = 1, td_Satoshi = 546, td_PkScript = [0x51]\<rparr>"
  by (rule TxoData_roundtrip) simp

end
