(* ===== verification/ProtocolTx.thy ===== *)
theory ProtocolTx
  imports ProtocolParser Manager BlockModel
begin

text \<open>
  From a parsed transaction to a protocol operation: \<^verbatim>\<open>ParseProtocolTxFromModelTx\<close> and the functions of
  \<^verbatim>\<open>fip101_parser.go\<close> it calls, with \<^verbatim>\<open>types.go\<close> and \<^verbatim>\<open>helper_address.go\<close>. The address of a locking
  script comes from \<^verbatim>\<open>txscript.ExtractPkScriptAddrs\<close>, a parameter: \<open>None\<close> for its error, else whether the
  script is non-standard and the encoded addresses. \<open>None\<close> of the operations is a panic.
\<close>

type_synonym addrs = "byte list \<Rightarrow> (bool \<times> string list) option"

definition GetAddressFromScript :: "addrs \<Rightarrow> byte list \<Rightarrow> string option" where
  "GetAddressFromScript ad script =
     (case ad script of
        None \<Rightarrow> None
      | Some (nonStandard, addresses) \<Rightarrow>
          if addresses = [] then None else if nonStandard then None else Some (addresses ! 0))"

definition AddressFromPkScript :: "addrs \<Rightarrow> byte list \<Rightarrow> string" where
  "AddressFromPkScript ad pkScript =
     (if pkScript = [] then '''' else case GetAddressFromScript ad pkScript of None \<Rightarrow> '''' | Some addr \<Rightarrow> addr)"

definition AddressFromTxoData :: "addrs \<Rightarrow> TxoData option \<Rightarrow> string" where
  "AddressFromTxoData ad data = (case data of None \<Rightarrow> '''' | Some d \<Rightarrow> AddressFromPkScript ad (td_PkScript d))"

definition AddressFromCodeTypeHash :: "addrs \<Rightarrow> CodeType \<Rightarrow> byte list \<Rightarrow> string" where
  "AddressFromCodeTypeHash ad codeType hash =
     (if length hash \<noteq> 20 then ''''
      else case codeType of
        CodeType_P2PKH \<Rightarrow> AddressFromPkScript ad ([OP_DUP, OP_HASH160, OP_DATA_20] @ hash @ [OP_EQUALVERIFY, OP_CHECKSIG])
      | CodeType_P2WPKH \<Rightarrow> AddressFromPkScript ad ([OP_0, OP_DATA_20] @ hash)
      | _ \<Rightarrow> '''')"

definition fip101ContentType :: string where
  "fip101ContentType = ''text/plain;charset=utf-8''"

section \<open>Inscriptions\<close>

definition extractActorPubKeyAndAddressTypeFromTapScript :: "byte list \<Rightarrow> (byte list \<times> string) option" where
  "extractActorPubKeyAndAddressTypeFromTapScript tapScript =
     (if length tapScript = 0 then None
      else case GetOpcodeFormScript tapScript of (sz, firstData, isPush, isOpcode) \<Rightarrow>
        let first = (case firstData of None \<Rightarrow> [] | Some d \<Rightarrow> d) in
        if \<not> isPush \<or> isOpcode \<or> sz = 0 \<or> length first \<noteq> 32 then None
        else if sz \<ge> length tapScript then None
        else case GetOpcodeFormScript (drop sz tapScript) of (sz1, opData, isPush1, isOpcode1) \<Rightarrow>
          let op = (case opData of None \<Rightarrow> [] | Some d \<Rightarrow> d) in
          if isPush1 \<or> \<not> isOpcode1 \<or> sz1 = 0 \<or> length op \<noteq> 1 \<or> op ! 0 \<noteq> OP_CHECKSIGVERIFY then None
          else if sz + sz1 \<ge> length tapScript then None
          else case GetOpcodeFormScript (drop (sz + sz1) tapScript) of (sz2, typeData, isPush2, isOpcode2) \<Rightarrow>
            let ty = (case typeData of None \<Rightarrow> [] | Some d \<Rightarrow> d) in
            if \<not> isPush2 \<or> \<not> isOpcode2 \<or> sz2 \<noteq> 1 \<or> length ty \<noteq> 1 \<or> ty ! 0 < 1 \<or> ty ! 0 > 8 then None
            else Some (first, FormatUint (unat (ty ! 0))))"

record inscriptionMatch =
  im_payload :: OpReturnPayload
  im_actorAddress :: string
  im_body :: "byte list"

text \<open>One input of the loop: the operation its witness reveals, if any.\<close>

definition input_match :: "btc \<Rightarrow> byte list \<Rightarrow> inscriptionMatch option option" where
  "input_match b witness =
     (if witness = [] then Some None
      else case NewTxWit witness of
        None \<Rightarrow> None
      | Some (items, _) \<Rightarrow>
          if length items < 2 then Some None
          else
            let tapScript = items ! (length items - 2) in
            if tapScript = [] then Some None
            else case ExtractPkScriptForNFTJubilee tapScript of
              [nft] \<Rightarrow>
                if IsUnrecognizedEven nft \<or> IsDuplicateField nft \<or> IsIncompleteField nft then Some None
                else if ContentBody nft = [] then Some None
                else if TrimSpace (string_of_bytes (ContentType nft)) \<noteq> fip101ContentType then Some None
                else (case extractActorPubKeyAndAddressTypeFromTapScript tapScript of
                  None \<Rightarrow> Some None
                | Some (actorPubKey, actorAddressType) \<Rightarrow>
                    (case DeriveAddressFromPubKeyAndType b (hex_encode actorPubKey) actorAddressType of
                       None \<Rightarrow> Some None
                     | Some actorAddress \<Rightarrow>
                         if actorAddress = '''' then Some None
                         else (case ParseFIP101PayloadFromCSV b (string_of_bytes (ContentBody nft)) actorPubKey actorAddress actorAddressType of
                           Inl _ \<Rightarrow> Some None
                         | Inr payload \<Rightarrow>
                             Some (Some \<lparr>im_payload = payload, im_actorAddress = actorAddress, im_body = ContentBody nft\<rparr>))))
            | _ \<Rightarrow> Some None)"

fun match_loop :: "btc \<Rightarrow> TxIn list \<Rightarrow> inscriptionMatch option \<Rightarrow> inscriptionMatch option option" where
  "match_loop b [] hit = Some hit"
| "match_loop b (i # ins) hit =
     (case input_match b (ti_ScriptWitness i) of
        None \<Rightarrow> None
      | Some None \<Rightarrow> match_loop b ins hit
      | Some (Some m) \<Rightarrow> if hit \<noteq> None then Some None else match_loop b ins (Some m))"

definition parseStrictFIP101InscriptionFromTx :: "btc \<Rightarrow> Tx \<Rightarrow> inscriptionMatch option option" where
  "parseStrictFIP101InscriptionFromTx b tx = match_loop b (mt_TxIns tx) None"

section \<open>Events\<close>

definition firstSpendableOutputFromSnapshot :: "TxSnapshot \<Rightarrow> OutputSnapshot option" where
  "firstSpendableOutputFromSnapshot tx = find (\<lambda>out. TrimSpace (out_AddressKey out) \<noteq> '''') (tx_Outputs tx)"

definition firstNonOpReturnOutputFromSnapshot :: "TxSnapshot \<Rightarrow> OutputSnapshot option" where
  "firstNonOpReturnOutputFromSnapshot tx =
     find (\<lambda>out. \<not> (length (out_PkScript out) > 0 \<and> out_PkScript out ! 0 = OP_RETURN) \<and> TrimSpace (out_AddressKey out) \<noteq> '''')
       (tx_Outputs tx)"

definition populateInscriptionEvent ::
    "FIP101InscriptionEvent \<Rightarrow> OpReturnPayload \<Rightarrow> string \<Rightarrow> TxSnapshot \<Rightarrow> FIP101InscriptionEvent" where
  "populateInscriptionEvent event payload actorAddress tx =
     (let e = event\<lparr>ev_IndexerID := TrimSpace (payload_Get payload [OpFieldIndexerID]), ev_UserAddress := TrimSpace actorAddress,
            ev_RewardAddress := TrimSpace (payload_Get payload [OpFieldRewardAddr]),
            ev_IndexerName := TrimSpace (payload_Get payload [OpFieldIndexerName]),
            ev_ProveBlockHeight := ParseUint32 (payload_Get payload [OpFieldBlockHeight]),
            ev_ProveDataHash := TrimSpace (payload_Get payload [OpFieldBlockHash])\<rparr>;
          e = (case ParseRatio (payload_Get payload [OpFieldIndexRatio]) of None \<Rightarrow> e | Some ratio \<Rightarrow> e\<lparr>ev_IndexRatio := ratio\<rparr>) in
      if pl_Tag payload = TagStake then
        (case firstNonOpReturnOutputFromSnapshot tx of
           None \<Rightarrow> e
         | Some out \<Rightarrow> e\<lparr>ev_StakeAddress := TrimSpace (out_AddressKey out), ev_Amount := out_Satoshi out\<rparr>)
      else if pl_Tag payload = TagPledgedReward then
        (case firstSpendableOutputFromSnapshot tx of
           None \<Rightarrow> e
         | Some out \<Rightarrow> e\<lparr>ev_UserAddress := TrimSpace (out_AddressKey out), ev_Amount := out_Satoshi out\<rparr>)
      else e)"

record ParsedProtocolTx =
  pp_Snapshot :: TxSnapshot
  pp_Payload :: OpReturnPayload
  pp_Event :: FIP101InscriptionEvent

definition snapshot_of_tx :: "addrs \<Rightarrow> Tx \<Rightarrow> u32 \<Rightarrow> TxSnapshot" where
  "snapshot_of_tx ad tx txIdx =
     \<lparr>tx_TxID = mt_TxIdHex tx, tx_TxIdx = txIdx,
      tx_Inputs = map (\<lambda>(inIdx, input). \<lparr>in_InputIdx = word_of_nat inIdx, in_OutpointKey = ti_InputOutpointKey input,
        in_AddressKey = '''', in_Satoshi = 0\<rparr>) (enumerate 0 (mt_TxIns tx)),
      tx_Outputs = map (\<lambda>(outIdx, output). \<lparr>out_OutputIdx = word_of_nat outIdx, out_Satoshi = to_Satoshi output,
        out_AddressKey = TrimSpace (AddressFromPkScript ad (to_PkScript output)), out_PkScript = to_PkScript output\<rparr>)
          (enumerate 0 (mt_TxOuts tx))\<rparr>"

definition new_event :: "string \<Rightarrow> OpReturnPayload \<Rightarrow> int \<Rightarrow> string \<Rightarrow> u32 \<Rightarrow> FIP101InscriptionEvent" where
  "new_event txid payload blockHeight content txIdx =
     \<lparr>ev_TxID = txid, ev_Op = payloadTagToOperation (pl_Tag payload), ev_Height = blockHeight, ev_InscriptionContent = content,
      ev_IndexerID = '''', ev_UserAddress = '''', ev_RewardAddress = '''', ev_StakeAddress = '''', ev_Amount = 0, ev_IndexRatio = 0,
      ev_IndexerName = '''', ev_ProveBlockHeight = 0, ev_ProveDataHash = '''', ev_BizInvalidFlags = 0, ev_TxIdx = txIdx\<rparr>"

definition ParseProtocolTxFromModelTx :: "addrs \<Rightarrow> btc \<Rightarrow> Tx \<Rightarrow> u32 \<Rightarrow> int \<Rightarrow> ParsedProtocolTx option option" where
  "ParseProtocolTxFromModelTx ad b tx txIdx blockHeight =
     (if mt_TxIdHex tx = '''' then Some None
      else
        let txSnapshot = snapshot_of_tx ad tx txIdx in
        case parseFIP101ClaimRewardFromOutputs txSnapshot of
          Some (payload, content) \<Rightarrow>
            let event = populateInscriptionEvent (new_event (mt_TxIdHex tx) payload blockHeight content txIdx) payload '''' txSnapshot in
            Some (Some \<lparr>pp_Snapshot = txSnapshot, pp_Payload = payload, pp_Event = event\<rparr>)
        | None \<Rightarrow>
          (case parseStrictFIP101InscriptionFromTx b tx of
             None \<Rightarrow> None
           | Some None \<Rightarrow> Some None
           | Some (Some hit) \<Rightarrow>
               let payload = im_payload hit;
                   event = populateInscriptionEvent (new_event (mt_TxIdHex tx) payload blockHeight (string_of_bytes (im_body hit)) txIdx)
                     payload (im_actorAddress hit) txSnapshot in
               Some (Some \<lparr>pp_Snapshot = txSnapshot, pp_Payload = payload, pp_Event = event\<rparr>)))"


section \<open>Exactly one revealed operation\<close>

definition hits :: "btc \<Rightarrow> TxIn list \<Rightarrow> inscriptionMatch list" where
  "hits b ins = List.map_filter (\<lambda>i. Option.bind (input_match b (ti_ScriptWitness i)) (\<lambda>m. m)) ins"

lemma match_loop_hits:
  assumes "\<forall>i \<in> set ins. input_match b (ti_ScriptWitness i) \<noteq> None"
  shows "match_loop b ins hit =
    Some (case (hit, hits b ins) of (h, []) \<Rightarrow> h | (None, [m]) \<Rightarrow> Some m | _ \<Rightarrow> None)"
  using assms
proof (induction ins arbitrary: hit)
  case Nil
  then show ?case by (cases hit) (simp_all add: hits_def List.map_filter_simps)
next
  case (Cons i ins)
  then obtain r where r: "input_match b (ti_ScriptWitness i) = Some r" by auto
  show ?case
  proof (cases r)
    case None
    then show ?thesis using Cons r by (simp add: hits_def List.map_filter_simps)
  next
    case (Some m)
    then show ?thesis using Cons r
      by (cases hit) (auto simp: hits_def List.map_filter_simps split: list.splits)
  qed
qed

text \<open>C26. A transaction carries an inscribed operation exactly when exactly one of its inputs reveals one: with none
  or with several it carries none, whatever their order and kind.\<close>

theorem parseStrict_exactly_one:
  assumes "\<forall>i \<in> set (mt_TxIns tx). input_match b (ti_ScriptWitness i) \<noteq> None"
  shows "parseStrictFIP101InscriptionFromTx b tx = Some (case hits b (mt_TxIns tx) of [m] \<Rightarrow> Some m | _ \<Rightarrow> None)"
  using match_loop_hits [OF assms, of None] by (simp add: parseStrictFIP101InscriptionFromTx_def split: list.splits)

lemma extractActor_reveal:
  assumes "length pk = 32" "1 \<le> code" "code \<le> 8"
  shows "extractActorPubKeyAndAddressTypeFromTapScript (reveal_script pk code ct cs) = Some (pk, FormatUint code)"
proof -
  let ?e = "envelope ct cs"
  define c where "c = (word_of_nat (0x50 + code) :: byte)"
  have u: "unat c = 0x50 + code" unfolding c_def using assms(3) by (subst unat_byte_of_nat) simp
  then have c: "\<not> OP_16 < c" "OP_1 \<le> c" using assms(2,3) by (simp_all add: word_le_nat_alt word_less_nat_alt op_defs)
  have "c - OP_1 + 1 = word_of_nat code" by (simp add: c_def op_defs)
  then have d: "unat (c - OP_1 + 1) = code" using assms(3) by (simp add: unat_byte_of_nat)
  have s: "reveal_script pk code ct cs = push pk @ OP_CHECKSIGVERIFY # c # ?e" by (simp add: reveal_script_def c_def)
  have e: "?e \<noteq> []" by (simp add: envelope_def)
  have g: "GetOpcodeFormScript (push pk @ OP_CHECKSIGVERIFY # c # ?e) = (length (push pk), Some pk, True, False)"
    using assms(1) by (intro GetOpcodeFormScript_push) simp_all
  have g1: "GetOpcodeFormScript (OP_CHECKSIGVERIFY # c # ?e) = (1, Some [OP_CHECKSIGVERIFY], False, True)"
    by (simp add: GetOpcodeFormScript_def op_defs)
  have g2: "GetOpcodeFormScript (c # ?e) = (1, Some [c - OP_1 + 1], True, True)"
    using c by (simp add: GetOpcodeFormScript_def)
  have range: "c - OP_1 + 1 \<noteq> 0" "\<not> c - OP_1 + 1 > 8"
    using d assms(2,3) by (simp_all add: word_less_nat_alt word_eq_unat_iff)
  have "drop (length (push pk)) (push pk @ OP_CHECKSIGVERIFY # c # ?e) = OP_CHECKSIGVERIFY # c # ?e"
    "drop (length (push pk) + 1) (push pk @ OP_CHECKSIGVERIFY # c # ?e) = c # ?e" by simp_all
  then show ?thesis
    unfolding extractActorPubKeyAndAddressTypeFromTapScript_def s
    using assms(1) e by (simp add: g g1 g2 range d Let_def)
qed

text \<open>A witness that reveals an operation: the reveal script second to last.\<close>

definition reveal_witness :: "byte list list \<Rightarrow> byte list \<Rightarrow> nat \<Rightarrow> byte list list \<Rightarrow> byte list \<Rightarrow> byte list list" where
  "reveal_witness sigs pk code cs control = sigs @ [reveal_script pk code (bytes_of_string fip101ContentType) cs, control]"

lemma input_match_reveal:
  assumes "length pk = 32" "1 \<le> code" "code \<le> 8" "list_all chunk_ok cs" "cs \<noteq> []"
    "length (wit_bytes (reveal_witness sigs pk code cs control)) < 2 ^ 64"
    "DeriveAddressFromPubKeyAndType b (hex_encode pk) (FormatUint code) = Some actor" "actor \<noteq> ''''"
    "ParseFIP101PayloadFromCSV b (string_of_bytes (concat cs)) pk actor (FormatUint code) = Inr p"
  shows "input_match b (wit_bytes (reveal_witness sigs pk code cs control)) =
    Some (Some \<lparr>im_payload = p, im_actorAddress = actor, im_body = concat cs\<rparr>)"
proof -
  let ?w = "reveal_witness sigs pk code cs control"
  let ?ct = "bytes_of_string fip101ContentType"
  let ?s = "reveal_script pk code ?ct cs"
  have ct: "chunk_ok ?ct" by (simp add: chunk_ok_def fip101ContentType_def)
  have t: "TrimSpace fip101ContentType = fip101ContentType" by code_simp
  have ne: "concat cs \<noteq> []" using assms(4,5) by (cases cs) (auto simp: chunk_ok_def)
  have w: "wit_bytes ?w \<noteq> []" by (simp add: wit_bytes_def varint_n_def EncodeVarIntForBlock_def)
  have i: "?w ! (length ?w - 2) = ?s" "\<not> length ?w < 2" by (simp_all add: reveal_witness_def nth_append)
  have s: "?s \<noteq> []" by (simp add: reveal_script_def)
  show ?thesis
    unfolding input_match_def
    using NewTxWit_bytes [OF assms(6)] w i s ne assms(7-9)
    by (simp add: Jubilee_reveal_script [OF assms(1-3) ct assms(4)] extractActor_reveal [OF assms(1-3)] new_nft_def Let_def t
        del: FormatUint.simps)
qed


lemma hits_single:
  assumes "list_all (\<lambda>i. ti_ScriptWitness i = []) before" "list_all (\<lambda>i. ti_ScriptWitness i = []) after"
    "input_match b (ti_ScriptWitness i) = Some (Some m)"
  shows "hits b (before @ i # after) = [m]"
proof -
  have "List.map_filter (\<lambda>i. Option.bind (input_match b (ti_ScriptWitness i)) (\<lambda>m. m)) xs = []"
    if "list_all (\<lambda>i. ti_ScriptWitness i = []) xs" for xs :: "TxIn list"
    using that by (induction xs) (simp_all add: List.map_filter_simps input_match_def)
  with assms show ?thesis by (simp add: hits_def List.map_filter_def)
qed

lemma reveal_parsed:
  assumes "length pk = 32" "1 \<le> code" "code \<le> 8" "list_all chunk_ok cs" "cs \<noteq> []"
    "length (wit_bytes (reveal_witness sigs pk code cs control)) < 2 ^ 64"
    "DeriveAddressFromPubKeyAndType b (hex_encode pk) (FormatUint code) = Some actor" "actor \<noteq> ''''"
    "ParseFIP101PayloadFromCSV b (string_of_bytes (concat cs)) pk actor (FormatUint code) = Inr p"
    "mt_TxIns tx = before @ i # after" "ti_ScriptWitness i = wit_bytes (reveal_witness sigs pk code cs control)"
    "list_all (\<lambda>i. ti_ScriptWitness i = []) before" "list_all (\<lambda>i. ti_ScriptWitness i = []) after"
    "mt_TxIdHex tx \<noteq> ''''" "parseFIP101ClaimRewardFromOutputs (snapshot_of_tx ad tx txIdx) = None"
  shows "ParseProtocolTxFromModelTx ad b tx txIdx h =
    Some (Some \<lparr>pp_Snapshot = snapshot_of_tx ad tx txIdx, pp_Payload = p,
      pp_Event = populateInscriptionEvent (new_event (mt_TxIdHex tx) p h (string_of_bytes (concat cs)) txIdx) p actor
        (snapshot_of_tx ad tx txIdx)\<rparr>)"
proof -
  have m: "input_match b (ti_ScriptWitness i) = Some (Some \<lparr>im_payload = p, im_actorAddress = actor, im_body = concat cs\<rparr>)"
    unfolding assms(11) by (rule input_match_reveal [OF assms(1-9)])
  have "\<forall>j \<in> set (mt_TxIns tx). input_match b (ti_ScriptWitness j) \<noteq> None"
    using m assms(10,12,13) by (auto simp: list_all_iff input_match_def)
  from match_loop_hits [OF this, of None] hits_single [OF assms(12,13) m]
  have "parseStrictFIP101InscriptionFromTx b tx = Some (Some \<lparr>im_payload = p, im_actorAddress = actor, im_body = concat cs\<rparr>)"
    by (simp add: parseStrictFIP101InscriptionFromTx_def assms(10))
  then show ?thesis
    unfolding ParseProtocolTxFromModelTx_def using assms(14,15) by (simp add: Let_def)
qed



definition sample_pk :: "byte list" where "sample_pk = replicate 32 3"

definition sample_csv :: string where
  "sample_csv = proof_csv (BuildIndexerID 1761438 1) 1830000 (replicate 32 0xab)"

definition sample_in :: TxIn where
  "sample_in = \<lparr>ti_InputHashHex = [], ti_InputHash = [], ti_InputVout = 0, ti_ScriptSig = [], ti_Sequence = 0,
     ti_ScriptWitness = wit_bytes (reveal_witness [[1]] sample_pk 1 [bytes_of_string sample_csv] [0xc0]),
     ti_InputOutpointKey = [], ti_InputOutpoint = []\<rparr>"

definition sample_tx :: "TxIn list \<Rightarrow> Tx" where
  "sample_tx ins = \<lparr>mt_Raw = [], mt_TxIdHex = ''aa'', mt_TxId = [], mt_Size = 0, mt_WitOffset = 0, mt_LockTime = 0,
     mt_Version = 2, mt_TxInCnt = 1, mt_TxOutCnt = 0, mt_TxIns = ins, mt_TxOuts = []\<rparr>"

lemma sample_pk_facts: "length sample_pk = 32" "hex_encode sample_pk \<noteq> ''''"
  by code_simp+

lemma sample_derive:
  "DeriveAddressFromPubKeyAndType sample_btc (hex_encode sample_pk) (FormatUint 1) = Some (hex_encode sample_pk)"
  by code_simp

lemma sample_reveal_len: "length (wit_bytes (reveal_witness [[1]] sample_pk 1 [bytes_of_string sample_csv] [0xc0])) < 2 ^ 64"
  by code_simp

lemma sample_chunk: "list_all chunk_ok [bytes_of_string sample_csv]"
  by code_simp

lemma sample_parse:
  "\<exists>p. ParseFIP101PayloadFromCSV sample_btc (string_of_bytes (concat [bytes_of_string sample_csv])) sample_pk
      (hex_encode sample_pk) (FormatUint 1) = Inr p \<and> pl_Tag p = TagProveStake \<and> payload_Get p [OpFieldIndexerID] = BuildIndexerID 1761438 1"
  using proof_csv_parses [of 1830000 "replicate 32 0xab" sample_btc 1761438 1 sample_pk "hex_encode sample_pk" "FormatUint 1"]
  by (simp add: sample_csv_def del: payload_Get.simps FormatUint.simps) blast


theorem parseStrict_exactly_one_witness:
  "parseStrictFIP101InscriptionFromTx sample_btc (sample_tx [sample_in, sample_in]) = Some None"
proof -
  obtain p where p: "ParseFIP101PayloadFromCSV sample_btc (string_of_bytes (concat [bytes_of_string sample_csv])) sample_pk
      (hex_encode sample_pk) (FormatUint 1) = Inr p"
    using sample_parse by (elim exE conjE)
  have "input_match sample_btc (ti_ScriptWitness sample_in) =
      Some (Some \<lparr>im_payload = p, im_actorAddress = hex_encode sample_pk, im_body = concat [bytes_of_string sample_csv]\<rparr>)"
    unfolding sample_in_def TxIn.select_convs
    by (rule input_match_reveal [OF sample_pk_facts(1) _ _ sample_chunk _ sample_reveal_len sample_derive sample_pk_facts(2) p]) simp_all
  with parseStrict_exactly_one [of "sample_tx [sample_in, sample_in]" sample_btc] show ?thesis
    by (simp add: sample_tx_def hits_def List.map_filter_simps)
qed


lemma sample_parsed:
  "\<exists>pp. ParseProtocolTxFromModelTx (\<lambda>_. None) sample_btc (sample_tx [sample_in]) i h = Some (Some pp) \<and> ev_TxID (pp_Event pp) = ''aa''"
proof -
  obtain p where p: "ParseFIP101PayloadFromCSV sample_btc (string_of_bytes (concat [bytes_of_string sample_csv])) sample_pk
      (hex_encode sample_pk) (FormatUint 1) = Inr p"
    using sample_parse by (elim exE conjE)
  have "\<exists>pp. ParseProtocolTxFromModelTx (\<lambda>_. None) sample_btc (sample_tx [sample_in]) i h = Some (Some pp) \<and>
      pp_Event pp = populateInscriptionEvent (new_event (mt_TxIdHex (sample_tx [sample_in])) p h
        (string_of_bytes (concat [bytes_of_string sample_csv])) i) p (hex_encode sample_pk) (snapshot_of_tx (\<lambda>_. None) (sample_tx [sample_in]) i)"
    by (subst reveal_parsed [OF sample_pk_facts(1) _ _ sample_chunk _ sample_reveal_len sample_derive sample_pk_facts(2) p(1),
          where before = "[]" and after = "[]" and i = sample_in])
      (simp_all add: sample_tx_def sample_in_def snapshot_of_tx_def parseFIP101ClaimRewardFromOutputs_def)
  then show ?thesis
    by (elim exE conjE) (intro exI conjI, assumption,
      simp add: populateInscriptionEvent_def new_event_def sample_tx_def Let_def split: option.splits del: payload_Get.simps)
qed

end
