(* ===== verification/FastPath.thy ===== *)
theory FastPath
  imports ProtocolTx Commission RewardTables
begin

text \<open>
  The fast path: \<^verbatim>\<open>internal/exec/manager\<close> (\<^verbatim>\<open>handler_protocol.go\<close>, \<^verbatim>\<open>handler_fastpath.go\<close>,
  \<^verbatim>\<open>business_invalid_flags.go\<close>, \<^verbatim>\<open>claim_input_addresses.go\<close>, \<^verbatim>\<open>legacy_indexer_claim_rewards.go\<close>) and the two
  interfaces of \<^verbatim>\<open>internal/entry/fast\<close> it implements. The Go interfaces \<^verbatim>\<open>BusinessInvalidDeps\<close> and
  \<^verbatim>\<open>BlockDeps\<close> are records of functions over the state of their receiver; the generic block handler takes the
  record, and the manager provides it. A handler returns the new manager or its error; none of them changes the
  manager before it fails. The log lines are left out.
\<close>

section \<open>Flags\<close>

definition BizInvalidNone :: u64 where "BizInvalidNone = 0"
definition BizInvalidIndexerNotFound :: u64 where "BizInvalidIndexerNotFound = 1"
definition BizInvalidActorNotOwner :: u64 where "BizInvalidActorNotOwner = 2"
definition BizInvalidRegisterRule :: u64 where "BizInvalidRegisterRule = 4"
definition BizInvalidProofRule :: u64 where "BizInvalidProofRule = 8"
definition BizInvalidStakeRule :: u64 where "BizInvalidStakeRule = 16"
definition BizInvalidClaimRule :: u64 where "BizInvalidClaimRule = 32"
definition BizInvalidCommissionRule :: u64 where "BizInvalidCommissionRule = 64"
definition BizInvalidUnknown :: u64 where "BizInvalidUnknown = 0x80000000"

lemmas flag_defs = BizInvalidNone_def BizInvalidIndexerNotFound_def BizInvalidActorNotOwner_def BizInvalidRegisterRule_def
  BizInvalidProofRule_def BizInvalidStakeRule_def BizInvalidClaimRule_def BizInvalidCommissionRule_def BizInvalidUnknown_def

definition bizInvalidReasonNames :: "u64 \<Rightarrow> string list" where
  "bizInvalidReasonNames flags =
     (if flags = BizInvalidNone then [''none'']
      else
        let reasons = map snd (filter (\<lambda>(bit, _). flags AND bit \<noteq> 0)
              [(BizInvalidIndexerNotFound, ''indexer_not_found''), (BizInvalidActorNotOwner, ''actor_not_owner''),
               (BizInvalidRegisterRule, ''register_rule''), (BizInvalidProofRule, ''proof_rule''),
               (BizInvalidStakeRule, ''stake_rule''), (BizInvalidClaimRule, ''claim_rule''),
               (BizInvalidCommissionRule, ''commission_rule''), (BizInvalidUnknown, ''unknown'')]) in
        if reasons = [] then [''unmapped''] else reasons)"

section \<open>Building rows\<close>

definition normalizeUserAddress :: "string \<Rightarrow> string" where
  "normalizeUserAddress address = TrimSpace address"

definition map_wait :: "(WaitForUpsert \<Rightarrow> WaitForUpsert) \<Rightarrow> Manager \<Rightarrow> Manager" where
  "map_wait f m = m\<lparr>waitForUpsert := f (waitForUpsert m)\<rparr>"

definition handleRegisterTx :: "u32 \<Rightarrow> TxSnapshot \<Rightarrow> OpReturnPayload \<Rightarrow> Manager \<Rightarrow> Manager" where
  "handleRegisterTx height tx payload m =
     (case ParseRatio (payload_Get payload [OpFieldIndexRatio]) of
        None \<Rightarrow> m
      | Some indexRatio \<Rightarrow>
        let rewardAddress = TrimSpace (payload_Get payload [OpFieldRewardAddr]) in
        if rewardAddress = '''' then m
        else
          let indexerID = BuildIndexerID height (tx_TxIdx tx);
              name0 = payload_Get payload [OpFieldIndexerName];
              name = (if name0 = '''' then indexerID else name0);
              row = \<lparr>reg_IndexerID = indexerID, reg_Name = name, reg_RewardAddress = rewardAddress,
                     reg_UserAddress = normalizeUserAddress (payload_Get payload [OpFieldActorAddr]),
                     reg_IndexRatio = indexRatio, reg_LastUpdateHeight = height, reg_RegisterTxID = tx_TxID tx,
                     reg_Height = height, reg_TxIdx = tx_TxIdx tx\<rparr> in
          map_wait (\<lambda>w. w\<lparr>StakeIndexerRegisterList := StakeIndexerRegisterList w @ [row]\<rparr>) m)"

definition buildStakeProofAtHeight ::
    "env \<Rightarrow> u32 \<Rightarrow> u32 \<Rightarrow> TxSnapshot \<Rightarrow> OpReturnPayload \<Rightarrow> Manager \<Rightarrow> mgr_error + StakeProof option" where
  "buildStakeProofAtHeight env validationHeight txHeight tx payload m =
     (case normalizeIndexerIDAtHeight (payload_Get payload [OpFieldIndexerID]) validationHeight of
        Inl e \<Rightarrow> Inl e
      | Inr indexerID \<Rightarrow>
        if indexerID = '''' then Inr None
        else case isIndexerRegistered env m indexerID of
          Inl e \<Rightarrow> Inl e
        | Inr registered \<Rightarrow>
          if \<not> registered then Inr None
          else
            let proveHeight = ParseUint32 (payload_Get payload [OpFieldBlockHeight]);
                dataHash = payload_Get payload [OpFieldBlockHash] in
            if proveHeight = 0 then Inr None
            else if dataHash = '''' then Inr None
            else Inr (Some \<lparr>sp_IndexerID = indexerID, sp_ProveBlockHeight = proveHeight, sp_ProveDataHash = dataHash,
                   sp_TxID = tx_TxID tx, sp_Height = txHeight, sp_TxIdx = tx_TxIdx tx, sp_VerifyStatus = 0\<rparr>))"

definition buildStakeProof :: "env \<Rightarrow> u32 \<Rightarrow> TxSnapshot \<Rightarrow> OpReturnPayload \<Rightarrow> Manager \<Rightarrow> mgr_error + StakeProof option" where
  "buildStakeProof env txHeight tx payload m = buildStakeProofAtHeight env txHeight txHeight tx payload m"

definition handleProofTx :: "env \<Rightarrow> u32 \<Rightarrow> TxSnapshot \<Rightarrow> OpReturnPayload \<Rightarrow> Manager \<Rightarrow> mgr_error + Manager" where
  "handleProofTx env txHeight tx payload m =
     (case buildStakeProof env txHeight tx payload m of
        Inl e \<Rightarrow> Inl e
      | Inr None \<Rightarrow> Inr m
      | Inr (Some proof) \<Rightarrow> Inr (map_wait (\<lambda>w. w\<lparr>StakeProofList := StakeProofList w @ [proof]\<rparr>) m))"

definition firstSpendableOutput :: "TxSnapshot \<Rightarrow> OutputSnapshot option" where
  "firstSpendableOutput tx = find (\<lambda>out. out_AddressKey out \<noteq> '''') (tx_Outputs tx)"

definition firstNonOpReturnOutput :: "TxSnapshot \<Rightarrow> OutputSnapshot option" where
  "firstNonOpReturnOutput tx =
     find (\<lambda>out. \<not> (length (out_PkScript out) > 0 \<and> out_PkScript out ! 0 = 0x6a) \<and> out_AddressKey out \<noteq> '''') (tx_Outputs tx)"

definition legacyIndexerClaimRewardFixes :: "(string, string) gomap" where
  "legacyIndexerClaimRewardFixes =
     [(''a56daf10ee0ba7f121292806ff39907a281f8c6c2da9f970c0530180ad88d451'', ''1842346:1''),
      (''3177448b0aa35555ea8ded4b05e523ef95d6ff2513917702c3dae2b1e28b66cb'', ''1851552:554''),
      (''9daecd5dd863b60fc4d43ed89dc6832d7d883dbd3634a0172d0ad89004bf3384'', ''1818297:10''),
      (''7870256b744efef7df0fe926e059d7b0fa29e65916998607bca147f210ce93d0'', ''1818297:10''),
      (''2519eaa8966eec692055c8e9396261cc0bc1c671750d51f6e2f5e4a0972cb5fb'', ''1851552:554''),
      (''8e5cc8711dae66f89c9b74ccdd33536f26614284eae554c0c19b75d83a99ef14'', ''1850357:1''),
      (''9392a0029d0d665fdb939e28ede851878b17cee8d74f75ef8bfe696917a0887f'', ''1761438:1''),
      (''8e382333fde5ffdb5748c55f7e40e88d2cb1f4b845a6d398ead736eddd77a007'', ''1761438:1''),
      (''be4a92e7cad3b6c84ecc8aad2fec4d362d80b750e25b0d0feaa307420d28a872'', ''1761438:1'')]"

definition ResolveLegacyIndexerClaimReward :: "string \<Rightarrow> string option" where
  "ResolveLegacyIndexerClaimReward txid = mget legacyIndexerClaimRewardFixes (TrimSpace txid)"

definition buildStakeClaimedReward ::
    "env \<Rightarrow> u32 \<Rightarrow> TxSnapshot \<Rightarrow> OpReturnPayload \<Rightarrow> Manager \<Rightarrow> mgr_error + StakeClaimedReward option" where
  "buildStakeClaimedReward env txHeight tx payload m =
     (if pl_Tag payload \<noteq> TagPledgedReward then Inr None
      else case firstSpendableOutput tx of
        None \<Rightarrow> Inr None
      | Some out \<Rightarrow>
        if TrimSpace (out_AddressKey out) = '''' \<or> out_Satoshi out = 0 then Inr None
        else if \<not> hasRewardClaimSenderInput m tx then Inr None
        else
          let payloadIndexerID = TrimSpace (payload_Get payload [OpFieldIndexerID]);
              claimType = TrimSpace (payload_Get payload [OpFieldRewardClaimType]);
              (indexerID, rewardType) =
                (if claimType = OpValueEarlySupporterReward then
                   (payloadIndexerID, if payloadIndexerID \<noteq> '''' then StakeRewardTypeEarlySupporterRewardIndexer
                                      else StakeRewardTypeEarlySupporterRewardStake)
                 else
                   let indexerID =
                     (if payloadIndexerID = '''' \<and> FixLegacyIndexerClaimRewards (m_cfg m) then
                        (case ResolveLegacyIndexerClaimReward (tx_TxID tx) of Some fixed \<Rightarrow> fixed | None \<Rightarrow> payloadIndexerID)
                      else payloadIndexerID) in
                   (indexerID, if indexerID \<noteq> '''' then StakeRewardTypeIndexer else StakeRewardTypeStake)) in
          case (if payloadIndexerID \<noteq> '''' then getIndexerUserAddress env m payloadIndexerID else Inr '''') of
            Inl e \<Rightarrow> Inl e
          | Inr indexerUserAddress \<Rightarrow>
            let userAddress = (if indexerUserAddress \<noteq> '''' then indexerUserAddress else TrimSpace (out_AddressKey out)) in
            Inr (Some \<lparr>cr_UserAddress = userAddress, cr_IndexerID = indexerID, cr_RewardType = rewardType,
              cr_Amount = out_Satoshi out, cr_TxID = tx_TxID tx, cr_Height = txHeight, cr_TxIdx = tx_TxIdx tx\<rparr>))"

definition handleClaimedRewardTx :: "env \<Rightarrow> u32 \<Rightarrow> TxSnapshot \<Rightarrow> OpReturnPayload \<Rightarrow> Manager \<Rightarrow> mgr_error + Manager" where
  "handleClaimedRewardTx env txHeight tx payload m =
     (case buildStakeClaimedReward env txHeight tx payload m of
        Inl e \<Rightarrow> Inl e
      | Inr None \<Rightarrow> Inr m
      | Inr (Some item) \<Rightarrow> Inr (map_wait (\<lambda>w. w\<lparr>StakeClaimedRewardList := StakeClaimedRewardList w @ [item]\<rparr>) m))"

record stakeTxBinding =
  stb_IndexerID :: string
  stb_UserAddress :: string
  stb_AddressType :: string
  stb_StakeAddress :: string
  stb_Amount :: u64

definition validateStakeTxWithPayload ::
    "env \<Rightarrow> btc \<Rightarrow> u32 \<Rightarrow> TxSnapshot \<Rightarrow> OpReturnPayload \<Rightarrow> Manager \<Rightarrow> mgr_error + stakeTxBinding option" where
  "validateStakeTxWithPayload env b height tx payload m =
     (case normalizeIndexerIDAtHeight (payload_Get payload [OpFieldIndexerID]) height of
        Inl _ \<Rightarrow> Inr None
      | Inr indexerID \<Rightarrow>
        if indexerID = '''' then Inr None
        else case isIndexerRegistered env m indexerID of
          Inl e \<Rightarrow> Inl e
        | Inr registered \<Rightarrow>
          if \<not> registered then Inr None
          else
            let pubKeyHex = TrimSpace (payload_Get payload [OpFieldActorPubKey, OpFieldPubKey]);
                addressTypeRaw = TrimSpace (payload_Get payload [OpFieldAddressType]) in
            if pubKeyHex = '''' then Inr None
            else if addressTypeRaw = '''' then Inr None
            else case ParseAddressTypeCode addressTypeRaw of
              None \<Rightarrow> Inr None
            | Some addressTypeCode \<Rightarrow>
              let addressType = FormatUint addressTypeCode in
              (case DeriveAddressFromPubKeyAndType b pubKeyHex addressType of
                 None \<Rightarrow> Inr None
               | Some userAddress \<Rightarrow>
                 if userAddress = '''' then Inr None
                 else case firstNonOpReturnOutput tx of
                   None \<Rightarrow> Inr None
                 | Some stakeOut \<Rightarrow>
                   if out_AddressKey stakeOut = '''' \<or> out_Satoshi stakeOut = 0 then Inr None
                   else case DeriveStakeAddress b indexerID pubKeyHex addressType of
                     None \<Rightarrow> Inl DeriveFailed
                   | Some derivedStakeAddress \<Rightarrow>
                     if \<not> EqualFold derivedStakeAddress (out_AddressKey stakeOut) then Inr None
                     else Inr (Some \<lparr>stb_IndexerID = indexerID, stb_UserAddress = userAddress, stb_AddressType = addressType,
                            stb_StakeAddress = out_AddressKey stakeOut, stb_Amount = out_Satoshi stakeOut\<rparr>)))"

definition handleStakeBindTxWithPayload ::
    "env \<Rightarrow> btc \<Rightarrow> u32 \<Rightarrow> TxSnapshot \<Rightarrow> OpReturnPayload \<Rightarrow> Manager \<Rightarrow> mgr_error + Manager" where
  "handleStakeBindTxWithPayload env b height tx payload m =
     (case validateStakeTxWithPayload env b height tx payload m of
        Inl e \<Rightarrow> Inl e
      | Inr None \<Rightarrow> Inr m
      | Inr (Some binding) \<Rightarrow>
        let row = \<lparr>sb_UserAddress = stb_UserAddress binding, sb_IndexerID = stb_IndexerID binding,
                   sb_AddressType = stb_AddressType binding, sb_StakeAddress = stb_StakeAddress binding, sb_Height = height,
                   sb_StakeTxID = tx_TxID tx, sb_StakeTxIdx = tx_TxIdx tx\<rparr> in
        Inr (cacheStakeBinding (stb_UserAddress binding) (stb_IndexerID binding) (stb_AddressType binding) (stb_StakeAddress binding)
          (map_wait (\<lambda>w. w\<lparr>StakeBindingList := StakeBindingList w @ [row]\<rparr>) m)))"


section \<open>Business validation\<close>

record 's BusinessInvalidDeps =
  bi_ResolveRegisterInvalidFlags :: "u32 \<Rightarrow> TxSnapshot \<Rightarrow> OpReturnPayload \<Rightarrow> 's \<Rightarrow> u64 \<times> 's"
  bi_ResolveUpdateRatioInvalidFlags :: "u32 \<Rightarrow> OpReturnPayload \<Rightarrow> 's \<Rightarrow> u64"
  bi_BuildStakeProof :: "u32 \<Rightarrow> TxSnapshot \<Rightarrow> OpReturnPayload \<Rightarrow> 's \<Rightarrow> mgr_error + bool"
  bi_ValidateStakeTx :: "u32 \<Rightarrow> TxSnapshot \<Rightarrow> OpReturnPayload \<Rightarrow> 's \<Rightarrow> mgr_error + bool"
  bi_BuildStakeClaimedReward :: "u32 \<Rightarrow> TxSnapshot \<Rightarrow> OpReturnPayload \<Rightarrow> 's \<Rightarrow> mgr_error + bool"

definition flag_unless :: "u64 \<Rightarrow> mgr_error + bool \<Rightarrow> u64" where
  "flag_unless flag r = (case r of Inl _ \<Rightarrow> flag | Inr ok \<Rightarrow> if ok then BizInvalidNone else flag)"

definition ResolveBusinessInvalidFlags ::
    "'s BusinessInvalidDeps \<Rightarrow> u32 \<Rightarrow> TxSnapshot \<Rightarrow> OpReturnPayload \<Rightarrow> 's \<Rightarrow> u64 \<times> 's" where
  "ResolveBusinessInvalidFlags deps currentHeight tx payload s =
     (if pl_Tag payload = TagRegister then
        if TrimSpace (payload_Get payload [OpFieldRewardAddr]) = '''' then (BizInvalidRegisterRule, s)
        else if ParseRatio (payload_Get payload [OpFieldIndexRatio]) = None then (BizInvalidRegisterRule, s)
        else bi_ResolveRegisterInvalidFlags deps currentHeight tx payload s
      else if pl_Tag payload = TagAllocatRatio then (bi_ResolveUpdateRatioInvalidFlags deps currentHeight payload s, s)
      else if pl_Tag payload = TagProveStake then
        (flag_unless BizInvalidProofRule (bi_BuildStakeProof deps currentHeight tx payload s), s)
      else if pl_Tag payload = TagStake then
        (flag_unless BizInvalidStakeRule (bi_ValidateStakeTx deps currentHeight tx payload s), s)
      else if pl_Tag payload = TagPledgedReward then
        (flag_unless BizInvalidClaimRule (bi_BuildStakeClaimedReward deps currentHeight tx payload s), s)
      else (BizInvalidUnknown, s))"

definition hasStagedRegisterOwner :: "Manager \<Rightarrow> string \<Rightarrow> bool" where
  "hasStagedRegisterOwner m userAddress0 =
     (let userAddress = normalizeUserAddress userAddress0 in
      if userAddress = '''' then False
      else list_ex (\<lambda>r. normalizeUserAddress (reg_UserAddress r) = userAddress)
             (rev (StakeIndexerRegisterList (waitForUpsert m))))"

definition resolveRegisterInvalidFlags ::
    "env \<Rightarrow> u32 \<Rightarrow> TxSnapshot \<Rightarrow> OpReturnPayload \<Rightarrow> Manager \<Rightarrow> u64 \<times> Manager" where
  "resolveRegisterInvalidFlags env currentHeight tx payload m =
     (let userAddress = normalizeUserAddress (payload_Get payload [OpFieldActorAddr]) in
      if userAddress = '''' then (BizInvalidRegisterRule, m)
      else case ParseRatio (payload_Get payload [OpFieldIndexRatio]) of
        None \<Rightarrow> (BizInvalidRegisterRule, m)
      | Some ratio \<Rightarrow>
        if \<not> isValidCommissionRatio ratio then (BizInvalidRegisterRule, m)
        else if userAddress \<in> registerOwnerSeen m then (BizInvalidRegisterRule, m)
        else if hasStagedRegisterOwner m userAddress then (BizInvalidRegisterRule, m)
        else case ExistsStakeIndexerRegisterByUserAddress env userAddress of
          Inl _ \<Rightarrow> (BizInvalidUnknown, m)
        | Inr exists \<Rightarrow>
          if exists then (BizInvalidRegisterRule, m)
          else (BizInvalidNone, m\<lparr>registerOwnerSeen := insert userAddress (registerOwnerSeen m)\<rparr>))"

definition resolveUpdateRatioInvalidFlags :: "env \<Rightarrow> u32 \<Rightarrow> OpReturnPayload \<Rightarrow> Manager \<Rightarrow> u64" where
  "resolveUpdateRatioInvalidFlags env currentHeight payload m =
     (case normalizeIndexerIDAtHeight (payload_Get payload [OpFieldIndexerID]) currentHeight of
        Inl _ \<Rightarrow> BizInvalidIndexerNotFound
      | Inr indexerID \<Rightarrow>
        if TrimSpace indexerID = '''' then BizInvalidIndexerNotFound
        else case getIndexerUserAddressForAuth env m indexerID of
          Inl _ \<Rightarrow> BizInvalidIndexerNotFound
        | Inr userAddress \<Rightarrow>
          if TrimSpace userAddress = '''' then BizInvalidIndexerNotFound
          else
            let actorAddress = TrimSpace (payload_Get payload [OpFieldActorAddr]) in
            if actorAddress = '''' \<or> actorAddress \<noteq> userAddress then BizInvalidActorNotOwner
            else case ParseRatio (payload_Get payload [OpFieldIndexRatio]) of
              None \<Rightarrow> BizInvalidCommissionRule
            | Some ratio \<Rightarrow>
              if \<not> isValidCommissionRatio ratio then BizInvalidCommissionRule
              else case hasUneffectiveDelayedCommissionRatio env m indexerID currentHeight of
                Inl _ \<Rightarrow> BizInvalidUnknown
              | Inr hasDelayed \<Rightarrow> if hasDelayed then BizInvalidCommissionRule else BizInvalidNone)"

definition managerBusinessInvalidDeps :: "env \<Rightarrow> btc \<Rightarrow> Manager BusinessInvalidDeps" where
  "managerBusinessInvalidDeps env b =
     \<lparr>bi_ResolveRegisterInvalidFlags = resolveRegisterInvalidFlags env,
      bi_ResolveUpdateRatioInvalidFlags = resolveUpdateRatioInvalidFlags env,
      bi_BuildStakeProof = (\<lambda>h tx p m. map_sum id (\<lambda>item. item \<noteq> None) (buildStakeProofAtHeight env h h tx p m)),
      bi_ValidateStakeTx = (\<lambda>h tx p m. map_sum id (\<lambda>item. item \<noteq> None) (validateStakeTxWithPayload env b h tx p m)),
      bi_BuildStakeClaimedReward = (\<lambda>h tx p m. map_sum id (\<lambda>item. item \<noteq> None) (buildStakeClaimedReward env h tx p m))\<rparr>"

definition resolveBusinessInvalidFlags ::
    "env \<Rightarrow> btc \<Rightarrow> u32 \<Rightarrow> TxSnapshot \<Rightarrow> OpReturnPayload \<Rightarrow> Manager \<Rightarrow> u64 \<times> Manager" where
  "resolveBusinessInvalidFlags env b = ResolveBusinessInvalidFlags (managerBusinessInvalidDeps env b)"

section \<open>The block handler\<close>

record 's BlockDeps =
  bd_FillTxInputAddresses :: "TxSnapshot \<Rightarrow> Block \<Rightarrow> TxSnapshot"
  bd_ResolveBusinessInvalidFlags :: "u32 \<Rightarrow> TxSnapshot \<Rightarrow> OpReturnPayload \<Rightarrow> 's \<Rightarrow> u64 \<times> 's"
  bd_HandleRegisterTx :: "u32 \<Rightarrow> TxSnapshot \<Rightarrow> OpReturnPayload \<Rightarrow> 's \<Rightarrow> mgr_error + 's"
  bd_HandleProofTx :: "u32 \<Rightarrow> TxSnapshot \<Rightarrow> OpReturnPayload \<Rightarrow> 's \<Rightarrow> mgr_error + 's"
  bd_HandleClaimedRewardTx :: "u32 \<Rightarrow> TxSnapshot \<Rightarrow> OpReturnPayload \<Rightarrow> 's \<Rightarrow> mgr_error + 's"
  bd_HandleStakeBindTxWithPayload :: "u32 \<Rightarrow> TxSnapshot \<Rightarrow> OpReturnPayload \<Rightarrow> 's \<Rightarrow> mgr_error + 's"
  bd_HandleUpdateRatioTxLatest :: "u32 \<Rightarrow> TxSnapshot \<Rightarrow> OpReturnPayload \<Rightarrow> 's \<Rightarrow> mgr_error + 's"
  bd_AppendFIP101InscriptionEvent :: "FIP101InscriptionEvent \<Rightarrow> 's \<Rightarrow> 's"

text \<open>The switch over the payload's tag.\<close>

definition dispatch :: "'s BlockDeps \<Rightarrow> u32 \<Rightarrow> TxSnapshot \<Rightarrow> OpReturnPayload \<Rightarrow> 's \<Rightarrow> mgr_error + 's" where
  "dispatch deps height tx payload s =
     (if pl_Tag payload = TagRegister then bd_HandleRegisterTx deps height tx payload s
      else if pl_Tag payload = TagProveStake then bd_HandleProofTx deps height tx payload s
      else if pl_Tag payload = TagPledgedReward then bd_HandleClaimedRewardTx deps height tx payload s
      else if pl_Tag payload = TagStake then bd_HandleStakeBindTxWithPayload deps height tx payload s
      else if pl_Tag payload = TagAllocatRatio then bd_HandleUpdateRatioTxLatest deps height tx payload s
      else Inr s)"

text \<open>One transaction of the loop, once parsed.\<close>

definition handle_parsed :: "'s BlockDeps \<Rightarrow> Block \<Rightarrow> ParsedProtocolTx \<Rightarrow> 's \<Rightarrow> mgr_error + 's" where
  "handle_parsed deps block parsed s =
     (let tx = bd_FillTxInputAddresses deps (pp_Snapshot parsed) block;
          payload = pp_Payload parsed;
          (flags, s1) = bd_ResolveBusinessInvalidFlags deps (mb_Height block) tx payload s in
      case (if flags = BizInvalidNone then dispatch deps (mb_Height block) tx payload s1 else Inr s1) of
        Inl e \<Rightarrow> Inl e
      | Inr s2 \<Rightarrow> Inr (bd_AppendFIP101InscriptionEvent deps ((pp_Event parsed)\<lparr>ev_BizInvalidFlags := flags\<rparr>) s2))"

fun block_loop :: "addrs \<Rightarrow> btc \<Rightarrow> 's BlockDeps \<Rightarrow> Block \<Rightarrow> (nat \<times> Tx) list \<Rightarrow> 's \<Rightarrow> (mgr_error + 's) option" where
  "block_loop ad b deps block [] s = Some (Inr s)"
| "block_loop ad b deps block ((txIdx, tx) # rest) s =
     (case ParseProtocolTxFromModelTx ad b tx (word_of_nat txIdx) (int (unat (mb_Height block))) of
        None \<Rightarrow> None
      | Some None \<Rightarrow> block_loop ad b deps block rest s
      | Some (Some parsed) \<Rightarrow>
          (case handle_parsed deps block parsed s of
             Inl e \<Rightarrow> Some (Inl e)
           | Inr s' \<Rightarrow> block_loop ad b deps block rest s'))"

definition HandleBlockByDeps :: "addrs \<Rightarrow> btc \<Rightarrow> 's BlockDeps \<Rightarrow> Block \<Rightarrow> 's \<Rightarrow> (mgr_error + 's) option" where
  "HandleBlockByDeps ad b deps block s = block_loop ad b deps block (enumerate 0 (mb_Txs block)) s"

section \<open>The manager's implementation\<close>

definition fillTxInputAddressesFromBlock :: "addrs \<Rightarrow> TxSnapshot \<Rightarrow> Block \<Rightarrow> TxSnapshot" where
  "fillTxInputAddressesFromBlock ad tx block =
     (case mb_ParseData block of
        None \<Rightarrow> tx
      | Some pd \<Rightarrow>
          tx\<lparr>tx_Inputs := map (\<lambda>i.
            if in_OutpointKey i = '''' then i
            else case mget (pb_SpentUtxoDataMap pd) (in_OutpointKey i) of
              None \<Rightarrow> i
            | Some data \<Rightarrow>
                let address = TrimSpace (AddressFromTxoData ad (Some data)) in
                if address = '''' then i else i\<lparr>in_AddressKey := address, in_Satoshi := td_Satoshi data\<rparr>) (tx_Inputs tx)\<rparr>)"

definition append_event :: "FIP101InscriptionEvent \<Rightarrow> Manager \<Rightarrow> Manager" where
  "append_event event m = map_wait (\<lambda>w. w\<lparr>FIP101InscriptionEvents := FIP101InscriptionEvents w @ [event]\<rparr>) m"

definition managerFastBlockDeps :: "addrs \<Rightarrow> env \<Rightarrow> btc \<Rightarrow> Manager BlockDeps" where
  "managerFastBlockDeps ad env b =
     \<lparr>bd_FillTxInputAddresses = fillTxInputAddressesFromBlock ad,
      bd_ResolveBusinessInvalidFlags = resolveBusinessInvalidFlags env b,
      bd_HandleRegisterTx = (\<lambda>h tx p m. Inr (handleRegisterTx h tx p m)),
      bd_HandleProofTx = handleProofTx env,
      bd_HandleClaimedRewardTx = handleClaimedRewardTx env,
      bd_HandleStakeBindTxWithPayload = handleStakeBindTxWithPayload env b,
      bd_HandleUpdateRatioTxLatest = (\<lambda>h tx p m. handleUpdateRatioTxLatest env h p m),
      bd_AppendFIP101InscriptionEvent = append_event\<rparr>"

definition resetRegisterOwnerSeen :: "Manager \<Rightarrow> Manager" where
  "resetRegisterOwnerSeen m = m\<lparr>registerOwnerSeen := {}\<rparr>"

definition HandleFastBlock :: "addrs \<Rightarrow> env \<Rightarrow> btc \<Rightarrow> Block \<Rightarrow> Manager \<Rightarrow> (mgr_error + Manager) option" where
  "HandleFastBlock ad env b block m = HandleBlockByDeps ad b (managerFastBlockDeps ad env b) block (resetRegisterOwnerSeen m)"


section \<open>What acceptance means\<close>

declare payload_Get.simps [simp del]

lemma flag_unless_none: "f \<noteq> BizInvalidNone \<Longrightarrow> flag_unless f r = BizInvalidNone \<longleftrightarrow> r = Inr True"
  by (auto simp: flag_unless_def split: sum.splits)

lemma flags_ne [simp]:
  "BizInvalidRegisterRule \<noteq> BizInvalidNone" "BizInvalidUnknown \<noteq> BizInvalidNone" "BizInvalidProofRule \<noteq> BizInvalidNone"
  "BizInvalidStakeRule \<noteq> BizInvalidNone" "BizInvalidClaimRule \<noteq> BizInvalidNone" "BizInvalidIndexerNotFound \<noteq> BizInvalidNone"
  "BizInvalidActorNotOwner \<noteq> BizInvalidNone" "BizInvalidCommissionRule \<noteq> BizInvalidNone"
  by (simp_all add: flag_defs)

lemma tag_ne [simp]:
  "TagRegister \<noteq> TagProveStake" "TagRegister \<noteq> TagPledgedReward" "TagRegister \<noteq> TagStake" "TagRegister \<noteq> TagAllocatRatio"
  "TagProveStake \<noteq> TagRegister" "TagProveStake \<noteq> TagPledgedReward" "TagProveStake \<noteq> TagStake" "TagProveStake \<noteq> TagAllocatRatio"
  "TagPledgedReward \<noteq> TagRegister" "TagPledgedReward \<noteq> TagProveStake" "TagPledgedReward \<noteq> TagStake" "TagPledgedReward \<noteq> TagAllocatRatio"
  "TagStake \<noteq> TagRegister" "TagStake \<noteq> TagProveStake" "TagStake \<noteq> TagPledgedReward" "TagStake \<noteq> TagAllocatRatio"
  "TagAllocatRatio \<noteq> TagRegister" "TagAllocatRatio \<noteq> TagProveStake" "TagAllocatRatio \<noteq> TagPledgedReward" "TagAllocatRatio \<noteq> TagStake"
  using tags_distinct by auto

lemma map_sum_Inr_True: "map_sum id (\<lambda>item. \<exists>y. item = Some y) r = Inr True \<longleftrightarrow> (\<exists>x. r = Inr (Some x))"
  by (cases r) auto

definition owners :: "Manager \<Rightarrow> string list" where
  "owners m = map (\<lambda>r. normalizeUserAddress (reg_UserAddress r)) (StakeIndexerRegisterList (waitForUpsert m))"

definition db_owners :: "env \<Rightarrow> string set" where
  "db_owners env = reg_UserAddress ` set (db_registers env)"

lemma resolve_rejects:
  assumes "resolveBusinessInvalidFlags env b h tx p m = (f, m1)" "f \<noteq> BizInvalidNone"
  shows "m1 = m"
  using assms
  by (auto simp: resolveBusinessInvalidFlags_def ResolveBusinessInvalidFlags_def managerBusinessInvalidDeps_def
      resolveRegisterInvalidFlags_def Let_def split: if_splits option.splits sum.splits)

lemma accept_register:
  assumes "resolveBusinessInvalidFlags env b h tx p m = (BizInvalidNone, m1)" "pl_Tag p = TagRegister"
  shows "\<exists>row. handleRegisterTx h tx p m1 = map_wait (\<lambda>w. w\<lparr>StakeIndexerRegisterList := StakeIndexerRegisterList w @ [row]\<rparr>) m1 \<and>
    reg_UserAddress row = normalizeUserAddress (payload_Get p [OpFieldActorAddr]) \<and>
    reg_IndexerID row = BuildIndexerID h (tx_TxIdx tx) \<and> reg_UserAddress row \<noteq> '''' \<and>
    reg_UserAddress row \<notin> set (owners m) \<and> reg_UserAddress row \<notin> db_owners env \<and> isValidCommissionRatio (reg_IndexRatio row) \<and>
    m1 = m\<lparr>registerOwnerSeen := insert (reg_UserAddress row) (registerOwnerSeen m)\<rparr>"
proof -
  let ?u = "normalizeUserAddress (payload_Get p [OpFieldActorAddr])"
  have *: "resolveRegisterInvalidFlags env h tx p m = (BizInvalidNone, m1)"
    "TrimSpace (payload_Get p [OpFieldRewardAddr]) \<noteq> ''''"
    using assms
    by (simp_all add: resolveBusinessInvalidFlags_def ResolveBusinessInvalidFlags_def managerBusinessInvalidDeps_def split: if_splits)
  obtain ratio where r: "ParseRatio (payload_Get p [OpFieldIndexRatio]) = Some ratio" "isValidCommissionRatio ratio"
    using *(1) by (auto simp: resolveRegisterInvalidFlags_def Let_def split: if_splits option.splits sum.splits)
  have u: "?u \<noteq> ''''" "\<not> hasStagedRegisterOwner m ?u" "ExistsStakeIndexerRegisterByUserAddress env ?u = Inr False"
    "m1 = m\<lparr>registerOwnerSeen := insert ?u (registerOwnerSeen m)\<rparr>"
    using *(1) r by (auto simp: resolveRegisterInvalidFlags_def Let_def split: if_splits sum.splits)
  have "TrimSpace ?u = ?u" by (simp add: normalizeUserAddress_def)
  with u(1-3) have "?u \<notin> set (owners m)" "?u \<notin> db_owners env"
    by (auto simp: hasStagedRegisterOwner_def owners_def db_owners_def list_ex_iff normalizeUserAddress_def
        ExistsStakeIndexerRegisterByUserAddress_def Let_def split: if_splits)
  with u r *(2) show ?thesis by (auto simp: handleRegisterTx_def Let_def)
qed

lemma accept_proof:
  assumes "resolveBusinessInvalidFlags env b h tx p m = (BizInvalidNone, m1)" "pl_Tag p = TagProveStake"
  shows "m1 = m \<and> (\<exists>row. buildStakeProof env h tx p m = Inr (Some row) \<and>
    handleProofTx env h tx p m = Inr (map_wait (\<lambda>w. w\<lparr>StakeProofList := StakeProofList w @ [row]\<rparr>) m))"
proof -
  have "m1 = m" "flag_unless BizInvalidProofRule (bi_BuildStakeProof (managerBusinessInvalidDeps env b) h tx p m) = BizInvalidNone"
    using assms by (auto simp: resolveBusinessInvalidFlags_def ResolveBusinessInvalidFlags_def)
  then show ?thesis
    by (auto simp: flag_unless_none managerBusinessInvalidDeps_def map_sum_Inr_True buildStakeProof_def handleProofTx_def)
qed

lemma accept_stake:
  assumes "resolveBusinessInvalidFlags env b h tx p m = (BizInvalidNone, m1)" "pl_Tag p = TagStake"
  shows "m1 = m \<and> (\<exists>bd. validateStakeTxWithPayload env b h tx p m = Inr (Some bd))"
proof -
  have "m1 = m" "flag_unless BizInvalidStakeRule (bi_ValidateStakeTx (managerBusinessInvalidDeps env b) h tx p m) = BizInvalidNone"
    using assms by (auto simp: resolveBusinessInvalidFlags_def ResolveBusinessInvalidFlags_def)
  then show ?thesis by (auto simp: flag_unless_none managerBusinessInvalidDeps_def map_sum_Inr_True)
qed

lemma accept_claim:
  assumes "resolveBusinessInvalidFlags env b h tx p m = (BizInvalidNone, m1)" "pl_Tag p = TagPledgedReward"
  shows "m1 = m \<and> (\<exists>row. buildStakeClaimedReward env h tx p m = Inr (Some row) \<and>
    handleClaimedRewardTx env h tx p m = Inr (map_wait (\<lambda>w. w\<lparr>StakeClaimedRewardList := StakeClaimedRewardList w @ [row]\<rparr>) m))"
proof -
  have "m1 = m" "flag_unless BizInvalidClaimRule (bi_BuildStakeClaimedReward (managerBusinessInvalidDeps env b) h tx p m) = BizInvalidNone"
    using assms by (auto simp: resolveBusinessInvalidFlags_def ResolveBusinessInvalidFlags_def)
  then show ?thesis by (auto simp: flag_unless_none managerBusinessInvalidDeps_def map_sum_Inr_True handleClaimedRewardTx_def)
qed

lemma accept_ratio:
  assumes "resolveBusinessInvalidFlags env b h tx p m = (BizInvalidNone, m1)" "pl_Tag p = TagAllocatRatio" "\<not> pendingRewardMode m"
  shows "m1 = m \<and> (\<exists>indexerID ratio. validateUpdateRatioTx env h p m = Inr (Some (indexerID, ratio)) \<and>
    (\<exists>d. loadDelayedCommissionRatio env m REDIS_STAKE_INDEXER_DELAYED_COMMISSION_KEY indexerID = Inr d \<and>
       (\<forall>item. d = Some item \<longrightarrow> dc_EffectiveHeight item \<le> h)))"
proof -
  have *: "m1 = m" "resolveUpdateRatioInvalidFlags env h p m = BizInvalidNone"
    using assms by (auto simp: resolveBusinessInvalidFlags_def ResolveBusinessInvalidFlags_def managerBusinessInvalidDeps_def)
  obtain indexerID where i: "normalizeIndexerIDAtHeight (payload_Get p [OpFieldIndexerID]) h = Inr indexerID" "TrimSpace indexerID \<noteq> ''''"
    using *(2) by (auto simp: resolveUpdateRatioInvalidFlags_def split: sum.splits if_splits)
  obtain u where u: "getIndexerUserAddressForAuth env m indexerID = Inr u" "TrimSpace u \<noteq> ''''"
    "TrimSpace (payload_Get p [OpFieldActorAddr]) = u"
    using *(2) i by (auto simp: resolveUpdateRatioInvalidFlags_def Let_def split: sum.splits if_splits)
  obtain ratio where r: "ParseRatio (payload_Get p [OpFieldIndexRatio]) = Some ratio" "isValidCommissionRatio ratio"
    "hasUneffectiveDelayedCommissionRatio env m indexerID h = Inr False"
    using *(2) i u by (auto simp: resolveUpdateRatioInvalidFlags_def Let_def split: sum.splits if_splits option.splits)
  have ne: "indexerID \<noteq> ''''" "u \<noteq> ''''" "payload_Get p [OpFieldIndexerID] \<noteq> ''''"
    using i u by (auto simp: normalizeIndexerIDAtHeight_def)
  have "validateUpdateRatioTx env h p m = Inr (Some (indexerID, ratio))"
    unfolding validateUpdateRatioTx_def using ne i u r by (simp add: Let_def)
  moreover have "\<exists>d. loadDelayedCommissionRatio env m REDIS_STAKE_INDEXER_DELAYED_COMMISSION_KEY indexerID = Inr d \<and>
       (\<forall>item. d = Some item \<longrightarrow> dc_EffectiveHeight item \<le> h)"
    using r(3) by (auto simp: hasUneffectiveDelayedCommissionRatio_def split: sum.splits option.splits)
  ultimately show ?thesis using * by blast
qed


section \<open>The contract of a block handler\<close>

text \<open>What \<^verbatim>\<open>HandleBlockByDeps\<close> relies on: an operation that passes validation is handled without an error and keeps
  the invariant, a rejected one leaves the state alone, and the event log only grows by the appended event.\<close>

locale block_contract =
  fixes deps :: "'s BlockDeps" and inv :: "'s \<Rightarrow> bool" and log :: "'s \<Rightarrow> FIP101InscriptionEvent list"
  assumes accept: "inv s \<Longrightarrow> bd_ResolveBusinessInvalidFlags deps h tx p s = (BizInvalidNone, s1) \<Longrightarrow>
      \<exists>s2. dispatch deps h tx p s1 = Inr s2 \<and> inv s2 \<and> log s2 = log s"
    and reject: "inv s \<Longrightarrow> bd_ResolveBusinessInvalidFlags deps h tx p s = (f, s1) \<Longrightarrow> f \<noteq> BizInvalidNone \<Longrightarrow> s1 = s"
    and append: "inv s \<Longrightarrow> inv (bd_AppendFIP101InscriptionEvent deps e s) \<and> log (bd_AppendFIP101InscriptionEvent deps e s) = log s @ [e]"
begin

lemma handle_parsed_ok:
  assumes "inv s"
  shows "\<exists>s' f. handle_parsed deps block parsed s = Inr s' \<and> inv s' \<and> log s' = log s @ [(pp_Event parsed)\<lparr>ev_BizInvalidFlags := f\<rparr>]"
proof -
  let ?tx = "bd_FillTxInputAddresses deps (pp_Snapshot parsed) block"
  obtain f s1 where f: "bd_ResolveBusinessInvalidFlags deps (mb_Height block) ?tx (pp_Payload parsed) s = (f, s1)"
    by (cases "bd_ResolveBusinessInvalidFlags deps (mb_Height block) ?tx (pp_Payload parsed) s")
  obtain s2 where s2: "(if f = BizInvalidNone then dispatch deps (mb_Height block) ?tx (pp_Payload parsed) s1 else Inr s1) = Inr s2"
    "inv s2" "log s2 = log s"
  proof (cases "f = BizInvalidNone")
    case True
    with accept [OF assms, of "mb_Height block" ?tx "pp_Payload parsed" s1] f that show ?thesis by auto
  next
    case False
    with reject [OF assms f] that assms show ?thesis by auto
  qed
  then have "handle_parsed deps block parsed s = Inr (bd_AppendFIP101InscriptionEvent deps ((pp_Event parsed)\<lparr>ev_BizInvalidFlags := f\<rparr>) s2)"
    by (simp add: handle_parsed_def f)
  with append [OF s2(2)] s2(3) show ?thesis by auto
qed

lemma block_loop_ok:
  assumes "inv s" "\<forall>(i, t) \<in> set txs. ParseProtocolTxFromModelTx ad b t (word_of_nat i) (int (unat (mb_Height block))) \<noteq> None"
  shows "\<exists>s' es. block_loop ad b deps block txs s = Some (Inr s') \<and> inv s' \<and> log s' = log s @ es \<and>
    map ev_TxID es = map (\<lambda>pp. ev_TxID (pp_Event pp)) (List.map_filter (\<lambda>(i, t). Option.bind
      (ParseProtocolTxFromModelTx ad b t (word_of_nat i) (int (unat (mb_Height block)))) (\<lambda>x. x)) txs)"
  using assms
proof (induction txs arbitrary: s)
  case Nil
  then show ?case by (simp add: List.map_filter_simps)
next
  case (Cons it txs)
  obtain i t where it: "it = (i, t)" by (cases it)
  let ?parse = "ParseProtocolTxFromModelTx ad b t (word_of_nat i) (int (unat (mb_Height block)))"
  obtain r where r: "?parse = Some r" using Cons.prems(2) it by auto
  show ?case
  proof (cases r)
    case None
    then show ?thesis using Cons.IH [OF Cons.prems(1)] Cons.prems(2) it r by (simp add: List.map_filter_simps)
  next
    case (Some parsed)
    obtain s1 f where s1: "handle_parsed deps block parsed s = Inr s1" "inv s1"
      "log s1 = log s @ [(pp_Event parsed)\<lparr>ev_BizInvalidFlags := f\<rparr>]"
      using handle_parsed_ok [OF Cons.prems(1)] by blast
    obtain s' es where "block_loop ad b deps block txs s1 = Some (Inr s')" "inv s'" "log s' = log s1 @ es"
      "map ev_TxID es = map (\<lambda>pp. ev_TxID (pp_Event pp)) (List.map_filter (\<lambda>(i, t). Option.bind
        (ParseProtocolTxFromModelTx ad b t (word_of_nat i) (int (unat (mb_Height block)))) (\<lambda>x. x)) txs)"
      using Cons.IH [OF s1(2)] Cons.prems(2) by auto
    then show ?thesis using it r Some s1
      by (intro exI [of _ s'] exI [of _ "(pp_Event parsed)\<lparr>ev_BizInvalidFlags := f\<rparr> # es"]) (simp add: List.map_filter_simps)
  qed
qed

end

section \<open>The manager keeps the contract\<close>

definition owner_inv :: "env \<Rightarrow> Manager \<Rightarrow> bool" where
  "owner_inv env m \<longleftrightarrow> \<not> pendingRewardMode m \<and> distinct (owners m) \<and>
     (\<forall>u \<in> set (owners m). u \<noteq> '''' \<and> u \<notin> db_owners env)"

definition event_log :: "Manager \<Rightarrow> FIP101InscriptionEvent list" where
  "event_log m = FIP101InscriptionEvents (waitForUpsert m)"

definition same_stage :: "Manager \<Rightarrow> Manager \<Rightarrow> bool" where
  "same_stage m m' \<longleftrightarrow> pendingRewardMode m' = pendingRewardMode m \<and> owners m' = owners m \<and> event_log m' = event_log m"

lemma same_stage_inv: "same_stage m m' \<Longrightarrow> owner_inv env m \<Longrightarrow> owner_inv env m'"
  by (simp add: same_stage_def owner_inv_def)

lemma same_stage_wait:
  assumes "StakeIndexerRegisterList (f (waitForUpsert m)) = StakeIndexerRegisterList (waitForUpsert m)"
    "FIP101InscriptionEvents (f (waitForUpsert m)) = FIP101InscriptionEvents (waitForUpsert m)"
  shows "same_stage m (map_wait f m)"
  using assms by (simp add: same_stage_def map_wait_def owners_def event_log_def)

lemma same_stage_cache: "same_stage m m' \<Longrightarrow> same_stage m (cacheStakeBinding u i a t m')"
  by (simp add: same_stage_def cacheStakeBinding_def owners_def event_log_def Let_def)

lemma same_stage_slow: "same_stage m (m\<lparr>slowState := s\<rparr>)"
  by (simp add: same_stage_def owners_def event_log_def)

lemma handleUpdateRatioTxLatest_accepted:
  assumes "validateUpdateRatioTx env h p m = Inr (Some (indexerID, ratio))" "\<not> pendingRewardMode m"
    "loadDelayedCommissionRatio env m REDIS_STAKE_INDEXER_DELAYED_COMMISSION_KEY indexerID = Inr d"
  shows "\<exists>s. handleUpdateRatioTxLatest env h p m = Inr (m\<lparr>slowState := s\<rparr>)"
proof -
  have k: "getIndexerInfoDelayedCommissionKey m = REDIS_STAKE_INDEXER_DELAYED_COMMISSION_KEY"
    using assms(2) by (simp add: getIndexerInfoDelayedCommissionKey_def)
  have "\<exists>s. stageCommissionRatioForHeight env h indexerID REDIS_STAKE_INDEXER_DELAYED_COMMISSION_KEY
      (getIndexerInfoKey m indexerID) ''index_ratio'' m = Inr (m\<lparr>slowState := s\<rparr>)"
    using assms(3) by (auto simp: stageCommissionRatioForHeight_def m_stageHSet_def split: option.splits
        intro: exI [of _ "slowState m"])
  then show ?thesis using assms(1) k
    by (auto simp: handleUpdateRatioTxLatest_def handleUpdateRatioTx_def stageDelayedCommissionRatio_def m_stageHSet_def Let_def)
qed

interpretation manager: block_contract "managerFastBlockDeps ad env b" "owner_inv env" event_log
proof
  fix m h tx p m1
  assume inv: "owner_inv env m" and "bd_ResolveBusinessInvalidFlags (managerFastBlockDeps ad env b) h tx p m = (BizInvalidNone, m1)"
  then have res: "resolveBusinessInvalidFlags env b h tx p m = (BizInvalidNone, m1)" by (simp add: managerFastBlockDeps_def)
  let ?D = "dispatch (managerFastBlockDeps ad env b) h tx p m1"
  have tag: "pl_Tag p \<in> {TagRegister, TagProveStake, TagPledgedReward, TagStake, TagAllocatRatio}"
    using res by (auto simp: resolveBusinessInvalidFlags_def ResolveBusinessInvalidFlags_def split: if_splits)
  then consider "pl_Tag p = TagRegister" | "pl_Tag p = TagProveStake" | "pl_Tag p = TagPledgedReward" | "pl_Tag p = TagStake"
    | "pl_Tag p = TagAllocatRatio" by auto
  then show "\<exists>m2. ?D = Inr m2 \<and> owner_inv env m2 \<and> event_log m2 = event_log m"
  proof cases
    case 1
    from accept_register [OF res 1] obtain row where row:
      "handleRegisterTx h tx p m1 = map_wait (\<lambda>w. w\<lparr>StakeIndexerRegisterList := StakeIndexerRegisterList w @ [row]\<rparr>) m1"
      "reg_UserAddress row \<noteq> ''''" "reg_UserAddress row \<notin> set (owners m)" "reg_UserAddress row \<notin> db_owners env"
      "m1 = m\<lparr>registerOwnerSeen := insert (reg_UserAddress row) (registerOwnerSeen m)\<rparr>"
      "reg_UserAddress row = normalizeUserAddress (payload_Get p [OpFieldActorAddr])" by auto
    then have "normalizeUserAddress (reg_UserAddress row) = reg_UserAddress row" by (simp add: normalizeUserAddress_def)
    with row inv 1 show ?thesis
      by (simp add: dispatch_def managerFastBlockDeps_def owner_inv_def owners_def map_wait_def event_log_def)
  next
    case 2
    from accept_proof [OF res 2] obtain row where row: "m1 = m"
      "handleProofTx env h tx p m = Inr (map_wait (\<lambda>w. w\<lparr>StakeProofList := StakeProofList w @ [row]\<rparr>) m)" by auto
    have "same_stage m (map_wait (\<lambda>w. w\<lparr>StakeProofList := StakeProofList w @ [row]\<rparr>) m)" by (rule same_stage_wait) simp_all
    with row 2 inv same_stage_inv show ?thesis by (auto simp: dispatch_def managerFastBlockDeps_def same_stage_def)
  next
    case 3
    from accept_claim [OF res 3] obtain row where row: "m1 = m"
      "handleClaimedRewardTx env h tx p m = Inr (map_wait (\<lambda>w. w\<lparr>StakeClaimedRewardList := StakeClaimedRewardList w @ [row]\<rparr>) m)" by auto
    have "same_stage m (map_wait (\<lambda>w. w\<lparr>StakeClaimedRewardList := StakeClaimedRewardList w @ [row]\<rparr>) m)" by (rule same_stage_wait) simp_all
    with row 3 inv same_stage_inv show ?thesis by (auto simp: dispatch_def managerFastBlockDeps_def same_stage_def)
  next
    case 4
    from accept_stake [OF res 4] obtain bd where bd: "m1 = m" "validateStakeTxWithPayload env b h tx p m = Inr (Some bd)" by auto
    then have "\<exists>m2. handleStakeBindTxWithPayload env b h tx p m = Inr m2 \<and> same_stage m m2"
      by (auto simp: handleStakeBindTxWithPayload_def Let_def intro!: same_stage_cache same_stage_wait)
    with bd 4 inv same_stage_inv show ?thesis by (auto simp: dispatch_def managerFastBlockDeps_def same_stage_def)
  next
    case 5
    from inv have "\<not> pendingRewardMode m" by (simp add: owner_inv_def)
    from accept_ratio [OF res 5 this] handleUpdateRatioTxLatest_accepted [OF _ this] obtain s where
      "m1 = m" "handleUpdateRatioTxLatest env h p m = Inr (m\<lparr>slowState := s\<rparr>)" by blast
    with 5 inv same_stage_inv [OF same_stage_slow] same_stage_slow [of m s] show ?thesis
      by (auto simp: dispatch_def managerFastBlockDeps_def same_stage_def)
  qed
next
  fix m h tx p f m1
  assume "bd_ResolveBusinessInvalidFlags (managerFastBlockDeps ad env b) h tx p m = (f, m1)" "f \<noteq> BizInvalidNone"
  then show "m1 = m" using resolve_rejects by (simp add: managerFastBlockDeps_def)
next
  fix m e
  assume "owner_inv env m"
  then show "owner_inv env (bd_AppendFIP101InscriptionEvent (managerFastBlockDeps ad env b) e m) \<and>
      event_log (bd_AppendFIP101InscriptionEvent (managerFastBlockDeps ad env b) e m) = event_log m @ [e]"
    by (simp add: managerFastBlockDeps_def append_event_def map_wait_def owner_inv_def owners_def event_log_def)
qed


section \<open>Properties of the fast path\<close>

text \<open>The transactions of a block that carry an operation.\<close>

definition parsed_txs :: "addrs \<Rightarrow> btc \<Rightarrow> Block \<Rightarrow> ParsedProtocolTx list" where
  "parsed_txs ad b block = List.map_filter (\<lambda>(i, t). Option.bind
     (ParseProtocolTxFromModelTx ad b t (word_of_nat i) (int (unat (mb_Height block)))) (\<lambda>x. x)) (enumerate 0 (mb_Txs block))"

definition parses :: "addrs \<Rightarrow> btc \<Rightarrow> Block \<Rightarrow> bool" where
  "parses ad b block = list_all (\<lambda>(i, t).
     ParseProtocolTxFromModelTx ad b t (word_of_nat i) (int (unat (mb_Height block))) \<noteq> None) (enumerate 0 (mb_Txs block))"




definition fast_env :: env where
  "fast_env = \<lparr>db_ok = (\<lambda>_. True), db_registers = [\<lparr>reg_IndexerID = ''1761438:1'', reg_Name = ''n'', reg_RewardAddress = ''bc1r'',
     reg_UserAddress = ''bc1u'', reg_IndexRatio = 0, reg_LastUpdateHeight = 9, reg_RegisterTxID = ''t'', reg_Height = 9, reg_TxIdx = 1\<rparr>],
     db_bindings = [], rd_HGet = (\<lambda>_ _. RNil), rd_Get = (\<lambda>_. RNil)\<rparr>"

definition fast_manager :: Manager where
  "fast_manager = newManagerWithMode DefaultConfig False"

definition fast_block :: "Tx list \<Rightarrow> Block" where
  "fast_block txs = \<lparr>mb_Raw = [], mb_Hash = [], mb_HashHex = ''bb'', mb_Height = 100, mb_Txs = txs, mb_Version = 1, mb_MerkleRoot = [],
     mb_BlockTime = 0, mb_Bits = 0, mb_Nonce = 0, mb_Size = 0, mb_TxCnt = 1, mb_Parent = [], mb_ParentHex = '''', mb_ParseData = None\<rparr>"

definition fast_proof :: OpReturnPayload where
  "fast_proof = \<lparr>pl_Tag = TagProveStake, pl_Fields = [(OpFieldIndexerID, ''1761438:1''), (OpFieldBlockHeight, ''90''), (OpFieldBlockHash, ''ab'')],
     pl_Values = []\<rparr>"

definition fast_tx :: TxSnapshot where
  "fast_tx = \<lparr>tx_TxID = ''aa'', tx_TxIdx = 3, tx_Inputs = [], tx_Outputs = []\<rparr>"



end
