(* ===== verification/Utxo.thy ===== *)
theory Utxo
  imports FastPath ChainData
begin

text \<open>
  The ledger of staked outputs: what a block creates and spends (\<^verbatim>\<open>internal/exec/manager/parallel/tx.go\<close>,
  \<^verbatim>\<open>serial_filtered.go\<close>, \<^verbatim>\<open>flow_block_submit.go\<close>), the maps shared by the blocks of a batch (\<^verbatim>\<open>model/model.go\<close>), the
  undo data kept for a rollback (\<^verbatim>\<open>internal/component/pg/indexer_artifacts.go\<close>, \<^verbatim>\<open>internal/entry/rollback\<close>), and the
  commit of a batch. An outpoint key is the string of its 36 bytes. The Redis database of outputs is a partial map from
  outpoint keys to stored bytes; the prefix of its keys is left out.
\<close>

section \<open>The maps shared by the blocks of a batch\<close>

record globals =
  GlobalNewUtxoDataMap :: "(string, TxoData) gomap"
  GlobalSpentUtxoDataMap :: "(string, TxoData) gomap"
  GlobalDeleteUtxoKeysMap :: "string list"
  GlobalAddressBalanceDeltaMap :: "(string, int) gomap"

definition CleanUtxoMap :: globals where
  "CleanUtxoMap = \<lparr>GlobalNewUtxoDataMap = [], GlobalSpentUtxoDataMap = [], GlobalDeleteUtxoKeysMap = [],
     GlobalAddressBalanceDeltaMap = []\<rparr>"

section \<open>What a transaction creates and spends\<close>

record txout_meta =
  om_OutpointKey :: string
  om_ScriptType :: "byte list"
  om_LockingScriptUnspendable :: bool
  om_AddressData :: "AddressData option"

definition outpoint_bytes :: "byte list \<Rightarrow> nat \<Rightarrow> byte list" where
  "outpoint_bytes txid idx = copy_at (copy_at (replicate 36 0) 0 txid) 32 (put_u32 (word_of_nat idx))"

text \<open>The points of the inputs and the metadata of the outputs; \<open>hash160\<close> is the library function.\<close>

definition ParseTxFirst :: "(byte list \<Rightarrow> byte list) \<Rightarrow> Tx \<Rightarrow> byte list list \<times> txout_meta list" where
  "ParseTxFirst hash160 tx =
     (map (\<lambda>(idx, _). outpoint_bytes (mt_TxId tx) idx) (enumerate 0 (mt_TxIns tx)),
      map (\<lambda>(idx, output).
        let scriptType = GetLockingScriptType (to_PkScript output) in
        \<lparr>om_OutpointKey = string_of_bytes (outpoint_bytes (mt_TxId tx) idx), om_ScriptType = scriptType,
         om_LockingScriptUnspendable = IsOpreturn scriptType,
         om_AddressData = ExtractPkScriptForTxo hash160 (to_PkScript output) scriptType\<rparr>) (enumerate 0 (mt_TxOuts tx)))"

definition insert_key :: "string \<Rightarrow> string list \<Rightarrow> string list" where
  "insert_key k ks = (if k \<in> set ks then ks else ks @ [k])"

definition ParseUpdateTxoSpendByTxParallel :: "Tx \<Rightarrow> bool \<Rightarrow> ProcessBlock \<Rightarrow> ProcessBlock" where
  "ParseUpdateTxoSpendByTxParallel tx isCoinbase block =
     (if isCoinbase then block
      else block\<lparr>pb_SpentUtxoKeysMap := fold (\<lambda>input ks.
        if ti_InputOutpointKey input = '''' then ks else insert_key (ti_InputOutpointKey input) ks) (mt_TxIns tx)
          (pb_SpentUtxoKeysMap block)\<rparr>)"

definition ParseUpdateNewUtxoInTxParallel :: "u32 \<Rightarrow> (TxOut \<times> txout_meta) list \<Rightarrow> ProcessBlock \<Rightarrow> ProcessBlock" where
  "ParseUpdateNewUtxoInTxParallel txIdx outputs block =
     fold (\<lambda>(output, meta) b.
       if om_OutpointKey meta = '''' then b
       else if om_LockingScriptUnspendable meta then b
       else b\<lparr>pb_NewUtxoDataMap := mput (pb_NewUtxoDataMap b) (om_OutpointKey meta)
              \<lparr>td_BlockHeight = pb_Height b, td_TxIdx = txIdx, td_Satoshi = to_Satoshi output, td_PkScript = to_PkScript output\<rparr>\<rparr>)
       outputs block"

definition ParseBlockParallel :: "(byte list \<Rightarrow> byte list) \<Rightarrow> Tx list \<Rightarrow> ProcessBlock \<Rightarrow> ProcessBlock" where
  "ParseBlockParallel hash160 txs pd =
     fold (\<lambda>(txIdx, tx) b.
       ParseUpdateNewUtxoInTxParallel (word_of_nat txIdx) (zip (mt_TxOuts tx) (snd (ParseTxFirst hash160 tx)))
         (ParseUpdateTxoSpendByTxParallel tx (txIdx = 0) b)) (enumerate 0 txs) pd"

section \<open>Tracked outputs and balances\<close>

text \<open>\<open>track\<close> is the predicate of the caller, \<open>None\<close> for nil; \<^verbatim>\<open>int64(satoshi)\<close> is the signed reading.\<close>

definition shouldTrackTxoData :: "addrs \<Rightarrow> (string \<Rightarrow> bool) option \<Rightarrow> TxoData \<Rightarrow> bool" where
  "shouldTrackTxoData ad shouldTrack data =
     (case shouldTrack of
        None \<Rightarrow> True
      | Some track \<Rightarrow>
          (case GetAddressFromScript ad (td_PkScript data) of
             None \<Rightarrow> False
           | Some address \<Rightarrow> if address = '''' then False else track address))"

definition add_delta :: "(string, int) gomap \<Rightarrow> string \<Rightarrow> int \<Rightarrow> (string, int) gomap" where
  "add_delta m address delta =
     (let v = mget0 0 m address + delta in if v = 0 then mdel m address else mput m address v)"

definition addTrackedAddressDelta ::
    "addrs \<Rightarrow> (string \<Rightarrow> bool) option \<Rightarrow> TxoData \<Rightarrow> int \<Rightarrow> ProcessBlock \<times> globals \<Rightarrow> ProcessBlock \<times> globals" where
  "addTrackedAddressDelta ad shouldTrack data delta st =
     (case st of (block, g) \<Rightarrow>
      if delta = 0 then (block, g)
      else case GetAddressFromScript ad (td_PkScript data) of
        None \<Rightarrow> (block, g)
      | Some address \<Rightarrow>
          if address = '''' then (block, g)
          else if (case shouldTrack of None \<Rightarrow> False | Some track \<Rightarrow> \<not> track address) then (block, g)
          else (block\<lparr>pb_AddressBalanceDeltaMap := add_delta (pb_AddressBalanceDeltaMap block) address delta\<rparr>,
                g\<lparr>GlobalAddressBalanceDeltaMap := add_delta (GlobalAddressBalanceDeltaMap g) address delta\<rparr>))"

definition put_spent :: "string \<Rightarrow> TxoData \<Rightarrow> ProcessBlock \<Rightarrow> ProcessBlock" where
  "put_spent k data block = block\<lparr>pb_SpentUtxoDataMap := mput (pb_SpentUtxoDataMap block) k data\<rparr>"

section \<open>Spending\<close>

text \<open>The loop over the spent keys; the keys left for Redis are its last result.\<close>

fun spent_loop ::
    "addrs \<Rightarrow> (string \<Rightarrow> bool) option \<Rightarrow> string list \<Rightarrow> ProcessBlock \<times> globals \<Rightarrow> (ProcessBlock \<times> globals) \<times> string list" where
  "spent_loop ad track [] st = (st, [])"
| "spent_loop ad track (k # ks) (block, g) =
     (case mget (pb_NewUtxoDataMap block) k of
        Some data \<Rightarrow>
          let block = block\<lparr>pb_NewUtxoDataMap := mdel (pb_NewUtxoDataMap block) k\<rparr> in
          spent_loop ad track ks (if shouldTrackTxoData ad track data then put_spent k data block else block, g)
      | None \<Rightarrow>
        (case mget (GlobalNewUtxoDataMap g) k of
           Some data \<Rightarrow>
             let g = g\<lparr>GlobalNewUtxoDataMap := mdel (GlobalNewUtxoDataMap g) k\<rparr> in
             spent_loop ad track ks
               (if shouldTrackTxoData ad track data
                then addTrackedAddressDelta ad track data (- sint (td_Satoshi data)) (put_spent k data block, g)
                else (block, g))
         | None \<Rightarrow> (case spent_loop ad track ks (block, g) of (st, rest) \<Rightarrow> (st, k # rest))))"

text \<open>A row that does not decode leaves the new value with an empty script.\<close>

definition stored_txo :: "(byte list \<Rightarrow> byte list option) \<Rightarrow> byte list \<Rightarrow> TxoData" where
  "stored_txo snappy raw =
     (case TxoData_Unmarshal snappy raw of
        Some d \<Rightarrow> d
      | None \<Rightarrow> \<lparr>td_BlockHeight = 0, td_TxIdx = 0, td_Satoshi = 0, td_PkScript = []\<rparr>)"

definition redis_step ::
    "addrs \<Rightarrow> (byte list \<Rightarrow> byte list option) \<Rightarrow> (string \<Rightarrow> bool) option \<Rightarrow> (string \<rightharpoonup> byte list) \<Rightarrow> string \<Rightarrow>
      ProcessBlock \<times> globals \<Rightarrow> ProcessBlock \<times> globals" where
  "redis_step ad snappy track store k st =
     (case st of (block, g) \<Rightarrow>
      case store k of
        None \<Rightarrow> (block, g)
      | Some raw \<Rightarrow>
          let d = stored_txo snappy raw in
          if \<not> shouldTrackTxoData ad track d then (block, g)
          else addTrackedAddressDelta ad track d (- sint (td_Satoshi d))
            (put_spent k d block,
             g\<lparr>GlobalSpentUtxoDataMap := mput (GlobalSpentUtxoDataMap g) k d,
               GlobalDeleteUtxoKeysMap := insert_key k (GlobalDeleteUtxoKeysMap g)\<rparr>))"

text \<open>\<open>exec_ok\<close> is the outcome of the pipeline; a failure panics. Both Go maps are visited in arbitrary orders.\<close>

definition parseGetSpentStakeUtxoData ::
    "addrs \<Rightarrow> (byte list \<Rightarrow> byte list option) \<Rightarrow> (string list \<Rightarrow> string list) \<Rightarrow> (string \<Rightarrow> bool) option \<Rightarrow> bool \<Rightarrow> (string \<rightharpoonup> byte list)
      \<Rightarrow> ProcessBlock \<times> globals \<Rightarrow> (ProcessBlock \<times> globals) option" where
  "parseGetSpentStakeUtxoData ad snappy ord track exec_ok store st =
     (case spent_loop ad track (ord (pb_SpentUtxoKeysMap (fst st))) st of
        (st, keys) \<Rightarrow>
          if keys = [] then Some st
          else if \<not> exec_ok then None
          else Some (fold (redis_step ad snappy track store) (ord keys) st))"

definition new_step ::
    "addrs \<Rightarrow> (string \<Rightarrow> bool) option \<Rightarrow> string \<times> TxoData \<Rightarrow> ((string, TxoData) gomap \<times> ProcessBlock \<times> globals)
      \<Rightarrow> (string, TxoData) gomap \<times> ProcessBlock \<times> globals" where
  "new_step ad track entry st =
     (case entry of (k, data) \<Rightarrow> case st of (filteredNew, block, g) \<Rightarrow>
      if \<not> shouldTrackTxoData ad track data then st
      else (mput filteredNew k data,
        addTrackedAddressDelta ad track data (sint (td_Satoshi data))
          (block, g\<lparr>GlobalNewUtxoDataMap := mput (GlobalNewUtxoDataMap g) k data\<rparr>)))"

definition updateStakeUtxoInMap ::
    "addrs \<Rightarrow> (string \<Rightarrow> bool) option \<Rightarrow> ProcessBlock \<times> globals \<Rightarrow> ProcessBlock \<times> globals" where
  "updateStakeUtxoInMap ad track st =
     (case fold (new_step ad track) (pb_NewUtxoDataMap (fst st)) ([], st) of
        (filteredNew, block, g) \<Rightarrow>
          (block\<lparr>pb_NewUtxoDataMap := filteredNew,
                 pb_SpentUtxoDataMap := filter (\<lambda>(_, data). shouldTrackTxoData ad track data) (pb_SpentUtxoDataMap block)\<rparr>, g))"

end
