(* ===== verification/Ledger.thy ===== *)
theory Ledger
  imports Utxo RewardTables
begin

text \<open>
  Committing a batch of blocks and rolling back: the artifact tables (\<^verbatim>\<open>internal/component/pg/indexer_artifacts.go\<close>),
  staging (\<^verbatim>\<open>internal/entry/rollback/reconcile_rollback_check.go\<close>), the commit flow (\<^verbatim>\<open>write_prepare_flow.go\<close>,
  \<^verbatim>\<open>write_commit_flow.go\<close>, \<^verbatim>\<open>flow_block_submit.go\<close>) and the rollback flow (\<^verbatim>\<open>write_rollback_flow.go\<close>, \<^verbatim>\<open>entry.go\<close>,
  \<^verbatim>\<open>undo_retention.go\<close>). A table is the list of its rows. A step that returns an error is \<open>None\<close> or \<open>Inl\<close>; the program
  then stops the batch.
\<close>

section \<open>Artifact tables\<close>

type_synonym delta_table = "(u32 \<times> string \<times> int) list"
type_synonym undo_table = "(u32 \<times> string \<times> byte list) list"

definition ReplaceIndexerAddrDeltasTx :: "u32 \<Rightarrow> (string, int) gomap \<Rightarrow> delta_table \<Rightarrow> delta_table" where
  "ReplaceIndexerAddrDeltasTx height deltas t =
     (let t = filter (\<lambda>(h, _, _). h \<noteq> height) t;
          keys = sort (map fst (filter (\<lambda>(address, delta). \<not> (address = '''' \<or> delta = 0)) deltas)) in
      t @ map (\<lambda>address. (height, address, mget0 0 deltas address)) keys)"

definition ListIndexerAddrDeltasByHeight :: "delta_table \<Rightarrow> u32 \<Rightarrow> (string \<times> int) list" where
  "ListIndexerAddrDeltasByHeight t height =
     filter (\<lambda>(address, delta). \<not> (address = '''' \<or> delta = 0))
       (sort_key fst (map snd (filter (\<lambda>(h, _, _). h = height) t)))"

definition encodeOutpointForDB :: "string \<Rightarrow> string" where
  "encodeOutpointForDB outpoint = (if outpoint = '''' then '''' else hex_encode (bytes_of_string outpoint))"

definition decodeOutpointFromDB :: "string \<Rightarrow> string" where
  "decodeOutpointFromDB outpointDB0 =
     (let outpointDB = TrimSpace outpointDB0 in
      if outpointDB = '''' then ''''
      else case hex_decode outpointDB of
        None \<Rightarrow> outpointDB
      | Some decoded \<Rightarrow> if decoded = [] then outpointDB else string_of_bytes decoded)"

definition replaceIndexerUndoTx :: "u32 \<Rightarrow> (string, byte list) gomap \<Rightarrow> undo_table \<Rightarrow> undo_table" where
  "replaceIndexerUndoTx height rows t =
     (let t = filter (\<lambda>(h, _, _). h \<noteq> height) t;
          keys = sort (map fst (filter (\<lambda>(outpoint, raw). \<not> (outpoint = '''' \<or> raw = [])) rows)) in
      t @ map (\<lambda>outpoint. (height, encodeOutpointForDB outpoint, mget0 [] rows outpoint))
        (filter (\<lambda>outpoint. encodeOutpointForDB outpoint \<noteq> '''') keys))"

definition listIndexerUndoByHeight :: "undo_table \<Rightarrow> u32 \<Rightarrow> (string, byte list) gomap" where
  "listIndexerUndoByHeight t height =
     foldl (\<lambda>result (_, outpointDB, raw).
       let outpoint = decodeOutpointFromDB outpointDB in
       if outpoint = '''' \<or> raw = [] then result else mput result outpoint raw) []
       (filter (\<lambda>(h, _, _). h = height) t)"

record artifacts =
  ar_deltas :: delta_table
  ar_undo_new :: undo_table
  ar_undo_spent :: undo_table

definition DeleteIndexerUndoBeforeHeightTx :: "u32 \<Rightarrow> artifacts \<Rightarrow> artifacts" where
  "DeleteIndexerUndoBeforeHeightTx minKeepHeight a =
     (if minKeepHeight = 0 then a
      else a\<lparr>ar_undo_new := filter (\<lambda>(h, _, _). \<not> h < minKeepHeight) (ar_undo_new a),
             ar_undo_spent := filter (\<lambda>(h, _, _). \<not> h < minKeepHeight) (ar_undo_spent a)\<rparr>)"

definition DeleteIndexerArtifactsFromHeight :: "u32 \<Rightarrow> artifacts \<Rightarrow> artifacts" where
  "DeleteIndexerArtifactsFromHeight fromHeight a =
     \<lparr>ar_deltas = filter (\<lambda>(h, _, _). \<not> h \<ge> fromHeight) (ar_deltas a),
      ar_undo_new = filter (\<lambda>(h, _, _). \<not> h \<ge> fromHeight) (ar_undo_new a),
      ar_undo_spent = filter (\<lambda>(h, _, _). \<not> h \<ge> fromHeight) (ar_undo_spent a)\<rparr>"

section \<open>Undo retention\<close>

definition indexerUndoRetentionDistance :: u32 where
  "indexerUndoRetentionDistance = 100"

definition MinIndexerUndoKeepHeight :: "u32 \<Rightarrow> u32" where
  "MinIndexerUndoKeepHeight latestHeight =
     (if latestHeight \<le> indexerUndoRetentionDistance then 0 else latestHeight - indexerUndoRetentionDistance)"

definition ShouldPersistIndexerUndo :: "u32 \<Rightarrow> u32 \<Rightarrow> bool" where
  "ShouldPersistIndexerUndo latestHeight itemHeight =
     (if itemHeight > latestHeight then False else latestHeight - itemHeight \<le> indexerUndoRetentionDistance)"

section \<open>Staged blocks\<close>

record StagedIndexerBlock =
  sg_Height :: u32
  sg_HashHex :: string
  sg_ParentHash :: string
  sg_Version :: u32
  sg_CoinbaseReward :: u64
  sg_AddressDeltas :: "(string, int) gomap"
  sg_UndoNew :: "(string, byte list) gomap"
  sg_UndoSpent :: "(string, byte list) gomap"

definition encodeUndoMap :: "(string, TxoData) gomap \<Rightarrow> (string, byte list) gomap" where
  "encodeUndoMap m = map (\<lambda>(outpoint, d). (outpoint, TxoData_Marshal d)) m"

text \<open>A block without transactions panics.\<close>

definition PersistIndexerBlockArtifacts :: "Block \<Rightarrow> StagedIndexerBlock list \<Rightarrow> StagedIndexerBlock list option" where
  "PersistIndexerBlockArtifacts block stagedBlocks =
     (case mb_Txs block of
        [] \<Rightarrow> None
      | coinbase # _ \<Rightarrow>
          Some (stagedBlocks @ [\<lparr>sg_Height = mb_Height block, sg_HashHex = mb_HashHex block, sg_ParentHash = mb_ParentHex block,
            sg_Version = mb_Version block, sg_CoinbaseReward = sum_list (map to_Satoshi (mt_TxOuts coinbase)),
            sg_AddressDeltas = (case mb_ParseData block of None \<Rightarrow> []
              | Some pd \<Rightarrow> filter (\<lambda>(_, delta). delta \<noteq> 0) (pb_AddressBalanceDeltaMap pd)),
            sg_UndoNew = (case mb_ParseData block of None \<Rightarrow> [] | Some pd \<Rightarrow> encodeUndoMap (pb_NewUtxoDataMap pd)),
            sg_UndoSpent = (case mb_ParseData block of None \<Rightarrow> [] | Some pd \<Rightarrow> encodeUndoMap (pb_SpentUtxoDataMap pd))\<rparr>]))"

definition heights :: "u32 \<Rightarrow> u32 \<Rightarrow> u32 list" where
  "heights startHeight endHeight = map word_of_nat [unat startHeight ..< Suc (unat endHeight)]"

definition BuildStagedBlockMapForRange ::
    "StagedIndexerBlock list \<Rightarrow> u32 \<Rightarrow> u32 \<Rightarrow> (u32, StagedIndexerBlock) gomap option" where
  "BuildStagedBlockMapForRange stagedBlocks startHeight endHeight =
     (let stagedByHeight = foldl (\<lambda>m item.
            if sg_Height item < startHeight \<or> sg_Height item > endHeight then m else mput m (sg_Height item) item) [] stagedBlocks in
      if list_all (\<lambda>h. mget stagedByHeight h \<noteq> None) (heights startHeight endHeight) then Some stagedByHeight else None)"

section \<open>Writing a batch\<close>

definition persist_artifacts :: "u32 \<Rightarrow> StagedIndexerBlock \<Rightarrow> artifacts \<Rightarrow> artifacts" where
  "persist_artifacts endHeight item a =
     (let a = a\<lparr>ar_deltas := ReplaceIndexerAddrDeltasTx (sg_Height item) (sg_AddressDeltas item) (ar_deltas a)\<rparr> in
      if ShouldPersistIndexerUndo endHeight (sg_Height item)
      then a\<lparr>ar_undo_new := replaceIndexerUndoTx (sg_Height item) (sg_UndoNew item) (ar_undo_new a),
             ar_undo_spent := replaceIndexerUndoTx (sg_Height item) (sg_UndoSpent item) (ar_undo_spent a)\<rparr>
      else a)"

text \<open>One transaction: the tables change together or not at all. \<open>tx_ok\<close> is the outcome of its statements.\<close>

definition flushPGArtifactsBatch ::
    "bool \<Rightarrow> u32 \<Rightarrow> u32 \<Rightarrow> (u32, StagedIndexerBlock) gomap \<Rightarrow> sync_table \<times> artifacts \<Rightarrow> (sync_table \<times> artifacts) option" where
  "flushPGArtifactsBatch tx_ok startHeight endHeight stagedByHeight db =
     (case those (map (mget stagedByHeight) (heights startHeight endHeight)) of
        None \<Rightarrow> None
      | Some items \<Rightarrow>
          let syncBlocks = map (\<lambda>item. \<lparr>syb_Height = sg_Height item, syb_BlockHash = sg_HashHex item,
                syb_ParentHash = sg_ParentHash item, syb_Version = sg_Version item, syb_CoinbaseReward = sg_CoinbaseReward item,
                syb_State = ''prepared'', syb_IsRewardBlockVersion = False\<rparr>) items in
          case UpsertSyncBlocksBatch syncBlocks (fst db) of
            (t, ok) \<Rightarrow>
              if \<not> tx_ok \<or> \<not> ok then None
              else Some (t, DeleteIndexerUndoBeforeHeightTx (MinIndexerUndoKeepHeight endHeight)
                     (fold (persist_artifacts endHeight) items (snd db))))"

definition FlushIndexerBlockArtifacts ::
    "bool \<Rightarrow> StagedIndexerBlock list \<Rightarrow> u32 \<Rightarrow> u32 \<Rightarrow> sync_table \<times> artifacts \<Rightarrow> (sync_table \<times> artifacts) option" where
  "FlushIndexerBlockArtifacts tx_ok stagedBlocks startHeight endHeight db =
     (if endHeight < startHeight then Some db
      else case BuildStagedBlockMapForRange stagedBlocks startHeight endHeight of
        None \<Rightarrow> None
      | Some stagedByHeight \<Rightarrow> flushPGArtifactsBatch tx_ok startHeight endHeight stagedByHeight db)"

definition MarkIndexerBlocksCommitted :: "u32 \<Rightarrow> u32 \<Rightarrow> sync_table \<Rightarrow> sync_table" where
  "MarkIndexerBlocksCommitted startHeight endHeight t =
     (if endHeight < startHeight then t else MarkSyncBlocksCommittedRange startHeight endHeight t)"

section \<open>The output database\<close>

record utxo_db =
  ud_store :: "string \<rightharpoonup> byte list"
  ud_height :: "u32 option"
  ud_total :: int

definition updateUtxoInPikaAdd :: "(string, TxoData) gomap \<Rightarrow> (string \<rightharpoonup> byte list) \<Rightarrow> (string \<rightharpoonup> byte list)" where
  "updateUtxoInPikaAdd utxoToRestore store =
     fold (\<lambda>(outpointKey, data) s. if s outpointKey = None then s(outpointKey \<mapsto> TxoData_Marshal data) else s) utxoToRestore store"

definition updateUtxoInPikaDel :: "string list \<Rightarrow> (string \<rightharpoonup> byte list) \<Rightarrow> (string \<rightharpoonup> byte list)" where
  "updateUtxoInPikaDel utxoToRemove store = fold (\<lambda>outpointKey s. s(outpointKey := None)) utxoToRemove store"

text \<open>Three pipelines in turn: the first that fails stops the commit; the flag is whether all succeeded.\<close>

definition commitUtxoWritesAndCursor :: "bool \<Rightarrow> bool \<Rightarrow> bool \<Rightarrow> u32 \<Rightarrow> globals \<Rightarrow> utxo_db \<Rightarrow> utxo_db \<times> bool" where
  "commitUtxoWritesAndCursor add_ok del_ok cursor_ok stageBlockHeight g u =
     (if \<not> add_ok then (u, False)
      else
        let u = u\<lparr>ud_store := updateUtxoInPikaAdd (GlobalNewUtxoDataMap g) (ud_store u)\<rparr> in
        if \<not> del_ok then (u, False)
        else
          let u = u\<lparr>ud_store := updateUtxoInPikaDel (GlobalDeleteUtxoKeysMap g) (ud_store u)\<rparr> in
          if \<not> cursor_ok then (u, False)
          else (u\<lparr>ud_height := Some stageBlockHeight,
                  ud_total := ud_total u + (int (length (GlobalNewUtxoDataMap g)) - int (length (GlobalSpentUtxoDataMap g)))\<rparr>, True))"

definition rollbackUtxoOneBlock :: "artifacts \<Rightarrow> u32 \<Rightarrow> (string \<rightharpoonup> byte list) \<Rightarrow> (string \<rightharpoonup> byte list)" where
  "rollbackUtxoOneBlock a height store =
     (let newMap = listIndexerUndoByHeight (ar_undo_new a) height; spentMap = listIndexerUndoByHeight (ar_undo_spent a) height;
          store = fold (\<lambda>(outpoint, _) s. s(outpoint := None)) newMap store in
      fold (\<lambda>(outpoint, raw) s. s(outpoint \<mapsto> raw)) spentMap store)"


section \<open>Realtime balances\<close>

text \<open>What the balance database holds: the realtime balance of an address (a missing key is 0), the stake of the users of
  an indexer, the stake of an indexer and of all, and the cursor.\<close>

record balance_db =
  bd_realtime :: "(string, int) gomap"
  bd_stake_zset :: "(string, (string, f64) gomap) gomap"
  bd_stake_total :: "(string, int) gomap"
  bd_confirmed_total :: int
  bd_block_height :: "int option"
  bd_block :: "string option"

definition f64_of_int :: "int \<Rightarrow> f64" where
  "f64_of_int n = f64_round (of_int n)"

text \<open>The commands for one address and the running totals per indexer. \<^verbatim>\<open>INCRBY\<close> and the later removal of keys that
  became 0 are \<open>add_delta\<close>.\<close>

definition balance_step ::
    "(string, StakeAddressInfo) gomap \<Rightarrow> string \<times> int \<Rightarrow> balance_db \<times> (string, int) gomap \<Rightarrow> balance_db \<times> (string, int) gomap" where
  "balance_step bindings entry st =
     (case entry of (address, delta) \<Rightarrow> case st of (db, totals) \<Rightarrow>
      if delta = 0 then st
      else
        let db = db\<lparr>bd_realtime := add_delta (bd_realtime db) address delta\<rparr> in
        case mget bindings address of
          None \<Rightarrow> (db, totals)
        | Some info \<Rightarrow>
            let z = mget0 [] (bd_stake_zset db) (sa_IndexerID info) in
            (db\<lparr>bd_stake_zset := mput (bd_stake_zset db) (sa_IndexerID info)
                (mput z (sa_Address info) (f64_add (mget0 0 z (sa_Address info)) (f64_of_int delta)))\<rparr>,
             mput totals (sa_IndexerID info) (mget0 0 totals (sa_IndexerID info) + delta)))"

definition total_step :: "string \<times> int \<Rightarrow> balance_db \<Rightarrow> balance_db" where
  "total_step entry db =
     (case entry of (indexerID, t) \<Rightarrow>
      db\<lparr>bd_stake_total := mput (bd_stake_total db) indexerID (mget0 0 (bd_stake_total db) indexerID + t),
         bd_stake_zset := mput (bd_stake_zset db) indexerID (filter (\<lambda>(_, score). \<not> score \<le> 0) (mget0 [] (bd_stake_zset db) indexerID))\<rparr>)"

text \<open>The pipeline of one round of deltas: \<open>None\<close> when Redis reports an error.\<close>

definition balance_round :: "(string, StakeAddressInfo) gomap \<Rightarrow> (string \<times> int) list \<Rightarrow> balance_db \<Rightarrow> balance_db \<times> (string, int) gomap" where
  "balance_round bindings deltas db =
     (case fold (balance_step bindings) deltas (db, []) of (db, totals) \<Rightarrow> (fold total_step totals db, totals))"

text \<open>\<open>cleanup_ok\<close> is the outcome of the deletion of the keys that became 0; a key with the value 0 and a missing key count the same.\<close>

definition applyRealtimeBalances ::
    "bool \<Rightarrow> bool \<Rightarrow> (string, StakeAddressInfo) gomap \<Rightarrow> u32 \<Rightarrow> globals \<Rightarrow> balance_db \<Rightarrow> balance_db \<times> bool" where
  "applyRealtimeBalances exec_ok cleanup_ok bindings stageBlockHeight g db =
     (if \<not> exec_ok then (db, False)
      else case balance_round bindings (GlobalAddressBalanceDeltaMap g) db of (db, totals) \<Rightarrow>
        (db\<lparr>bd_confirmed_total := bd_confirmed_total db + sum_list (map snd totals),
            bd_block_height := Some (int (unat stageBlockHeight))\<rparr>, cleanup_ok))"

section \<open>Rolling back\<close>

definition ListStakeBindingsUpToHeight :: "StakeBinding list \<Rightarrow> u32 \<Rightarrow> StakeBinding list" where
  "ListStakeBindingsUpToHeight t height =
     sort_key (\<lambda>b. (sb_Height b, sb_StakeTxIdx b, sb_StakeAddress b)) (filter (\<lambda>b. sb_Height b \<le> height) t)"

definition bindings_info :: "StakeBinding list \<Rightarrow> (string, StakeAddressInfo) gomap" where
  "bindings_info bs = foldl (\<lambda>m b. mput m (sb_StakeAddress b) \<lparr>sa_Address = sb_UserAddress b, sa_IndexerID = sb_IndexerID b\<rparr>) [] bs"

text \<open>The heights from \<open>current\<close> down to \<open>fromHeight\<close>, one pipeline each.\<close>

fun balance_rounds ::
    "(string, StakeAddressInfo) gomap \<Rightarrow> delta_table \<Rightarrow> u32 list \<Rightarrow> balance_db \<Rightarrow> balance_db" where
  "balance_rounds bindings t [] db = db"
| "balance_rounds bindings t (h # hs) db =
     balance_rounds bindings t hs
       (fst (balance_round bindings (map (\<lambda>(address, delta). (address, - delta)) (ListIndexerAddrDeltasByHeight t h)) db))"

definition rollbackTo :: "u32 \<Rightarrow> u32" where
  "rollbackTo fromHeight = (if fromHeight > 0 then fromHeight - 1 else 0)"

text \<open>The cursor is read as an \<^verbatim>\<open>int64\<close>. Failures of the reads and pipelines are the caller's \<open>None\<close>; the bindings are
  loaded only when their query succeeds.\<close>

definition rollbackRealtimeBalanceFromHeight ::
    "bool \<Rightarrow> StakeBinding list \<Rightarrow> sync_table \<Rightarrow> delta_table \<Rightarrow> u32 \<Rightarrow> balance_db \<Rightarrow> balance_db" where
  "rollbackRealtimeBalanceFromHeight bindings_ok bs sync t fromHeight db =
     (case bd_block_height db of
        None \<Rightarrow> db
      | Some current \<Rightarrow>
          if current < int (unat fromHeight) then db
          else
            let info = (if bindings_ok then bindings_info (ListStakeBindingsUpToHeight bs (word_of_int current)) else []);
                db = balance_rounds info t (rev (map word_of_nat [unat fromHeight ..< Suc (nat current)])) db;
                blockHash = (if rollbackTo fromHeight > 0
                  then (case GetSyncBlock sync (rollbackTo fromHeight) of
                          Some b \<Rightarrow> if syb_BlockHash b \<noteq> '''' then Some (syb_BlockHash b) else None
                        | None \<Rightarrow> None)
                  else None) in
            db\<lparr>bd_block_height := Some (int (unat (rollbackTo fromHeight))), bd_block := blockHash\<rparr>)"

record indexer_state =
  ix_sync :: sync_table
  ix_art :: artifacts
  ix_utxo :: utxo_db
  ix_bal :: balance_db
  ix_bindings :: "StakeBinding list"
  ix_registers :: "StakeIndexerRegister list"
  ix_proofs :: "StakeProof list"
  ix_claims :: "StakeClaimedReward list"
  ix_allocated :: reward_table
  ix_events :: "FIP101InscriptionEvent list"

datatype rollback_error = ExceedsRetention | RollbackIO

definition RollbackStakeIndexerFromHeight :: "u32 \<Rightarrow> indexer_state \<Rightarrow> indexer_state" where
  "RollbackStakeIndexerFromHeight fromHeight s =
     s\<lparr>ix_claims := filter (\<lambda>r. \<not> cr_Height r \<ge> fromHeight) (ix_claims s),
       ix_allocated := filter (\<lambda>r. \<not> row_height r \<ge> uint fromHeight) (ix_allocated s),
       ix_bindings := filter (\<lambda>r. \<not> sb_Height r \<ge> fromHeight) (ix_bindings s),
       ix_registers := filter (\<lambda>r. \<not> reg_Height r \<ge> fromHeight) (ix_registers s),
       ix_proofs := filter (\<lambda>r. \<not> sp_Height r \<ge> fromHeight) (ix_proofs s)\<rparr>"

definition max_height :: "u32 option list \<Rightarrow> u32" where
  "max_height hs = fold (\<lambda>h acc. case h of Some h \<Rightarrow> if h > acc then h else acc | None \<Rightarrow> acc) hs 0"

text \<open>The cursor fields hold decimal text; the balance cursor must fit 32 bits to be read here.\<close>

definition GetInfoFieldUInt32 :: "int option \<Rightarrow> rollback_error + u32 option" where
  "GetInfoFieldUInt32 field =
     (case field of
        None \<Rightarrow> Inr None
      | Some v \<Rightarrow> if 0 \<le> v \<and> v < 2 ^ 32 then Inr (Some (word_of_int v)) else Inl RollbackIO)"

text \<open>\<open>io_ok\<close> is whether every read and write of the flow succeeds; the first failure stops it. The rebuilding of the
  status cache at the end is not part of the state.\<close>

definition RollbackIndexerFromHeight :: "bool \<Rightarrow> bool \<Rightarrow> u32 \<Rightarrow> indexer_state \<Rightarrow> rollback_error + indexer_state" where
  "RollbackIndexerFromHeight io_ok bindings_ok fromHeight s =
     (if \<not> io_ok then Inl RollbackIO
      else case GetInfoFieldUInt32 (bd_block_height (ix_bal s)) of
        Inl e \<Rightarrow> Inl e
      | Inr realtimeLatest \<Rightarrow>
        let utxoLatest = ud_height (ix_utxo s);
            pgCommittedLatest = GetLatestCommittedSyncBlockHeight (ix_sync s);
            maxHeight = max_height [utxoLatest, realtimeLatest, pgCommittedLatest] in
        if maxHeight < fromHeight then Inr s
        else if (case utxoLatest of None \<Rightarrow> False
                 | Some u \<Rightarrow> u \<ge> fromHeight \<and> u - fromHeight > indexerUndoRetentionDistance) then Inl ExceedsRetention
        else
          let bal = rollbackRealtimeBalanceFromHeight bindings_ok (ix_bindings s) (ix_sync s) (ar_deltas (ix_art s)) fromHeight (ix_bal s);
              hs = rev (map word_of_nat [unat fromHeight ..< Suc (unat maxHeight)]);
              store = fold (\<lambda>h st. case utxoLatest of None \<Rightarrow> st
                       | Some u \<Rightarrow> if h \<le> u then rollbackUtxoOneBlock (ix_art s) h st else st) hs (ud_store (ix_utxo s));
              utxo = (ix_utxo s)\<lparr>ud_store := store, ud_height := (if utxoLatest = None then None else Some (rollbackTo fromHeight))\<rparr> in
          Inr ((RollbackStakeIndexerFromHeight fromHeight
            (s\<lparr>ix_bal := bal, ix_utxo := utxo, ix_events := filter (\<lambda>e. \<not> ev_Height e \<ge> uint fromHeight) (ix_events s)\<rparr>))
            \<lparr>ix_art := DeleteIndexerArtifactsFromHeight fromHeight (ix_art s),
             ix_sync := DeleteSyncBlocksFromHeight fromHeight (ix_sync s)\<rparr>))"

text \<open>The check against the node: the first height of the range where the node and the table disagree is rolled back
  from. \<open>node\<close> gives the node's block hashes of a range, \<open>None\<close> when the call fails.\<close>

definition find_divergence :: "(u32 \<rightharpoonup> string) \<Rightarrow> (u32 \<rightharpoonup> string) \<Rightarrow> u32 list \<Rightarrow> u32 option" where
  "find_divergence nodeByHeight dbByHeight hs =
     find (\<lambda>h. nodeByHeight h = None \<or> dbByHeight h = None \<or> nodeByHeight h \<noteq> dbByHeight h) hs"

definition check_start :: "u32 \<Rightarrow> u32 \<Rightarrow> u32 \<Rightarrow> u32" where
  "check_start lookback0 floorHeight latestHeight =
     (let lookback = (if lookback0 = 0 then 100 else lookback0);
          start = (if latestHeight + 1 > lookback then latestHeight + 1 - lookback else 0) in
      if start < floorHeight then floorHeight else start)"

definition RollbackCheckWithFloor ::
    "bool \<Rightarrow> bool \<Rightarrow> (u32 \<Rightarrow> u32 \<Rightarrow> (u32 \<times> string) list option) \<Rightarrow> u32 \<Rightarrow> u32 \<Rightarrow> indexer_state
      \<Rightarrow> rollback_error + (u32 option \<times> indexer_state)" where
  "RollbackCheckWithFloor io_ok bindings_ok node lookback floorHeight s =
     (if \<not> io_ok then Inl RollbackIO
      else case GetLatestCommittedSyncBlockHeight (ix_sync s) of
        None \<Rightarrow> Inr (None, s)
      | Some latestHeight \<Rightarrow>
          let start = check_start lookback floorHeight latestHeight in
          if start > latestHeight then Inr (None, s)
          else case node start (latestHeight + 1) of
            None \<Rightarrow> Inl RollbackIO
          | Some nodeInfos \<Rightarrow>
              let nodeByHeight = map_of (rev nodeInfos);
                  dbByHeight = map_of (rev (map (\<lambda>b. (syb_Height b, syb_BlockHash b))
                    (filter (\<lambda>b. syb_State b = ''committed'') (ListSyncBlocksRange (ix_sync s) start (latestHeight + 1))))) in
              case find_divergence nodeByHeight dbByHeight (heights start latestHeight) of
                None \<Rightarrow> Inr (None, s)
              | Some h \<Rightarrow>
                  (case RollbackIndexerFromHeight io_ok bindings_ok h s of
                     Inl e \<Rightarrow> Inl e
                   | Inr s' \<Rightarrow> Inr (Some h, s')))"

end
