(* ===== verification/SlowRunner.thy ===== *)
theory SlowRunner
  imports Reward Ledger
begin

text \<open>
  The runners that turn committed blocks into rewards (\<^verbatim>\<open>internal/entry/slow/runner.go\<close>, \<^verbatim>\<open>pending_runner.go\<close>,
  \<^verbatim>\<open>write_flow.go\<close>): the cursor, the heights that may be consumed, the consumption of one block through the interface
  \<^verbatim>\<open>RewardSyncManager\<close>, and the write of its effects together with the new cursor. The interface is a record of functions; the
  manager of \<^verbatim>\<open>Manager\<close> with its handlers is the implementation the program configures. \<open>None\<close> is a panic. Sleeping and logging
  are left out. The cursors fit 32 bits and committed heights stay below \<open>2 ^ 32 - 1\<close>, so that the height loops end.
\<close>

section \<open>Cursors and events\<close>

definition read_cursor :: "rres \<Rightarrow> mgr_error + u32 option" where
  "read_cursor reply =
     (case reply of
        RNil \<Rightarrow> Inr None
      | RErr \<Rightarrow> Inl RedisError
      | RVal res \<Rightarrow> (case ParseUint 32 res of None \<Rightarrow> Inl ParseError | Some v \<Rightarrow> Inr (Some (word_of_nat v))))"

definition GetSnapshotConsumerHeight :: "env \<Rightarrow> mgr_error + u32 option" where
  "GetSnapshotConsumerHeight env = read_cursor (rd_HGet env TASK_INFO_KEYNAME TASK_SNAPSHOT_CONSUMER_HEIGHT)"

definition GetPendingConsumerHeight :: "env \<Rightarrow> mgr_error + u32 option" where
  "GetPendingConsumerHeight env = read_cursor (rd_HGet env TASK_INFO_KEYNAME TASK_PENDING_CONSUMER_HEIGHT)"

definition ListFIP101InscriptionEventsByHeight :: "FIP101InscriptionEvent list \<Rightarrow> u32 \<Rightarrow> FIP101InscriptionEvent list" where
  "ListFIP101InscriptionEventsByHeight t height =
     sort_key (\<lambda>e. (ev_TxIdx e, ev_TxID e)) (filter (\<lambda>e. ev_Height e = uint height) t)"

section \<open>The interface\<close>

text \<open>A call that returns an error still changes the manager. \<open>rsm_Flush\<close> gets the commands the finalizer appends and the
  outcome of \<^verbatim>\<open>pipe.Exec\<close>; it returns the commands of the pipeline, the manager and whether it succeeded.\<close>

record 's RewardSyncManager =
  rsm_LoadStakeBindingsToHeight :: "u32 \<Rightarrow> bool \<Rightarrow> 's \<Rightarrow> 's \<times> mgr_error option"
  rsm_StageStakeBalanceDeltas :: "(string, int) gomap \<Rightarrow> 's \<Rightarrow> 's"
  rsm_ApplyFIP101EventsForSnapshot :: "u32 \<Rightarrow> FIP101InscriptionEvent list \<Rightarrow> 's \<Rightarrow> 's \<times> mgr_error option"
  rsm_SubmitBalanceBlock :: "BlockSnapshot \<Rightarrow> 's \<Rightarrow> ('s \<times> mgr_error option) option"
  rsm_Flush :: "rcmd list \<Rightarrow> bool \<Rightarrow> 's \<Rightarrow> rcmd list \<times> 's \<times> bool"

text \<open>What one attempt finds outside the manager: the outcome of each query, the tables, the outcome of the pipeline and the
  replies to its increments (\<open>None\<close> for an error), and the outcome of the final deletion.\<close>

record slow_io =
  io_db_ok :: "db_call \<Rightarrow> bool"
  io_sync :: sync_table
  io_deltas :: delta_table
  io_events :: "FIP101InscriptionEvent list"
  io_exec_ok :: bool
  io_reply :: "string \<Rightarrow> int option"
  io_del_ok :: bool

section \<open>Writing the effects of a block\<close>

text \<open>The keys deleted, and whether the deletion succeeded.\<close>

definition cleanupZeroSnapshotBalances :: "slow_io \<Rightarrow> string list \<Rightarrow> string list \<times> mgr_error option" where
  "cleanupZeroSnapshotBalances io incrKeys =
     (if incrKeys = [] then ([], None)
      else
        let zeroKeys = filter (\<lambda>key. io_reply io key = Some 0) incrKeys in
        if zeroKeys = [] then ([], None)
        else if io_del_ok io then (zeroKeys, None) else ([], Some RedisError))"

definition balance_cmds :: "(string \<Rightarrow> string) \<Rightarrow> (string \<times> int) list \<Rightarrow> rcmd list" where
  "balance_cmds balanceKey deltas =
     map (\<lambda>(address, delta). IncrBy (balanceKey address) (word_of_int delta)) (filter (\<lambda>(_, delta). delta \<noteq> 0) deltas)"

definition incr_keys :: "(string \<Rightarrow> string) \<Rightarrow> (string \<times> int) list \<Rightarrow> string list" where
  "incr_keys balanceKey deltas = remdups (map (\<lambda>(address, _). balanceKey address) (filter (\<lambda>(_, delta). delta \<noteq> 0) deltas))"

text \<open>The commands Redis executed and the keys deleted, the manager, and the error.\<close>

type_synonym 's flow_result = "(rcmd list \<times> string list) \<times> 's \<times> mgr_error option"

definition runRewardSnapshotWriteFlow ::
    "'s RewardSyncManager \<Rightarrow> slow_io \<Rightarrow> u32 \<Rightarrow> (string \<times> int) list \<Rightarrow> 's \<Rightarrow> 's flow_result" where
  "runRewardSnapshotWriteFlow mgr io height deltas s =
     (let finalizer = balance_cmds GetSnapshotBalanceKey deltas @
            [HSet TASK_INFO_KEYNAME [(TASK_SNAPSHOT_CONSUMER_HEIGHT, HUint (unat height))],
             HSet GetStakeIndexerStatusKey [(''stake_reward_sync_height'', HUint (unat height))]] in
      case rsm_Flush mgr finalizer (io_exec_ok io) s of
        (cmds, s, ok) \<Rightarrow>
          if \<not> ok then (([], []), s, Some RedisError)
          else case cleanupZeroSnapshotBalances io (incr_keys GetSnapshotBalanceKey deltas) of
            (deleted, e) \<Rightarrow> ((cmds, deleted), s, e))"

definition runPendingRewardSnapshotWriteFlow ::
    "'s RewardSyncManager \<Rightarrow> slow_io \<Rightarrow> u32 \<Rightarrow> (string \<times> int) list \<Rightarrow> 's \<Rightarrow> 's flow_result" where
  "runPendingRewardSnapshotWriteFlow mgr io height deltas s =
     (let finalizer = balance_cmds GetPendingSnapshotBalanceKey deltas @
            [HSet TASK_INFO_KEYNAME [(TASK_PENDING_CONSUMER_HEIGHT, HUint (unat height))],
             HSet GetStakeIndexerStatusKey [(''pending_reward_sync_height'', HUint (unat height))]] in
      case rsm_Flush mgr finalizer (io_exec_ok io) s of
        (cmds, s, ok) \<Rightarrow>
          if \<not> ok then (([], []), s, Some RedisError)
          else case cleanupZeroSnapshotBalances io (incr_keys GetPendingSnapshotBalanceKey deltas) of
            (deleted, e) \<Rightarrow> ((cmds, deleted), s, e))"

section \<open>Consuming a block\<close>

datatype consume_result = Consumed | NotReady | Failed mgr_error

type_synonym 's consume_out = "((rcmd list \<times> string list) \<times> 's \<times> consume_result) option"

definition delta_map :: "(string \<times> int) list \<Rightarrow> (string, int) gomap" where
  "delta_map deltas = foldl (\<lambda>m (address, delta). mput m address delta) [] deltas"

definition snapshot_of_sync :: "SyncBlock \<Rightarrow> BlockSnapshot" where
  "snapshot_of_sync b =
     \<lparr>bs_Height = syb_Height b, bs_HashHex = syb_BlockHash b, bs_Version = syb_Version b, bs_CoinbaseReward = syb_CoinbaseReward b,
      bs_Txs = []\<rparr>"

definition no_writes :: "rcmd list \<times> string list" where
  "no_writes = ([], [])"

definition flow_out :: "'s flow_result \<Rightarrow> 's consume_out" where
  "flow_out r = (case r of (w, s, e) \<Rightarrow> Some (w, s, case e of None \<Rightarrow> Consumed | Some e \<Rightarrow> Failed e))"

definition consumeRewardSnapshotBlock :: "'s RewardSyncManager \<Rightarrow> slow_io \<Rightarrow> u32 \<Rightarrow> 's \<Rightarrow> 's consume_out" where
  "consumeRewardSnapshotBlock mgr io height s =
     (if \<not> io_db_ok io (QSyncBlock height) then Some (no_writes, s, Failed (DbError (QSyncBlock height)))
      else case GetSyncBlock (io_sync io) height of
        None \<Rightarrow> Some (no_writes, s, NotReady)
      | Some syncBlock \<Rightarrow>
        if syb_State syncBlock \<noteq> ''committed'' then Some (no_writes, s, NotReady)
        else
        (case rsm_LoadStakeBindingsToHeight mgr height True s of
           (s, Some e) \<Rightarrow> Some (no_writes, s, Failed e)
         | (s, None) \<Rightarrow>
           if \<not> io_db_ok io (QAddrDeltas height) then Some (no_writes, s, Failed (DbError (QAddrDeltas height)))
           else
             let deltas = ListIndexerAddrDeltasByHeight (io_deltas io) height;
                 s = rsm_StageStakeBalanceDeltas mgr (delta_map deltas) s in
             if \<not> io_db_ok io (QEventsAt height) then Some (no_writes, s, Failed (DbError (QEventsAt height)))
             else case rsm_ApplyFIP101EventsForSnapshot mgr height (ListFIP101InscriptionEventsByHeight (io_events io) height) s of
               (s, Some e) \<Rightarrow> Some (no_writes, s, Failed e)
             | (s, None) \<Rightarrow>
               (case rsm_SubmitBalanceBlock mgr (snapshot_of_sync syncBlock) s of
                  None \<Rightarrow> None
                | Some (s, Some e) \<Rightarrow> Some (no_writes, s, Failed e)
                | Some (s, None) \<Rightarrow> flow_out (runRewardSnapshotWriteFlow mgr io height deltas s))))"

definition consumePendingRewardSnapshotBlock ::
    "StakeRewardConfigInfo \<Rightarrow> 's RewardSyncManager \<Rightarrow> slow_io \<Rightarrow> u32 \<Rightarrow> 's \<Rightarrow> 's consume_out" where
  "consumePendingRewardSnapshotBlock cfg mgr io height s =
     (if \<not> io_db_ok io (QSyncBlock height) then Some (no_writes, s, Failed (DbError (QSyncBlock height)))
      else case GetSyncBlock (io_sync io) height of
        None \<Rightarrow> Some (no_writes, s, NotReady)
      | Some syncBlock \<Rightarrow>
        if syb_State syncBlock \<noteq> ''committed'' then Some (no_writes, s, NotReady)
        else
        (case rsm_LoadStakeBindingsToHeight mgr height True s of
           (s, Some e) \<Rightarrow> Some (no_writes, s, Failed e)
         | (s, None) \<Rightarrow>
           if \<not> io_db_ok io (QAddrDeltas height) then Some (no_writes, s, Failed (DbError (QAddrDeltas height)))
           else
             let deltas = ListIndexerAddrDeltasByHeight (io_deltas io) height;
                 s = rsm_StageStakeBalanceDeltas mgr (delta_map deltas) s in
             if \<not> io_db_ok io (QEventsAt height) then Some (no_writes, s, Failed (DbError (QEventsAt height)))
             else case rsm_ApplyFIP101EventsForSnapshot mgr height (ListFIP101InscriptionEventsByHeight (io_events io) height) s of
               (s, Some e) \<Rightarrow> Some (no_writes, s, Failed e)
             | (s, None) \<Rightarrow>
               (case (if height \<ge> Stage2StartHeight cfg then rsm_SubmitBalanceBlock mgr (snapshot_of_sync syncBlock) s
                      else Some (s, None)) of
                  None \<Rightarrow> None
                | Some (s, Some e) \<Rightarrow> Some (no_writes, s, Failed e)
                | Some (s, None) \<Rightarrow> flow_out (runPendingRewardSnapshotWriteFlow mgr io height deltas s))))"

section \<open>Which heights are consumed\<close>

definition next_height :: "StakeRewardConfigInfo \<Rightarrow> u32 option \<Rightarrow> u32" where
  "next_height cfg cursor =
     (let nextHeight = (case cursor of None \<Rightarrow> 0 | Some cursorHeight \<Rightarrow> cursorHeight + 1) in
      if nextHeight < IndexStartHeight cfg then IndexStartHeight cfg else nextHeight)"

text \<open>The first and the last height of an iteration of \<^verbatim>\<open>SyncStakeRewardIndexer\<close>, \<open>None\<close> when it waits.\<close>

definition slow_range :: "StakeRewardConfigInfo \<Rightarrow> u32 option \<Rightarrow> u32 option \<Rightarrow> (u32 \<times> u32) option" where
  "slow_range cfg cursor indexed =
     (case indexed of
        None \<Rightarrow> None
      | Some indexedHeight \<Rightarrow>
          if indexedHeight \<le> SlowLagBlocks cfg then None
          else
            let nextHeight = next_height cfg cursor; targetHeight = indexedHeight - SlowLagBlocks cfg in
            if targetHeight < nextHeight then None
            else
              let batchEnd = nextHeight + BatchBlockCount cfg - 1 in
              Some (nextHeight, if BatchBlockCount cfg > 0 \<and> batchEnd < targetHeight then batchEnd else targetHeight))"

definition canProcessPendingRewardHeight :: "StakeRewardConfigInfo \<Rightarrow> u32 \<Rightarrow> u32 \<Rightarrow> bool option" where
  "canProcessPendingRewardHeight cfg height indexedHeight =
     (case RewardProofWindowByHeight cfg height of
        None \<Rightarrow> None
      | Some proofWindow \<Rightarrow> Some (if indexedHeight \<le> height then False else indexedHeight - height \<ge> proofWindow))"

lemma u32_suc:
  assumes "e < limit"
  shows "unat (e + 1 :: u32) = Suc (unat e)"
proof -
  have "unat e < unat limit" "unat limit < 4294967296" using assms by (simp_all add: word_less_nat_alt)
  then have "Suc (unat e) < 4294967296" by linarith
  then show ?thesis by (simp add: unat_word_ariths)
qed

text \<open>The loops that extend the range of \<^verbatim>\<open>SyncPendingRewardIndexer\<close> up to a limit.\<close>

function pending_end :: "StakeRewardConfigInfo \<Rightarrow> u32 \<Rightarrow> u32 \<Rightarrow> u32 \<Rightarrow> u32 option" where
  "pending_end cfg indexedHeight limit endHeight =
     (if endHeight < limit then
        (case canProcessPendingRewardHeight cfg (endHeight + 1) indexedHeight of
           None \<Rightarrow> None
         | Some ok \<Rightarrow> if ok then pending_end cfg indexedHeight limit (endHeight + 1) else Some endHeight)
      else Some endHeight)"
  by pat_completeness auto

termination
proof (relation "measure (\<lambda>(_, _, limit, e). unat limit - unat e)")
  fix cfg :: StakeRewardConfigInfo and ix limit e :: u32 and x2
  assume "e < limit"
  then show "((cfg, ix, limit, e + 1), cfg, ix, limit, e) \<in> measure (\<lambda>(_, _, limit, e). unat limit - unat e)"
    using u32_suc [of e limit] by (simp add: word_less_nat_alt)
qed simp

text \<open>The result is \<open>None\<close> for a panic and \<open>Some None\<close> when the iteration waits.\<close>

definition pending_range :: "StakeRewardConfigInfo \<Rightarrow> u32 option \<Rightarrow> u32 option \<Rightarrow> (u32 \<times> u32) option option" where
  "pending_range cfg cursor indexed =
     (case indexed of
        None \<Rightarrow> Some None
      | Some indexedHeight \<Rightarrow>
          let nextHeight = next_height cfg cursor in
          (case canProcessPendingRewardHeight cfg nextHeight indexedHeight of
             None \<Rightarrow> None
           | Some False \<Rightarrow> Some None
           | Some True \<Rightarrow>
               map_option (\<lambda>endHeight. Some (nextHeight, endHeight))
                 (pending_end cfg indexedHeight
                   (if BatchBlockCount cfg > 0 then nextHeight + BatchBlockCount cfg - 1 else indexedHeight) nextHeight)))"

section \<open>The manager behind the interface\<close>

text \<open>What \<^verbatim>\<open>LoadStakeBindingsToHeight\<close> leaves behind when it returns an error: the loaded height and the bindings are set before
  the balances are read. The pipeline reports its first failed command; when that is only a missing key, the balances are read
  one by one until the first real error.\<close>

fun load_until :: "env \<Rightarrow> string list \<Rightarrow> Manager \<Rightarrow> Manager" where
  "load_until env [] m = m"
| "load_until env (stakeAddress # rest) m =
     (if rd_Get env (snapshot_balance_key m stakeAddress) = RErr then m
      else case load_balances env [stakeAddress] m of Inl _ \<Rightarrow> m | Inr m \<Rightarrow> load_until env rest m)"

definition load_failed :: "(string list \<Rightarrow> string list) \<Rightarrow> env \<Rightarrow> u32 \<Rightarrow> Manager \<Rightarrow> Manager" where
  "load_failed ord env height m0 =
     (let m = (if height < stakeBindingsLoadedHeight m0
               then m0\<lparr>stakeBindingsLoadedHeight := 0, stakeAddrToIndexer := [], indexerToAddrStakeAmount := [],
                       indexerToUserStakeAddress := []\<rparr>
               else m0) in
      case ListStakeBindingsRange env (stakeBindingsLoadedHeight m) height of
        Inl _ \<Rightarrow> m
      | Inr items \<Rightarrow>
          let m = cache_bindings items (m\<lparr>stakeBindingsLoadedHeight := height\<rparr>);
              replies = map (\<lambda>b. rd_Get env (snapshot_balance_key m (sb_StakeAddress b))) items in
          if find (\<lambda>r. r = RNil \<or> r = RErr) replies = Some RErr then m
          else load_until env (ord (remdups (map sb_StakeAddress items))) m)"

definition load_result ::
    "(string list \<Rightarrow> string list) \<Rightarrow> env \<Rightarrow> u32 \<Rightarrow> bool \<Rightarrow> Manager \<Rightarrow> Manager \<times> mgr_error option" where
  "load_result ord env height withBalance m =
     (case LoadStakeBindingsToHeight ord env height withBalance m of
        Inr m' \<Rightarrow> (m', None)
      | Inl e \<Rightarrow> (load_failed ord env height m, Some e))"

text \<open>The iteration orders of the Go maps of one attempt.\<close>

record orders =
  o_load :: "string list \<Rightarrow> string list"
  o_groups :: "groups \<Rightarrow> groups"
  o_percents :: "(string \<times> u64) list \<Rightarrow> (string \<times> u64) list"
  o_weights :: "(string \<times> indexerStakeWeight) list \<Rightarrow> (string \<times> indexerStakeWeight) list"

definition SubmitBalanceBlock :: "orders \<Rightarrow> env \<Rightarrow> chain_env \<Rightarrow> BlockSnapshot \<Rightarrow> rstate \<Rightarrow> reward_result option" where
  "SubmitBalanceBlock ord env ce block s = handleBlockReward (o_groups ord) (o_percents ord) (o_weights ord) env ce block s"

definition FlushBalanceChangesWithFinalizer :: "rcmd list \<Rightarrow> bool \<Rightarrow> Manager \<Rightarrow> rcmd list \<times> Manager \<times> bool" where
  "FlushBalanceChangesWithFinalizer finalizer exec_ok m =
     (case flushBalanceChanges (slowState m) (Some finalizer) exec_ok of
        (cmds, st, ok) \<Rightarrow> (cmds, m\<lparr>slowState := st\<rparr>, ok))"

definition manager_rsm :: "orders \<times> env \<times> chain_env \<times> btc \<Rightarrow> rstate RewardSyncManager" where
  "manager_rsm w =
     (case w of (ord, env, ce, b) \<Rightarrow>
      \<lparr>rsm_LoadStakeBindingsToHeight = (\<lambda>height withBalance s.
         case load_result (o_load ord) env height withBalance (rs_m s) of (m, e) \<Rightarrow> (s\<lparr>rs_m := m\<rparr>, e)),
       rsm_StageStakeBalanceDeltas = (\<lambda>deltas s. s\<lparr>rs_m := StageStakeBalanceDeltas deltas (rs_m s)\<rparr>),
       rsm_ApplyFIP101EventsForSnapshot = (\<lambda>height events s.
         case ApplyFIP101EventsForSnapshot env b height events (rs_m s) of (m, e) \<Rightarrow> (s\<lparr>rs_m := m\<rparr>, e)),
       rsm_SubmitBalanceBlock = SubmitBalanceBlock ord env ce,
       rsm_Flush = (\<lambda>finalizer exec_ok s.
         case FlushBalanceChangesWithFinalizer finalizer exec_ok (rs_m s) of (cmds, m, ok) \<Rightarrow> (cmds, s\<lparr>rs_m := m\<rparr>, ok))\<rparr>)"

text \<open>\<^verbatim>\<open>initRewardSyncManager\<close> and \<^verbatim>\<open>initPendingRewardSyncManager\<close> panic when the cursor or the bindings cannot be read.\<close>

definition init_manager :: "Manager \<Rightarrow> (string list \<Rightarrow> string list) \<Rightarrow> env \<Rightarrow> mgr_error + u32 option \<Rightarrow> Manager option" where
  "init_manager m ord env cursor =
     (case cursor of
        Inl _ \<Rightarrow> None
      | Inr None \<Rightarrow> Some m
      | Inr (Some cursorHeight) \<Rightarrow> (case load_result ord env cursorHeight True m of (m, None) \<Rightarrow> Some m | (_, Some _) \<Rightarrow> None))"

definition initRewardSyncManager :: "StakeRewardConfigInfo \<Rightarrow> (string list \<Rightarrow> string list) \<Rightarrow> env \<Rightarrow> Manager option" where
  "initRewardSyncManager cfg ord env = init_manager (NewManager cfg) ord env (GetSnapshotConsumerHeight env)"

definition initPendingRewardSyncManager :: "StakeRewardConfigInfo \<Rightarrow> (string list \<Rightarrow> string list) \<Rightarrow> env \<Rightarrow> Manager option" where
  "initPendingRewardSyncManager cfg ord env = init_manager (NewPendingManager cfg) ord env (GetPendingConsumerHeight env)"

section \<open>One block of the runner against Redis\<close>

text \<open>The counters of Redis (a missing key is 0), the cursor it holds, and the blocks whose commands were executed, with their
  deltas.\<close>

record 's world =
  w_mgr :: 's
  w_counter :: "string \<Rightarrow> int"
  w_cursor :: "u32 option"
  w_log :: "(u32 \<times> (string \<times> int) list) list"

fun exec_cmd :: "rcmd \<Rightarrow> (string \<Rightarrow> int) \<times> u32 option \<Rightarrow> (string \<Rightarrow> int) \<times> u32 option" where
  "exec_cmd (IncrBy key delta) (c, cur) = (c(key := c key + sint delta), cur)"
| "exec_cmd (HSet key flds) (c, cur) =
     (if key = TASK_INFO_KEYNAME then
        (case mget flds TASK_SNAPSHOT_CONSUMER_HEIGHT of Some (HUint n) \<Rightarrow> (c, Some (word_of_nat n)) | _ \<Rightarrow> (c, cur))
      else (c, cur))"
| "exec_cmd _ st = st"

text \<open>An attempt at the next height. The replies to the increments are the values of the counters after them.\<close>

definition replies_ok :: "slow_io \<Rightarrow> (string \<Rightarrow> int) \<Rightarrow> bool" where
  "replies_ok io counter \<longleftrightarrow> (\<forall>key v. io_reply io key = Some v \<longrightarrow> counter key = v)"

definition slow_step ::
    "StakeRewardConfigInfo \<Rightarrow> 's RewardSyncManager \<Rightarrow> slow_io \<Rightarrow> u32 \<Rightarrow> 's world \<Rightarrow> 's world option" where
  "slow_step cfg mgr io indexed w =
     (case slow_range cfg (w_cursor w) (Some indexed) of
        None \<Rightarrow> Some w
      | Some (height, endHeight) \<Rightarrow>
        if endHeight < height then Some w
        else (case consumeRewardSnapshotBlock mgr io height (w_mgr w) of
           None \<Rightarrow> None
         | Some ((cmds, deleted), s, _) \<Rightarrow>
             (case fold exec_cmd cmds (w_counter w, w_cursor w) of
                (counter, cursor) \<Rightarrow>
                  Some \<lparr>w_mgr = s, w_counter = fold (\<lambda>key c. c(key := 0)) deleted counter, w_cursor = cursor,
                        w_log = (if cmds = [] then w_log w
                                 else w_log w @ [(height, ListIndexerAddrDeltasByHeight (io_deltas io) height)])\<rparr>)))"

end
