(* ===== verification/Pipeline.thy ===== *)
theory Pipeline
  imports SlowRunner
begin

text \<open>
  The chain pipeline (\<^verbatim>\<open>internal/exec/manager/flow_chain_pipeline.go\<close>, the serial steps of \<^verbatim>\<open>flow_block_submit.go\<close>): the block index
  from the node, the blocks decoded concurrently, the buffer that puts them back into the order of their heights, and the serial
  steps of each block. The blocks reach the buffer in any order. The stop flag is set by a signal at any time, so what a check of it
  finds is an argument. The progress report is left out. \<open>None\<close> is a panic or an exit of the program.
\<close>

record BlockIndexInfo =
  bi_Height :: u32
  bi_HashHex :: string
  bi_TxCnt :: u32
  bi_FileIdx :: int
  bi_FileOffset :: int

section \<open>The block index\<close>

text \<open>\<open>node\<close> is the node's answer for a range, \<open>None\<close> when the call fails. The result is the index by height and the height of
  the main chain.\<close>

definition InitLatestBlockFromRPC ::
    "(u32 \<Rightarrow> u32 \<Rightarrow> BlockIndexInfo list option) \<Rightarrow> u32 \<Rightarrow> u32 \<Rightarrow> ((u32, BlockIndexInfo) gomap \<times> u32) option" where
  "InitLatestBlockFromRPC node startHeight batch =
     (case node startHeight (startHeight + 1 + batch) of
        None \<Rightarrow> None
      | Some blockInfos \<Rightarrow>
          if blockInfos = [] then Some ([], if startHeight > 0 then startHeight - 1 else 0)
          else Some (foldl (\<lambda>m blk. mput m (bi_Height blk) blk) [] blockInfos, bi_Height (last blockInfos)))"

section \<open>Decoding\<close>

definition empty_block :: "u32 \<Rightarrow> Block" where
  "empty_block height = \<lparr>mb_Raw = [], mb_Hash = [], mb_HashHex = '''', mb_Height = height, mb_Txs = [], mb_Version = 0,
     mb_MerkleRoot = [], mb_BlockTime = 0, mb_Bits = 0, mb_Nonce = 0, mb_Size = 0, mb_TxCnt = 0, mb_Parent = [], mb_ParentHex = '''',
     mb_ParseData = None\<rparr>"

definition decode_block :: "(byte list \<Rightarrow> byte list) \<Rightarrow> Block \<Rightarrow> Block option" where
  "decode_block hash160 block =
     (case NewTxs (drop 80 (mb_Raw block)) of
        Some (Some txs) \<Rightarrow>
          Some (block\<lparr>mb_Txs := txs, mb_ParseData := Some (ParseBlockParallel hash160 txs
             \<lparr>pb_Height = mb_Height block, pb_SpentUtxoKeysMap = [], pb_SpentUtxoDataMap = [], pb_NewUtxoDataMap = [],
              pb_AddressBalanceDeltaMap = []\<rparr>), mb_Raw := []\<rparr>)
      | _ \<Rightarrow> None)"

text \<open>The producer over the heights of the range: the stop flag, a missing index entry, a failing call or a wrong hash ends it, a block that is too
  short is skipped.\<close>

fun produce_blocks ::
    "(u32 \<Rightarrow> bool) \<Rightarrow> (byte list \<Rightarrow> byte list) \<Rightarrow> (string \<Rightarrow> byte list option) \<Rightarrow> (u32, BlockIndexInfo) gomap \<Rightarrow> u32 list
      \<Rightarrow> Block list option" where
  "produce_blocks needStop hash160 getRawBlock infos [] = Some []"
| "produce_blocks needStop hash160 getRawBlock infos (h # hs) =
     (if needStop h then Some []
      else case mget infos h of
        None \<Rightarrow> Some []
      | Some blockInfo \<Rightarrow>
        (case getRawBlock (bi_HashHex blockInfo) of
           None \<Rightarrow> Some []
         | Some rawblock \<Rightarrow>
             if length rawblock < 80 + 9 then produce_blocks needStop hash160 getRawBlock infos hs
             else case InitBlock (empty_block (bi_Height blockInfo)) rawblock of
               None \<Rightarrow> None
             | Some block \<Rightarrow>
                 if bi_HashHex blockInfo \<noteq> mb_HashHex block then Some []
                 else case decode_block hash160 block of
                   None \<Rightarrow> None
                 | Some block \<Rightarrow> map_option (\<lambda>rest. block # rest) (produce_blocks needStop hash160 getRawBlock infos hs)))"

definition InitLongestChainBlockByHeader ::
    "(u32 \<Rightarrow> bool) \<Rightarrow> (byte list \<Rightarrow> byte list) \<Rightarrow> (string \<Rightarrow> byte list option) \<Rightarrow> (u32, BlockIndexInfo) gomap \<Rightarrow> u32 \<Rightarrow> u32 \<Rightarrow> u32
      \<Rightarrow> Block list option" where
  "InitLongestChainBlockByHeader needStop hash160 getRawBlock infos mainChainHeight startBlockHeight endBlockHeight0 =
     (let endBlockHeight = (if endBlockHeight0 = 0 then mainChainHeight + 1 else endBlockHeight0) in
      produce_blocks needStop hash160 getRawBlock infos (map word_of_nat [unat startBlockHeight ..< unat endBlockHeight]))"

section \<open>Putting the blocks in order\<close>

text \<open>The buffer is indexed by height. The inner loop takes the blocks from \<open>next\<close> on while they are there.\<close>

function drain :: "u32 \<Rightarrow> (u32, 'b) gomap \<Rightarrow> u32 \<Rightarrow> 'b list \<times> u32" where
  "drain maxHeight buffer nextHeight =
     (if nextHeight < maxHeight then
        (case mget buffer nextHeight of
           None \<Rightarrow> ([], nextHeight)
         | Some b \<Rightarrow> (case drain maxHeight buffer (nextHeight + 1) of (bs, n) \<Rightarrow> (b # bs, n)))
      else ([], nextHeight))"
  by pat_completeness auto

termination
proof (relation "measure (\<lambda>(maxHeight, _, n). unat maxHeight - unat n)")
  fix maxHeight n :: u32 and buffer :: "(u32, 'b) gomap" and b
  assume "n < maxHeight"
  then show "((maxHeight, buffer, n + 1), maxHeight, buffer, n) \<in> measure (\<lambda>(maxHeight, _, n). unat maxHeight - unat n)"
    using u32_suc [of n maxHeight] by (simp add: word_less_nat_alt)
qed simp

declare drain.simps [simp del]

fun serial_order :: "('b \<Rightarrow> u32) \<Rightarrow> u32 \<Rightarrow> (u32, 'b) gomap \<Rightarrow> u32 \<Rightarrow> 'b list \<Rightarrow> 'b list" where
  "serial_order height maxHeight buffer nextHeight [] = []"
| "serial_order height maxHeight buffer nextHeight (b # arrivals) =
     (let buffer = (if height b < maxHeight then mput buffer (height b) b else buffer) in
      if height b \<noteq> nextHeight then serial_order height maxHeight buffer nextHeight arrivals
      else case drain maxHeight buffer nextHeight of
        (bs, n) \<Rightarrow> bs @ (if n \<ge> maxHeight then [] else serial_order height maxHeight buffer n arrivals))"

definition max_block_height :: "u32 \<Rightarrow> u32 \<Rightarrow> u32" where
  "max_block_height mainChainHeight maxBlockHeight =
     (if maxBlockHeight = 0 \<or> maxBlockHeight > mainChainHeight + 1 then mainChainHeight + 1 else maxBlockHeight)"

section \<open>The serial steps of a block\<close>

record batch_state =
  bt_m :: Manager
  bt_g :: globals
  bt_staged :: "StagedIndexerBlock list"
  bt_NeedStop :: bool

datatype stop_check = AfterSerialStart | AfterFastBlock

text \<open>What a block finds outside: the address decoder, snappy, the Bitcoin library, the reads of the manager, the output database, the
  outcome of its pipeline, the order of the map loops and the signals that have arrived at the two checks of the stop flag.\<close>

record batch_env =
  be_addrs :: addrs
  be_snappy :: "byte list \<Rightarrow> byte list option"
  be_btc :: btc
  be_env :: env
  be_store :: "string \<rightharpoonup> byte list"
  be_ok :: bool
  be_order :: "string list \<Rightarrow> string list"
  be_signal :: "stop_check \<Rightarrow> bool"

definition ParseBlockSerialStart :: "batch_env \<Rightarrow> Block \<Rightarrow> batch_state \<Rightarrow> (Block \<times> batch_state) option" where
  "ParseBlockSerialStart be block st =
     (case mb_ParseData block of
        None \<Rightarrow> Some (block, st)
      | Some pd \<Rightarrow>
        (case parseGetSpentStakeUtxoData (be_addrs be) (be_snappy be) (be_order be) (Some (shouldTrackStakeAddress (bt_m st)))
             (be_ok be) (be_store be) (pd, bt_g st) of
           None \<Rightarrow> None
         | Some (pd, g) \<Rightarrow> Some (block\<lparr>mb_ParseData := Some pd\<rparr>, st\<lparr>bt_g := g\<rparr>)))"

definition ParseBlockSerialFinalize :: "batch_env \<Rightarrow> Block \<Rightarrow> batch_state \<Rightarrow> (Block \<times> batch_state) option" where
  "ParseBlockSerialFinalize be block st =
     (case (case mb_ParseData block of
              None \<Rightarrow> (block, st)
            | Some pd \<Rightarrow>
              (case updateStakeUtxoInMap (be_addrs be) (Some (shouldTrackStakeAddress (bt_m st))) (pd, bt_g st) of
                 (pd, g) \<Rightarrow> (block\<lparr>mb_ParseData := Some pd\<rparr>, st\<lparr>bt_g := g\<rparr>))) of
        (block, st) \<Rightarrow>
          map_option (\<lambda>staged. (block, st\<lparr>bt_staged := staged\<rparr>)) (PersistIndexerBlockArtifacts block (bt_staged st)))"

text \<open>What \<^verbatim>\<open>HandleFastBlock\<close> leaves in the manager when it returns an error: the transactions before the failing one stay staged.\<close>

fun loop_left :: "addrs \<Rightarrow> btc \<Rightarrow> 's BlockDeps \<Rightarrow> Block \<Rightarrow> (nat \<times> Tx) list \<Rightarrow> 's \<Rightarrow> 's" where
  "loop_left ad b deps block [] s = s"
| "loop_left ad b deps block ((txIdx, tx) # rest) s =
     (case ParseProtocolTxFromModelTx ad b tx (word_of_nat txIdx) (int (unat (mb_Height block))) of
        Some (Some parsed) \<Rightarrow>
          (case handle_parsed deps block parsed s of
             Inl e \<Rightarrow> snd (bd_ResolveBusinessInvalidFlags deps (mb_Height block)
               (bd_FillTxInputAddresses deps (pp_Snapshot parsed) block) (pp_Payload parsed) s)
           | Inr s' \<Rightarrow> loop_left ad b deps block rest s')
      | _ \<Rightarrow> loop_left ad b deps block rest s)"

definition fast_block_result :: "addrs \<Rightarrow> env \<Rightarrow> btc \<Rightarrow> Block \<Rightarrow> Manager \<Rightarrow> (Manager \<times> mgr_error option) option" where
  "fast_block_result ad env b block m =
     (case HandleFastBlock ad env b block m of
        None \<Rightarrow> None
      | Some (Inr m') \<Rightarrow> Some (m', None)
      | Some (Inl e) \<Rightarrow>
          Some (loop_left ad b (managerFastBlockDeps ad env b) block (enumerate 0 (mb_Txs block)) (resetRegisterOwnerSeen m), Some e))"

text \<open>The body of the loop of \<^verbatim>\<open>ParseLongestChainBlockStart\<close>: the block that goes on to the next stage, or none when the stop flag
  ends the loop. What the steps before the check have changed stays changed.\<close>

definition process_block :: "batch_env \<Rightarrow> Block \<Rightarrow> batch_state \<Rightarrow> (Block option \<times> batch_state) option" where
  "process_block be block st =
     (case ParseBlockSerialStart be block st of
        None \<Rightarrow> None
      | Some (block, st) \<Rightarrow>
          if bt_NeedStop st \<or> be_signal be AfterSerialStart then Some (None, st\<lparr>bt_NeedStop := True\<rparr>)
          else case fast_block_result (be_addrs be) (be_env be) (be_btc be) block (bt_m st) of
            None \<Rightarrow> None
          | Some (m, err) \<Rightarrow>
              let st = st\<lparr>bt_m := m\<rparr> in
              if err \<noteq> None \<or> be_signal be AfterFastBlock then Some (None, st\<lparr>bt_NeedStop := True\<rparr>)
              else map_option (\<lambda>(block, st). (Some block, st)) (ParseBlockSerialFinalize be block st))"

fun process_blocks :: "(Block \<Rightarrow> batch_env) \<Rightarrow> Block list \<Rightarrow> batch_state \<Rightarrow> (Block list \<times> batch_state) option" where
  "process_blocks be [] st = Some ([], st)"
| "process_blocks be (b # bs) st =
     (case process_block (be b) b st of
        None \<Rightarrow> None
      | Some (None, st) \<Rightarrow> Some ([], st)
      | Some (Some block, st) \<Rightarrow> map_option (\<lambda>(stage, st). (block # stage, st)) (process_blocks be bs st))"

text \<open>\<^verbatim>\<open>ParseLongestChainBlockEnd\<close>: the hash and the height of the last block and the number of transactions.\<close>

definition ParseLongestChainBlockEnd :: "Block list \<Rightarrow> byte list \<times> u32 \<times> int" where
  "ParseLongestChainBlockEnd blocks =
     (if blocks = [] then ([], 0, 0)
      else (mb_Hash (last blocks), mb_Height (last blocks), sum_list (map (\<lambda>b. uint (mb_TxCnt b)) blocks)))"

definition ParseBlockParallelEnd :: "Block \<Rightarrow> Block" where
  "ParseBlockParallelEnd block = block\<lparr>mb_Txs := [], mb_ParseData := None\<rparr>"

text \<open>The stages together. \<open>arrival\<close> is the order in which the decoded blocks reach the buffer.\<close>

definition ParseLongestChain ::
    "(u32 \<Rightarrow> bool) \<Rightarrow> (byte list \<Rightarrow> byte list) \<Rightarrow> (string \<Rightarrow> byte list option) \<Rightarrow> (Block list \<Rightarrow> Block list) \<Rightarrow> (Block \<Rightarrow> batch_env)
      \<Rightarrow> (u32, BlockIndexInfo) gomap \<Rightarrow> u32 \<Rightarrow> u32 \<Rightarrow> u32 \<Rightarrow> batch_state \<Rightarrow> ((byte list \<times> u32 \<times> int) \<times> batch_state) option" where
  "ParseLongestChain needStop hash160 getRawBlock arrival be infos mainChainHeight startBlockHeight endBlockHeight st =
     (case InitLongestChainBlockByHeader needStop hash160 getRawBlock infos mainChainHeight startBlockHeight endBlockHeight of
        None \<Rightarrow> None
      | Some blocks \<Rightarrow>
          map_option (\<lambda>(stage, st). (ParseLongestChainBlockEnd stage, st))
            (process_blocks be
              (serial_order mb_Height (max_block_height mainChainHeight endBlockHeight) [] startBlockHeight (arrival blocks)) st))"

section \<open>The order of the blocks\<close>

lemma drain_ext:
  assumes "\<And>h b. h < mx \<Longrightarrow> mget a h = Some b \<Longrightarrow> mget f h = Some b" "drain mx a n = (bs, n')"
  shows "fst (drain mx f n) = bs @ fst (drain mx f n') \<and> (n' \<ge> mx \<or> mget a n' = None)"
  using assms
proof (induction mx a n arbitrary: bs rule: drain.induct)
  case (1 mx a n)
  show ?case
  proof (cases "n < mx \<and> mget a n \<noteq> None")
    case True
    then obtain b where b: "n < mx" "mget a n = Some b" by auto
    obtain cs where cs: "drain mx a (n + 1) = (cs, n')" "bs = b # cs"
      using 1(3) b by (simp add: drain.simps [of mx a n] split: prod.splits)
    have "fst (drain mx f (n + 1)) = cs @ fst (drain mx f n') \<and> (n' \<ge> mx \<or> mget a n' = None)"
      by (rule 1(1) [OF b 1(2) cs(1)])
    then show ?thesis using b 1(2) [OF b] cs(2) by (auto simp: drain.simps [of mx f n] split: prod.splits)
  next
    case False
    then have "bs = [] \<and> n' = n" using 1(3) by (auto simp: drain.simps [of mx a n] split: if_splits option.splits)
    then show ?thesis using False by auto
  qed
qed

lemma serial_order_drain:
  assumes "\<And>h. h < mx \<Longrightarrow> mget f h = (case find (\<lambda>b. height b = h) rest of Some b \<Rightarrow> Some b | None \<Rightarrow> mget a h)"
    "mget a n = None" "distinct (map height rest)" "\<And>b. b \<in> set rest \<Longrightarrow> mget a (height b) = None"
  shows "serial_order height mx a n rest = fst (drain mx f n)"
  using assms
proof (induction rest arbitrary: a n)
  case Nil
  then show ?case by (simp add: drain.simps [of mx f n])
next
  case (Cons b rest)
  let ?a = "if height b < mx then mput a (height b) b else a"
  have new: "height b \<notin> height ` set rest" using Cons.prems(3) by simp
  have nf: "find (\<lambda>x. height x = height b) rest = None"
    using new by (metis (mono_tags, lifting) find_None_iff imageI)
  have view: "mget f h = (case find (\<lambda>b. height b = h) rest of Some b \<Rightarrow> Some b | None \<Rightarrow> mget ?a h)" if "h < mx" for h
    using Cons.prems(1) [OF that] nf that by (auto split: option.splits)
  have fresh: "mget ?a (height x) = None" if "x \<in> set rest" for x
  proof -
    have "height x \<noteq> height b" using new that by (metis imageI)
    then show ?thesis using Cons.prems(4) [of x] that by simp
  qed
  show ?case
  proof (cases "height b = n")
    case False
    then have "mget ?a n = None" using Cons.prems(2) by auto
    then show ?thesis using Cons.IH [of ?a n] view fresh Cons.prems(3) False by (simp add: Let_def)
  next
    case True
    obtain bs n' where d: "drain mx ?a n = (bs, n')" by fastforce
    have sub: "mget f h = Some c" if "h < mx" "mget ?a h = Some c" for h c
    proof -
      have "find (\<lambda>b. height b = h) rest = None"
        using fresh that(2) by (auto simp: find_None_iff)
      then show ?thesis using view [OF that(1)] that(2) by simp
    qed
    have e: "fst (drain mx f n) = bs @ fst (drain mx f n') \<and> (n' \<ge> mx \<or> mget ?a n' = None)"
      by (rule drain_ext [OF sub d])
    show ?thesis
    proof (cases "mx \<le> n'")
      case out: True
      then have "\<not> n' < mx" by simp
      then show ?thesis using True d e out by (simp add: Let_def drain.simps [of mx f n'])
    next
      case inn: False
      then have "serial_order height mx ?a n' rest = fst (drain mx f n')"
        using Cons.IH [of ?a n'] view fresh Cons.prems(3) e by simp
      then show ?thesis using True d e inn by (simp add: Let_def)
    qed
  qed
qed

lemma find_of_map: "find (\<lambda>b. height b = h) bs = map_of (map (\<lambda>b. (height b, b)) bs) h"
  by (induction bs) auto

lemma serial_order_index:
  "distinct (map height bs) \<Longrightarrow>
   serial_order height mx [] n bs = fst (drain mx (map (\<lambda>b. (height b, b)) bs) n)"
  by (rule serial_order_drain) (auto simp: mget_def find_of_map split: option.split)

lemma drain_cong: "(\<And>h. mget a h = mget b h) \<Longrightarrow> drain mx a n = drain mx b n"
  by (induction mx a n rule: drain.induct) (simp add: drain.simps split: option.split)

lemma drain_run:
  assumes "n \<le> mx" "drain mx (map (\<lambda>b. (height b, b)) arr) n = (bs, n')"
  shows "map height bs = map word_of_nat [unat n ..< unat n + length bs] \<and> set bs \<subseteq> set arr \<and>
    unat n' = unat n + length bs \<and> (n' = mx \<or> (\<forall>b \<in> set arr. height b \<noteq> n'))"
  using assms
proof (induction mx "map (\<lambda>b. (height b, b)) arr" n arbitrary: bs rule: drain.induct)
  case (1 mx n)
  let ?f = "map (\<lambda>b. (height b, b)) arr"
  show ?case
  proof (cases "n < mx \<and> mget ?f n \<noteq> None")
    case True
    then obtain b where b: "n < mx" "mget ?f n = Some b" by auto
    obtain cs where cs: "drain mx ?f (n + 1) = (cs, n')" "bs = b # cs"
      using 1(3) b by (simp add: drain.simps [of mx _ n] split: prod.splits)
    have s: "unat (n + 1) = Suc (unat n)" by (rule u32_suc [OF b(1)])
    then have le: "n + 1 \<le> mx" using b(1) by (simp add: word_le_nat_alt word_less_nat_alt)
    have "b \<in> set arr \<and> height b = n" using b(2) by (auto simp: mget_def dest: map_of_SomeD)
    moreover have "[unat n ..< unat n + length bs] = unat n # [Suc (unat n) ..< Suc (unat n) + length cs]"
      using upt_conv_Cons [of "unat n" "unat n + length bs"] cs(2) by simp
    moreover have "map height cs = map word_of_nat [unat (n + 1) ..< unat (n + 1) + length cs] \<and> set cs \<subseteq> set arr \<and>
      unat n' = unat (n + 1) + length cs \<and> (n' = mx \<or> (\<forall>b \<in> set arr. height b \<noteq> n'))"
      by (rule 1(1) [OF b le cs(1)])
    ultimately show ?thesis using s cs(2) by simp
  next
    case False
    then have "bs = [] \<and> n' = n" using 1(3) by (auto simp: drain.simps [of mx _ n] split: if_splits option.splits)
    moreover have "n = mx \<or> mget ?f n = None" using False 1(2) by auto
    ultimately show ?thesis by (auto simp: mget_None_iff)
  qed
qed

text \<open>C13. Blocks are processed in height order whatever order they arrive in: for decoded blocks with distinct heights, every arrival order gives the same sequence.
  It runs through consecutive heights from the first one and stops only at the end of the range or before the first height whose
  block is missing.\<close>

theorem serial_order_any_arrival:
  assumes "distinct (map height blocks)" "mset arrivals = mset blocks" "start \<le> maxHeight"
  shows "serial_order height maxHeight [] start arrivals = serial_order height maxHeight [] start blocks \<and>
    (let bs = serial_order height maxHeight [] start arrivals; n = start + word_of_nat (length bs) in
     map height bs = map word_of_nat [unat start ..< unat start + length bs] \<and> set bs \<subseteq> set blocks \<and>
     (n = maxHeight \<or> (\<forall>b \<in> set blocks. height b \<noteq> n)))"
proof -
  have d: "distinct (map height arrivals)"
    using assms(1,2) by (metis mset_eq_imp_distinct_iff mset_map)
  have "map_of (map (\<lambda>b. (height b, b)) arrivals) = map_of (map (\<lambda>b. (height b, b)) blocks)"
    by (subst map_of_inject_set) (use assms d in \<open>auto simp: o_def dest: mset_eq_setD\<close>)
  then have same: "drain maxHeight (map (\<lambda>b. (height b, b)) arrivals) start = drain maxHeight (map (\<lambda>b. (height b, b)) blocks) start"
    by (intro drain_cong) (simp add: mget_def)
  obtain bs n' where r: "drain maxHeight (map (\<lambda>b. (height b, b)) blocks) start = (bs, n')" by fastforce
  have run: "map height bs = map word_of_nat [unat start ..< unat start + length bs] \<and> set bs \<subseteq> set blocks \<and>
      unat n' = unat start + length bs \<and> (n' = maxHeight \<or> (\<forall>b \<in> set blocks. height b \<noteq> n'))"
    by (rule drain_run [OF assms(3) r])
  then have "n' = start + word_of_nat (length bs)"
    by (metis of_nat_add of_nat_unat ucast_id)
  then show ?thesis using run same r assms(1) d by (simp add: serial_order_index Let_def)
qed

theorem serial_order_any_arrival_witness:
  "serial_order id 9 [] 5 [7, 5, 6 :: u32] = [5, 6, 7]"
proof -
  have "serial_order id 9 [] 5 [7, 5, 6 :: u32] = serial_order id 9 [] 5 [5, 6, 7]"
    using serial_order_any_arrival [of id "[5, 6, 7]" "[7, 5, 6]" 5 9] by simp
  moreover have "serial_order id 9 [] 5 [5, 6, 7 :: u32] = [5, 6, 7]" by code_simp
  ultimately show ?thesis by simp
qed

end
