(* ===== verification/Submit.thy ===== *)
theory Submit
  imports Pipeline
begin

text \<open>
  Committing a batch of blocks (\<^verbatim>\<open>internal/exec/manager/write_commit_flow.go\<close>, \<^verbatim>\<open>flow_block_submit.go\<close>), the check of the heights of the
  three stores (\<^verbatim>\<open>reconcile_heights.go\<close>) and the main loop that runs them (\<^verbatim>\<open>syncBlockIndexer\<close> of \<^verbatim>\<open>main.go\<close>). Every call that can fail has its
  own outcome; the state after a failure is what the calls before it have left.
\<close>

section \<open>The tables of a batch\<close>

text \<open>\<^verbatim>\<open>upsertStakeClaimedReward\<close>: one row per transaction. The driver refuses an amount with the high bit set.\<close>

definition upsertStakeClaimedReward :: "StakeClaimedReward \<Rightarrow> StakeClaimedReward list \<Rightarrow> StakeClaimedReward list option" where
  "upsertStakeClaimedReward item0 t =
     (let item = (if cr_RewardType item0 = '''' then item0\<lparr>cr_RewardType := StakeRewardTypeStake\<rparr> else item0) in
      if \<not> bigint_ok (cr_Amount item) then None
      else if cr_TxID item \<in> set (map cr_TxID t)
      then Some (map (\<lambda>r. if cr_TxID r = cr_TxID item then item else r) t)
      else Some (t @ [item]))"

text \<open>One event of \<^verbatim>\<open>UpsertFIP101InscriptionEventsBatch\<close>; an event without a transaction or an operation is skipped.\<close>

definition upsert_event :: "FIP101InscriptionEvent \<Rightarrow> FIP101InscriptionEvent list \<Rightarrow> FIP101InscriptionEvent list option" where
  "upsert_event event t =
     (if TrimSpace (ev_TxID event) = '''' \<or> TrimSpace (ev_Op event) = '''' then Some t
      else if \<not> bigint_ok (ev_Amount event) \<or> \<not> bigint_ok (ev_BizInvalidFlags event) then None
      else if ev_TxID event \<in> set (map ev_TxID t)
      then Some (map (\<lambda>r. if ev_TxID r = ev_TxID event then event else r) t)
      else Some (t @ [event]))"

text \<open>Statements in a loop: the first that fails ends it, the rows before it stay. \<open>ok\<close> is the outcome of the statement for an item.\<close>

fun upserts :: "('a \<Rightarrow> bool) \<Rightarrow> ('a \<Rightarrow> 't \<Rightarrow> 't option) \<Rightarrow> 'a list \<Rightarrow> 't \<Rightarrow> 't \<times> bool" where
  "upserts ok put [] t = (t, True)"
| "upserts ok put (x # xs) t =
     (if \<not> ok x then (t, False)
      else case put x t of None \<Rightarrow> (t, False) | Some t' \<Rightarrow> upserts ok put xs t')"

definition UpsertFIP101InscriptionEventsBatch ::
    "(FIP101InscriptionEvent \<Rightarrow> bool) \<Rightarrow> FIP101InscriptionEvent list \<Rightarrow> FIP101InscriptionEvent list \<Rightarrow> FIP101InscriptionEvent list \<times> bool" where
  "UpsertFIP101InscriptionEventsBatch ok events t = upserts ok upsert_event events t"

definition CountStakeIndexerRegisters :: "StakeIndexerRegister list \<Rightarrow> nat" where
  "CountStakeIndexerRegisters t = length t"

section \<open>The state and the calls\<close>

record submit_state =
  su_batch :: batch_state
  su_db :: indexer_state
  su_status :: "(string, nat) gomap"
  su_sent :: "rcmd list"

datatype submit_call =
    XFlushArtifacts
  | XRegister StakeIndexerRegister
  | QCountRegisters
  | XStatus
  | XProof StakeProof
  | XClaim StakeClaimedReward
  | XBinding StakeBinding
  | XEvent FIP101InscriptionEvent
  | XUtxoAdd
  | XUtxoDel
  | XUtxoCursor
  | XBalances
  | XZeroKeys
  | XStaged
  | XMarkCommitted

type_synonym 's step = "'s \<Rightarrow> 's \<times> bool"

text \<open>Steps in turn; the first that fails ends the run.\<close>

fun run_steps :: "'s step list \<Rightarrow> 's step" where
  "run_steps [] s = (s, True)"
| "run_steps (f # fs) s = (case f s of (s, ok) \<Rightarrow> if ok then run_steps fs s else (s, False))"

definition map_db :: "(indexer_state \<Rightarrow> indexer_state) \<Rightarrow> submit_state \<Rightarrow> submit_state" where
  "map_db f s = s\<lparr>su_db := f (su_db s)\<rparr>"

definition map_batch :: "(batch_state \<Rightarrow> batch_state) \<Rightarrow> submit_state \<Rightarrow> submit_state" where
  "map_batch f s = s\<lparr>su_batch := f (su_batch s)\<rparr>"

text \<open>What has been staged for the database.\<close>

definition waiting :: "submit_state \<Rightarrow> WaitForUpsert" where
  "waiting s = waitForUpsert (bt_m (su_batch s))"

text \<open>The reads of the manager after the writes see the tables as they are now.\<close>

definition env_of :: "env \<Rightarrow> submit_state \<Rightarrow> env" where
  "env_of env s = env\<lparr>db_registers := ix_registers (su_db s), db_bindings := ix_bindings (su_db s)\<rparr>"

section \<open>The steps of a commit\<close>

definition flush_artifacts :: "(submit_call \<Rightarrow> bool) \<Rightarrow> u32 \<Rightarrow> u32 \<Rightarrow> submit_state step" where
  "flush_artifacts ok startHeight stageBlockHeight s =
     (case FlushIndexerBlockArtifacts (ok XFlushArtifacts) (bt_staged (su_batch s)) startHeight stageBlockHeight
         (ix_sync (su_db s), ix_art (su_db s)) of
        None \<Rightarrow> (s, False)
      | Some (t, a) \<Rightarrow> (map_db (\<lambda>d. d\<lparr>ix_sync := t, ix_art := a\<rparr>) s, True))"

definition persist_registers :: "(submit_call \<Rightarrow> bool) \<Rightarrow> submit_state step" where
  "persist_registers ok s =
     (case upserts (ok \<circ> XRegister) (\<lambda>r t. Some (upsertStakeIndexerRegister t r)) (StakeIndexerRegisterList (waiting s)) (ix_registers (su_db s)) of
        (t, b) \<Rightarrow> (map_db (\<lambda>d. d\<lparr>ix_registers := t\<rparr>) s, b))"

definition persist_status :: "(submit_call \<Rightarrow> bool) \<Rightarrow> submit_state step" where
  "persist_status ok s =
     (if \<not> ok QCountRegisters \<or> \<not> ok XStatus then (s, False)
      else (s\<lparr>su_status := mput (su_status s) ''total_indexers'' (CountStakeIndexerRegisters (ix_registers (su_db s)))\<rparr>, True))"

definition persist_proofs :: "(submit_call \<Rightarrow> bool) \<Rightarrow> submit_state step" where
  "persist_proofs ok s =
     (case upserts (ok \<circ> XProof) (\<lambda>p t. Some (upsertStakeProof t p)) (StakeProofList (waiting s)) (ix_proofs (su_db s)) of
        (t, b) \<Rightarrow> (map_db (\<lambda>d. d\<lparr>ix_proofs := t\<rparr>) s, b))"

definition persist_claims :: "(submit_call \<Rightarrow> bool) \<Rightarrow> submit_state step" where
  "persist_claims ok s =
     (case upserts (ok \<circ> XClaim) upsertStakeClaimedReward (StakeClaimedRewardList (waiting s)) (ix_claims (su_db s)) of
        (t, b) \<Rightarrow> (map_db (\<lambda>d. d\<lparr>ix_claims := t\<rparr>) s, b))"

definition persist_bindings :: "(submit_call \<Rightarrow> bool) \<Rightarrow> submit_state step" where
  "persist_bindings ok s =
     (case upserts (ok \<circ> XBinding) (\<lambda>b t. Some (insertStakeBinding t b)) (StakeBindingList (waiting s)) (ix_bindings (su_db s)) of
        (t, b) \<Rightarrow> (map_db (\<lambda>d. d\<lparr>ix_bindings := t\<rparr>) s, b))"

definition persist_events :: "(submit_call \<Rightarrow> bool) \<Rightarrow> submit_state step" where
  "persist_events ok s =
     (case UpsertFIP101InscriptionEventsBatch (ok \<circ> XEvent) (FIP101InscriptionEvents (waiting s)) (ix_events (su_db s)) of
        (t, b) \<Rightarrow> (map_db (\<lambda>d. d\<lparr>ix_events := t\<rparr>) s, b))"

definition reload_bindings :: "(string list \<Rightarrow> string list) \<Rightarrow> env \<Rightarrow> u32 \<Rightarrow> submit_state step" where
  "reload_bindings ord env stageBlockHeight s0 =
     (let s = map_batch (\<lambda>b. b\<lparr>bt_m := (bt_m b)\<lparr>waitForUpsert := emptyWaitForUpsert\<rparr>\<rparr>) s0 in
      case load_result ord (env_of env s) stageBlockHeight False (bt_m (su_batch s)) of
        (m, err) \<Rightarrow> (map_batch (\<lambda>b. b\<lparr>bt_m := m\<rparr>) s, err = None))"

definition persistPreparedStakeWrites :: "(string list \<Rightarrow> string list) \<Rightarrow> env \<Rightarrow> (submit_call \<Rightarrow> bool) \<Rightarrow> u32 \<Rightarrow> submit_state step" where
  "persistPreparedStakeWrites ord env ok stageBlockHeight =
     run_steps [persist_registers ok, persist_status ok, persist_proofs ok, persist_claims ok, persist_bindings ok, persist_events ok,
       reload_bindings ord env stageBlockHeight]"

text \<open>Nothing is sent for an empty map. A failing write of new outputs also sets the stop flag.\<close>

definition commit_utxo :: "(submit_call \<Rightarrow> bool) \<Rightarrow> u32 \<Rightarrow> submit_state step" where
  "commit_utxo ok stageBlockHeight s =
     (let g = bt_g (su_batch s); add_ok = (GlobalNewUtxoDataMap g = [] \<or> ok XUtxoAdd); del_ok = (GlobalDeleteUtxoKeysMap g = [] \<or> ok XUtxoDel) in
      case commitUtxoWritesAndCursor add_ok del_ok (ok XUtxoCursor) stageBlockHeight g (ix_utxo (su_db s)) of
        (u, b) \<Rightarrow> (map_batch (\<lambda>x. x\<lparr>bt_NeedStop := bt_NeedStop x \<or> \<not> add_ok\<rparr>) (map_db (\<lambda>d. d\<lparr>ix_utxo := u\<rparr>) s), b))"

definition apply_balances :: "(submit_call \<Rightarrow> bool) \<Rightarrow> u32 \<Rightarrow> submit_state step" where
  "apply_balances ok stageBlockHeight s =
     (case applyRealtimeBalances (ok XBalances) (ok XZeroKeys) (stakeAddrToIndexer (bt_m (su_batch s))) stageBlockHeight
         (bt_g (su_batch s)) (ix_bal (su_db s)) of
        (db, b) \<Rightarrow> (map_db (\<lambda>d. d\<lparr>ix_bal := db\<rparr>) s, b))"

definition flush_staged :: "(submit_call \<Rightarrow> bool) \<Rightarrow> submit_state step" where
  "flush_staged ok s =
     (case flushBalanceChanges (slowState (bt_m (su_batch s))) None (ok XStaged) of
        (cmds, st, b) \<Rightarrow>
          (map_batch (\<lambda>x. x\<lparr>bt_m := (bt_m x)\<lparr>slowState := st\<rparr>\<rparr>) s\<lparr>su_sent := su_sent s @ (if b then cmds else [])\<rparr>, b))"

definition mark_committed :: "(submit_call \<Rightarrow> bool) \<Rightarrow> u32 \<Rightarrow> u32 \<Rightarrow> submit_state step" where
  "mark_committed ok startHeight stageBlockHeight s =
     (if stageBlockHeight \<ge> startHeight \<and> \<not> ok XMarkCommitted then (s, False)
      else (map_db (\<lambda>d. d\<lparr>ix_sync := MarkIndexerBlocksCommitted startHeight stageBlockHeight (ix_sync d)\<rparr>) s, True))"

definition clean_maps :: "submit_state step" where
  "clean_maps s = (map_batch (\<lambda>b. b\<lparr>bt_g := CleanUtxoMap\<rparr>) s, True)"

text \<open>The manager is never nil for the caller in \<^verbatim>\<open>main.go\<close>.\<close>

definition runSubmitBlocksFlow :: "(string list \<Rightarrow> string list) \<Rightarrow> env \<Rightarrow> (submit_call \<Rightarrow> bool) \<Rightarrow> u32 \<Rightarrow> u32 \<Rightarrow> submit_state step" where
  "runSubmitBlocksFlow ord env ok startHeight stageBlockHeight =
     run_steps [flush_artifacts ok startHeight stageBlockHeight, persistPreparedStakeWrites ord env ok stageBlockHeight,
       commit_utxo ok stageBlockHeight, apply_balances ok stageBlockHeight, flush_staged ok,
       mark_committed ok startHeight stageBlockHeight, clean_maps]"

definition ResetIndexerArtifactStage :: "submit_state \<Rightarrow> submit_state" where
  "ResetIndexerArtifactStage s = map_batch (\<lambda>b. b\<lparr>bt_staged := []\<rparr>) s"

definition SubmitBlocks :: "(string list \<Rightarrow> string list) \<Rightarrow> env \<Rightarrow> (submit_call \<Rightarrow> bool) \<Rightarrow> u32 \<Rightarrow> u32 \<Rightarrow> submit_state step" where
  "SubmitBlocks ord env ok startHeight stageBlockHeight s =
     (case runSubmitBlocksFlow ord env ok startHeight stageBlockHeight s of (s, b) \<Rightarrow> (ResetIndexerArtifactStage s, b))"

section \<open>The check of the heights\<close>

record heightState =
  hs_Name :: string
  hs_Exists :: bool
  hs_Height :: u32

definition formatHeightStates :: "heightState list \<Rightarrow> string" where
  "formatHeightStates states =
     (case map (\<lambda>item. hs_Name item @ ''='' @ (if hs_Exists item then FormatUint (unat (hs_Height item)) else ''nil'')) states of
        [] \<Rightarrow> ''''
      | x # xs \<Rightarrow> x @ concat (map (\<lambda>y. '', '' @ y) xs))"

text \<open>The message of the error, or none.\<close>

definition validateHeightStates :: "string \<Rightarrow> heightState list \<Rightarrow> string option" where
  "validateHeightStates domain states =
     (if states = [] then None
      else if list_all (\<lambda>item. \<not> hs_Exists item) states then None
      else if \<not> list_all hs_Exists states
      then Some (domain @ '' height consistency broken: partial existence: '' @ formatHeightStates states)
      else if list_ex (\<lambda>item. hs_Height item \<noteq> hs_Height (hd states)) (tl states)
      then Some (domain @ '' height consistency broken: mismatch: '' @ formatHeightStates states)
      else None)"

datatype height_error = HeightRead | HeightsBroken string

definition height_state :: "string \<Rightarrow> u32 option \<Rightarrow> heightState" where
  "height_state name h = \<lparr>hs_Name = name, hs_Exists = h \<noteq> None, hs_Height = (case h of None \<Rightarrow> 0 | Some h \<Rightarrow> h)\<rparr>"

definition EnsureIndexerDataConsistency :: "bool \<Rightarrow> indexer_state \<Rightarrow> height_error + u32" where
  "EnsureIndexerDataConsistency read_ok s =
     (if \<not> read_ok then Inl HeightRead
      else case GetInfoFieldUInt32 (bd_block_height (ix_bal s)) of
        Inl _ \<Rightarrow> Inl HeightRead
      | Inr realtime \<Rightarrow>
          let committed = GetLatestCommittedSyncBlockHeight (ix_sync s) in
          case validateHeightStates ''indexer'' [height_state ''pg_committed'' committed, height_state ''redis_utxo'' (ud_height (ix_utxo s)),
              height_state ''redis_realtime'' realtime] of
            Some msg \<Rightarrow> Inl (HeightsBroken msg)
          | None \<Rightarrow> Inr (case committed of None \<Rightarrow> 0 | Some h \<Rightarrow> h + 1))"

section \<open>The main loop\<close>

definition UpdateLatestBlockHeightStatus :: "bool \<Rightarrow> u32 \<Rightarrow> submit_state \<Rightarrow> submit_state" where
  "UpdateLatestBlockHeightStatus ok height s =
     (if ok then s\<lparr>su_status := mput (su_status s) ''latest_block_height'' (unat height)\<rparr> else s)"

text \<open>What one iteration finds outside: the outcomes of its reads and writes, the answers of the node, the signals, and for every block
  what its serial steps find (the output database and the tables are those of the state).\<close>

record sync_env =
  sy_read_ok :: bool
  sy_rollback_ok :: bool
  sy_bindings_ok :: bool
  sy_status_ok :: bool
  sy_mempool_ok :: bool
  sy_node :: "u32 \<Rightarrow> u32 \<Rightarrow> (u32 \<times> string) list option"
  sy_index :: "u32 \<Rightarrow> u32 \<Rightarrow> BlockIndexInfo list option"
  sy_env :: env
  sy_order :: "string list \<Rightarrow> string list"
  sy_needStop :: "u32 \<Rightarrow> bool"
  sy_hash160 :: "byte list \<Rightarrow> byte list"
  sy_raw :: "string \<Rightarrow> byte list option"
  sy_arrival :: "Block list \<Rightarrow> Block list"
  sy_block :: "Block \<Rightarrow> batch_env"
  sy_ok :: "submit_call \<Rightarrow> bool"

datatype sync_outcome = Stopped | Retried | AtTip | Submitted u32 u32 bool

definition floor_height :: "u32 \<Rightarrow> u32 \<Rightarrow> u32" where
  "floor_height indexStartHeight h = (if h < indexStartHeight then indexStartHeight else h)"

definition block_env :: "sync_env \<Rightarrow> submit_state \<Rightarrow> Block \<Rightarrow> batch_env" where
  "block_env e s b = (sy_block e b)\<lparr>be_store := ud_store (ix_utxo (su_db s)), be_env := env_of (be_env (sy_block e b)) s\<rparr>"

text \<open>The second half of an iteration: the blocks from \<open>nextHeight\<close> on are parsed and committed. Before it the mempool snapshot
  is reset when the mempool is indexed.\<close>

definition parse_and_submit :: "StakeRewardConfigInfo \<Rightarrow> sync_env \<Rightarrow> (u32, BlockIndexInfo) gomap \<Rightarrow> u32 \<Rightarrow> u32 \<Rightarrow> submit_state
    \<Rightarrow> (submit_state \<times> sync_outcome) option" where
  "parse_and_submit cfg e infos mainChainHeight nextHeight s =
     (if EnableMempoolIndexing cfg \<and> \<not> sy_mempool_ok e then Some (s, Retried)
      else
        let s = ResetIndexerArtifactStage s in
        case ParseLongestChain (sy_needStop e) (sy_hash160 e) (sy_raw e) (sy_arrival e) (block_env e s) infos mainChainHeight nextHeight
            (mainChainHeight + 1) (su_batch s) of
          None \<Rightarrow> None
        | Some ((_, stageBlockHeight, txCount), batch) \<Rightarrow>
            let s = s\<lparr>su_batch := batch\<rparr> in
            if txCount = 0 then Some (ResetIndexerArtifactStage s, if bt_NeedStop batch then Stopped else Retried)
            else if stageBlockHeight < nextHeight then Some (ResetIndexerArtifactStage s, Retried)
            else case SubmitBlocks (sy_order e) (sy_env e) (sy_ok e) nextHeight stageBlockHeight s of
              (s, b) \<Rightarrow> Some (s, Submitted nextHeight stageBlockHeight b))"

text \<open>One iteration of \<^verbatim>\<open>syncBlockIndexer\<close>. The start of the reward runners and the mempool synchronisation at the tip work on
  other state. A failing rollback keeps the state here; what it leaves behind in the code is the part of its writes before the failure.\<close>

definition sync_iteration :: "StakeRewardConfigInfo \<Rightarrow> sync_env \<Rightarrow> submit_state \<Rightarrow> (submit_state \<times> sync_outcome) option" where
  "sync_iteration cfg e s =
     (if bt_NeedStop (su_batch s) then Some (s, Stopped)
      else case EnsureIndexerDataConsistency (sy_read_ok e) (su_db s) of
        Inl _ \<Rightarrow> Some (s, Retried)
      | Inr h \<Rightarrow>
        (case RollbackCheckWithFloor (sy_rollback_ok e) (sy_bindings_ok e) (sy_node e) 100 (IndexStartHeight cfg) (su_db s) of
           Inl _ \<Rightarrow> Some (s, Retried)
         | Inr (rolledBack, db) \<Rightarrow>
             let s = s\<lparr>su_db := db\<rparr>;
                 nextHeight = floor_height (IndexStartHeight cfg) (case rolledBack of None \<Rightarrow> h | Some rollbackFrom \<Rightarrow> rollbackFrom) in
             case load_result (sy_order e) (env_of (sy_env e) s) (if nextHeight > 0 then nextHeight - 1 else 0) False (bt_m (su_batch s)) of
               (m, Some _) \<Rightarrow> Some (map_batch (\<lambda>b. b\<lparr>bt_m := m\<rparr>) s, Retried)
             | (m, None) \<Rightarrow>
                 let s = map_batch (\<lambda>b. b\<lparr>bt_m := m\<rparr>) s in
                 case InitLatestBlockFromRPC (sy_index e) nextHeight (BatchBlockCount cfg) of
                   None \<Rightarrow> Some (s, Retried)
                 | Some (infos, mainChainHeight) \<Rightarrow>
                     let s = UpdateLatestBlockHeightStatus (sy_status_ok e) mainChainHeight s in
                     if mainChainHeight + 1 \<le> nextHeight then Some (s, AtTip)
                     else parse_and_submit cfg e infos mainChainHeight nextHeight s))"

end
