(* ===== verification/LedgerProofs.thy ===== *)
theory LedgerProofs
  imports Ledger
begin

text \<open>
  Correctness of the output ledger and of its rollback: what the serial steps of a block do to the maps of the block and of the
  batch, that undoing a block inverts it, which undo rows a rollback can rely on, that the deltas kept for a rollback are the deltas
  applied, and what the comparison with the node establishes.
\<close>

section \<open>What processing a block does to the maps\<close>

abbreviation tracked :: "addrs \<Rightarrow> (string \<Rightarrow> bool) option \<Rightarrow> TxoData \<Rightarrow> bool" where
  "tracked ad t d \<equiv> shouldTrackTxoData ad t d"

lemma addTracked_fields [simp]:
  "pb_NewUtxoDataMap (fst (addTrackedAddressDelta ad t d n (b, g))) = pb_NewUtxoDataMap b"
  "pb_SpentUtxoDataMap (fst (addTrackedAddressDelta ad t d n (b, g))) = pb_SpentUtxoDataMap b"
  "pb_SpentUtxoKeysMap (fst (addTrackedAddressDelta ad t d n (b, g))) = pb_SpentUtxoKeysMap b"
  "GlobalNewUtxoDataMap (snd (addTrackedAddressDelta ad t d n (b, g))) = GlobalNewUtxoDataMap g"
  "GlobalSpentUtxoDataMap (snd (addTrackedAddressDelta ad t d n (b, g))) = GlobalSpentUtxoDataMap g"
  "GlobalDeleteUtxoKeysMap (snd (addTrackedAddressDelta ad t d n (b, g))) = GlobalDeleteUtxoKeysMap g"
  by (auto simp: addTrackedAddressDelta_def split: option.splits)

lemma put_spent_fields [simp]:
  "pb_NewUtxoDataMap (put_spent k d b) = pb_NewUtxoDataMap b" "pb_SpentUtxoKeysMap (put_spent k d b) = pb_SpentUtxoKeysMap b"
  "pb_SpentUtxoDataMap (put_spent k d b) = mput (pb_SpentUtxoDataMap b) k d"
  by (simp_all add: put_spent_def)

text \<open>Where the data of a spent key comes from when it is not in Redis.\<close>

definition local_source :: "ProcessBlock \<Rightarrow> globals \<Rightarrow> string \<Rightarrow> TxoData option" where
  "local_source b g k = (case mget (pb_NewUtxoDataMap b) k of Some d \<Rightarrow> Some d | None \<Rightarrow> mget (GlobalNewUtxoDataMap g) k)"

definition pick :: "('a \<Rightarrow> bool) \<Rightarrow> 'a option \<Rightarrow> 'a option \<Rightarrow> 'a option" where
  "pick P new old = (case new of Some d \<Rightarrow> if P d then Some d else old | None \<Rightarrow> old)"

lemma pick_simps [simp]: "pick P (Some d) old = (if P d then Some d else old)" "pick P None old = old"
  by (simp_all add: pick_def)

lemma spent_loop_maps:
  assumes "spent_loop ad t ks (b, g) = ((b', g'), rest)" "distinct ks"
  shows "mget (pb_NewUtxoDataMap b') k = (if k \<in> set ks then None else mget (pb_NewUtxoDataMap b) k) \<and>
    mget (GlobalNewUtxoDataMap g') k =
      (if k \<in> set ks \<and> mget (pb_NewUtxoDataMap b) k = None then None else mget (GlobalNewUtxoDataMap g) k) \<and>
    mget (pb_SpentUtxoDataMap b') k =
      (if k \<in> set ks then pick (tracked ad t) (local_source b g k) (mget (pb_SpentUtxoDataMap b) k)
       else mget (pb_SpentUtxoDataMap b) k) \<and>
    rest = filter (\<lambda>k. local_source b g k = None) ks \<and>
    GlobalDeleteUtxoKeysMap g' = GlobalDeleteUtxoKeysMap g"
  using assms
proof (induction ks arbitrary: b g rest)
  case Nil
  then show ?case by simp
next
  case (Cons k0 ks)
  have k0: "k0 \<notin> set ks" and ds: "distinct ks" using Cons.prems(2) by auto
  have other: "filter (\<lambda>k. local_source b1 g1 k = None) ks = filter (\<lambda>k. local_source b g k = None) ks"
    if "\<And>k. k \<noteq> k0 \<Longrightarrow> local_source b1 g1 k = local_source b g k" for b1 g1
    using that k0 by (intro filter_cong refl) metis
  show ?case
  proof (cases "mget (pb_NewUtxoDataMap b) k0")
    case (Some d)
    define b1 where "b1 = b\<lparr>pb_NewUtxoDataMap := mdel (pb_NewUtxoDataMap b) k0\<rparr>"
    define b2 where "b2 = (if tracked ad t d then put_spent k0 d b1 else b1)"
    have f: "pb_NewUtxoDataMap b2 = mdel (pb_NewUtxoDataMap b) k0"
      "pb_SpentUtxoDataMap b2 = (if tracked ad t d then mput (pb_SpentUtxoDataMap b) k0 d else pb_SpentUtxoDataMap b)"
      by (simp_all add: b2_def b1_def)
    have "spent_loop ad t ks (b2, g) = ((b', g'), rest)" using Cons.prems(1) Some by (simp add: Let_def b2_def b1_def split: if_splits)
    note IH = Cons.IH [OF this ds]
    have ls: "local_source b2 g k = local_source b g k" if "k \<noteq> k0" for k
      using that by (simp add: local_source_def f split: option.split)
    have ls0: "local_source b g k0 = Some d" using Some by (simp add: local_source_def)
    from IH other [OF ls] Some k0 show ?thesis by (cases "k = k0") (auto simp: f ls ls0)
  next
    case None
    show ?thesis
    proof (cases "mget (GlobalNewUtxoDataMap g) k0")
      case (Some d)
      define g1 where "g1 = g\<lparr>GlobalNewUtxoDataMap := mdel (GlobalNewUtxoDataMap g) k0\<rparr>"
      define st where "st = (if tracked ad t d then addTrackedAddressDelta ad t d (- sint (td_Satoshi d)) (put_spent k0 d b, g1) else (b, g1))"
      obtain b2 g2 where st2: "st = (b2, g2)" by (cases st)
      then have b2: "b2 = fst st" "g2 = snd st" by simp_all
      have f: "pb_NewUtxoDataMap b2 = pb_NewUtxoDataMap b"
        "pb_SpentUtxoDataMap b2 = (if tracked ad t d then mput (pb_SpentUtxoDataMap b) k0 d else pb_SpentUtxoDataMap b)"
        "GlobalNewUtxoDataMap g2 = mdel (GlobalNewUtxoDataMap g) k0" "GlobalDeleteUtxoKeysMap g2 = GlobalDeleteUtxoKeysMap g"
        by (simp_all add: b2 st_def g1_def)
      have "spent_loop ad t ks (b2, g2) = ((b', g'), rest)"
        using Cons.prems(1) None Some by (simp add: Let_def st_def g1_def flip: st2 split: if_splits)
      note IH = Cons.IH [OF this ds]
      have ls: "local_source b2 g2 k = local_source b g k" if "k \<noteq> k0" for k
        using that by (simp add: local_source_def f split: option.split)
      have ls0: "local_source b g k0 = Some d" using Some None by (simp add: local_source_def)
      from IH other [OF ls] Some None k0 show ?thesis by (cases "k = k0") (auto simp: f ls ls0)
    next
      case none: None
      then obtain rest' where "spent_loop ad t ks (b, g) = ((b', g'), rest')" "rest = k0 # rest'"
        using Cons.prems(1) None by (auto split: prod.splits)
      moreover have "local_source b g k0 = None" using None none by (simp add: local_source_def)
      ultimately show ?thesis using Cons.IH [OF _ ds] None none k0 by (cases "k = k0") auto
    qed
  qed
qed

lemma redis_step_fields:
  assumes "redis_step ad sn t store k0 (b, g) = (b', g')"
  shows "pb_NewUtxoDataMap b' = pb_NewUtxoDataMap b \<and> GlobalNewUtxoDataMap g' = GlobalNewUtxoDataMap g \<and>
    mget (pb_SpentUtxoDataMap b') k =
      (if k = k0 then pick (tracked ad t) (map_option (stored_txo sn) (store k)) (mget (pb_SpentUtxoDataMap b) k)
       else mget (pb_SpentUtxoDataMap b) k) \<and>
    (k \<in> set (GlobalDeleteUtxoKeysMap g') \<longleftrightarrow> k \<in> set (GlobalDeleteUtxoKeysMap g) \<or>
      k = k0 \<and> pick (tracked ad t) (map_option (stored_txo sn) (store k)) None \<noteq> None)"
proof (cases "store k0")
  case None
  then show ?thesis using assms by (auto simp: redis_step_def pick_def)
next
  case (Some raw)
  show ?thesis
  proof (cases "tracked ad t (stored_txo sn raw)")
    case False
    then show ?thesis using assms Some by (auto simp: redis_step_def pick_def Let_def)
  next
    case True
    let ?d = "stored_txo sn raw"
    define st where "st = (put_spent k0 ?d b,
      g\<lparr>GlobalSpentUtxoDataMap := mput (GlobalSpentUtxoDataMap g) k0 ?d, GlobalDeleteUtxoKeysMap := insert_key k0 (GlobalDeleteUtxoKeysMap g)\<rparr>)"
    have "(b', g') = addTrackedAddressDelta ad t ?d (- sint (td_Satoshi ?d)) st"
      using assms Some True by (simp add: redis_step_def Let_def st_def)
    then have "b' = fst (addTrackedAddressDelta ad t ?d (- sint (td_Satoshi ?d)) st)"
      "g' = snd (addTrackedAddressDelta ad t ?d (- sint (td_Satoshi ?d)) st)" by (metis fst_conv, metis snd_conv)
    then show ?thesis using Some True by (auto simp: st_def pick_def insert_key_def)
  qed
qed

lemma redis_fold_maps:
  assumes "fold (redis_step ad sn t store) ks (b, g) = (b', g')" "distinct ks"
  shows "pb_NewUtxoDataMap b' = pb_NewUtxoDataMap b \<and> GlobalNewUtxoDataMap g' = GlobalNewUtxoDataMap g \<and>
    mget (pb_SpentUtxoDataMap b') k =
      (if k \<in> set ks then pick (tracked ad t) (map_option (stored_txo sn) (store k)) (mget (pb_SpentUtxoDataMap b) k)
       else mget (pb_SpentUtxoDataMap b) k) \<and>
    (k \<in> set (GlobalDeleteUtxoKeysMap g') \<longleftrightarrow> k \<in> set (GlobalDeleteUtxoKeysMap g) \<or>
      k \<in> set ks \<and> pick (tracked ad t) (map_option (stored_txo sn) (store k)) None \<noteq> None)"
  using assms
proof (induction ks arbitrary: b g)
  case (Cons k0 ks)
  obtain b1 g1 where s: "redis_step ad sn t store k0 (b, g) = (b1, g1)" by (cases "redis_step ad sn t store k0 (b, g)")
  have "fold (redis_step ad sn t store) ks (b1, g1) = (b', g')" "distinct ks" "k0 \<notin> set ks" using Cons.prems s by auto
  with Cons.IH [OF this(1,2)] redis_step_fields [OF s, of k] show ?case by auto
qed auto

lemma new_step_fields:
  assumes "new_step ad t (k0, d) (f, b, g) = (f', b', g')"
  shows "pb_NewUtxoDataMap b' = pb_NewUtxoDataMap b \<and> pb_SpentUtxoDataMap b' = pb_SpentUtxoDataMap b \<and>
    GlobalDeleteUtxoKeysMap g' = GlobalDeleteUtxoKeysMap g \<and>
    f' = (if tracked ad t d then mput f k0 d else f) \<and>
    GlobalNewUtxoDataMap g' = (if tracked ad t d then mput (GlobalNewUtxoDataMap g) k0 d else GlobalNewUtxoDataMap g)"
proof (cases "tracked ad t d")
  case True
  let ?st = "addTrackedAddressDelta ad t d (sint (td_Satoshi d)) (b, g\<lparr>GlobalNewUtxoDataMap := mput (GlobalNewUtxoDataMap g) k0 d\<rparr>)"
  have "f' = mput f k0 d" "(b', g') = ?st" using assms True by (simp_all add: new_step_def)
  moreover from this(2) have "b' = fst ?st" "g' = snd ?st" by (metis fst_conv, metis snd_conv)
  ultimately show ?thesis using True by simp
qed (use assms in \<open>simp add: new_step_def\<close>)

lemma new_fold_maps:
  assumes "fold (new_step ad t) es (f, b, g) = (f', b', g')" "mwf es"
  shows "pb_NewUtxoDataMap b' = pb_NewUtxoDataMap b \<and> pb_SpentUtxoDataMap b' = pb_SpentUtxoDataMap b \<and>
    GlobalDeleteUtxoKeysMap g' = GlobalDeleteUtxoKeysMap g \<and>
    mget f' k = pick (tracked ad t) (mget es k) (mget f k) \<and> (mwf f \<longrightarrow> mwf f') \<and>
    mget (GlobalNewUtxoDataMap g') k = pick (tracked ad t) (mget es k) (mget (GlobalNewUtxoDataMap g) k)"
  using assms
proof (induction es arbitrary: f b g)
  case (Cons e es)
  obtain k0 d where e: "e = (k0, d)" by (cases e)
  obtain f1 b1 g1 where s: "new_step ad t (k0, d) (f, b, g) = (f1, b1, g1)" by (metis prod_cases3)
  have r: "fold (new_step ad t) es (f1, b1, g1) = (f', b', g')" and w: "mwf es" "mget es k0 = None"
    using Cons.prems s by (simp_all add: e mwf_def mget_None_iff)
  have "mget (e # es) k = (if k = k0 then Some d else mget es k)" by (simp add: e mget_def)
  with Cons.IH [OF r w(1)] new_step_fields [OF s] w(2) show ?case by (cases "k = k0") auto
qed (simp add: mget_def)

lemma update_maps:
  assumes "updateStakeUtxoInMap ad t (b, g) = (b', g')" "mwf (pb_NewUtxoDataMap b)"
  shows "mget (pb_NewUtxoDataMap b') k = pick (tracked ad t) (mget (pb_NewUtxoDataMap b) k) None \<and> mwf (pb_NewUtxoDataMap b') \<and>
    pb_SpentUtxoDataMap b' = filter (\<lambda>(_, d). tracked ad t d) (pb_SpentUtxoDataMap b) \<and>
    GlobalDeleteUtxoKeysMap g' = GlobalDeleteUtxoKeysMap g \<and>
    mget (GlobalNewUtxoDataMap g') k = pick (tracked ad t) (mget (pb_NewUtxoDataMap b) k) (mget (GlobalNewUtxoDataMap g) k)"
proof -
  obtain f b1 g1 where s: "fold (new_step ad t) (pb_NewUtxoDataMap b) ([], b, g) = (f, b1, g1)" by (metis prod_cases3)
  from new_fold_maps [OF s assms(2), of k] assms(1) s show ?thesis
    by (auto simp: updateStakeUtxoInMap_def)
qed

section \<open>What the output database holds after a commit\<close>

definition view :: "(string \<rightharpoonup> byte list) \<Rightarrow> globals \<Rightarrow> (string \<rightharpoonup> byte list)" where
  "view store g = updateUtxoInPikaDel (GlobalDeleteUtxoKeysMap g) (updateUtxoInPikaAdd (GlobalNewUtxoDataMap g) store)"

lemma add_apply: "updateUtxoInPikaAdd es store k = (case store k of Some r \<Rightarrow> Some r | None \<Rightarrow> map_option TxoData_Marshal (mget es k))"
  unfolding updateUtxoInPikaAdd_def
proof (induction es arbitrary: store)
  case (Cons e es)
  then show ?case by (cases e) (auto simp: mget_def split: option.split)
qed (simp add: mget_def split: option.split)

lemma del_apply: "updateUtxoInPikaDel ks store k = (if k \<in> set ks then None else store k)"
  unfolding updateUtxoInPikaDel_def by (induction ks arbitrary: store) auto

lemma view_apply:
  "view store g k = (if k \<in> set (GlobalDeleteUtxoKeysMap g) then None
    else case store k of Some r \<Rightarrow> Some r | None \<Rightarrow> map_option TxoData_Marshal (mget (GlobalNewUtxoDataMap g) k))"
  by (simp add: view_def add_apply del_apply)

section \<open>Undo rows\<close>

lemma decode_encode_outpoint: "o' \<noteq> '''' \<Longrightarrow> decodeOutpointFromDB (encodeOutpointForDB o') = o'"
proof -
  assume o: "o' \<noteq> ''''"
  let ?h = "hex_encode (bytes_of_string o')"
  have "TrimSpace ?h = ?h" by simp
  moreover have "?h \<noteq> ''''" "bytes_of_string o' \<noteq> []"
    using o length_hex_encode [of "bytes_of_string o'"] by (auto simp: bytes_of_string_def hex_encode_def)
  ultimately show ?thesis using o by (simp add: encodeOutpointForDB_def decodeOutpointFromDB_def Let_def)
qed

lemma encode_outpoint_nonempty: "o' \<noteq> '''' \<Longrightarrow> encodeOutpointForDB o' \<noteq> ''''"
  by (auto simp: encodeOutpointForDB_def hex_encode_def bytes_of_string_def)

lemma foldl_mput:
  "foldl (\<lambda>m o'. mput m o' (f o')) m0 ks = m1 \<Longrightarrow> mget m1 k = (if k \<in> set ks then Some (f k) else mget m0 k) \<and> (mwf m0 \<longrightarrow> mwf m1)"
  by (induction ks arbitrary: m0) auto

lemma undo_roundtrip:
  assumes "mwf rows" "\<forall>(o', raw) \<in> set rows. o' \<noteq> '''' \<and> raw \<noteq> []"
  shows "mget (listIndexerUndoByHeight (replaceIndexerUndoTx h rows t) h) k = mget rows k \<and>
    mwf (listIndexerUndoByHeight (replaceIndexerUndoTx h rows t) h)"
proof -
  define ks where "ks = sort (map fst rows)"
  have f: "filter (\<lambda>(o', raw). \<not> (o' = '''' \<or> raw = [])) rows = rows"
    using assms(2) by (intro filter_True) auto
  have ks: "set ks = fst ` set rows" by (simp add: ks_def)
  have ne: "o' \<noteq> ''''" if "o' \<in> set ks" for o' using that assms(2) by (auto simp: ks)
  have val: "mget0 [] rows o' \<noteq> []" "mget rows o' = Some (mget0 [] rows o')" if "o' \<in> set ks" for o'
  proof -
    from that obtain raw where r: "(o', raw) \<in> set rows" by (auto simp: ks)
    then have "map_of rows o' = Some raw" using assms(1) by (simp add: mwf_def)
    then show "mget0 [] rows o' \<noteq> []" "mget rows o' = Some (mget0 [] rows o')" using r assms(2) by (auto simp: mget0_def mget_def)
  qed
  have "filter (\<lambda>o'. encodeOutpointForDB o' \<noteq> '''') ks = ks"
    using ne encode_outpoint_nonempty by (intro filter_True) blast
  then have "filter (\<lambda>(h', _, _). h' = h) (replaceIndexerUndoTx h rows t) = map (\<lambda>o'. (h, encodeOutpointForDB o', mget0 [] rows o')) ks"
    unfolding replaceIndexerUndoTx_def Let_def f ks_def [symmetric] by (auto simp: filter_empty_conv filter_map comp_def)
  then have "listIndexerUndoByHeight (replaceIndexerUndoTx h rows t) h = foldl (\<lambda>m o'. mput m o' (mget0 [] rows o')) [] ks"
    unfolding listIndexerUndoByHeight_def foldl_map
    using ne val(1) by (simp add: foldl_map) (intro foldl_cong refl, simp add: decode_encode_outpoint Let_def)
  from foldl_mput [OF this [symmetric], of k] show ?thesis
    using val(2) mget_None_iff [of rows k] by (cases "k \<in> set ks") (simp_all add: ks)
qed

section \<open>Undoing a block\<close>

text \<open>The batch so far: new outputs are tracked and unknown to the database, removed keys are not new.\<close>

definition batch_ok :: "addrs \<Rightarrow> (string \<Rightarrow> bool) option \<Rightarrow> (string \<rightharpoonup> byte list) \<Rightarrow> globals \<Rightarrow> bool" where
  "batch_ok ad t store g \<longleftrightarrow>
     (\<forall>k d. mget (GlobalNewUtxoDataMap g) k = Some d \<longrightarrow> tracked ad t d \<and> store k = None \<and> k \<notin> set (GlobalDeleteUtxoKeysMap g))"

text \<open>The database holds outputs written by the program.\<close>

definition store_ok :: "(string \<rightharpoonup> byte list) \<Rightarrow> bool" where
  "store_ok store \<longleftrightarrow> (\<forall>k raw. store k = Some raw \<longrightarrow> (\<exists>d. raw = TxoData_Marshal d \<and> length (td_PkScript d) < 2 ^ 32))"

text \<open>A block of a valid chain: it creates outputs never seen before, and spends outputs once.\<close>

definition block_ok :: "(string \<rightharpoonup> byte list) \<Rightarrow> globals \<Rightarrow> ProcessBlock \<Rightarrow> bool" where
  "block_ok store g b \<longleftrightarrow> mwf (pb_NewUtxoDataMap b) \<and> distinct (pb_SpentUtxoKeysMap b) \<and> pb_SpentUtxoDataMap b = [] \<and>
     '''' \<notin> set (pb_SpentUtxoKeysMap b) \<and> '''' \<notin> fst ` set (pb_NewUtxoDataMap b) \<and>
     (\<forall>k \<in> fst ` set (pb_NewUtxoDataMap b). store k = None \<and> mget (GlobalNewUtxoDataMap g) k = None \<and> k \<notin> set (GlobalDeleteUtxoKeysMap g)) \<and>
     (\<forall>k \<in> set (pb_SpentUtxoKeysMap b). k \<notin> set (GlobalDeleteUtxoKeysMap g))"

text \<open>No tracked output is created and spent in the block.\<close>

definition no_transient :: "addrs \<Rightarrow> (string \<Rightarrow> bool) option \<Rightarrow> ProcessBlock \<Rightarrow> bool" where
  "no_transient ad t b \<longleftrightarrow> (\<forall>k \<in> set (pb_SpentUtxoKeysMap b). \<forall>d. mget (pb_NewUtxoDataMap b) k = Some d \<longrightarrow> \<not> tracked ad t d)"

lemma stored_txo_marshal: "length (td_PkScript d) < 2 ^ 32 \<Longrightarrow> stored_txo sn (TxoData_Marshal d) = d"
  by (simp add: stored_txo_def TxoData_Unmarshal_def TxoData_Marshal_def le_decode_encode del: le_encode.simps)

text \<open>The data of an output as the ledger sees it before the block: new in the batch, or in the database.\<close>

definition source :: "(byte list \<Rightarrow> byte list option) \<Rightarrow> (string \<rightharpoonup> byte list) \<Rightarrow> globals \<Rightarrow> string \<Rightarrow> TxoData option" where
  "source sn store g k = (case mget (GlobalNewUtxoDataMap g) k of Some d \<Rightarrow> Some d | None \<Rightarrow> map_option (stored_txo sn) (store k))"

lemma store_ok_D: "store_ok store \<Longrightarrow> store k = Some raw \<Longrightarrow> TxoData_Marshal (stored_txo sn raw) = raw"
  unfolding store_ok_def using stored_txo_marshal by metis

lemma view_source:
  assumes "store_ok store" "batch_ok ad t store g" "k \<notin> set (GlobalDeleteUtxoKeysMap g)"
  shows "view store g k = map_option TxoData_Marshal (source sn store g k)"
proof (cases "mget (GlobalNewUtxoDataMap g) k")
  case None
  then show ?thesis using assms(1,3)
    by (cases "store k") (auto simp: view_apply source_def store_ok_D)
next
  case (Some d)
  then show ?thesis using assms(2,3) by (auto simp: view_apply source_def batch_ok_def)
qed

lemma spent_loop_mwf:
  "spent_loop ad t ks (b, g) = ((b', g'), rest) \<Longrightarrow> mwf (pb_NewUtxoDataMap b) \<Longrightarrow> mwf (pb_SpentUtxoDataMap b) \<Longrightarrow>
    mwf (pb_NewUtxoDataMap b') \<and> mwf (pb_SpentUtxoDataMap b')"
proof (induction ks arbitrary: b g rest)
  case (Cons k0 ks)
  show ?case
  proof (cases "mget (pb_NewUtxoDataMap b) k0")
    case (Some d)
    then show ?thesis using Cons.prems by (auto simp: Let_def elim!: Cons.IH split: if_splits)
  next
    case None
    show ?thesis
    proof (cases "mget (GlobalNewUtxoDataMap g) k0")
      case (Some d)
      define g1 where "g1 = g\<lparr>GlobalNewUtxoDataMap := mdel (GlobalNewUtxoDataMap g) k0\<rparr>"
      define st where "st = (if tracked ad t d then addTrackedAddressDelta ad t d (- sint (td_Satoshi d)) (put_spent k0 d b, g1) else (b, g1))"
      obtain b2 g2 where st2: "st = (b2, g2)" by (cases st)
      then have "b2 = fst st" by simp
      then have "mwf (pb_NewUtxoDataMap b2)" "mwf (pb_SpentUtxoDataMap b2)" using Cons.prems by (simp_all add: st_def)
      moreover have "spent_loop ad t ks (b2, g2) = ((b', g'), rest)"
        using Cons.prems(1) None Some by (simp add: Let_def st_def g1_def flip: st2 split: if_splits)
      ultimately show ?thesis by (rule Cons.IH [rotated])
    next
      case none: None
      then show ?thesis using Cons.prems None by (auto elim!: Cons.IH split: prod.splits)
    qed
  qed
qed simp

lemma redis_fold_mwf:
  "fold (redis_step ad sn t store) ks (b, g) = (b', g') \<Longrightarrow> mwf (pb_SpentUtxoDataMap b) \<Longrightarrow> mwf (pb_SpentUtxoDataMap b')"
proof (induction ks arbitrary: b g)
  case (Cons k0 ks)
  obtain b1 g1 where s: "redis_step ad sn t store k0 (b, g) = (b1, g1)" by (cases "redis_step ad sn t store k0 (b, g)")
  then have "b1 = fst (redis_step ad sn t store k0 (b, g))" by simp
  then have "mwf (pb_SpentUtxoDataMap b1)" using Cons.prems(2) by (simp add: redis_step_def Let_def split: option.split)
  then show ?case using Cons.IH [of b1 g1] Cons.prems s by simp
qed simp

lemma mget_filter: "mwf m \<Longrightarrow> mget (filter (\<lambda>(_, d). P d) m) k = pick P (mget m k) None"
proof (induction m)
  case (Cons e m)
  then have "mget m (fst e) = None" "mwf m" by (simp_all add: mwf_def mget_None_iff)
  with Cons.IH show ?case by (cases e) (auto simp: mget_def)
qed (simp add: mget_def)

lemma mwf_filter: "mwf m \<Longrightarrow> mwf (filter P m)"
  by (simp add: mwf_def distinct_map_filter)

text \<open>The maps after the two serial steps of a block.\<close>

lemma block_maps:
  assumes "parseGetSpentStakeUtxoData ad sn ord t1 ok store (b, g) = Some (b1, g1)" "updateStakeUtxoInMap ad t2 (b1, g1) = (b2, g2)"
    and "map_order ord" "\<And>d. tracked ad t1 d \<Longrightarrow> tracked ad t2 d" "block_ok store g b" "no_transient ad t1 b" "batch_ok ad t1 store g"
  shows "mget (pb_NewUtxoDataMap b2) k =
      (if k \<in> set (pb_SpentUtxoKeysMap b) then None else pick (tracked ad t2) (mget (pb_NewUtxoDataMap b) k) None)"
    and "mget (pb_SpentUtxoDataMap b2) k =
      (if k \<in> set (pb_SpentUtxoKeysMap b) then pick (tracked ad t1) (source sn store g k) None else None)"
    and "mget (GlobalNewUtxoDataMap g2) k =
      (if k \<in> set (pb_SpentUtxoKeysMap b) then None
       else pick (tracked ad t2) (mget (pb_NewUtxoDataMap b) k) (mget (GlobalNewUtxoDataMap g) k))"
    and "k \<in> set (GlobalDeleteUtxoKeysMap g2) \<longleftrightarrow> k \<in> set (GlobalDeleteUtxoKeysMap g) \<or>
      k \<in> set (pb_SpentUtxoKeysMap b) \<and> mget (GlobalNewUtxoDataMap g) k = None \<and>
        pick (tracked ad t1) (map_option (stored_txo sn) (store k)) None \<noteq> None"
    and "mwf (pb_NewUtxoDataMap b2)" "mwf (pb_SpentUtxoDataMap b2)"
proof -
  let ?ks = "ord (pb_SpentUtxoKeysMap b)"
  have ks: "set ?ks = set (pb_SpentUtxoKeysMap b)" "distinct ?ks"
    using map_order_set [OF assms(3)] map_order_distinct [OF assms(3), of id] assms(5) by (simp_all add: block_ok_def)
  have w: "mwf (pb_NewUtxoDataMap b)" "mwf (pb_SpentUtxoDataMap b)" using assms(5) by (simp_all add: block_ok_def)
  have fresh: "store k = None \<and> mget (GlobalNewUtxoDataMap g) k = None" if "mget (pb_NewUtxoDataMap b) k = Some d" for k d
    using that assms(5) by (auto simp: block_ok_def mget_def dest!: map_of_SomeD intro!: rev_image_eqI)
  obtain b0 g0 rest where l: "spent_loop ad t1 ?ks (b, g) = ((b0, g0), rest)" by (metis surj_pair)
  note L = spent_loop_maps [OF l ks(2)] and LW = spent_loop_mwf [OF l w]
  have rest: "set rest = {k \<in> set ?ks. local_source b g k = None}" "distinct rest" using L ks(2) by auto
  obtain b1' g1' where r: "fold (redis_step ad sn t1 store) (ord rest) (b0, g0) = (b1', g1')" by (metis surj_pair)
  have or: "set (ord rest) = set rest" "distinct (ord rest)"
    using map_order_set [OF assms(3)] map_order_distinct [OF assms(3), of id] rest(2) by simp_all
  have "ord [] = []" using map_order_set [OF assms(3), of "[]"] by simp
  then have "(b1, g1) = (b1', g1')"
    using assms(1) l r by (cases "rest = []") (auto simp: parseGetSpentStakeUtxoData_def split: if_splits)
  then have r: "fold (redis_step ad sn t1 store) (ord rest) (b0, g0) = (b1, g1)" using r by simp
  note R = redis_fold_maps [OF r or(2), unfolded or(1)] and RW = redis_fold_mwf [OF r]
  have w1: "mwf (pb_NewUtxoDataMap b1)" "mwf (pb_SpentUtxoDataMap b1)" using LW R RW by auto
  note U = update_maps [OF assms(2) w1(1)]
  show "mwf (pb_NewUtxoDataMap b2)" "mwf (pb_SpentUtxoDataMap b2)" using U w1(2) by (simp_all add: mwf_filter)
  show "mget (pb_NewUtxoDataMap b2) k = (if k \<in> set (pb_SpentUtxoKeysMap b) then None else pick (tracked ad t2) (mget (pb_NewUtxoDataMap b) k) None)"
    using U [of k] R L [of k] ks(1) by simp
  show "mget (GlobalNewUtxoDataMap g2) k = (if k \<in> set (pb_SpentUtxoKeysMap b) then None
       else pick (tracked ad t2) (mget (pb_NewUtxoDataMap b) k) (mget (GlobalNewUtxoDataMap g) k))"
    using U [of k] R L [of k] ks(1) fresh [of k] by auto
  have ls: "local_source b g k = None \<longleftrightarrow> mget (pb_NewUtxoDataMap b) k = None \<and> mget (GlobalNewUtxoDataMap g) k = None" for k
    by (simp add: local_source_def split: option.split)
  have none: "pick (tracked ad t1) (map_option (stored_txo sn) (store k)) None = None" if "mget (pb_NewUtxoDataMap b) k \<noteq> None"
    using that fresh [of k] by auto
  show "k \<in> set (GlobalDeleteUtxoKeysMap g2) \<longleftrightarrow> k \<in> set (GlobalDeleteUtxoKeysMap g) \<or>
      k \<in> set (pb_SpentUtxoKeysMap b) \<and> mget (GlobalNewUtxoDataMap g) k = None \<and>
        pick (tracked ad t1) (map_option (stored_txo sn) (store k)) None \<noteq> None"
    using U R [of k] L ks(1) rest(1) ls [of k] none by auto
  have s1: "mget (pb_SpentUtxoDataMap b1) k = (if k \<in> set (pb_SpentUtxoKeysMap b) then pick (tracked ad t1) (source sn store g k) None else None)"
  proof (cases "k \<in> set ?ks")
    case False
    then show ?thesis using R [of k] L [of k] rest(1) ks(1) assms(5) by (simp add: block_ok_def mget_def)
  next
    case True
    have e: "mget (pb_SpentUtxoDataMap b) k = None" using assms(5) by (simp add: block_ok_def mget_def)
    show ?thesis
    proof (cases "mget (pb_NewUtxoDataMap b) k")
      case (Some d)
      then have "\<not> tracked ad t1 d" using assms(6) True ks(1) by (simp add: no_transient_def)
      then show ?thesis using Some True e R [of k] L [of k] rest(1) ks(1) fresh [OF Some] by (simp add: local_source_def source_def)
    next
      case None
      then have "local_source b g k = mget (GlobalNewUtxoDataMap g) k" by (simp add: local_source_def)
      then show ?thesis using True e R [of k] L [of k] rest(1) ks(1)
        by (cases "mget (GlobalNewUtxoDataMap g) k") (simp_all add: source_def)
    qed
  qed
  have "pick (tracked ad t2) (pick (tracked ad t1) x None) None = pick (tracked ad t1) x None" for x
    using assms(4) by (cases x) auto
  then show "mget (pb_SpentUtxoDataMap b2) k =
      (if k \<in> set (pb_SpentUtxoKeysMap b) then pick (tracked ad t1) (source sn store g k) None else None)"
    using U s1 by (simp add: mget_filter [OF w1(2)])
qed


lemma batch_ok_step:
  assumes "parseGetSpentStakeUtxoData ad sn ord t1 ok store (b, g) = Some (b1, g1)" "updateStakeUtxoInMap ad t2 (b1, g1) = (b2, g2)"
    and "map_order ord" "\<And>d. tracked ad t1 d \<Longrightarrow> tracked ad t2 d" "block_ok store g b" "no_transient ad t1 b" "batch_ok ad t1 store g"
  shows "batch_ok ad t2 store g2"
  unfolding batch_ok_def
proof (intro allI impI)
  fix k d assume k: "mget (GlobalNewUtxoDataMap g2) k = Some d"
  note M = block_maps [OF assms]
  have notin: "k \<notin> set (pb_SpentUtxoKeysMap b)" using k M(3) [of k] by (auto split: if_splits)
  show "tracked ad t2 d \<and> store k = None \<and> k \<notin> set (GlobalDeleteUtxoKeysMap g2)"
  proof (cases "pick (tracked ad t2) (mget (pb_NewUtxoDataMap b) k) None")
    case None
    then have "mget (GlobalNewUtxoDataMap g) k = Some d"
      using k M(3) [of k] notin by (cases "mget (pb_NewUtxoDataMap b) k") (auto split: if_splits)
    then show ?thesis using assms(4,7) M(4) [of k] notin by (auto simp: batch_ok_def)
  next
    case (Some d')
    then have n: "mget (pb_NewUtxoDataMap b) k = Some d'" "tracked ad t2 d'"
      by (auto simp: pick_def split: option.splits if_splits)
    moreover from n(1) have "k \<in> fst ` set (pb_NewUtxoDataMap b)" by (auto simp: mget_def dest!: map_of_SomeD intro!: rev_image_eqI)
    ultimately show ?thesis using k M(3,4) [of k] notin assms(5) by (auto simp: block_ok_def)
  qed
qed

lemma fold_remove: "fold (\<lambda>(o', _) s. s(o' := None)) m store k = (if k \<in> fst ` set m then None else store k)"
  by (induction m arbitrary: store) auto

lemma fold_set: "mwf m \<Longrightarrow> fold (\<lambda>(o', raw) s. s(o' \<mapsto> raw)) m store k = (case mget m k of Some raw \<Rightarrow> Some raw | None \<Rightarrow> store k)"
proof (induction m arbitrary: store)
  case (Cons e m)
  then have "mget m (fst e) = None" "mwf m" by (simp_all add: mwf_def mget_None_iff)
  with Cons.IH show ?case by (cases e) (auto simp: mget_def split: option.split)
qed (simp add: mget_def)

lemma mget_encodeUndoMap: "mget (encodeUndoMap m) k = map_option TxoData_Marshal (mget m k)"
  by (induction m) (auto simp: encodeUndoMap_def mget_def)

lemma encodeUndoMap_ok: "mwf m \<Longrightarrow> '''' \<notin> fst ` set m \<Longrightarrow>
    mwf (encodeUndoMap m) \<and> (\<forall>(o', raw) \<in> set (encodeUndoMap m). o' \<noteq> '''' \<and> raw \<noteq> [])"
  by (force simp: encodeUndoMap_def mwf_def comp_def split_beta TxoData_Marshal_def)

lemma rollback_apply:
  assumes "mwf (listIndexerUndoByHeight (ar_undo_spent a) h)"
  shows "rollbackUtxoOneBlock a h store k =
    (case mget (listIndexerUndoByHeight (ar_undo_spent a) h) k of Some raw \<Rightarrow> Some raw
     | None \<Rightarrow> if mget (listIndexerUndoByHeight (ar_undo_new a) h) k = None then store k else None)"
  using mget_None_iff [of "listIndexerUndoByHeight (ar_undo_new a) h" k]
  by (cases "mget (listIndexerUndoByHeight (ar_undo_spent a) h) k") (simp_all add: rollbackUtxoOneBlock_def Let_def fold_set [OF assms] fold_remove)

lemma mget_SomeD: "mget m k = Some v \<Longrightarrow> k \<in> fst ` set m"
  by (auto simp: mget_def dest!: map_of_SomeD intro: rev_image_eqI)

lemma block_undo:
  assumes "parseGetSpentStakeUtxoData ad sn ord t1 ok store (b, g) = Some (b1, g1)" "updateStakeUtxoInMap ad t2 (b1, g1) = (b2, g2)"
    and "map_order ord" "\<And>d. tracked ad t1 d \<Longrightarrow> tracked ad t2 d" "block_ok store g b" "no_transient ad t1 b" "batch_ok ad t1 store g"
    and "store_ok store" "sg_Height item = h" "sg_UndoNew item = encodeUndoMap (pb_NewUtxoDataMap b2)"
      "sg_UndoSpent item = encodeUndoMap (pb_SpentUtxoDataMap b2)" "ShouldPersistIndexerUndo e h"
  shows "rollbackUtxoOneBlock (persist_artifacts e item a) h (view store g2) = view store g"
proof
  fix k
  let ?a = "persist_artifacts e item a"
  note M = block_maps [OF assms(1-7)]
  have keys: "'''' \<notin> fst ` set (pb_NewUtxoDataMap b2)" "'''' \<notin> fst ` set (pb_SpentUtxoDataMap b2)"
    using M(1,2) [of "''''"] assms(5) mget_None_iff [of "pb_NewUtxoDataMap b" "''''"]
      mget_None_iff [of "pb_NewUtxoDataMap b2" "''''"] mget_None_iff [of "pb_SpentUtxoDataMap b2" "''''"]
    by (simp_all add: block_ok_def)
  have n: "mget (listIndexerUndoByHeight (ar_undo_new ?a) h) k = map_option TxoData_Marshal (mget (pb_NewUtxoDataMap b2) k)"
    using encodeUndoMap_ok [OF M(5) keys(1)] undo_roundtrip
    by (simp add: persist_artifacts_def Let_def assms(9-12) mget_encodeUndoMap)
  have s: "mget (listIndexerUndoByHeight (ar_undo_spent ?a) h) k = map_option TxoData_Marshal (mget (pb_SpentUtxoDataMap b2) k)"
    and w: "mwf (listIndexerUndoByHeight (ar_undo_spent ?a) h)"
    using encodeUndoMap_ok [OF M(6) keys(2)] undo_roundtrip
    by (simp_all add: persist_artifacts_def Let_def assms(9-12) mget_encodeUndoMap)
  note R = rollback_apply [OF w, of "view store g2" k, unfolded n s]
  show "rollbackUtxoOneBlock ?a h (view store g2) k = view store g k"
  proof (cases "k \<in> set (pb_SpentUtxoKeysMap b)")
    case True
    then have nd: "k \<notin> set (GlobalDeleteUtxoKeysMap g)" using assms(5) by (simp add: block_ok_def)
    note V = view_source [OF assms(8,7) nd, of sn]
    show ?thesis
    proof (cases "pick (tracked ad t1) (source sn store g k) None")
      case (Some d)
      then have "source sn store g k = Some d" by (auto simp: pick_def split: option.splits if_splits)
      then show ?thesis using R V True Some M(2) [of k] by simp
    next
      case None
      have gn: "mget (GlobalNewUtxoDataMap g) k = None"
      proof (rule ccontr)
        assume "mget (GlobalNewUtxoDataMap g) k \<noteq> None"
        then obtain d where "mget (GlobalNewUtxoDataMap g) k = Some d" by blast
        then show False using None assms(7) by (simp add: source_def batch_ok_def)
      qed
      then have "k \<notin> set (GlobalDeleteUtxoKeysMap g2)" using M(4) [of k] nd None by (simp add: source_def)
      then have "view store g2 k = view store g k" using M(3) [of k] True nd gn by (cases "store k") (simp_all add: view_apply)
      then show ?thesis using R M(1,2) [of k] True None by simp
    qed
  next
    case False
    have del: "k \<in> set (GlobalDeleteUtxoKeysMap g2) \<longleftrightarrow> k \<in> set (GlobalDeleteUtxoKeysMap g)" using M(4) [of k] False by simp
    show ?thesis
    proof (cases "mget (pb_NewUtxoDataMap b2) k")
      case None
      then have "mget (GlobalNewUtxoDataMap g2) k = mget (GlobalNewUtxoDataMap g) k"
        using M(1,3) [of k] False by (cases "mget (pb_NewUtxoDataMap b) k") (auto split: if_splits)
      then have "view store g2 k = view store g k" using del by (cases "store k") (simp_all add: view_apply)
      then show ?thesis using R M(2) [of k] False None by simp
    next
      case (Some d)
      then have "k \<in> fst ` set (pb_NewUtxoDataMap b)"
        using M(1) [of k] False by (cases "mget (pb_NewUtxoDataMap b) k") (auto dest: mget_SomeD)
      then have "view store g k = None" using assms(5) by (auto simp: view_apply block_ok_def)
      then show ?thesis using R M(2) [of k] False Some by simp
    qed
  qed
qed

text \<open>A batch of one block: the output is in the database, the block spends it and creates another one.\<close>

definition txo :: "u64 \<Rightarrow> TxoData" where
  "txo n = \<lparr>td_BlockHeight = 4, td_TxIdx = 0, td_Satoshi = n, td_PkScript = []\<rparr>"

definition one_block :: ProcessBlock where
  "one_block = \<lparr>pb_Height = 5, pb_SpentUtxoKeysMap = [''a''], pb_SpentUtxoDataMap = [], pb_NewUtxoDataMap = [(''b'', txo 7)],
     pb_AddressBalanceDeltaMap = []\<rparr>"

definition staged_of :: "u32 \<Rightarrow> ProcessBlock \<Rightarrow> StagedIndexerBlock" where
  "staged_of h b = \<lparr>sg_Height = h, sg_HashHex = '''', sg_ParentHash = '''', sg_Version = 0, sg_CoinbaseReward = 0, sg_AddressDeltas = [],
     sg_UndoNew = encodeUndoMap (pb_NewUtxoDataMap b), sg_UndoSpent = encodeUndoMap (pb_SpentUtxoDataMap b)\<rparr>"

definition no_artifacts :: artifacts where
  "no_artifacts = \<lparr>ar_deltas = [], ar_undo_new = [], ar_undo_spent = []\<rparr>"

text \<open>C3. Undo of a block: let a block of a valid chain pass through \<^verbatim>\<open>parseGetSpentStakeUtxoData\<close> and
  \<^verbatim>\<open>updateStakeUtxoInMap\<close>, whatever the order of the map loops, and let its undo data be persisted. Then
  \<^verbatim>\<open>rollbackUtxoOneBlock\<close>, applied to the output database with the batch committed up to and including the block, gives exactly
  the output database with the batch committed up to the block before it. The block must not create and spend the same tracked
  output.
\<close>

theorem block_undo_inverts:
  assumes "parseGetSpentStakeUtxoData ad sn ord t1 ok store (b, g) = Some (b1, g1)" "updateStakeUtxoInMap ad t2 (b1, g1) = (b2, g2)"
    and "map_order ord" "\<And>d. shouldTrackTxoData ad t1 d \<Longrightarrow> shouldTrackTxoData ad t2 d"
    and "block_ok store g b" "no_transient ad t1 b" "batch_ok ad t1 store g" "store_ok store"
    and "sg_Height item = h" "sg_UndoNew item = encodeUndoMap (pb_NewUtxoDataMap b2)"
      "sg_UndoSpent item = encodeUndoMap (pb_SpentUtxoDataMap b2)" "ShouldPersistIndexerUndo e h"
  shows "rollbackUtxoOneBlock (persist_artifacts e item a) h (view store g2) = view store g \<and> batch_ok ad t2 store g2"
  using block_undo [OF assms] batch_ok_step [OF assms(1-7)] by blast

theorem block_undo_inverts_witness:
  "\<exists>b2 g2. view [''a'' \<mapsto> TxoData_Marshal (txo 3)] g2 ''a'' = None \<and>
     rollbackUtxoOneBlock (persist_artifacts 5 (staged_of 5 b2) no_artifacts) 5 (view [''a'' \<mapsto> TxoData_Marshal (txo 3)] g2) =
       view [''a'' \<mapsto> TxoData_Marshal (txo 3)] CleanUtxoMap"
proof -
  let ?store = "[''a'' \<mapsto> TxoData_Marshal (txo 3)]"
  let ?ad = "\<lambda>_. None" and ?sn = "\<lambda>_. None"
  define st1 where "st1 = the (parseGetSpentStakeUtxoData ?ad ?sn id None True ?store (one_block, CleanUtxoMap))"
  define st2 where "st2 = updateStakeUtxoInMap ?ad None st1"
  have st: "stored_txo ?sn (TxoData_Marshal (txo 3)) = txo 3" by (rule stored_txo_marshal) (simp add: txo_def)
  have p: "parseGetSpentStakeUtxoData ?ad ?sn id None True ?store (one_block, CleanUtxoMap) = Some st1"
    by (simp add: st1_def parseGetSpentStakeUtxoData_def one_block_def CleanUtxoMap_def split: prod.split)
  have "sint (td_Satoshi (txo 3)) = 3" by (simp add: txo_def)
  then have s1: "st1 = (put_spent ''a'' (txo 3) one_block, CleanUtxoMap\<lparr>GlobalSpentUtxoDataMap := [(''a'', txo 3)], GlobalDeleteUtxoKeysMap := [''a'']\<rparr>)"
    by (simp add: st1_def parseGetSpentStakeUtxoData_def one_block_def CleanUtxoMap_def redis_step_def st mget_def
        shouldTrackTxoData_def addTrackedAddressDelta_def GetAddressFromScript_def mput_def insert_key_def Let_def)
  have "\<exists>b2 g2. view ?store g2 ''a'' = None \<and>
     rollbackUtxoOneBlock (persist_artifacts 5 (staged_of 5 b2) no_artifacts) 5 (view ?store g2) = view ?store CleanUtxoMap \<and> batch_ok ?ad None ?store g2"
  proof (intro exI conjI)
    show "view ?store (snd st2) ''a'' = None"
      by (simp add: st2_def s1 updateStakeUtxoInMap_def view_apply one_block_def put_spent_def new_step_def shouldTrackTxoData_def addTrackedAddressDelta_def
        GetAddressFromScript_def CleanUtxoMap_def)
  next
    have u: "updateStakeUtxoInMap ?ad None (fst st1, snd st1) = (fst st2, snd st2)" by (simp add: st2_def)
    have so: "store_ok ?store" by (auto simp: store_ok_def txo_def)
    have "block_ok ?store CleanUtxoMap one_block" "no_transient ?ad None one_block" "batch_ok ?ad None ?store CleanUtxoMap"
      by (simp_all add: block_ok_def one_block_def CleanUtxoMap_def no_transient_def batch_ok_def mwf_def mget_def)
    note ok = this
    have q: "parseGetSpentStakeUtxoData ?ad ?sn id None True ?store (one_block, CleanUtxoMap) = Some (fst st1, snd st1)" using p by simp
    have i: "sg_Height (staged_of 5 b) = 5" "sg_UndoNew (staged_of 5 b) = encodeUndoMap (pb_NewUtxoDataMap b)"
      "sg_UndoSpent (staged_of 5 b) = encodeUndoMap (pb_SpentUtxoDataMap b)" for b by (simp_all add: staged_of_def)
    have "ShouldPersistIndexerUndo 5 5" by (simp add: ShouldPersistIndexerUndo_def indexerUndoRetentionDistance_def)
    from block_undo_inverts [OF q u map_order_id _ ok so i this]
    show "rollbackUtxoOneBlock (persist_artifacts 5 (staged_of 5 (fst st2)) no_artifacts) 5 (view ?store (snd st2)) = view ?store CleanUtxoMap"
      and "batch_ok ?ad None ?store (snd st2)"
      by simp_all
  qed
  then show ?thesis by blast
qed

text \<open>An output that a block creates and spends itself: the commit leaves the database without it, but the undo data of the block
  records it as spent only, so that rolling the block back stores an output that was never there.
\<close>

theorem transient_output_resurrected:
  assumes "mget (pb_NewUtxoDataMap b) k = Some d" "pb_SpentUtxoKeysMap b = [k]" "mwf (pb_NewUtxoDataMap b)" "pb_SpentUtxoDataMap b = []"
    and "k \<noteq> ''''" "'''' \<notin> fst ` set (pb_NewUtxoDataMap b)" "shouldTrackTxoData ad t d" "store k = None"
    and "parseGetSpentStakeUtxoData ad sn id t ok store (b, CleanUtxoMap) = Some (b1, g1)" "updateStakeUtxoInMap ad t (b1, g1) = (b2, g2)"
    and "sg_Height item = h" "sg_UndoNew item = encodeUndoMap (pb_NewUtxoDataMap b2)"
      "sg_UndoSpent item = encodeUndoMap (pb_SpentUtxoDataMap b2)" "ShouldPersistIndexerUndo e h"
  shows "view store CleanUtxoMap k = None \<and> view store g2 k = None \<and>
    rollbackUtxoOneBlock (persist_artifacts e item a) h (view store g2) k = Some (TxoData_Marshal d)"
proof -
  have "b1 = put_spent k d (b\<lparr>pb_NewUtxoDataMap := mdel (pb_NewUtxoDataMap b) k\<rparr>)" and g1: "g1 = CleanUtxoMap"
    using assms(1,2,7,9) by (auto simp: parseGetSpentStakeUtxoData_def Let_def)
  then have b1: "pb_NewUtxoDataMap b1 = mdel (pb_NewUtxoDataMap b) k" "pb_SpentUtxoDataMap b1 = [(k, d)]"
    using assms(4) by (simp_all add: mput_def)
  then have w: "mwf (pb_NewUtxoDataMap b1)" using assms(3) by simp
  note U = update_maps [OF assms(10) w]
  have s2: "pb_SpentUtxoDataMap b2 = [(k, d)]" using U assms(7) by (simp add: b1)
  have none: "mget (GlobalNewUtxoDataMap g2) k = None" using U [of k] by (simp add: b1 g1 CleanUtxoMap_def)
  let ?a = "persist_artifacts e item a"
  have "mget (listIndexerUndoByHeight (ar_undo_spent ?a) h) k = Some (TxoData_Marshal d)"
    and sw: "mwf (listIndexerUndoByHeight (ar_undo_spent ?a) h)"
    using encodeUndoMap_ok [of "[(k, d)]"] undo_roundtrip [of "encodeUndoMap [(k, d)]" h "ar_undo_spent a" k] assms(5)
    by (simp_all add: persist_artifacts_def Let_def assms(11-14) s2 mget_encodeUndoMap mwf_def mget_def encodeUndoMap_def)
  then show ?thesis using assms(8) none rollback_apply [OF sw, of "view store g2" k] by (simp add: view_apply CleanUtxoMap_def)
qed


definition transient_block :: ProcessBlock where
  "transient_block = \<lparr>pb_Height = 5, pb_SpentUtxoKeysMap = [''b''], pb_SpentUtxoDataMap = [], pb_NewUtxoDataMap = [(''b'', txo 7)],
     pb_AddressBalanceDeltaMap = []\<rparr>"

theorem transient_output_resurrected_witness:
  "\<exists>b2 g2. view Map.empty g2 ''b'' = None \<and>
     rollbackUtxoOneBlock (persist_artifacts 5 (staged_of 5 b2) no_artifacts) 5 (view Map.empty g2) ''b'' = Some (TxoData_Marshal (txo 7))"
proof -
  let ?ad = "\<lambda>_. None" and ?sn = "\<lambda>_. None"
  let ?b1 = "put_spent ''b'' (txo 7) (transient_block\<lparr>pb_NewUtxoDataMap := []\<rparr>)"
  have p: "parseGetSpentStakeUtxoData ?ad ?sn id None True Map.empty (transient_block, CleanUtxoMap) = Some (?b1, CleanUtxoMap)"
    by (simp add: parseGetSpentStakeUtxoData_def transient_block_def mget_def mdel_def shouldTrackTxoData_def)
  obtain b2 g2 where u: "updateStakeUtxoInMap ?ad None (?b1, CleanUtxoMap) = (b2, g2)" by fastforce
  have c: "mget (pb_NewUtxoDataMap transient_block) ''b'' = Some (txo 7)" "pb_SpentUtxoKeysMap transient_block = [''b'']"
    "mwf (pb_NewUtxoDataMap transient_block)" "pb_SpentUtxoDataMap transient_block = []" "''b'' \<noteq> ''''"
    "'''' \<notin> fst ` set (pb_NewUtxoDataMap transient_block)" "shouldTrackTxoData ?ad None (txo 7)"
    by (simp_all add: transient_block_def mget_def mwf_def shouldTrackTxoData_def)
  show ?thesis
    using transient_output_resurrected [OF c _ p u, of "staged_of 5 b2" 5 5 no_artifacts]
    by (auto simp: staged_of_def ShouldPersistIndexerUndo_def indexerUndoRetentionDistance_def)
qed


definition quiet_state :: "u32 \<Rightarrow> indexer_state" where
  "quiet_state h = \<lparr>ix_sync = [], ix_art = no_artifacts, ix_utxo = \<lparr>ud_store = Map.empty, ud_height = Some h, ud_total = 0\<rparr>,
     ix_bal = \<lparr>bd_realtime = [], bd_stake_zset = [], bd_stake_total = [], bd_confirmed_total = 0, bd_block_height = None, bd_block = None\<rparr>,
     ix_bindings = [], ix_registers = [], ix_proofs = [], ix_claims = [], ix_allocated = [], ix_events = []\<rparr>"


section \<open>Realtime balances\<close>

lemma add_delta_get: "mget0 0 (add_delta m k v) k' = mget0 0 m k' + (if k' = k then v else 0)"
  by (auto simp: add_delta_def Let_def)

text \<open>What a list of deltas adds up to for an address.\<close>

definition delta_sum :: "(string \<times> int) list \<Rightarrow> string \<Rightarrow> int" where
  "delta_sum ds address = sum_list (map snd (filter (\<lambda>(a, _). a = address) ds))"

lemma delta_sum_simps [simp]:
  "delta_sum [] a = 0" "delta_sum (e # ds) a = (if fst e = a then snd e else 0) + delta_sum ds a"
  by (auto simp: delta_sum_def split_beta)

lemma balance_step_realtime:
  "mget0 0 (bd_realtime (fst (balance_step bi e (db, ts)))) a = mget0 0 (bd_realtime db) a + (if fst e = a then snd e else 0)"
  by (auto simp: balance_step_def Let_def add_delta_get split: prod.split option.split)

lemma balance_fold_realtime:
  "mget0 0 (bd_realtime (fst (fold (balance_step bi) ds st))) a = mget0 0 (bd_realtime (fst st)) a + delta_sum ds a"
proof (induction ds arbitrary: st)
  case (Cons e ds)
  have "mget0 0 (bd_realtime (fst (balance_step bi e st))) a = mget0 0 (bd_realtime (fst st)) a + (if fst e = a then snd e else 0)"
    using balance_step_realtime by (metis prod.collapse)
  then show ?case using Cons.IH by simp
qed simp

lemma total_fold_realtime [simp]: "bd_realtime (fold total_step ts db) = bd_realtime db"
proof (induction ts arbitrary: db)
  case (Cons e ts)
  then show ?case by (cases e) (simp add: total_step_def)
qed simp

lemma total_fold_height [simp]: "bd_block_height (fold total_step ts db) = bd_block_height db"
proof (induction ts arbitrary: db)
  case (Cons e ts)
  then show ?case by (cases e) (simp add: total_step_def)
qed simp

lemma balance_round_realtime: "mget0 0 (bd_realtime (fst (balance_round bi ds db))) a = mget0 0 (bd_realtime db) a + delta_sum ds a"
  using balance_fold_realtime [of bi ds "(db, [])" a] by (cases "fold (balance_step bi) ds (db, [])") (simp add: balance_round_def)

lemma delta_sum_neg: "delta_sum (map (\<lambda>(a, d). (a, - d)) ds) a = - delta_sum ds a"
  by (induction ds) auto

lemma balance_rounds_realtime:
  "mget0 0 (bd_realtime (balance_rounds bi t hs db)) a =
    mget0 0 (bd_realtime db) a - sum_list (map (\<lambda>h. delta_sum (ListIndexerAddrDeltasByHeight t h) a) hs)"
  by (induction hs arbitrary: db) (simp_all add: balance_round_realtime delta_sum_neg)

lemma delta_sum_map: "mwf m \<Longrightarrow> delta_sum m a = mget0 0 m a"
proof (induction m)
  case (Cons e m)
  then have "mwf m" "mget0 0 m (fst e) = 0" by (auto simp: mwf_def mget0_def split: option.split dest: map_of_SomeD intro: rev_image_eqI)
  with Cons.IH show ?case by (cases e) (auto simp: mget0_def)
qed simp

text \<open>Rows written for a height are read back with the same sums.\<close>

lemma deltas_roundtrip:
  assumes "mwf ds" "mget ds '''' = None"
  shows "delta_sum (ListIndexerAddrDeltasByHeight (ReplaceIndexerAddrDeltasTx h ds t) h) a = mget0 0 ds a"
proof -
  let ?f = "filter (\<lambda>(a, d). \<not> (a = '''' \<or> d = 0)) ds"
  define ks where "ks = sort (map fst ?f)"
  have get: "k \<noteq> '''' \<and> mget0 0 ds k \<noteq> 0" if "(k, d) \<in> set ?f" for k d
    using that assms(1) by (auto simp: mget0_def mwf_def)
  have rows: "map snd (filter (\<lambda>(h', _, _). h' = h) (ReplaceIndexerAddrDeltasTx h ds t)) = map (\<lambda>k. (k, mget0 0 ds k)) ks"
    by (auto simp: ReplaceIndexerAddrDeltasTx_def Let_def ks_def filter_map comp_def filter_empty_conv)
  have ne: "k \<noteq> '''' \<and> mget0 0 ds k \<noteq> 0" if "k \<in> set ks" for k
  proof -
    have "k \<in> fst ` set ?f" using that by (simp only: ks_def set_sort set_map)
    then obtain e where e: "e \<in> set ?f" "k = fst e" by (rule imageE) (rule that)
    have "(k, snd e) \<in> set ?f" unfolding e(2) prod.collapse by (rule e(1))
    then show ?thesis by (rule get)
  qed
  let ?l = "ListIndexerAddrDeltasByHeight (ReplaceIndexerAddrDeltasTx h ds t) h"
  have l: "?l = sort_key fst (map (\<lambda>k. (k, mget0 0 ds k)) ks)"
    unfolding ListIndexerAddrDeltasByHeight_def rows using ne by (intro filter_True) auto
  have w: "mwf ?l"
  proof -
    have "distinct ks" using assms(1) by (simp add: ks_def mwf_def distinct_map_filter)
    then have "distinct (map fst (map (\<lambda>k. (k, mget0 0 ds k)) ks))" by (simp add: comp_def)
    moreover have "map_order (sort_key (fst :: string \<times> int \<Rightarrow> string))" by (simp add: map_order_def)
    ultimately show ?thesis unfolding l mwf_def by (simp only: map_order_distinct)
  qed
  have "mget0 0 ?l a = mget0 0 ds a"
  proof (cases "a \<in> set ks")
    case True
    then have "(a, mget0 0 ds a) \<in> set ?l" by (simp add: l)
    then show ?thesis using w by (auto simp: mget0_def mwf_def)
  next
    case False
    then have "map_of ?l a = None" by (auto simp: l map_of_eq_None_iff)
    moreover have "mget0 0 ds a = 0"
    proof (rule ccontr)
      assume nz: "mget0 0 ds a \<noteq> 0"
      then have "(a, mget0 0 ds a) \<in> set ds" by (auto simp: mget0_def split: option.splits dest: map_of_SomeD)
      moreover from this assms(2) have "a \<noteq> ''''" by (auto simp: mget_None_iff image_iff)
      ultimately have "(a, mget0 0 ds a) \<in> set ?f" using nz by simp
      then have "a \<in> fst ` set ?f" by (rule rev_image_eqI) simp
      then show False using False by (simp only: ks_def set_sort set_map not_True_eq_False)
    qed
    ultimately show ?thesis by (simp add: mget0_def)
  qed
  then show ?thesis by (simp add: delta_sum_map [OF w])
qed

text \<open>The block's deltas and the batch's deltas grow by the same amounts.\<close>

definition delta_gap :: "ProcessBlock \<times> globals \<Rightarrow> string \<Rightarrow> int" where
  "delta_gap st a = mget0 0 (GlobalAddressBalanceDeltaMap (snd st)) a - mget0 0 (pb_AddressBalanceDeltaMap (fst st)) a"

lemma addTracked_gap: "delta_gap (addTrackedAddressDelta ad t d v (b, g)) a = delta_gap (b, g) a"
  by (auto simp: delta_gap_def addTrackedAddressDelta_def add_delta_get split: option.split)

lemma gap_put_spent [simp]: "delta_gap (put_spent k d b, g) a = delta_gap (b, g) a"
  by (simp add: delta_gap_def put_spent_def)

lemma gap_updates [simp]:
  "delta_gap (b, g\<lparr>GlobalNewUtxoDataMap := m\<rparr>) a = delta_gap (b, g) a"
  "delta_gap (b, g\<lparr>GlobalSpentUtxoDataMap := m, GlobalDeleteUtxoKeysMap := ks\<rparr>) a = delta_gap (b, g) a"
  "delta_gap (b\<lparr>pb_NewUtxoDataMap := m\<rparr>, g) a = delta_gap (b, g) a"
  "delta_gap (b\<lparr>pb_NewUtxoDataMap := m, pb_SpentUtxoDataMap := m'\<rparr>, g) a = delta_gap (b, g) a"
  by (simp_all add: delta_gap_def)

lemma spent_loop_gap: "delta_gap (fst (spent_loop ad t ks st)) a = delta_gap st a"
proof (induction ks arbitrary: st)
  case (Cons k ks)
  obtain b g where [simp]: "st = (b, g)" by (cases st)
  show ?case
    by (auto simp: Cons.IH addTracked_gap Let_def split: option.split prod.split dest: arg_cong [of _ _ fst])
      (metis Cons.IH fst_conv)
qed simp

lemma redis_fold_gap: "delta_gap (fold (redis_step ad sn t store) ks st) a = delta_gap st a"
proof (induction ks arbitrary: st)
  case (Cons k ks)
  have "delta_gap (redis_step ad sn t store k st) a = delta_gap st a"
    by (cases st) (simp add: redis_step_def Let_def addTracked_gap split: option.split)
  then show ?case using Cons.IH by simp
qed simp

lemma new_fold_gap: "delta_gap (snd (fold (new_step ad t) es (f, st))) a = delta_gap st a"
proof (induction es arbitrary: f st)
  case (Cons e es)
  obtain f' st' where s: "new_step ad t e (f, st) = (f', st')" by (metis surj_pair)
  then have "delta_gap st' a = delta_gap st a"
    by (cases e; cases st) (auto simp: new_step_def addTracked_gap split: if_splits)
  then show ?case using Cons.IH s by simp
qed simp

lemma block_gap:
  assumes "parseGetSpentStakeUtxoData ad sn ord t1 ok store st = Some st1"
  shows "delta_gap (updateStakeUtxoInMap ad t2 st1) a = delta_gap st a"
proof -
  obtain st0 ks where l: "spent_loop ad t1 (ord (pb_SpentUtxoKeysMap (fst st))) st = (st0, ks)" by fastforce
  then have "delta_gap st0 a = delta_gap st a" using spent_loop_gap [of ad t1 "ord (pb_SpentUtxoKeysMap (fst st))" st a] by simp
  moreover have "delta_gap st1 a = delta_gap st0 a"
    using assms l by (auto simp: parseGetSpentStakeUtxoData_def redis_fold_gap split: if_splits)
  moreover obtain f b g where n: "fold (new_step ad t2) (pb_NewUtxoDataMap (fst st1)) ([], st1) = (f, b, g)" by (metis prod_cases3)
  moreover from n have "delta_gap (b, g) a = delta_gap st1 a"
    using new_fold_gap [of ad t2 "pb_NewUtxoDataMap (fst st1)" "[]" st1 a] by simp
  ultimately show ?thesis by (simp add: updateStakeUtxoInMap_def)
qed

text \<open>C18. The address deltas of a block, persisted for the rollback, are exactly what the block adds to the deltas of the batch, whatever
  the order of the map loops and whether its outputs come from the block, the batch or the database.
\<close>

theorem block_deltas_are_batch_deltas:
  assumes "parseGetSpentStakeUtxoData ad sn ord t1 ok store (b, g) = Some st1" "updateStakeUtxoInMap ad t2 st1 = (b2, g2)"
    and "pb_AddressBalanceDeltaMap b = []"
  shows "mget0 0 (GlobalAddressBalanceDeltaMap g2) address =
    mget0 0 (GlobalAddressBalanceDeltaMap g) address + mget0 0 (pb_AddressBalanceDeltaMap b2) address"
  using block_gap [OF assms(1), of t2 address] assms(2,3) by (simp add: delta_gap_def)

theorem block_deltas_are_batch_deltas_witness:
  "\<exists>st1 b2 g2. parseGetSpentStakeUtxoData (\<lambda>_. Some (True, [''bc1''])) (\<lambda>_. None) id None True Map.empty (one_block, CleanUtxoMap) = Some st1 \<and>
     updateStakeUtxoInMap (\<lambda>_. Some (True, [''bc1''])) None st1 = (b2, g2) \<and>
     mget0 0 (GlobalAddressBalanceDeltaMap g2) ''bc1'' = mget0 0 (pb_AddressBalanceDeltaMap b2) ''bc1''"
proof -
  let ?ad = "\<lambda>_. Some (True, [''bc1''])" and ?sn = "\<lambda>_. None"
  have p: "parseGetSpentStakeUtxoData ?ad ?sn id None True Map.empty (one_block, CleanUtxoMap) = Some (one_block, CleanUtxoMap)"
    by (simp add: parseGetSpentStakeUtxoData_def one_block_def CleanUtxoMap_def mget_def redis_step_def)
  obtain b2 g2 where u: "updateStakeUtxoInMap ?ad None (one_block, CleanUtxoMap) = (b2, g2)" by fastforce
  have "pb_AddressBalanceDeltaMap one_block = []" by (simp add: one_block_def)
  from block_deltas_are_batch_deltas [OF p u this, of "''bc1''"] p u show ?thesis by (simp add: CleanUtxoMap_def)
qed

lemma heights_word: "map (word_of_nat :: nat \<Rightarrow> u32) [unat s ..< Suc (nat (int (unat e)))] = heights s e"
  by (simp add: heights_def)

text \<open>C17. Rolling back realtime balances: after an executed \<^verbatim>\<open>applyRealtimeBalances\<close> for a batch whose deltas are the sums of the persisted deltas of
  its blocks, \<^verbatim>\<open>rollbackRealtimeBalanceFromHeight\<close> from the first block of the batch restores the realtime balance of every
  address and sets the cursor below the batch.
\<close>

theorem balances_restored:
  assumes "applyRealtimeBalances True ok bi endHeight g db = (db1, ok')" "startHeight \<le> endHeight" "mwf (GlobalAddressBalanceDeltaMap g)"
    and "\<And>a. mget0 0 (GlobalAddressBalanceDeltaMap g) a =
      sum_list (map (\<lambda>h. delta_sum (ListIndexerAddrDeltasByHeight t h) a) (heights startHeight endHeight))"
  shows "mget0 0 (bd_realtime (rollbackRealtimeBalanceFromHeight bo bs sync t startHeight db1)) address = mget0 0 (bd_realtime db) address \<and>
    bd_block_height (rollbackRealtimeBalanceFromHeight bo bs sync t startHeight db1) = Some (int (unat (rollbackTo startHeight)))"
proof -
  obtain db0 ts where r: "balance_round bi (GlobalAddressBalanceDeltaMap g) db = (db0, ts)" by fastforce
  then have h: "bd_block_height db1 = Some (int (unat endHeight))" and rt: "bd_realtime db1 = bd_realtime db0"
    using assms(1) by (auto simp: applyRealtimeBalances_def split: if_splits)
  have "mget0 0 (bd_realtime db0) address = mget0 0 (bd_realtime db) address + mget0 0 (GlobalAddressBalanceDeltaMap g) address"
    using balance_round_realtime [of bi "GlobalAddressBalanceDeltaMap g" db address] r by (simp add: delta_sum_map [OF assms(3)])
  moreover have "\<not> int (unat endHeight) < int (unat startHeight)" using assms(2) by (simp add: word_le_def)
  moreover have "sum_list (map f (rev xs)) = sum_list (map f xs)" for f :: "u32 \<Rightarrow> int" and xs
    by (simp add: rev_map [symmetric])
  ultimately show ?thesis
    unfolding rollbackRealtimeBalanceFromHeight_def h
    by (simp only: option.case if_False Let_def heights_word) (simp add: balance_rounds_realtime rt assms(4))
qed

definition no_balances :: balance_db where
  "no_balances = \<lparr>bd_realtime = [], bd_stake_zset = [], bd_stake_total = [], bd_confirmed_total = 0, bd_block_height = None, bd_block = None\<rparr>"

theorem balances_restored_witness:
  "\<exists>db1. applyRealtimeBalances True True [] 5 (CleanUtxoMap\<lparr>GlobalAddressBalanceDeltaMap := [(''bc1'', 9)]\<rparr>) no_balances = (db1, True) \<and>
     mget0 0 (bd_realtime db1) ''bc1'' = 9 \<and>
     mget0 0 (bd_realtime (rollbackRealtimeBalanceFromHeight True [] [] [(5, ''bc1'', 9)] 5 db1)) ''bc1'' = 0"
proof -
  let ?g = "CleanUtxoMap\<lparr>GlobalAddressBalanceDeltaMap := [(''bc1'', 9)]\<rparr>"
  let ?db1 = "no_balances\<lparr>bd_realtime := [(''bc1'', 9)], bd_block_height := Some 5\<rparr>"
  have r: "applyRealtimeBalances True True [] 5 ?g no_balances = (?db1, True)"
    by (simp add: applyRealtimeBalances_def balance_round_def balance_step_def no_balances_def add_delta_def mput_def mget_def Let_def)
  have "mget0 0 (GlobalAddressBalanceDeltaMap ?g) a =
      sum_list (map (\<lambda>h. delta_sum (ListIndexerAddrDeltasByHeight [(5, ''bc1'', 9)] h) a) (heights 5 5))" for a
    by (simp add: heights_def ListIndexerAddrDeltasByHeight_def mget0_def)
  then have "\<And>a. mget0 0 (GlobalAddressBalanceDeltaMap ?g) a =
      sum_list (map (\<lambda>h. delta_sum (ListIndexerAddrDeltasByHeight [(5, ''bc1'', 9)] h) a) (heights 5 5))" .
  from balances_restored [OF r _ _ this, of True "[]" "[]" "''bc1''"] r show ?thesis
    by (simp add: no_balances_def mwf_def mget0_def)
qed

lemma find_prefix: "find P xs = Some h \<Longrightarrow> \<exists>ys zs. xs = ys @ h # zs \<and> P h \<and> (\<forall>y \<in> set ys. \<not> P y)"
proof (induction xs)
  case (Cons x xs)
  then show ?case
  proof (cases "P x")
    case True
    then show ?thesis using Cons.prems by (intro exI [of _ "[]"] exI [of _ xs]) auto
  next
    case False
    then obtain ys zs where "xs = ys @ h # zs" "P h" "\<forall>y \<in> set ys. \<not> P y" using Cons by auto
    then show ?thesis using False by (intro exI [of _ "x # ys"] exI [of _ zs]) auto
  qed
qed simp

lemma unat_upto: "n < Suc (unat (e :: u32)) \<Longrightarrow> unat (word_of_nat n :: u32) = n"
proof -
  assume "n < Suc (unat e)"
  moreover have "unat e < 2 ^ 32" using unsigned_less [of e, where ?'a = nat] by simp
  ultimately have "n < 2 ^ 32" by linarith
  then show ?thesis by (simp add: unat_of_nat)
qed

lemma heights_sorted: "sorted_wrt (<) (heights s e)"
proof -
  have "sorted_wrt (\<lambda>m n. (word_of_nat m :: u32) < word_of_nat n) [unat s ..< Suc (unat e)]"
    using unat_upto [of _ e] by (intro sorted_wrt_mono_rel [OF _ sorted_wrt_upt]) (auto simp: word_less_nat_alt)
  then show ?thesis by (simp add: heights_def sorted_wrt_map)
qed

lemma heights_less:
  assumes "heights s e = ys @ h # zs" "h' \<in> set (heights s e)" "h' < h"
  shows "h' \<in> set ys"
proof -
  have "sorted_wrt (<) (heights s e)" by (rule heights_sorted)
  then have "\<forall>z \<in> set zs. h < z" unfolding assms(1) by (simp add: sorted_wrt_append)
  then show ?thesis using assms by auto
qed


lemma in_heights: "s \<le> h \<Longrightarrow> h \<le> e \<Longrightarrow> h \<in> set (heights s e)"
  by (auto simp: heights_def word_le_nat_alt simp del: upt_Suc intro!: rev_image_eqI [of "unat h"])

lemma heights_iff: "h \<in> set (heights s e) \<longleftrightarrow> s \<le> h \<and> h \<le> e"
  using in_heights [of s h e] unat_upto [of _ e] by (auto simp: heights_def word_le_nat_alt simp del: upt_Suc)

lemma heights_distinct: "distinct (heights s e)"
  using heights_sorted [of s e] by (simp add: strict_sorted_iff)

lemma committed_hash:
  assumes "map_of (rev (map (\<lambda>b. (syb_Height b, syb_BlockHash b)) (filter (\<lambda>b. syb_State b = ''committed'') (ListSyncBlocksRange t s e)))) h = Some hash"
  shows "\<exists>b \<in> set t. syb_Height b = h \<and> syb_State b = ''committed'' \<and> syb_BlockHash b = hash"
  using map_of_SomeD [OF assms] by (auto simp: ListSyncBlocksRange_def)



definition committed_block :: SyncBlock where
  "committed_block = \<lparr>syb_Height = 5, syb_BlockHash = ''aa'', syb_ParentHash = '''', syb_Version = 0, syb_CoinbaseReward = 0,
     syb_State = ''committed'', syb_IsRewardBlockVersion = False\<rparr>"


end
