(* ===== verification/SubmitProofs.thy ===== *)
theory SubmitProofs
  imports Submit LedgerProofs
begin

text \<open>
  The commit of a batch: which heights a failing commit leaves behind and what the check of the heights makes of them, and what happens when
  a batch is tried again or stopped half way.
\<close>

section \<open>Running steps\<close>

lemma run_steps_inv:
  "(\<And>f s. f \<in> set fs \<Longrightarrow> P s \<Longrightarrow> P (fst (f s))) \<Longrightarrow> P s \<Longrightarrow> P (fst (run_steps fs s))"
proof (induction fs arbitrary: s)
  case (Cons f fs)
  have "P (fst (f s))" using Cons.prems by simp
  with Cons show ?case by (cases "f s") auto
qed simp

lemma run_steps_step: "f s = (s1, b) \<Longrightarrow> run_steps (f # fs) s = (if b then run_steps fs s1 else (s1, False))"
  by simp

section \<open>The rows of a batch\<close>

lemma those_SomeD: "those xs = Some ys \<Longrightarrow> xs = map Some ys"
  by (induction xs arbitrary: ys) (auto split: option.splits)

lemma those_sync_rows: "those (map sync_row bs) \<noteq> None \<Longrightarrow> list_all storable bs"
  by (induction bs) (auto simp: sync_row_def storable_def split: if_splits option.splits)

lemma upsert_chunks_storable: "upsert_chunks bs t = (t', True) \<Longrightarrow> list_all storable bs"
proof (induction bs t rule: upsert_chunks.induct)
  case (1 bs t)
  show ?case
  proof (cases "bs = []")
    case False
    then obtain t1 where i: "insert_chunk (take 200 bs) t = Some t1" and r: "upsert_chunks (drop 200 bs) t1 = (t', True)"
      using "1.prems" by (subst (asm) upsert_chunks.simps) (auto split: option.splits)
    then have "list_all storable (take 200 bs)"
      by (intro those_sync_rows) (auto simp: insert_chunk_def split: if_splits)
    moreover have "list_all storable (drop 200 bs)" using "1.IH" [OF False i r] .
    ultimately have "list_all storable (take 200 bs @ drop 200 bs)" by (simp only: list_all_append)
    then show ?thesis by simp
  qed simp
qed

lemma staged_map_height:
  assumes "\<And>k i. mget m k = Some i \<Longrightarrow> sg_Height i = k"
    "mget (foldl (\<lambda>m item. if sg_Height item < a \<or> sg_Height item > e then m else mput m (sg_Height item) item) m bs) k = Some i"
  shows "sg_Height i = k"
  using assms
proof (induction bs arbitrary: m)
  case (Cons b bs)
  show ?case
    by (rule Cons.IH [OF _ Cons.prems(2) [unfolded foldl_Cons]]) (use Cons.prems(1) in \<open>auto split: if_splits\<close>)
qed simp

lemma flush_rows:
  assumes "FlushIndexerBlockArtifacts tx stg a e (t, ar) = Some (t', ar')" "table_ok t" "a \<le> e"
  shows "table_ok t' \<and> (\<forall>h. if a \<le> h \<and> h \<le> e then (\<exists>b. abs_table t' h = Some b \<and> syb_State b = ''prepared'') else abs_table t' h = abs_table t h)"
proof -
  have ae: "\<not> e < a" using assms(3) by simp
  obtain m where m: "BuildStagedBlockMapForRange stg a e = Some m" and f: "flushPGArtifactsBatch tx a e m (t, ar) = Some (t', ar')"
    using assms(1) ae by (auto simp: FlushIndexerBlockArtifacts_def split: option.splits)
  have key: "sg_Height i = k" if "mget m k = Some i" for k i
    using m that staged_map_height [of "[]" a e stg k i] by (auto simp: BuildStagedBlockMapForRange_def Let_def split: if_splits)
  obtain items where items: "those (map (mget m) (heights a e)) = Some items"
    using f by (auto simp: flushPGArtifactsBatch_def split: option.splits)
  define bs where "bs = map (\<lambda>item. \<lparr>syb_Height = sg_Height item, syb_BlockHash = sg_HashHex item,
                syb_ParentHash = sg_ParentHash item, syb_Version = sg_Version item, syb_CoinbaseReward = sg_CoinbaseReward item,
                syb_State = ''prepared'', syb_IsRewardBlockVersion = False\<rparr>) items"
  have some: "map (mget m) (heights a e) = map Some items" using those_SomeD [OF items] .
  have hs: "map sg_Height items = heights a e"
  proof (rule nth_equalityI)
    show len: "length (map sg_Height items) = length (heights a e)" using arg_cong [OF some, of length] by simp
    show "map sg_Height items ! i = heights a e ! i" if "i < length (map sg_Height items)" for i
      using arg_cong [OF some, of "\<lambda>xs. xs ! i"] that len by (simp add: key)
  qed
  have bh: "map syb_Height bs = heights a e" using hs by (simp add: bs_def o_def)
  have d: "distinct (map syb_Height bs)" unfolding bh by (rule heights_distinct)
  obtain t1 b1 where u: "UpsertSyncBlocksBatch bs t = (t1, b1)" by fastforce
  have "b1 \<and> t' = t1"
    using f items u unfolding flushPGArtifactsBatch_def bs_def by (auto simp: Let_def split: if_splits)
  with u have "list_all storable bs" by (auto simp: UpsertSyncBlocksBatch_def dest: upsert_chunks_storable split: if_splits)
  then have ok: "op_ok (OpBatch bs)" using d by simp
  have t': "t' = exec_op (OpBatch bs) t" using u \<open>b1 \<and> t' = t1\<close> by simp
  have look: "abs_table t' h = (case find (\<lambda>b. syb_Height b = h) bs of Some b \<Rightarrow> Some (stored b) | None \<Rightarrow> abs_table t h)" for h
    unfolding t' exec_op_abs [OF ok] by simp
  have none: "find (\<lambda>b. syb_Height b = h) bs = None \<longleftrightarrow> \<not> (a \<le> h \<and> h \<le> e)" for h
    unfolding find_None_iff heights_iff [symmetric] bh [symmetric] by auto
  have prep: "syb_State (stored b) = ''prepared''" if "find (\<lambda>b. syb_Height b = h) bs = Some b" for h b
    using that unfolding find_Some_iff by (auto simp: bs_def stored_def)
  have "if a \<le> h \<and> h \<le> e then \<exists>b. abs_table t' h = Some b \<and> syb_State b = ''prepared'' else abs_table t' h = abs_table t h" for h
  proof (cases "a \<le> h \<and> h \<le> e")
    case True
    then obtain b where "find (\<lambda>b. syb_Height b = h) bs = Some b" using none [of h] by auto
    then show ?thesis using True look [of h] prep by auto
  next
    case False
    then have "find (\<lambda>b. syb_Height b = h) bs = None" using none [of h] by blast
    then have "abs_table t' h = abs_table t h" using look [of h] by simp
    then show ?thesis using False by presburger
  qed
  then show ?thesis using exec_op_ok [OF assms(2) ok] unfolding t' [symmetric] by blast
qed


lemma latest_eqI:
  assumes "table_ok t" "h \<in> committed_heights (abs_table t)" "\<And>k. k \<in> committed_heights (abs_table t) \<Longrightarrow> k \<le> h"
  shows "GetLatestCommittedSyncBlockHeight t = Some h"
  using GetLatest_abs [OF assms(1)] assms(2,3) by (auto split: option.splits intro: antisym)

lemma latest_cong:
  assumes "table_ok t" "table_ok t'" "committed_heights (abs_table t') = committed_heights (abs_table t)"
  shows "GetLatestCommittedSyncBlockHeight t' = GetLatestCommittedSyncBlockHeight t"
  using GetLatest_abs [OF assms(1)] GetLatest_abs [OF assms(2)] assms(3)
  by (auto split: option.splits intro: antisym)

lemma committed_below:
  assumes "table_ok t" "\<forall>h. GetLatestCommittedSyncBlockHeight t = Some h \<longrightarrow> h < a" "k \<in> committed_heights (abs_table t)"
  shows "k < a"
  using GetLatest_abs [OF assms(1)] assms(2,3) by (auto split: option.splits intro: le_less_trans)

text \<open>Preparing the rows of a batch above the committed blocks does not move the committed height; committing them moves it to the end
  of the batch.\<close>

lemma flush_committed:
  assumes "FlushIndexerBlockArtifacts tx stg a e (t, ar) = Some (t', ar')" "table_ok t" "a \<le> e"
    "\<forall>h. GetLatestCommittedSyncBlockHeight t = Some h \<longrightarrow> h < a"
  shows "GetLatestCommittedSyncBlockHeight t' = GetLatestCommittedSyncBlockHeight t \<and> table_ok t' \<and>
    GetLatestCommittedSyncBlockHeight (MarkIndexerBlocksCommitted a e t') = Some e"
proof -
  note rows = flush_rows [OF assms(1-3)]
  have row: "if a \<le> h \<and> h \<le> e then (\<exists>b. abs_table t' h = Some b \<and> syb_State b = ''prepared'') else abs_table t' h = abs_table t h" for h
    using rows by blast
  have out: "\<not> (a \<le> k \<and> k \<le> e)" if "k \<in> committed_heights (abs_table t)" for k
    using committed_below [OF assms(2,4) that] by (meson leD)
  have "k \<in> committed_heights (abs_table t') \<longleftrightarrow> k \<in> committed_heights (abs_table t)" for k
    using row [of k] out [of k] by (cases "a \<le> k \<and> k \<le> e") (auto simp: committed_heights_def)
  then have same: "committed_heights (abs_table t') = committed_heights (abs_table t)" by blast
  let ?m = "MarkIndexerBlocksCommitted a e t'"
  have m: "?m = exec_op (OpCommit a e) t'" using assms(3) by (auto simp: MarkIndexerBlocksCommitted_def dest: leD)
  have ok: "op_ok (OpCommit a e)" by simp
  have ab: "abs_table ?m h = (if a \<le> h \<and> h \<le> e then map_option (syb_State_update (\<lambda>_. ''committed'')) (abs_table t' h) else abs_table t' h)" for h
    unfolding m exec_op_abs [OF ok] by simp
  have "e \<in> committed_heights (abs_table ?m)"
    using row [of e] assms(3) by (auto simp: committed_heights_def ab)
  moreover have "k \<le> e" if "k \<in> committed_heights (abs_table ?m)" for k
  proof (cases "a \<le> k \<and> k \<le> e")
    case False
    then have "abs_table ?m k = abs_table t k" using row [of k] ab [of k] by presburger
    then have "k \<in> committed_heights (abs_table t)" using that unfolding committed_heights_def by simp
    from committed_below [OF assms(2,4) this] show ?thesis using assms(3) by (meson less_imp_le order_trans)
  qed simp
  moreover have "table_ok ?m" unfolding m using exec_op_ok [OF _ ok] rows by blast
  ultimately have "GetLatestCommittedSyncBlockHeight ?m = Some e" by (intro latest_eqI) auto
  then show ?thesis using latest_cong [OF assms(2) _ same] rows by blast
qed

section \<open>The check of the heights\<close>

lemma validate_three:
  "validateHeightStates d [height_state x a, height_state y b, height_state z c] = None \<longleftrightarrow> b = a \<and> c = a"
  by (cases a; cases b; cases c) (auto simp: validateHeightStates_def height_state_def)

lemma ensure_iff:
  "EnsureIndexerDataConsistency True s = Inr n \<longleftrightarrow>
    (\<exists>c. GetLatestCommittedSyncBlockHeight (ix_sync s) = c \<and> ud_height (ix_utxo s) = c \<and>
      GetInfoFieldUInt32 (bd_block_height (ix_bal s)) = Inr c \<and> n = (case c of None \<Rightarrow> 0 | Some h \<Rightarrow> h + 1))"
proof (cases "GetInfoFieldUInt32 (bd_block_height (ix_bal s))")
  case (Inr r)
  let ?c = "GetLatestCommittedSyncBlockHeight (ix_sync s)"
  let ?v = "validateHeightStates ''indexer'' [height_state ''pg_committed'' ?c, height_state ''redis_utxo'' (ud_height (ix_utxo s)), height_state ''redis_realtime'' r]"
  have "EnsureIndexerDataConsistency True s = (case ?v of Some msg \<Rightarrow> Inl (HeightsBroken msg) | None \<Rightarrow> Inr (case ?c of None \<Rightarrow> 0 | Some h \<Rightarrow> h + 1))"
    using Inr by (simp add: EnsureIndexerDataConsistency_def Let_def)
  then show ?thesis using Inr validate_three [of "''indexer''" "''pg_committed''" ?c "''redis_utxo''" "ud_height (ix_utxo s)" "''redis_realtime''" r]
    by (cases ?v) auto
qed (simp add: EnsureIndexerDataConsistency_def)

lemma ensure_broken:
  assumes "GetInfoFieldUInt32 (bd_block_height (ix_bal s)) = Inr r" "ud_height (ix_utxo s) \<noteq> GetLatestCommittedSyncBlockHeight (ix_sync s)"
  shows "\<exists>msg. EnsureIndexerDataConsistency True s = Inl (HeightsBroken msg)"
  using assms validate_three [of "''indexer''" "''pg_committed''" _ "''redis_utxo''" "ud_height (ix_utxo s)" "''redis_realtime''" r]
  by (auto simp: EnsureIndexerDataConsistency_def Let_def split: option.splits)

lemma info_of_height [simp]: "GetInfoFieldUInt32 (Some (uint h)) = Inr (Some h)"
  using unsigned_less [of h, where ?'a = int] by (simp add: GetInfoFieldUInt32_def)


section \<open>Committing a batch\<close>

text \<open>Writing the staged rows touches neither the cursors nor the deltas and outputs of the batch.\<close>

definition same_stores :: "submit_state \<Rightarrow> submit_state \<Rightarrow> bool" where
  "same_stores s s' \<longleftrightarrow> ix_sync (su_db s') = ix_sync (su_db s) \<and> ix_utxo (su_db s') = ix_utxo (su_db s) \<and>
    ix_bal (su_db s') = ix_bal (su_db s) \<and> bt_g (su_batch s') = bt_g (su_batch s)"

lemma persist_same:
  assumes "persistPreparedStakeWrites ord env ok e s = (s', b)"
  shows "same_stores s s'"
proof -
  have "same_stores s (fst (run_steps [persist_registers ok, persist_status ok, persist_proofs ok, persist_claims ok,
      persist_bindings ok, persist_events ok, reload_bindings ord env e] s))"
    by (rule run_steps_inv)
      (auto simp: same_stores_def persist_registers_def persist_status_def persist_proofs_def persist_claims_def persist_bindings_def
        persist_events_def reload_bindings_def map_db_def map_batch_def Let_def split: prod.splits)
  then show ?thesis using assms by (simp add: persistPreparedStakeWrites_def)
qed

lemma commit_cases:
  assumes "commitUtxoWritesAndCursor x y z e g u = (u', b)"
  shows "ud_height u' = (if b then Some e else ud_height u)"
  using assms by (auto simp: commitUtxoWritesAndCursor_def Let_def split: if_splits)

lemma balances_cases:
  assumes "applyRealtimeBalances x y bi e g db = (db', b)"
  shows "(b \<longrightarrow> bd_block_height db' = Some (int (unat e))) \<and> (bd_block_height db' = Some (int (unat e)) \<or> db' = db)"
  using assms by (auto simp: applyRealtimeBalances_def split: if_splits prod.splits)

lemma commit_stores:
  assumes "commit_utxo ok e s = (s', b)"
  shows "ix_sync (su_db s') = ix_sync (su_db s) \<and> ix_bal (su_db s') = ix_bal (su_db s) \<and> bt_g (su_batch s') = bt_g (su_batch s) \<and>
    ud_height (ix_utxo (su_db s')) = (if b then Some e else ud_height (ix_utxo (su_db s)))"
  using assms commit_cases by (auto simp: commit_utxo_def map_db_def map_batch_def Let_def split: prod.splits)

lemma balances_stores:
  assumes "apply_balances ok e s = (s', b)"
  shows "ix_sync (su_db s') = ix_sync (su_db s) \<and> ix_utxo (su_db s') = ix_utxo (su_db s) \<and> bt_g (su_batch s') = bt_g (su_batch s) \<and>
    (if b then bd_block_height (ix_bal (su_db s')) = Some (int (unat e))
     else bd_block_height (ix_bal (su_db s')) = Some (int (unat e)) \<or> ix_bal (su_db s') = ix_bal (su_db s))"
  using assms by (auto simp: apply_balances_def map_db_def split: prod.splits dest!: balances_cases)

lemma staged_stores: "flush_staged ok s = (s', b) \<Longrightarrow> same_stores s s'"
  by (auto simp: flush_staged_def same_stores_def map_batch_def split: prod.splits)

lemma mark_stores:
  assumes "mark_committed ok a e s = (s', b)"
  shows "ix_sync (su_db s') = (if b then MarkIndexerBlocksCommitted a e (ix_sync (su_db s)) else ix_sync (su_db s)) \<and>
    ix_utxo (su_db s') = ix_utxo (su_db s) \<and> ix_bal (su_db s') = ix_bal (su_db s) \<and> bt_g (su_batch s') = bt_g (su_batch s)"
  using assms by (auto simp: mark_committed_def map_db_def split: if_splits)

text \<open>Where a commit can end: before the output cursor moves, after it, or with everything done.\<close>

definition before_cursor :: "sync_table \<Rightarrow> submit_state \<Rightarrow> submit_state \<Rightarrow> bool" where
  "before_cursor t s s' \<longleftrightarrow> ix_sync (su_db s') = t \<and> ud_height (ix_utxo (su_db s')) = ud_height (ix_utxo (su_db s)) \<and>
     ix_bal (su_db s') = ix_bal (su_db s) \<and> bt_g (su_batch s') = bt_g (su_batch s)"

definition after_cursor :: "sync_table \<Rightarrow> u32 \<Rightarrow> submit_state \<Rightarrow> submit_state \<Rightarrow> bool" where
  "after_cursor t e s s' \<longleftrightarrow> ix_sync (su_db s') = t \<and> ud_height (ix_utxo (su_db s')) = Some e \<and>
     (bd_block_height (ix_bal (su_db s')) = Some (int (unat e)) \<or> ix_bal (su_db s') = ix_bal (su_db s)) \<and>
     bt_g (su_batch s') = bt_g (su_batch s)"

definition batch_done :: "sync_table \<Rightarrow> u32 \<Rightarrow> u32 \<Rightarrow> submit_state \<Rightarrow> bool" where
  "batch_done t a e s' \<longleftrightarrow> ix_sync (su_db s') = MarkIndexerBlocksCommitted a e t \<and> ud_height (ix_utxo (su_db s')) = Some e \<and>
     bd_block_height (ix_bal (su_db s')) = Some (int (unat e)) \<and> bt_g (su_batch s') = CleanUtxoMap"

lemma tail_cases:
  assumes "run_steps [apply_balances ok e, flush_staged ok, mark_committed ok a e, clean_maps] s2 = (s', b)"
    "after_cursor t e s s2"
  shows "if b then batch_done t a e s' else after_cursor t e s s'"
proof -
  obtain s3 b3 where ap: "apply_balances ok e s2 = (s3, b3)" by fastforce
  obtain s4 b4 where fs: "flush_staged ok s3 = (s4, b4)" by fastforce
  obtain s5 b5 where mk: "mark_committed ok a e s4 = (s5, b5)" by fastforce
  note st = balances_stores [OF ap] staged_stores [OF fs, unfolded same_stores_def] mark_stores [OF mk]
  have run: "(s', b) = (if b3 then if b4 then if b5 then (fst (clean_maps s5), True) else (s5, False) else (s4, False) else (s3, False))"
    using assms(1) unfolding run_steps_step [of "apply_balances ok e", OF ap] run_steps_step [of "flush_staged ok", OF fs]
      run_steps_step [of "mark_committed ok a e", OF mk] by (auto simp: clean_maps_def)
  show ?thesis
  proof (cases "b3 \<and> b4 \<and> b5")
    case True
    then show ?thesis using run st assms(2) by (simp add: after_cursor_def batch_done_def clean_maps_def map_batch_def)
  next
    case False
    then have "\<not> b" "s' = (if b3 then if b4 then s5 else s4 else s3)" using run by (auto split: if_splits)
    then show ?thesis using st False assms(2) unfolding after_cursor_def by (auto split: if_splits)
  qed
qed

lemma submit_cases:
  assumes "runSubmitBlocksFlow ord env ok a e s = (s', b)"
  shows "\<not> b \<and> s' = s \<or>
    (\<exists>t ar. FlushIndexerBlockArtifacts (ok XFlushArtifacts) (bt_staged (su_batch s)) a e (ix_sync (su_db s), ix_art (su_db s)) = Some (t, ar) \<and>
      (if b then batch_done t a e s' else before_cursor t s s' \<or> after_cursor t e s s'))"
proof -
  obtain s0 b0 where f: "flush_artifacts ok a e s = (s0, b0)" by fastforce
  show ?thesis
  proof (cases b0)
    case False
    then show ?thesis using assms f by (auto simp: runSubmitBlocksFlow_def flush_artifacts_def split: option.splits)
  next
    case True
    then obtain t ar where fl: "FlushIndexerBlockArtifacts (ok XFlushArtifacts) (bt_staged (su_batch s)) a e (ix_sync (su_db s), ix_art (su_db s)) = Some (t, ar)"
      and s0: "s0 = map_db (\<lambda>d. d\<lparr>ix_sync := t, ix_art := ar\<rparr>) s" using f by (auto simp: flush_artifacts_def split: option.splits)
    obtain s1 b1 where p: "persistPreparedStakeWrites ord env ok e s0 = (s1, b1)" by fastforce
    obtain s2 b2 where c: "commit_utxo ok e s1 = (s2, b2)" by fastforce
    have b1: "before_cursor t s s1" using persist_same [OF p] s0 by (simp add: same_stores_def before_cursor_def map_db_def)
    have tail: "(s', b) = (if b1 then if b2 then run_steps [apply_balances ok e, flush_staged ok, mark_committed ok a e, clean_maps] s2
        else (s2, False) else (s1, False))"
      using assms True unfolding runSubmitBlocksFlow_def run_steps_step [of "flush_artifacts ok a e", OF f]
        run_steps_step [of "persistPreparedStakeWrites ord env ok e", OF p] run_steps_step [of "commit_utxo ok e", OF c] by simp
    show ?thesis
    proof (cases "b1 \<and> b2")
      case True
      have "after_cursor t e s s2" using b1 commit_stores [OF c] True by (simp add: before_cursor_def after_cursor_def)
      from tail_cases [OF _ this, of ok a s' b] show ?thesis using tail True fl by auto
    next
      case False
      then have "\<not> b" "before_cursor t s s'" using tail b1 commit_stores [OF c] by (auto simp: before_cursor_def split: if_splits)
      then show ?thesis using fl by auto
    qed
  qed
qed

text \<open>C5. Committing a batch keeps the stores in step or leaves a trace: from a state whose three heights agree below the batch, a successful \<^verbatim>\<open>SubmitBlocks\<close>
  makes \<^verbatim>\<open>EnsureIndexerDataConsistency\<close> continue right after the batch with empty maps; a commit that fails at whatever call either leaves
  all heights and balances as they were, so that the same heights are tried again, or makes the check report broken heights, so that no
  further block is committed on top of half a batch.\<close>

theorem submit_blocks_heights:
  assumes "SubmitBlocks ord env ok startHeight stageHeight s = (s', done)" "startHeight \<le> stageHeight"
    and "table_ok (ix_sync (su_db s))" "EnsureIndexerDataConsistency True (su_db s) = Inr n"
    and "\<forall>h. GetLatestCommittedSyncBlockHeight (ix_sync (su_db s)) = Some h \<longrightarrow> h < startHeight"
  shows "if done then EnsureIndexerDataConsistency True (su_db s') = Inr (stageHeight + 1) \<and> bt_g (su_batch s') = CleanUtxoMap
    else bt_g (su_batch s') = bt_g (su_batch s) \<and>
      (EnsureIndexerDataConsistency True (su_db s') = Inr n \<and> ix_bal (su_db s') = ix_bal (su_db s) \<or>
       (\<exists>msg. EnsureIndexerDataConsistency True (su_db s') = Inl (HeightsBroken msg)))"
proof -
  obtain s1 where r: "runSubmitBlocksFlow ord env ok startHeight stageHeight s = (s1, done)" and s': "s' = ResetIndexerArtifactStage s1"
    using assms(1) by (auto simp: SubmitBlocks_def split: prod.splits)
  have db: "su_db s' = su_db s1" "bt_g (su_batch s') = bt_g (su_batch s1)"
    unfolding s' by (simp_all add: ResetIndexerArtifactStage_def map_batch_def)
  let ?c = "GetLatestCommittedSyncBlockHeight (ix_sync (su_db s))"
  have c: "ud_height (ix_utxo (su_db s)) = ?c" "GetInfoFieldUInt32 (bd_block_height (ix_bal (su_db s))) = Inr ?c"
    using assms(4) by (simp_all add: ensure_iff)
  have ne: "Some stageHeight \<noteq> ?c" using assms(2,5) by (metis leD)
  show ?thesis
  proof (cases "\<not> done \<and> s1 = s")
    case True
    then show ?thesis using assms(4) db by simp
  next
    case changed: False
    then obtain t ar where f: "FlushIndexerBlockArtifacts (ok XFlushArtifacts) (bt_staged (su_batch s)) startHeight stageHeight (ix_sync (su_db s), ix_art (su_db s)) = Some (t, ar)"
      and e: "if done then batch_done t startHeight stageHeight s1 else before_cursor t s s1 \<or> after_cursor t stageHeight s s1"
      using submit_cases [OF r] by blast
    note rows = flush_committed [OF f assms(3,2,5)]
    consider "done" | "\<not> done" "before_cursor t s s1" | "\<not> done" "after_cursor t stageHeight s s1" using e by (auto split: if_splits)
    then show ?thesis
    proof cases
      case 1
      then show ?thesis using e rows by (simp add: db ensure_iff batch_done_def)
    next
      case 2
      then have "EnsureIndexerDataConsistency True (su_db s1) = Inr n"
        using assms(4) rows unfolding ensure_iff before_cursor_def by auto
      then show ?thesis using 2 by (simp add: db before_cursor_def)
    next
      case 3
      then have "\<exists>r. GetInfoFieldUInt32 (bd_block_height (ix_bal (su_db s1))) = Inr r" using c by (auto simp: after_cursor_def)
      then have "\<exists>msg. EnsureIndexerDataConsistency True (su_db s1) = Inl (HeightsBroken msg)"
        using 3 rows ne by (elim exE) (rule ensure_broken, auto simp: after_cursor_def)
      then show ?thesis using 3 by (simp add: db after_cursor_def)
    qed
  qed
qed

definition one_staged :: StagedIndexerBlock where
  "one_staged = \<lparr>sg_Height = 5, sg_HashHex = ''aa'', sg_ParentHash = ''99'', sg_Version = 0, sg_CoinbaseReward = 50,
     sg_AddressDeltas = [], sg_UndoNew = [], sg_UndoSpent = []\<rparr>"

definition sample_submit :: "StagedIndexerBlock list \<Rightarrow> submit_state" where
  "sample_submit stg = \<lparr>su_batch = \<lparr>bt_m = sample_manager, bt_g = CleanUtxoMap, bt_staged = stg, bt_NeedStop = False\<rparr>,
     su_db = (quiet_state 0)\<lparr>ix_utxo := \<lparr>ud_store = Map.empty, ud_height = None, ud_total = 0\<rparr>\<rparr>, su_status = [], su_sent = []\<rparr>"

definition open_env :: env where
  "open_env = \<lparr>db_ok = (\<lambda>_. True), db_registers = [], db_bindings = [], rd_HGet = (\<lambda>_ _. RNil), rd_Get = (\<lambda>_. RNil)\<rparr>"

theorem submit_blocks_heights_witness:
  "(\<exists>s'. SubmitBlocks id open_env (\<lambda>_. True) 5 5 (sample_submit [one_staged]) = (s', True) \<and>
     EnsureIndexerDataConsistency True (su_db s') = Inr 6) \<and>
   (\<exists>s'. SubmitBlocks id open_env (\<lambda>c. c \<noteq> XMarkCommitted) 5 5 (sample_submit [one_staged]) = (s', False))"
proof -
  obtain s' b where r: "SubmitBlocks id open_env (\<lambda>_. True) 5 5 (sample_submit [one_staged]) = (s', b)" by fastforce
  have "snd (SubmitBlocks id open_env (\<lambda>_. True) 5 5 (sample_submit [one_staged])) = True" by code_simp
  then have b: b using r by simp
  moreover have "snd (SubmitBlocks id open_env (\<lambda>c. c \<noteq> XMarkCommitted) 5 5 (sample_submit [one_staged])) = False" by code_simp
  moreover have "table_ok (ix_sync (su_db (sample_submit [one_staged])))" "EnsureIndexerDataConsistency True (su_db (sample_submit [one_staged])) = Inr 0"
    "GetLatestCommittedSyncBlockHeight (ix_sync (su_db (sample_submit [one_staged]))) = None"
    by (code_simp, code_simp, code_simp)
  ultimately have "EnsureIndexerDataConsistency True (su_db s') = Inr 6"
    and "\<not> snd (SubmitBlocks id open_env (\<lambda>c. c \<noteq> XMarkCommitted) 5 5 (sample_submit [one_staged]))"
    using submit_blocks_heights [OF r, of 0] by auto
  then show ?thesis using r b by (metis prod.exhaust_sel)
qed

section \<open>Trying a batch again\<close>

lemma submit_failed_maps: "SubmitBlocks ord env ok a e s = (s', False) \<Longrightarrow> bt_g (su_batch s') = bt_g (su_batch s)"
  using submit_cases [of ord env ok a e s]
  by (force simp: SubmitBlocks_def ResetIndexerArtifactStage_def map_batch_def before_cursor_def after_cursor_def split: prod.splits)

lemma new_fold_block:
  assumes "fold (new_step ad t) es (f, b, g) = (f1, b1, g1)" "fold (new_step ad t) es (f, b, h) = (f2, b2, h2)"
  shows "f2 = f1 \<and> b2 = b1"
  using assms
proof (induction es arbitrary: f b g h)
  case (Cons e es)
  obtain k d where e: "e = (k, d)" by fastforce
  obtain fa ba ga fb bb gb where s: "new_step ad t e (f, b, g) = (fa, ba, ga)" "new_step ad t e (f, b, h) = (fb, bb, gb)" by (metis prod_cases3)
  then have "fb = fa \<and> bb = ba"
    by (auto simp: e new_step_def addTrackedAddressDelta_def split: if_splits option.splits)
  then show ?case using Cons s by simp
qed simp

lemma new_block_indep:
  assumes "updateStakeUtxoInMap ad t (b, g) = (b1, g1)" "updateStakeUtxoInMap ad t (b, h) = (b2, g2)"
  shows "b2 = b1"
  using assms new_fold_block [of ad t "pb_NewUtxoDataMap b" "[]" b g _ _ _ h]
  by (fastforce simp: updateStakeUtxoInMap_def split: prod.splits)

text \<open>A block that spends nothing: what \<^verbatim>\<open>process_block\<close> does to the deltas.\<close>

lemma coinbase_block_deltas:
  assumes "process_block be block st = Some (Some b1, st1)" "mb_ParseData block = Some pd" "pb_SpentUtxoKeysMap pd = []"
    "map_order (be_order be)"
  shows "\<exists>pd1. mb_ParseData b1 = Some pd1 \<and>
    updateStakeUtxoInMap (be_addrs be) (Some (shouldTrackStakeAddress (bt_m st1))) (pd, bt_g st) = (pd1, bt_g st1)"
proof -
  have "be_order be [] = []" using assms(4) by (metis map_order_length length_0_conv)
  then have "parseGetSpentStakeUtxoData (be_addrs be) (be_snappy be) (be_order be) t (be_ok be) (be_store be) (pd, bt_g st) = Some (pd, bt_g st)" for t
    using assms(3) by (simp add: parseGetSpentStakeUtxoData_def)
  then have "ParseBlockSerialStart be block st = Some (block, st)"
    using assms(2) by (cases block) (simp add: ParseBlockSerialStart_def)
  then show ?thesis
    using assms(1,2)
    by (auto simp: process_block_def ParseBlockSerialFinalize_def PersistIndexerBlockArtifacts_def Let_def
        split: if_splits option.splits prod.splits list.splits)
qed

definition paying_block :: Block where
  "paying_block = (fast_block [(sample_tx [])\<lparr>mt_TxIdHex := ''''\<rparr>])\<lparr>mb_ParseData := Some \<lparr>pb_Height = 100, pb_SpentUtxoKeysMap = [], pb_SpentUtxoDataMap = [],
     pb_NewUtxoDataMap = [(''k'', txo 50)], pb_AddressBalanceDeltaMap = []\<rparr>\<rparr>"

definition sample_be :: batch_env where
  "sample_be = \<lparr>be_addrs = (\<lambda>_. Some (False, [''s1''])), be_snappy = (\<lambda>_. None), be_btc = sample_btc, be_env = open_env,
     be_store = [''k'' \<mapsto> TxoData_Marshal (txo 50)], be_ok = True, be_order = id, be_signal = (\<lambda>_. False)\<rparr>"

lemma tracks_s1: "stakeAddrToIndexer m = stakeAddrToIndexer sample_manager \<Longrightarrow> shouldTrackStakeAddress m ''s1''"
proof -
  have "TrimSpace ''s1'' = ''s1''" "mget (stakeAddrToIndexer sample_manager) ''s1'' \<noteq> None" by code_simp+
  then show "stakeAddrToIndexer m = stakeAddrToIndexer sample_manager \<Longrightarrow> shouldTrackStakeAddress m ''s1''"
    by (simp add: shouldTrackStakeAddress_def)
qed

lemma paying_block_processed:
  assumes "\<not> bt_NeedStop st" "stakeAddrToIndexer (bt_m st) = stakeAddrToIndexer sample_manager"
  shows "\<exists>b g t. process_block sample_be paying_block st =
    Some (Some b, st\<lparr>bt_m := resetRegisterOwnerSeen (bt_m st), bt_g := g, bt_staged := t\<rparr>)"
proof -
  have "ParseBlockSerialStart sample_be paying_block st = Some (paying_block, st)"
    by (simp add: ParseBlockSerialStart_def sample_be_def paying_block_def parseGetSpentStakeUtxoData_def)
  moreover have "HandleFastBlock (be_addrs sample_be) (be_env sample_be) (be_btc sample_be) paying_block (bt_m st) = Some (Inr (resetRegisterOwnerSeen (bt_m st)))"
    by (simp add: HandleFastBlock_def HandleBlockByDeps_def paying_block_def fast_block_def sample_tx_def ParseProtocolTxFromModelTx_def)
  moreover have "\<not> be_signal sample_be x" for x by (simp add: sample_be_def)
  moreover have "\<exists>b g t. ParseBlockSerialFinalize sample_be paying_block (st\<lparr>bt_m := resetRegisterOwnerSeen (bt_m st)\<rparr>) =
      Some (b, st\<lparr>bt_m := resetRegisterOwnerSeen (bt_m st), bt_g := g, bt_staged := t\<rparr>)"
  proof -
    obtain pd where "mb_ParseData paying_block = Some pd" by (simp add: paying_block_def)
    moreover have "mb_Txs paying_block \<noteq> []" by (simp add: paying_block_def fast_block_def)
    moreover obtain pd' g' where "updateStakeUtxoInMap (be_addrs sample_be)
        (Some (shouldTrackStakeAddress (resetRegisterOwnerSeen (bt_m st)))) (pd, bt_g st) = (pd', g')" by fastforce
    ultimately have "\<exists>b t. ParseBlockSerialFinalize sample_be paying_block (st\<lparr>bt_m := resetRegisterOwnerSeen (bt_m st)\<rparr>) =
      Some (b, st\<lparr>bt_m := resetRegisterOwnerSeen (bt_m st), bt_g := g', bt_staged := t\<rparr>)"
      by (auto simp: ParseBlockSerialFinalize_def PersistIndexerBlockArtifacts_def neq_Nil_conv)
    then show ?thesis by blast
  qed
  ultimately show ?thesis using assms(1) by (auto simp: process_block_def fast_block_result_def Let_def)
qed

text \<open>A failed commit is not undone in memory: \<^verbatim>\<open>SubmitBlocks\<close> cleans the maps of the batch only when it succeeds, so a block that
  creates outputs and spends none has its deltas added once more when its batch is parsed again, and the balances committed then are off by
  the deltas of the block.\<close>

theorem retried_batch_counts_twice:
  assumes "process_block be block st = Some (Some b1, st1)" "mb_ParseData block = Some pd" "pb_SpentUtxoKeysMap pd = []"
    and "pb_AddressBalanceDeltaMap pd = []" "map_order (be_order be)"
    and "SubmitBlocks ord env ok a e s = (s', False)" "su_batch s = st1"
    and "process_block be2 block ((su_batch s')\<lparr>bt_m := m\<rparr>) = Some (Some b2, st2)" "map_order (be_order be2)" "be_addrs be2 = be_addrs be"
    and "shouldTrackStakeAddress (bt_m st2) = shouldTrackStakeAddress (bt_m st1)"
  shows "\<exists>pd1. mb_ParseData b1 = Some pd1 \<and> mb_ParseData b2 = Some pd1 \<and>
    mget0 0 (GlobalAddressBalanceDeltaMap (bt_g st2)) address =
      mget0 0 (GlobalAddressBalanceDeltaMap (bt_g st)) address + 2 * mget0 0 (pb_AddressBalanceDeltaMap pd1) address"
proof -
  let ?t = "Some (shouldTrackStakeAddress (bt_m st1))"
  obtain pd1 where p1: "mb_ParseData b1 = Some pd1" and u1: "updateStakeUtxoInMap (be_addrs be) ?t (pd, bt_g st) = (pd1, bt_g st1)"
    using coinbase_block_deltas [OF assms(1-3,5)] by blast
  have g: "bt_g (su_batch s') = bt_g st1" using submit_failed_maps [OF assms(6)] assms(7) by simp
  obtain pd2 where p2: "mb_ParseData b2 = Some pd2" and u2: "updateStakeUtxoInMap (be_addrs be) ?t (pd, bt_g st1) = (pd2, bt_g st2)"
    using coinbase_block_deltas [OF assms(8,2,3,9)] g assms(10,11) by auto
  have q: "parseGetSpentStakeUtxoData (be_addrs be) (\<lambda>_. None) id ?t True Map.empty (pd, h) = Some (pd, h)" for h
    using assms(3) by (simp add: parseGetSpentStakeUtxoData_def)
  have "pd2 = pd1" by (rule new_block_indep [OF u1 u2])
  then show ?thesis
    using block_gap [OF q, of ?t "bt_g st" address] block_gap [OF q, of ?t "bt_g st1" address] u1 u2 p1 p2 assms(4)
    by (simp add: delta_gap_def)
qed

text \<open>A tracked output of 50 is counted as 100 when the first commit of its block fails.\<close>

theorem retried_batch_counts_twice_witness:
  "\<exists>b1 st1 b2 st2 s'. process_block sample_be paying_block (su_batch (sample_submit [])) = Some (Some b1, st1) \<and>
     SubmitBlocks id open_env (\<lambda>_. False) 100 100 ((sample_submit [])\<lparr>su_batch := st1\<rparr>) = (s', False) \<and>
     process_block sample_be paying_block (su_batch s') = Some (Some b2, st2) \<and>
     mget0 0 (GlobalAddressBalanceDeltaMap (bt_g st2)) ''s1'' = 100"
proof -
  let ?st = "su_batch (sample_submit [])"
  have m: "\<not> bt_NeedStop ?st" "stakeAddrToIndexer (bt_m ?st) = stakeAddrToIndexer sample_manager" by (simp_all add: sample_submit_def)
  obtain b1 g1 t1 where p1: "process_block sample_be paying_block ?st =
      Some (Some b1, ?st\<lparr>bt_m := resetRegisterOwnerSeen (bt_m ?st), bt_g := g1, bt_staged := t1\<rparr>)" (is "_ = Some (_, ?st1)")
    using paying_block_processed [OF m] by blast
  let ?s = "(sample_submit [])\<lparr>su_batch := ?st1\<rparr>"
  have f: "SubmitBlocks id open_env (\<lambda>_. False) 100 100 ?s = (ResetIndexerArtifactStage ?s, False)"
    by (simp add: SubmitBlocks_def runSubmitBlocksFlow_def flush_artifacts_def FlushIndexerBlockArtifacts_def flushPGArtifactsBatch_def
        Let_def split: option.split prod.split)
  let ?st' = "su_batch (ResetIndexerArtifactStage ?s)"
  have m': "\<not> bt_NeedStop ?st'" "stakeAddrToIndexer (bt_m ?st') = stakeAddrToIndexer sample_manager"
    using m by (simp_all add: ResetIndexerArtifactStage_def map_batch_def resetRegisterOwnerSeen_def)
  obtain b2 g2 t2 where p2: "process_block sample_be paying_block ?st' =
      Some (Some b2, ?st'\<lparr>bt_m := resetRegisterOwnerSeen (bt_m ?st'), bt_g := g2, bt_staged := t2\<rparr>)" (is "_ = Some (_, ?st2)")
    using paying_block_processed [OF m'] by blast
  have p2': "process_block sample_be paying_block (?st'\<lparr>bt_m := bt_m ?st'\<rparr>) = Some (Some b2, ?st2)" using p2 by simp
  have tr: "shouldTrackStakeAddress (bt_m ?st2) = shouldTrackStakeAddress (bt_m ?st1)"
    by (simp add: ResetIndexerArtifactStage_def map_batch_def resetRegisterOwnerSeen_def)
  obtain pd where pd: "mb_ParseData paying_block = Some pd" "pb_SpentUtxoKeysMap pd = []" "pb_AddressBalanceDeltaMap pd = []"
    "pb_NewUtxoDataMap pd = [(''k'', txo 50)]" by (simp add: paying_block_def)
  have ord: "map_order (be_order sample_be)" by (simp add: sample_be_def)
  obtain pd1 where pd1: "mb_ParseData b1 = Some pd1"
    "mget0 0 (GlobalAddressBalanceDeltaMap g2) ''s1'' = mget0 0 (GlobalAddressBalanceDeltaMap (bt_g ?st)) ''s1'' + 2 * mget0 0 (pb_AddressBalanceDeltaMap pd1) ''s1''"
    using retried_batch_counts_twice [OF p1 pd(1-3) ord f _ p2' ord refl tr, of "''s1''"] by auto
  have ad: "be_addrs sample_be = (\<lambda>_. Some (False, [''s1'']))" by (simp add: sample_be_def)
  have tk: "shouldTrackStakeAddress (resetRegisterOwnerSeen (bt_m ?st)) ''s1''"
    by (rule tracks_s1) (simp add: sample_submit_def resetRegisterOwnerSeen_def)
  have "mget0 0 (pb_AddressBalanceDeltaMap pd1) ''s1'' = 50"
    using coinbase_block_deltas [OF p1 pd(1,2) ord] pd1(1) pd(3,4) tk
    by (auto simp: updateStakeUtxoInMap_def new_step_def addTrackedAddressDelta_def shouldTrackTxoData_def ad GetAddressFromScript_def
        add_delta_def mput_def mget0_def txo_def)
  moreover have "mget0 0 (GlobalAddressBalanceDeltaMap (bt_g ?st)) ''s1'' = 0" by (simp add: sample_submit_def CleanUtxoMap_def)
  ultimately have "mget0 0 (GlobalAddressBalanceDeltaMap (bt_g ?st2)) ''s1'' = 100" using pd1(2) by simp
  then show ?thesis using p1 f p2 by blast
qed


section \<open>Stopping in a batch\<close>

text \<open>A signal between the serial steps of a block loses its spends: the loop returns without staging the block, but the output it spends
  is already among the outputs the commit of the blocks before it deletes. When the block is processed after the restart the output is
  gone, so that its delta and its undo row are missing from the block.\<close>

theorem stopped_block_spend_lost:
  assumes "mb_ParseData block = Some pd" "pb_SpentUtxoKeysMap pd = [k]" "mget (pb_NewUtxoDataMap pd) k = None"
    and "mget (GlobalNewUtxoDataMap (bt_g st)) k = None" "be_store be k = Some raw" "be_ok be" "map_order (be_order be)"
    and "shouldTrackTxoData (be_addrs be) (Some (shouldTrackStakeAddress (bt_m st))) (stored_txo (be_snappy be) raw)"
    and "be_signal be AfterSerialStart"
  shows "\<exists>st'. process_block be block st = Some (None, st') \<and> bt_staged st' = bt_staged st \<and>
    (let store = updateUtxoInPikaDel (GlobalDeleteUtxoKeysMap (bt_g st')) (updateUtxoInPikaAdd (GlobalNewUtxoDataMap (bt_g st')) (be_store be)) in
     store k = None \<and>
     parseGetSpentStakeUtxoData (be_addrs be) (be_snappy be) id (Some (shouldTrackStakeAddress (bt_m st))) True store (pd, CleanUtxoMap) =
       Some (pd, CleanUtxoMap))"
proof -
  let ?t = "Some (shouldTrackStakeAddress (bt_m st))"
  have one: "be_order be [k] = [k]"
  proof -
    have "mset (be_order be [k]) = mset [k]" using assms(7) unfolding map_order_def by blast
    then show ?thesis by (metis mset_single_iff mset_single_iff_right mset.simps(1) mset.simps(2) empty_neutral(2) add_mset_eq_single)
  qed
  obtain pd' g' where r: "redis_step (be_addrs be) (be_snappy be) ?t (be_store be) k (pd, bt_g st) = (pd', g')" by fastforce
  have p: "parseGetSpentStakeUtxoData (be_addrs be) (be_snappy be) (be_order be) ?t (be_ok be) (be_store be) (pd, bt_g st) = Some (pd', g')"
    using assms(2-4,6) r by (simp add: parseGetSpentStakeUtxoData_def one)
  have del: "k \<in> set (GlobalDeleteUtxoKeysMap g')"
    using r assms(5,8) by (auto simp: redis_step_def Let_def addTrackedAddressDelta_def insert_key_def split: option.splits if_splits)
  have "process_block be block st = Some (None, st\<lparr>bt_g := g', bt_NeedStop := True\<rparr>)"
    using assms(1,9) p by (simp add: process_block_def ParseBlockSerialStart_def)
  moreover have "updateUtxoInPikaDel (GlobalDeleteUtxoKeysMap g') store k = None" for store
    using del by (simp add: del_apply)
  ultimately show ?thesis
    using assms(2,3) by (auto simp: parseGetSpentStakeUtxoData_def CleanUtxoMap_def redis_step_def Let_def)
qed

definition spending_block :: Block where
  "spending_block = (fast_block [(sample_tx [])\<lparr>mt_TxIdHex := ''''\<rparr>])\<lparr>mb_ParseData := Some \<lparr>pb_Height = 100, pb_SpentUtxoKeysMap = [''k''],
     pb_SpentUtxoDataMap = [], pb_NewUtxoDataMap = [], pb_AddressBalanceDeltaMap = []\<rparr>\<rparr>"

theorem stopped_block_spend_lost_witness:
  "\<exists>st'. process_block (sample_be\<lparr>be_signal := (\<lambda>_. True)\<rparr>) spending_block (su_batch (sample_submit [])) = Some (None, st') \<and>
     bt_staged st' = [] \<and> updateUtxoInPikaDel (GlobalDeleteUtxoKeysMap (bt_g st'))
       (updateUtxoInPikaAdd (GlobalNewUtxoDataMap (bt_g st')) (be_store sample_be)) ''k'' = None"
proof -
  let ?be = "sample_be\<lparr>be_signal := (\<lambda>_. True)\<rparr>" and ?st = "su_batch (sample_submit [])"
  have tk: "shouldTrackStakeAddress (bt_m ?st) ''s1''" by (rule tracks_s1) (simp add: sample_submit_def)
  have st: "shouldTrackTxoData (be_addrs ?be) (Some (shouldTrackStakeAddress (bt_m ?st))) d" for d
    using tk by (simp add: shouldTrackTxoData_def sample_be_def GetAddressFromScript_def)
  obtain pd where pd: "mb_ParseData spending_block = Some pd" "pb_SpentUtxoKeysMap pd = [''k'']" "mget (pb_NewUtxoDataMap pd) ''k'' = None"
    by (simp add: spending_block_def)
  have f: "mget (GlobalNewUtxoDataMap (bt_g ?st)) ''k'' = None" "be_store ?be ''k'' = Some (TxoData_Marshal (txo 50))" "be_ok ?be"
    "map_order (be_order ?be)" "be_signal ?be AfterSerialStart" "bt_staged ?st = []" "be_store ?be = be_store sample_be"
    by (simp_all add: sample_be_def sample_submit_def CleanUtxoMap_def)
  from stopped_block_spend_lost [OF pd f(1-4) st f(5)] f(6,7) show ?thesis by (auto simp: Let_def)
qed

end
