(* ===== verification/SlowProofs.thy ===== *)
theory SlowProofs
  imports SlowRunner LedgerProofs
begin

text \<open>
  Correctness of the runners: the contract of the interface \<^verbatim>\<open>RewardSyncManager\<close> as a locale, interpreted on the manager; the
  runs of the runner as an inductive relation and what every run keeps of Redis; what a retry does to the stakes in memory; and
  the heights the pending runner may process.
\<close>

section \<open>What is staged under which keys\<close>

definition own_key :: "string \<Rightarrow> bool" where
  "own_key k \<longleftrightarrow> take 2 k = ''s:''"

definition staged_ok :: "slowWriteState \<Rightarrow> bool" where
  "staged_ok st \<longleftrightarrow> fst ` set (hset st) \<subseteq> Collect own_key \<and> fst ` set (incrBy st) \<subseteq> Collect own_key"

abbreviation mgr_ok :: "Manager \<Rightarrow> bool" where
  "mgr_ok m \<equiv> staged_ok (slowState m)"

lemmas status_key_defs = GetStakeIndexerStatusKey_def REDIS_STAKE_INDEXER_STATUS_KEY_def
  REDIS_STAKE_INDEXER_RATIO_SNAPSHOT_KEY_def REDIS_STAKE_INDEXER_DELAYED_COMMISSION_KEY_def
  REDIS_STAKE_INDEXER_RATIO_SNAPSHOT_DELAYED_COMMISSION_KEY_def REDIS_STAKE_PENDING_INDEXER_DELAYED_COMMISSION_KEY_def
  REDIS_STAKE_PENDING_INDEXER_RATIO_SNAPSHOT_KEY_def REDIS_STAKE_PENDING_INDEXER_RATIO_SNAPSHOT_DELAYED_COMMISSION_KEY_def

lemma own_keys [simp]:
  "own_key GetStakeIndexerStatusKey"
  "own_key (getIndexerInfoKey m i)" "own_key (getIndexerInfoDelayedCommissionKey m)"
  "own_key (getStakeRewardsTotalKey m a)" "own_key (getIndexerRewardsTotalKey m a)"
  "own_key (GetPendingIndexerRewardsTotalKey a)" "own_key (GetPendingStakeRewardsTotalKey a)"
  "own_key (fst (snapshot_keys m))" "own_key (snd (snapshot_keys m))"
  by (simp_all add: own_key_def status_key_defs key_defs key_prefix_defs getIndexerInfoKey_def getIndexerInfoDelayedCommissionKey_def
      getStakeRewardsTotalKey_def getIndexerRewardsTotalKey_def snapshot_keys_def)

lemma snapshot_keys_own: "snapshot_keys m = (sk, dk) \<Longrightarrow> own_key sk \<and> own_key dk"
  using own_keys(8,9) [of m] by simp

lemma keys_mput [simp]: "fst ` set (mput m k v) = insert k (fst ` set m)"
  by (simp add: mput_def dom_update)

lemma staged_ok_stage [simp]:
  "staged_ok (stageHIncrByFloat k f d st) = staged_ok st" "staged_ok (stageZIncrBy k d u st) = staged_ok st"
  by (simp_all add: staged_ok_def)

lemma staged_ok_put [simp]:
  "staged_ok st \<Longrightarrow> own_key k \<Longrightarrow> staged_ok (stageHSet k vs st)"
  "staged_ok st \<Longrightarrow> own_key k \<Longrightarrow> staged_ok (stageIncrBy k d st)"
  by (simp_all add: staged_ok_def stageIncrBy_def)

lemma m_stage_slow [simp]: "slowState (m_stage f m) = f (slowState m)"
  by (simp add: m_stage_def)

lemma stageCommission_ok:
  "stageCommissionRatioForHeight env h i dk tk tf m = Inr m' \<Longrightarrow> mgr_ok m \<Longrightarrow> own_key tk \<Longrightarrow> mgr_ok m'"
  by (auto simp: stageCommissionRatioForHeight_def split: sum.splits option.splits if_splits)

lemma latestRatio_ok: "getIndexerLatestRatio env h i m = Inr (r, m') \<Longrightarrow> mgr_ok m \<Longrightarrow> mgr_ok m'"
  by (auto simp: getIndexerLatestRatio_def Let_def dest!: stageCommission_ok split: sum.splits option.splits if_splits rres.splits)

lemma snapshotRatio_ok:
  assumes "getIndexerSnapshotRatio env h i m = Inr (r, m')" "mgr_ok m"
  shows "mgr_ok m'"
proof -
  obtain sk dk where k: "snapshot_keys m = (sk, dk)" by (cases "snapshot_keys m")
  then have "own_key sk" using own_keys(8) [of m] by simp
  then show ?thesis using assms k
    by (auto simp: getIndexerSnapshotRatio_def split: sum.splits option.splits rres.splits dest!: stageCommission_ok latestRatio_ok)
qed

lemma ratio_failed_ok: "mgr_ok m \<Longrightarrow> mgr_ok (ratio_failed env h i m)"
proof -
  assume m: "mgr_ok m"
  obtain sk dk where k: "snapshot_keys m = (sk, dk)" by (cases "snapshot_keys m")
  then have "own_key sk" using own_keys(8) [of m] by simp
  then show ?thesis using m k
    by (auto simp: ratio_failed_def split: sum.splits dest: stageCommission_ok)
qed

lemma getStakeAddress_slow: "getStakeAddressByIndexerAndUser i u m = (a, m') \<Longrightarrow> slowState m' = slowState m"
  by (auto simp: getStakeAddressByIndexerAndUser_def Let_def split: if_splits option.splits)

lemma address_step_ok: "address_step c i w ratio pool (m, rows) e = (m', rows') \<Longrightarrow> mgr_ok m \<Longrightarrow> mgr_ok m'"
  by (cases e) (auto simp: address_step_def Let_def dest!: getStakeAddress_slow split: if_splits prod.splits)

lemma address_fold_ok: "mgr_ok (fst acc) \<Longrightarrow> mgr_ok (fst (foldl (address_step c i w ratio pool) acc es))"
proof (induction es arbitrary: acc)
  case (Cons e es)
  have "mgr_ok (fst (address_step c i w ratio pool acc e))"
    using address_step_ok Cons.prems by (metis prod.collapse)
  then show ?case using Cons.IH by simp
qed simp

definition step_mgr :: "(Manager \<times> mgr_error) + (Manager \<times> StakeAllocatedReward list) \<Rightarrow> Manager" where
  "step_mgr r = (case r of Inl x \<Rightarrow> fst x | Inr x \<Rightarrow> fst x)"

lemma step_mgr_simps [simp]: "step_mgr (Inl x) = fst x" "step_mgr (Inr y) = fst y"
  by (simp_all add: step_mgr_def)

lemma indexer_own_ok: "mgr_ok m \<Longrightarrow> mgr_ok (step_mgr (indexer_own env c i w ratio own (m, rows)))"
  by (auto simp: indexer_own_def split: sum.split)

lemma indexer_step_ok: "mgr_ok m \<Longrightarrow> mgr_ok (step_mgr (indexer_step env c (m, rows) (i, w)))"
proof (cases "getIndexerSnapshotRatio env (rc_height c) i m")
  case (Inl e)
  assume "mgr_ok m"
  then show ?thesis using Inl by (simp add: indexer_step_def Let_def ratio_failed_ok)
next
  case (Inr rm)
  assume m: "mgr_ok m"
  obtain ratio m1 where r: "rm = (ratio, m1)" by (cases rm)
  then have m1: "mgr_ok m1" using snapshotRatio_ok Inr m by simp
  let ?first = "quantizeReward (proportional (rc_unlocked c) (iw_effective w) (st_effective (rc_totals c))) (rc_useTruncation c)"
  let ?q = "quantizeReward (f64_mul (f64_of_u64 ?first) ratio) (rc_useTruncation c)"
  let ?own = "if ?q > ?first then ?first else ?q"
  let ?m2 = "m_stage (stageHIncrByFloat (getIndexerInfoKey m1 i) (indexerRewardTotalField m1) (f64_of_u64 ?first)) m1"
  let ?m3 = "m_stage (stageHIncrByFloat (getIndexerInfoKey ?m2 i) (indexerSelfRewardTotalField ?m2) (f64_of_u64 ?own)) ?m2"
  have own: "mgr_ok (step_mgr (indexer_own env c i w ratio ?own (?m3, rows)))" using m1 by (intro indexer_own_ok) simp
  show ?thesis
  proof (cases "indexer_own env c i w ratio ?own (?m3, rows)")
    case (Inl x)
    then show ?thesis using own Inr r by (simp add: indexer_step_def Let_def)
  next
    case (Inr y)
    obtain m4 rows4 where y: "y = (m4, rows4)" by (cases y)
    have "mgr_ok m4" using own Inr y by simp
    then show ?thesis using Inr y r \<open>getIndexerSnapshotRatio env (rc_height c) i m = Inr rm\<close>
      address_fold_ok [of "(m4, rows4)" c i w ratio] by (simp add: indexer_step_def Let_def)
  qed
qed

lemma indexer_loop_ok: "mgr_ok (fst acc) \<Longrightarrow> mgr_ok (step_mgr (indexer_loop env c es acc))"
proof (induction es arbitrary: acc)
  case (Cons e es)
  have s: "mgr_ok (step_mgr (indexer_step env c acc e))"
    using indexer_step_ok Cons.prems by (metis prod.collapse)
  then show ?case using Cons.IH by (cases "indexer_step env c acc e") simp_all
qed simp

lemma subtract_fold_ok: "mgr_ok m \<Longrightarrow> mgr_ok (foldl subtract_step m items)"
proof (induction items arbitrary: m)
  case (Cons item items)
  have "mgr_ok (subtract_step m item)" using Cons.prems by (simp add: subtract_step_def Let_def)
  then show ?case using Cons.IH by simp
qed simp

abbreviation rs_ok :: "rstate \<Rightarrow> bool" where
  "rs_ok s \<equiv> mgr_ok (rs_m s)"

lemma subtractPending_ok: "rs_ok s \<Longrightarrow> rs_ok (fst (subtractPendingRewardByHeight env h s))"
  by (simp add: subtractPendingRewardByHeight_def Let_def subtract_fold_ok)

lemma store_pending_ok: "rs_ok s \<Longrightarrow> rs_ok (fst (store_pending env h rows s))"
  by (simp add: store_pending_def Let_def split: option.split)

lemma store_allocated_ok: "rs_ok s \<Longrightarrow> rs_ok (fst (store_allocated env h u rows s))"
  by (simp add: store_allocated_def Let_def subtractPending_ok split: option.split)

lemma slow_distribute_ok:
  assumes "rs_ok s"
  shows "rs_ok (fst (distribute iord env block totals s))"
proof -
  have l: "mgr_ok (step_mgr (indexer_loop env c es (m_stageHSet GetStakeIndexerStatusKey vs (rs_m s), [])))" for c es vs
    using assms by (intro indexer_loop_ok) simp
  show ?thesis
    unfolding distribute_def Let_def
    using assms by (auto intro!: store_pending_ok store_allocated_ok split: sum.split)
      (use l in \<open>metis fst_conv step_mgr_simps\<close>)+
qed

lemma handleBlockReward_ok: "handleBlockReward g p i env ce block s = Some (s', e) \<Longrightarrow> rs_ok s \<Longrightarrow> rs_ok s'"
  using slow_distribute_ok [of "s\<lparr>rs_proofs := x\<rparr>" for x]
  by (auto simp: handleBlockReward_def Let_def split: if_splits sum.splits option.splits prod.splits) (metis fst_conv)

lemma handleUpdateRatioTx_ok: "handleUpdateRatioTx env h payload a b m = Inr m' \<Longrightarrow> mgr_ok m \<Longrightarrow> mgr_ok m'"
  by (cases "snapshot_keys m") (auto simp: handleUpdateRatioTx_def Let_def stageDelayedCommissionRatio_def
      dest!: snapshot_keys_own stageCommission_ok split: sum.splits option.splits if_splits prod.splits)

lemma applyEvents_ok: "mgr_ok m \<Longrightarrow> mgr_ok (fst (ApplyFIP101EventsForSnapshot env b h events m))"
proof (induction events arbitrary: m)
  case (Cons e events)
  then show ?case
    by (auto simp: handleUpdateRatioTxSnapshot_def dest: handleUpdateRatioTx_ok split: option.split sum.split)
qed simp

lemma cache_bindings_slow [simp]:
  "slowState (cache_bindings bs m) = slowState m" "stakeBindingsLoadedHeight (cache_bindings bs m) = stakeBindingsLoadedHeight m"
  by (induction bs m rule: cache_bindings.induct) (simp_all add: cacheStakeBinding_def Let_def)

lemma load_balances_slow:
  "load_balances env as m = Inr m' \<Longrightarrow> slowState m' = slowState m \<and> stakeBindingsLoadedHeight m' = stakeBindingsLoadedHeight m"
  by (induction env as m rule: load_balances.induct) (auto simp: Let_def split: rres.splits option.splits)

lemma load_until_slow [simp]:
  "slowState (load_until env as m) = slowState m" "stakeBindingsLoadedHeight (load_until env as m) = stakeBindingsLoadedHeight m"
  by (induction env as m rule: load_until.induct) (auto dest: load_balances_slow split: sum.split simp del: load_balances.simps)

lemma load_result_slow: "slowState (fst (load_result ord env h wb m)) = slowState m"
  by (auto simp: load_result_def load_failed_def LoadStakeBindingsToHeight_def Let_def dest!: load_balances_slow split: sum.splits if_splits)

lemma deltas_slow [simp]: "slowState (StageStakeBalanceDeltas ds m) = slowState m"
proof -
  have "slowState (StageStakeBalanceDeltas_loop ds m) = slowState m"
    by (induction ds m rule: StageStakeBalanceDeltas_loop.induct) (auto simp: Let_def split: option.split)
  then show ?thesis by (simp add: StageStakeBalanceDeltas_def)
qed

section \<open>The contract of the interface\<close>

fun harmless :: "rcmd \<Rightarrow> bool" where
  "harmless (IncrBy k _) = own_key k"
| "harmless (HSet k _) = own_key k"
| "harmless _ = True"

locale reward_sync =
  fixes M :: "'e \<Rightarrow> 's RewardSyncManager" and inv :: "'s \<Rightarrow> bool"
  assumes load_inv: "inv s \<Longrightarrow> inv (fst (rsm_LoadStakeBindingsToHeight (M e) h wb s))"
    and stage_inv: "inv s \<Longrightarrow> inv (rsm_StageStakeBalanceDeltas (M e) ds s)"
    and apply_inv: "inv s \<Longrightarrow> inv (fst (rsm_ApplyFIP101EventsForSnapshot (M e) h events s))"
    and submit_inv: "inv s \<Longrightarrow> rsm_SubmitBalanceBlock (M e) b s = Some (s', er) \<Longrightarrow> inv s'"
    and flush_inv: "inv s \<Longrightarrow> rsm_Flush (M e) fin ok s = (cmds, s', r) \<Longrightarrow>
      inv s' \<and> r = ok \<and> (\<exists>pre. cmds = pre @ fin \<and> list_all harmless pre)"

definition snapshot_finalizer :: "u32 \<Rightarrow> (string \<times> int) list \<Rightarrow> rcmd list" where
  "snapshot_finalizer height deltas = balance_cmds GetSnapshotBalanceKey deltas @
     [HSet TASK_INFO_KEYNAME [(TASK_SNAPSHOT_CONSUMER_HEIGHT, HUint (unat height))],
      HSet GetStakeIndexerStatusKey [(''stake_reward_sync_height'', HUint (unat height))]]"

lemma cleanup_deleted: "cleanupZeroSnapshotBalances io ks = (deleted, er) \<Longrightarrow> \<forall>k \<in> set deleted. io_reply io k = Some 0"
  by (auto simp: cleanupZeroSnapshotBalances_def Let_def split: if_splits)

context reward_sync
begin

lemma write_flow_effect:
  assumes "inv s" "runRewardSnapshotWriteFlow (M e) io h ds s = ((cmds, deleted), s', er)"
  shows "inv s' \<and> (cmds = [] \<and> deleted = [] \<or>
    (\<exists>pre. cmds = pre @ snapshot_finalizer h ds \<and> list_all harmless pre) \<and> (\<forall>k \<in> set deleted. io_reply io k = Some 0))"
proof -
  obtain c s1 r where f: "rsm_Flush (M e) (snapshot_finalizer h ds) (io_exec_ok io) s = (c, s1, r)" by (metis prod_cases3)
  note F = flush_inv [OF assms(1) f]
  show ?thesis using assms(2) f F
    by (auto simp: runRewardSnapshotWriteFlow_def snapshot_finalizer_def [symmetric] Let_def split: if_splits prod.splits
        dest!: cleanup_deleted)
qed

lemma consume_effect:
  assumes "inv s" "consumeRewardSnapshotBlock (M e) io h s = Some ((cmds, deleted), s', r)"
  shows "inv s' \<and> (cmds = [] \<and> deleted = [] \<or>
    (\<exists>pre. cmds = pre @ snapshot_finalizer h (ListIndexerAddrDeltasByHeight (io_deltas io) h) \<and> list_all harmless pre) \<and>
    (\<forall>k \<in> set deleted. io_reply io k = Some 0))"
proof -
  let ?ds = "ListIndexerAddrDeltasByHeight (io_deltas io) h"
  obtain s1 e1 where l: "rsm_LoadStakeBindingsToHeight (M e) h True s = (s1, e1)" by fastforce
  then have i1: "inv s1" using load_inv [OF assms(1), of e h True] by simp
  let ?s2 = "rsm_StageStakeBalanceDeltas (M e) (delta_map ?ds) s1"
  have i2: "inv ?s2" using stage_inv [OF i1] .
  obtain s3 e3 where a: "rsm_ApplyFIP101EventsForSnapshot (M e) h (ListFIP101InscriptionEventsByHeight (io_events io) h) ?s2 = (s3, e3)"
    by fastforce
  then have i3: "inv s3" using apply_inv [OF i2, of e h "ListFIP101InscriptionEventsByHeight (io_events io) h"] by simp
  show ?thesis
    using assms l i1 i2 a i3 submit_inv [OF i3]
    by (auto simp: consumeRewardSnapshotBlock_def no_writes_def flow_out_def Let_def
        split: if_splits option.splits prod.splits dest!: write_flow_effect [rotated])
qed

end


section \<open>What the commands do\<close>

lemma own_key_not_snapshot: "own_key k \<Longrightarrow> k \<noteq> GetSnapshotBalanceKey a" "own_key k \<Longrightarrow> k \<noteq> TASK_INFO_KEYNAME"
  by (auto simp: own_key_def GetSnapshotBalanceKey_def BALANCE_SNAPSHOT_PREFIX_def TASK_INFO_KEYNAME_def)

lemma exec_harmless:
  assumes "list_all harmless cmds"
  shows "fst (fold exec_cmd cmds st) (GetSnapshotBalanceKey a) = fst st (GetSnapshotBalanceKey a)"
    and "snd (fold exec_cmd cmds st) = snd st"
proof -
  have "fst (fold exec_cmd cmds st) (GetSnapshotBalanceKey a) = fst st (GetSnapshotBalanceKey a) \<and> snd (fold exec_cmd cmds st) = snd st"
    using assms
  proof (induction cmds arbitrary: st)
    case (Cons c cmds)
    obtain co cu where st: "st = (co, cu)" by (cases st)
    have "fst (exec_cmd c st) (GetSnapshotBalanceKey a) = fst st (GetSnapshotBalanceKey a) \<and> snd (exec_cmd c st) = snd st"
      using Cons.prems own_key_not_snapshot by (cases c) (auto simp: st)
    then show ?case using Cons.IH [of "exec_cmd c st"] Cons.prems by simp
  qed simp
  then show "fst (fold exec_cmd cmds st) (GetSnapshotBalanceKey a) = fst st (GetSnapshotBalanceKey a)"
    and "snd (fold exec_cmd cmds st) = snd st" by simp_all
qed

definition int64_deltas :: "(string \<times> int) list \<Rightarrow> bool" where
  "int64_deltas ds \<longleftrightarrow> (\<forall>(_, d) \<in> set ds. - (2 ^ 63) \<le> d \<and> d < 2 ^ 63)"

lemma sint_int64: "- (2 ^ 63) \<le> d \<Longrightarrow> d < 2 ^ 63 \<Longrightarrow> sint (word_of_int d :: u64) = d"
  by (simp add: signed_of_int signed_take_bit_int_eq_self)

lemma exec_balances:
  assumes "int64_deltas ds"
  shows "fst (fold exec_cmd (balance_cmds GetSnapshotBalanceKey ds) st) (GetSnapshotBalanceKey a) =
      fst st (GetSnapshotBalanceKey a) + delta_sum ds a \<and> snd (fold exec_cmd (balance_cmds GetSnapshotBalanceKey ds) st) = snd st"
  using assms
proof (induction ds arbitrary: st)
  case (Cons e ds)
  obtain x d where e: "e = (x, d)" by (cases e)
  obtain co cu where st: "st = (co, cu)" by (cases st)
  have ds: "int64_deltas ds" and r: "- (2 ^ 63) \<le> d" "d < 2 ^ 63" using Cons.prems by (simp_all add: int64_deltas_def e)
  have inj: "GetSnapshotBalanceKey x = GetSnapshotBalanceKey y \<longleftrightarrow> x = y" for x y by (simp add: GetSnapshotBalanceKey_def)
  show ?case
  proof (cases "d = 0")
    case True
    then show ?thesis using Cons.IH [OF ds] by (simp add: balance_cmds_def e)
  next
    case False
    then have "balance_cmds GetSnapshotBalanceKey (e # ds) = IncrBy (GetSnapshotBalanceKey x) (word_of_int d) # balance_cmds GetSnapshotBalanceKey ds"
      by (simp add: balance_cmds_def e)
    then show ?thesis using Cons.IH [OF ds, of "exec_cmd (IncrBy (GetSnapshotBalanceKey x) (word_of_int d)) st"] sint_int64 [OF r]
      by (simp add: st e inj)
  qed
qed (simp add: balance_cmds_def)

lemma exec_finalizer:
  assumes "int64_deltas ds" "list_all harmless pre"
    and "fold exec_cmd (pre @ snapshot_finalizer h ds) (c, cur) = (c', cur')"
  shows "c' (GetSnapshotBalanceKey a) = c (GetSnapshotBalanceKey a) + delta_sum ds a" "cur' = Some h"
proof -
  let ?st = "fold exec_cmd (balance_cmds GetSnapshotBalanceKey ds) (fold exec_cmd pre (c, cur))"
  obtain c1 cur1 where s: "?st = (c1, cur1)" by (cases ?st)
  have "GetStakeIndexerStatusKey \<noteq> TASK_INFO_KEYNAME" using own_key_not_snapshot(2) own_keys(1) by blast
  then have "(c', cur') = (c1, Some h)"
    using assms(3) s by (simp add: snapshot_finalizer_def mget_def)
  moreover have "c1 (GetSnapshotBalanceKey a) = c (GetSnapshotBalanceKey a) + delta_sum ds a"
    using exec_balances [OF assms(1), of "fold exec_cmd pre (c, cur)" a] exec_harmless(1) [OF assms(2), of "(c, cur)" a] s by simp
  ultimately show "c' (GetSnapshotBalanceKey a) = c (GetSnapshotBalanceKey a) + delta_sum ds a" "cur' = Some h" by simp_all
qed

lemma exec_deleted: "(\<And>k. k \<in> set ks \<Longrightarrow> c k = 0) \<Longrightarrow> fold (\<lambda>k c. c(k := 0)) ks c = (c :: string \<Rightarrow> int)"
  by (induction ks arbitrary: c) (simp_all add: fun_upd_idem)

section \<open>Every run of the runner\<close>

text \<open>An attempt in which Redis answers consistently: the replies to the increments are the values of the counters after them, and
  the stored deltas are 64-bit integers.\<close>

definition attempt_ok :: "StakeRewardConfigInfo \<Rightarrow> 's RewardSyncManager \<Rightarrow> slow_io \<Rightarrow> u32 \<Rightarrow> 's world \<Rightarrow> bool" where
  "attempt_ok cfg mgr io indexed w =
     (case slow_range cfg (w_cursor w) (Some indexed) of
        None \<Rightarrow> True
      | Some (height, _) \<Rightarrow>
          int64_deltas (ListIndexerAddrDeltasByHeight (io_deltas io) height) \<and>
          (case consumeRewardSnapshotBlock mgr io height (w_mgr w) of
             None \<Rightarrow> True
           | Some ((cmds, _), _, _) \<Rightarrow> replies_ok io (fst (fold exec_cmd cmds (w_counter w, w_cursor w)))))"

text \<open>The runs: a fresh manager over an empty Redis; an attempt at the next height in any environment, whatever fails in it; and a
  restart of the program at any moment, which loads the bindings into a fresh manager.\<close>

inductive slow_reach :: "StakeRewardConfigInfo \<Rightarrow> ('e \<Rightarrow> 's RewardSyncManager) \<Rightarrow> ('s \<Rightarrow> bool) \<Rightarrow> 's world \<Rightarrow> bool"
  for cfg :: StakeRewardConfigInfo and M :: "'e \<Rightarrow> 's RewardSyncManager" and fresh :: "'s \<Rightarrow> bool" where
  start: "fresh s \<Longrightarrow> slow_reach cfg M fresh \<lparr>w_mgr = s, w_counter = (\<lambda>_. 0), w_cursor = None, w_log = []\<rparr>"
| attempt: "slow_reach cfg M fresh w \<Longrightarrow> slow_step cfg (M e) io indexed w = Some w' \<Longrightarrow> indexed < 2 ^ 32 - 1 \<Longrightarrow>
    attempt_ok cfg (M e) io indexed w \<Longrightarrow> slow_reach cfg M fresh w'"
| restart: "slow_reach cfg M fresh w \<Longrightarrow> fresh s \<Longrightarrow>
    slow_reach cfg M fresh (w\<lparr>w_mgr := fst (rsm_LoadStakeBindingsToHeight (M e) height True s)\<rparr>)"

definition log_ok :: "StakeRewardConfigInfo \<Rightarrow> 's world \<Rightarrow> bool" where
  "log_ok cfg w \<longleftrightarrow>
     (\<forall>a. w_counter w (GetSnapshotBalanceKey a) = (\<Sum>(_, ds) \<leftarrow> w_log w. delta_sum ds a)) \<and>
     map (\<lambda>(h, _). unat h) (w_log w) = [unat (IndexStartHeight cfg) ..< unat (IndexStartHeight cfg) + length (w_log w)] \<and>
     w_cursor w = (if w_log w = [] then None else Some (fst (last (w_log w))))"

lemma slow_range_SomeD:
  assumes "slow_range cfg cursor (Some indexed) = Some (h, e)"
  shows "h = next_height cfg cursor" "unat h + unat (SlowLagBlocks cfg) \<le> unat indexed" "unat e + unat (SlowLagBlocks cfg) \<le> unat indexed"
proof -
  have lag: "SlowLagBlocks cfg < indexed" and h: "h = next_height cfg cursor" and t: "\<not> indexed - SlowLagBlocks cfg < h"
    and e: "\<not> indexed - SlowLagBlocks cfg < e"
    using assms by (auto simp: slow_range_def Let_def split: if_splits)
  have sub: "unat (indexed - SlowLagBlocks cfg) = unat indexed - unat (SlowLagBlocks cfg)"
    using lag by (simp add: unat_sub word_less_nat_alt word_le_nat_alt)
  then have "\<not> unat indexed - unat (SlowLagBlocks cfg) < unat h" "\<not> unat indexed - unat (SlowLagBlocks cfg) < unat e"
    using t e by (simp_all add: word_less_nat_alt)
  moreover have "unat (SlowLagBlocks cfg) < unat indexed" using lag by (simp add: word_less_nat_alt)
  ultimately show "h = next_height cfg cursor" "unat h + unat (SlowLagBlocks cfg) \<le> unat indexed" "unat e + unat (SlowLagBlocks cfg) \<le> unat indexed"
    using h by simp_all
qed

text \<open>The next height continues the log.\<close>

lemma next_height_log:
  assumes "log_ok cfg w" "\<forall>h ds. (h, ds) \<in> set (w_log w) \<longrightarrow> h < 2 ^ 32 - 1"
  shows "unat (next_height cfg (w_cursor w)) = unat (IndexStartHeight cfg) + length (w_log w)"
proof (cases "w_log w" rule: rev_cases)
  case Nil
  then show ?thesis using assms(1) by (simp add: log_ok_def next_height_def word_less_nat_alt)
next
  case (snoc xs x)
  obtain h ds where x: "x = (h, ds)" by (cases x)
  have "map (\<lambda>(h, _). unat h) (w_log w) ! length xs = unat h" by (simp add: snoc x nth_append)
  moreover have "map (\<lambda>(h, _). unat h) (w_log w) ! length xs = unat (IndexStartHeight cfg) + length xs"
    using assms(1) by (simp add: log_ok_def snoc nth_append del: map_append)
  ultimately have h: "unat h = unat (IndexStartHeight cfg) + length xs" by simp
  have "h < 2 ^ 32 - 1" using assms(2) snoc x by auto
  from u32_suc [OF this] have s: "unat (h + 1) = Suc (unat h)" .
  have "w_cursor w = Some h" using assms(1) by (simp add: log_ok_def snoc x)
  moreover have "\<not> h + 1 < IndexStartHeight cfg" using h s by (simp add: word_less_nat_alt)
  ultimately show ?thesis using h s by (simp add: next_height_def snoc)
qed

context reward_sync
begin

lemma reach_invariant:
  assumes "slow_reach cfg M fresh w" "\<And>s. fresh s \<Longrightarrow> inv s"
  shows "inv (w_mgr w) \<and> log_ok cfg w \<and> (\<forall>h ds. (h, ds) \<in> set (w_log w) \<longrightarrow> h < 2 ^ 32 - 1)"
  using assms(1)
proof (induction rule: slow_reach.induct)
  case (start s)
  then show ?case using assms(2) by (simp add: log_ok_def)
next
  case (restart w s e height)
  then show ?case using load_inv [OF assms(2)] by (simp add: log_ok_def)
next
  case (attempt w e io indexed w')
  show ?case
  proof (cases "slow_range cfg (w_cursor w) (Some indexed)")
    case None
    then show ?thesis using attempt by (simp add: slow_step_def)
  next
    case (Some he)
    obtain h en where he: "he = (h, en)" by (cases he)
    note R = slow_range_SomeD [OF Some [unfolded he]]
    show ?thesis
    proof (cases "en < h")
      case True
      then show ?thesis using attempt Some he by (simp add: slow_step_def)
    next
      case False
      then obtain cmds deleted s r where c: "consumeRewardSnapshotBlock (M e) io h (w_mgr w) = Some ((cmds, deleted), s, r)"
        using attempt.hyps(2) Some he by (auto simp: slow_step_def split: option.splits)
      obtain c' cur' where x: "fold exec_cmd cmds (w_counter w, w_cursor w) = (c', cur')" by fastforce
      let ?ds = "ListIndexerAddrDeltasByHeight (io_deltas io) h"
      have w': "w' = \<lparr>w_mgr = s, w_counter = fold (\<lambda>k c. c(k := 0)) deleted c', w_cursor = cur',
          w_log = (if cmds = [] then w_log w else w_log w @ [(h, ?ds)])\<rparr>"
        using attempt.hyps(2) Some he False c x by (simp add: slow_step_def)
      have i: "inv (w_mgr w)" and L: "log_ok cfg w" "\<forall>h ds. (h, ds) \<in> set (w_log w) \<longrightarrow> h < 2 ^ 32 - 1" using attempt.IH by auto
      have ok: "int64_deltas ?ds" "replies_ok io c'" using attempt.hyps(4) Some he c x by (simp_all add: attempt_ok_def)
      note E = consume_effect [OF i c]
      show ?thesis
      proof (cases "cmds = []")
        case True
        then have "deleted = []" using E by (auto simp: snapshot_finalizer_def)
        then show ?thesis using True L E x w' by (auto simp: log_ok_def)
      next
        case ne: False
        then obtain pre where pre: "cmds = pre @ snapshot_finalizer h ?ds" "list_all harmless pre"
          and del: "\<forall>k \<in> set deleted. io_reply io k = Some 0" using E by blast
        note F = exec_finalizer [OF ok(1) pre(2) x [unfolded pre(1)]]
        have c'': "fold (\<lambda>k c. c(k := 0)) deleted c' = c'"
          using del ok(2) by (intro exec_deleted) (auto simp: replies_ok_def)
        have "unat h = unat (IndexStartHeight cfg) + length (w_log w)" using next_height_log [OF L] R(1) by simp
        moreover have "h < 2 ^ 32 - 1" using R(2) attempt.hyps(3) by (simp add: word_less_nat_alt)
        ultimately show ?thesis using L E F ne w' c'' by (auto simp: log_ok_def)
      qed
    qed
  qed
qed

end

lemma pipeline_harmless: "staged_ok st \<Longrightarrow> list_all harmless (pipeline st)"
  by (auto simp: staged_ok_def pipeline_def list_all_iff)

interpretation slow: reward_sync manager_rsm rs_ok
proof
  fix s :: rstate and e :: "orders \<times> env \<times> chain_env \<times> btc"
  obtain ord env ce b where e: "e = (ord, env, ce, b)" by (metis prod_cases4)
  assume s: "rs_ok s"
  show "rs_ok (fst (rsm_LoadStakeBindingsToHeight (manager_rsm e) h wb s))" for h wb
    using s load_result_slow [of "o_load ord" env h wb "rs_m s"]
    by (cases "load_result (o_load ord) env h wb (rs_m s)") (simp add: manager_rsm_def e)
  show "rs_ok (rsm_StageStakeBalanceDeltas (manager_rsm e) ds s)" for ds
    using s by (simp add: manager_rsm_def e)
  show "rs_ok (fst (rsm_ApplyFIP101EventsForSnapshot (manager_rsm e) h events s))" for h events
    using applyEvents_ok [OF s, of env b h events]
    by (cases "ApplyFIP101EventsForSnapshot env b h events (rs_m s)") (simp add: manager_rsm_def e)
  show "rsm_SubmitBalanceBlock (manager_rsm e) bl s = Some (s', er) \<Longrightarrow> rs_ok s'" for bl s' er
    using s by (auto simp: manager_rsm_def e SubmitBalanceBlock_def intro: handleBlockReward_ok)
  show "rsm_Flush (manager_rsm e) fin ok s = (cmds, s', r) \<Longrightarrow>
      rs_ok s' \<and> r = ok \<and> (\<exists>pre. cmds = pre @ fin \<and> list_all harmless pre)" for fin ok cmds s' r
    using pipeline_harmless [OF s]
    by (auto simp: manager_rsm_def e FlushBalanceChangesWithFinalizer_def flushBalanceChanges_def Let_def staged_ok_def newSlowWriteState_def
        split: if_splits)
qed


section \<open>A block without rewards\<close>

text \<open>The attempt at a committed block that pays no reward and carries no event.\<close>

lemma quiet_consume:
  assumes "\<forall>q. io_db_ok io q" "GetSyncBlock (io_sync io) h = Some sb" "syb_State sb = ''committed''"
    and "\<not> isRewardBlockVersion (syb_Version sb)" "io_events io = []"
    and "load_result (o_load ord) env h True (rs_m s) = (m1, None)"
  shows "consumeRewardSnapshotBlock (manager_rsm (ord, env, ce, b)) io h s =
    (let ds = ListIndexerAddrDeltasByHeight (io_deltas io) h; m2 = StageStakeBalanceDeltas (delta_map ds) m1 in
     if io_exec_ok io
     then (case cleanupZeroSnapshotBalances io (incr_keys GetSnapshotBalanceKey ds) of (deleted, e) \<Rightarrow>
       Some ((pipeline (slowState m2) @ snapshot_finalizer h ds, deleted), s\<lparr>rs_m := m2\<lparr>slowState := newSlowWriteState\<rparr>\<rparr>,
         case e of None \<Rightarrow> Consumed | Some e \<Rightarrow> Failed e))
     else Some (no_writes, s\<lparr>rs_m := m2\<lparr>slowState := newSlowWriteState\<rparr>\<rparr>, Failed RedisError))"
  using assms
  by (auto simp: consumeRewardSnapshotBlock_def manager_rsm_def ListFIP101InscriptionEventsByHeight_def SubmitBalanceBlock_def
      handleBlockReward_def snapshot_of_sync_def runRewardSnapshotWriteFlow_def FlushBalanceChangesWithFinalizer_def
      flushBalanceChanges_def flow_out_def no_writes_def snapshot_finalizer_def Let_def split: prod.split)

definition quiet_env :: env where
  "quiet_env = \<lparr>db_ok = (\<lambda>_. True), db_registers = [], db_bindings = [], rd_HGet = (\<lambda>_ _. RNil), rd_Get = (\<lambda>_. RNil)\<rparr>"

definition quiet_chain :: chain_env where
  "quiet_chain = \<lparr>ce_SyncBlocks = [], ce_BlockHashRPC = (\<lambda>_. None), ce_http = undefined, ce_client = None\<rparr>"

definition quiet_orders :: orders where
  "quiet_orders = \<lparr>o_load = id, o_groups = id, o_percents = id, o_weights = id\<rparr>"

definition plain_block :: "u32 \<Rightarrow> SyncBlock" where
  "plain_block h = \<lparr>syb_Height = h, syb_BlockHash = ''aa'', syb_ParentHash = '''', syb_Version = 0, syb_CoinbaseReward = 0,
     syb_State = ''committed'', syb_IsRewardBlockVersion = False\<rparr>"

definition quiet_io :: "u32 \<Rightarrow> (string \<times> int) list \<Rightarrow> bool \<Rightarrow> slow_io" where
  "quiet_io h ds exec_ok = \<lparr>io_db_ok = (\<lambda>_. True), io_sync = [plain_block h], io_deltas = map (\<lambda>(a, d). (h, a, d)) ds, io_events = [],
     io_exec_ok = exec_ok, io_reply = (\<lambda>_. None), io_del_ok = True\<rparr>"

definition fresh_rstate :: "Manager \<Rightarrow> rstate" where
  "fresh_rstate m = \<lparr>rs_m = m, rs_proofs = [], rs_allocated = [], rs_pending = []\<rparr>"

lemma plain_not_reward: "\<not> isRewardBlockVersion (syb_Version (plain_block h))"
  unfolding plain_block_def by code_simp

lemma quiet_load: "stakeBindingsLoadedHeight m < h \<Longrightarrow> load_result ord quiet_env h True m = (m\<lparr>stakeBindingsLoadedHeight := h\<rparr>, None)"
  if "ord [] = []"
  using that by (auto simp: load_result_def LoadStakeBindingsToHeight_def ListStakeBindingsRange_def quiet_env_def Let_def)


text \<open>A failed write is not harmless for the stakes in memory: when the pipeline of a block fails and the block is retried, the deltas of
  the block are applied to the manager's stakes twice, although Redis gets them once. The bindings are already loaded at the
  height, so that the retry does not read the balances again.\<close>

theorem failed_write_doubles_stake:
  assumes "\<forall>q. io_db_ok io q" "GetSyncBlock (io_sync io) h = Some sb" "syb_State sb = ''committed''"
    and "\<not> isRewardBlockVersion (syb_Version sb)" "io_events io = []"
    and "load_result (o_load ord) env h True (rs_m s) = (m, None)" "stakeBindingsLoadedHeight m = h"
    and "binding_inj (stakeAddrToIndexer m)" "mget (stakeAddrToIndexer m) a = Some info" "a \<noteq> ''''"
    and "mget0 0 (delta_map (ListIndexerAddrDeltasByHeight (io_deltas io) h)) a = d" "0 < d"
      "uint (stake_of m (sa_IndexerID info) (sa_Address info)) + 2 * d < 2 ^ 63"
  shows "\<exists>s1 s2 w r. consumeRewardSnapshotBlock (manager_rsm (ord, env, ce, b)) (io\<lparr>io_exec_ok := False\<rparr>) h s = Some (no_writes, s1, Failed RedisError) \<and>
    consumeRewardSnapshotBlock (manager_rsm (ord', env', ce', b')) (io\<lparr>io_exec_ok := True\<rparr>) h s1 = Some (w, s2, r) \<and>
    uint (stake_of (rs_m s2) (sa_IndexerID info) (sa_Address info)) = uint (stake_of m (sa_IndexerID info) (sa_Address info)) + 2 * d"
proof -
  let ?ds = "delta_map (ListIndexerAddrDeltasByHeight (io_deltas io) h)"
  let ?stage = "\<lambda>m. (StageStakeBalanceDeltas ?ds m)\<lparr>slowState := newSlowWriteState\<rparr>"
  have keep: "stakeAddrToIndexer (?stage m) = stakeAddrToIndexer m" "stakeBindingsLoadedHeight (?stage m) = stakeBindingsLoadedHeight m" for m
  proof -
    have "stakeBindingsLoadedHeight (StageStakeBalanceDeltas_loop ds m) = stakeBindingsLoadedHeight m" for ds
      by (induction ds m rule: StageStakeBalanceDeltas_loop.induct) (auto simp: Let_def split: option.split)
    then show "stakeAddrToIndexer (?stage m) = stakeAddrToIndexer m" "stakeBindingsLoadedHeight (?stage m) = stakeBindingsLoadedHeight m"
      by (simp_all add: StageStakeBalanceDeltas_def)
  qed
  have wf: "mwf ?ds"
  proof -
    have "mwf m0 \<Longrightarrow> mwf (foldl (\<lambda>m (a, d). mput m a d) m0 xs)" for m0 :: "(string, int) gomap" and xs
      by (induction xs arbitrary: m0) (auto simp: split_beta)
    then show ?thesis by (simp add: delta_map_def)
  qed
  have same: "stake_of (m\<lparr>slowState := st\<rparr>) i u = stake_of m i u" for m st i u by (simp add: stake_of_def)
  let ?st = "\<lambda>m. uint (stake_of m (sa_IndexerID info) (sa_Address info))"
  have nn: "0 \<le> ?st m" by simp
  have stake: "?st (?stage m') = ?st m' + d" if "stakeAddrToIndexer m' = stakeAddrToIndexer m" "0 \<le> ?st m'" "?st m' + d < 2 ^ 63" for m'
  proof -
    have b: "binding_inj (stakeAddrToIndexer m')" "mget (stakeAddrToIndexer m') a = Some info" using that(1) assms(8,9) by simp_all
    have r: "- (2 ^ 63) \<le> d" "?st m' + d < 2 ^ 64" using that(3) assms(12) by simp_all
    have "d < 2 ^ 63" using that(2,3) by linarith
    from stage_deltas_stake [OF wf b assms(10,11) r(1) this r(2)] show ?thesis using assms(12) that(2) by (simp add: same)
  qed
  let ?m1 = "?stage m" let ?m2 = "?stage ?m1"
  have l2: "load_result (o_load ord') env' h True ?m1 = (?m1, None)"
    using assms(7) keep by (simp add: load_result_def LoadStakeBindingsToHeight_def)
  let ?io1 = "io\<lparr>io_exec_ok := False\<rparr>" and ?io2 = "io\<lparr>io_exec_ok := True\<rparr>"
  have io: "\<forall>q. io_db_ok ?io1 q" "GetSyncBlock (io_sync ?io1) h = Some sb" "io_events ?io1 = []"
    "\<forall>q. io_db_ok ?io2 q" "GetSyncBlock (io_sync ?io2) h = Some sb" "io_events ?io2 = []" using assms(1,2,5) by simp_all
  have c1: "consumeRewardSnapshotBlock (manager_rsm (ord, env, ce, b)) ?io1 h s = Some (no_writes, s\<lparr>rs_m := ?m1\<rparr>, Failed RedisError)"
    using quiet_consume [OF io(1,2) assms(3,4) io(3) assms(6), of ce b] by (simp add: Let_def)
  have l2': "load_result (o_load ord') env' h True (rs_m (s\<lparr>rs_m := ?m1\<rparr>)) = (?m1, None)" using l2 by simp
  obtain w r where c2: "consumeRewardSnapshotBlock (manager_rsm (ord', env', ce', b')) ?io2 h (s\<lparr>rs_m := ?m1\<rparr>) = Some (w, s\<lparr>rs_m := ?m2\<rparr>, r)"
    using quiet_consume [OF io(4,5) assms(3,4) io(6) l2', of ce' b']
    by (cases "cleanupZeroSnapshotBalances ?io2 (incr_keys GetSnapshotBalanceKey (ListIndexerAddrDeltasByHeight (io_deltas io) h))") (auto simp: Let_def)
  have "?st ?m1 = ?st m + d" using assms(12,13) by (intro stake) simp_all
  moreover have "?st ?m2 = ?st ?m1 + d" using keep calculation assms(12,13) by (intro stake) simp_all
  ultimately show ?thesis using c1 c2 by (intro exI conjI) (assumption, assumption, simp)
qed


theorem failed_write_doubles_stake_witness:
  "\<exists>s1 s2 w r. consumeRewardSnapshotBlock (manager_rsm (quiet_orders, quiet_env, quiet_chain, undefined)) (quiet_io 5 [(''s1'', 7)] False) 5
      (fresh_rstate (sample_manager\<lparr>stakeBindingsLoadedHeight := 5\<rparr>)) = Some (no_writes, s1, Failed RedisError) \<and>
    consumeRewardSnapshotBlock (manager_rsm (quiet_orders, quiet_env, quiet_chain, undefined)) (quiet_io 5 [(''s1'', 7)] True) 5 s1 = Some (w, s2, r) \<and>
    uint (stake_of (rs_m s2) ''1:2'' ''u1'') = 514"
proof -
  let ?m = "sample_manager\<lparr>stakeBindingsLoadedHeight := 5\<rparr>"
  let ?io = "quiet_io 5 [(''s1'', 7)] True"
  let ?i = "\<lparr>sa_Address = ''u1'', sa_IndexerID = ''1:2''\<rparr>"
  have io: "\<forall>q. io_db_ok ?io q" "GetSyncBlock (io_sync ?io) 5 = Some (plain_block 5)" "syb_State (plain_block 5) = ''committed''" "io_events ?io = []"
    "?io\<lparr>io_exec_ok := False\<rparr> = quiet_io 5 [(''s1'', 7)] False" "?io\<lparr>io_exec_ok := True\<rparr> = ?io"
    by (simp_all add: quiet_io_def GetSyncBlock_def plain_block_def)
  have l: "load_result (o_load quiet_orders) quiet_env 5 True (rs_m (fresh_rstate ?m)) = (?m, None)" "stakeBindingsLoadedHeight ?m = 5"
    by (simp_all add: load_result_def LoadStakeBindingsToHeight_def fresh_rstate_def)
  have b: "binding_inj (stakeAddrToIndexer ?m)" "mget (stakeAddrToIndexer ?m) ''s1'' = Some ?i" "''s1'' \<noteq> ''''"
    "uint (stake_of ?m (sa_IndexerID ?i) (sa_Address ?i)) = 500"
    by (simp_all add: binding_inj_def sample_manager_def mget_def stake_of_def mget0_def)
  have d: "mget0 0 (delta_map (ListIndexerAddrDeltasByHeight (io_deltas ?io) 5)) ''s1'' = 7" "0 < (7 :: int)"
    "uint (stake_of ?m (sa_IndexerID ?i) (sa_Address ?i)) + 2 * 7 < 2 ^ 63"
    using b(4) by (simp_all add: quiet_io_def ListIndexerAddrDeltasByHeight_def delta_map_def)
  from failed_write_doubles_stake [OF io(1-3) plain_not_reward io(4) l b(1-3) d, of quiet_chain undefined quiet_orders quiet_env quiet_chain undefined]
  show ?thesis using b(4) by (simp add: io(5,6))
qed

text \<open>A load whose balances could not be read is not repeated: the height is recorded first, and the next load of the same height
  returns at once with the manager the failed one left behind.\<close>

theorem failed_load_not_repeated:
  assumes "LoadStakeBindingsToHeight ord env h True m = Inl RedisError"
  shows "LoadStakeBindingsToHeight ord' env' h True (load_failed ord env h m) = Inr (load_failed ord env h m)"
proof -
  have "stakeBindingsLoadedHeight (load_failed ord env h m) = h"
    using assms by (auto simp: LoadStakeBindingsToHeight_def load_failed_def ListStakeBindingsRange_def Let_def split: if_splits)
  then show ?thesis by (simp add: LoadStakeBindingsToHeight_def)
qed

section \<open>Which heights are consumed\<close>

lemma canProcess_total: "cfg_wf cfg \<Longrightarrow> \<exists>b. canProcessPendingRewardHeight cfg h indexed = Some b"
  using RewardProofWindowByHeight_total [of cfg h] by (auto simp: canProcessPendingRewardHeight_def)

text \<open>C20. The range of the pending runner: for an accepted configuration the loop that extends it ends, at a height from which every
  height back to the first one has its proof window behind the indexed height, and it stops only at the batch limit or before
  a height whose window is still open.\<close>

theorem pending_end_spec:
  assumes "cfg_wf cfg" "canProcessPendingRewardHeight cfg n indexed = Some True"
  shows "\<exists>e. pending_end cfg indexed limit n = Some e \<and> n \<le> e \<and>
    (\<forall>h. n \<le> h \<and> h \<le> e \<longrightarrow> canProcessPendingRewardHeight cfg h indexed = Some True) \<and>
    (e < limit \<longrightarrow> canProcessPendingRewardHeight cfg (e + 1) indexed = Some False)"
  using assms
proof (induction cfg indexed limit n rule: pending_end.induct)
  case (1 cfg indexed limit n)
  obtain b where b: "canProcessPendingRewardHeight cfg (n + 1) indexed = Some b" using canProcess_total [OF "1.prems"(1)] by blast
  show ?case
  proof (cases "n < limit \<and> b")
    case True
    then have n: "unat (n + 1) = Suc (unat n)" using u32_suc by blast
    from "1.IH" [of b] True b "1.prems"(1)
    obtain e where e: "pending_end cfg indexed limit (n + 1) = Some e" "n + 1 \<le> e"
      "\<forall>h. n + 1 \<le> h \<and> h \<le> e \<longrightarrow> canProcessPendingRewardHeight cfg h indexed = Some True"
      "e < limit \<longrightarrow> canProcessPendingRewardHeight cfg (e + 1) indexed = Some False" by auto
    have "h = n \<or> n + 1 \<le> h" if "n \<le> h" for h
      using that n by (auto simp: word_le_nat_alt word_eq_unat_iff)
    moreover have "n \<le> e" using e(2) n by (simp add: word_le_nat_alt)
    moreover have "pending_end cfg indexed limit n = Some e" using True b e(1) by simp
    ultimately show ?thesis using e(3,4) "1.prems"(2) by blast
  next
    case False
    then have "pending_end cfg indexed limit n = Some n" using b by auto
    moreover have "n < limit \<longrightarrow> canProcessPendingRewardHeight cfg (n + 1) indexed = Some False" using False b by auto
    ultimately show ?thesis using "1.prems"(2) by (intro exI [of _ n]) (auto dest: order.antisym)
  qed
qed

theorem pending_end_spec_witness:
  "canProcessPendingRewardHeight DefaultConfig 5 30000 = Some True \<and> (\<exists>e. pending_end DefaultConfig 30000 100 5 = Some e \<and> 5 \<le> e)"
proof -
  have "canProcessPendingRewardHeight DefaultConfig 5 30000 = Some True"
    by (simp add: canProcessPendingRewardHeight_def RewardProofWindowByHeight_def DefaultConfig_def)
  with pending_end_spec [OF DefaultConfig_wf this, of 100] show ?thesis by blast
qed

text \<open>C21. Pending rewards are final with respect to proofs: when the pending runner may process a height, a proof of a block above the
  indexed height never changes which proofs the height is resolved with.\<close>

theorem pending_proofs_final:
  assumes "canProcessPendingRewardHeight cfg h indexed = Some True" "RewardProofWindowByHeight cfg h = Some window"
    and "\<forall>p \<in> set later. sp_Height p > indexed"
  shows "ListStakeProofByProveHeight (table @ later) h window = ListStakeProofByProveHeight table h window"
proof -
  have "h < indexed" "window \<le> indexed - h" using assms(1,2) by (auto simp: canProcessPendingRewardHeight_def split: if_splits)
  then have w: "unat h + unat window \<le> unat indexed"
    by (simp add: word_less_nat_alt word_le_nat_alt unat_sub)
  then have "unat h + unat window < 4294967296" using unat_u32_less [of indexed] by linarith
  then have "unat (h + window) = unat h + unat window" by (simp add: unat_word_ariths)
  then have "\<not> sp_Height p \<le> h + window" if "p \<in> set later" for p
    using assms(3) that w by (fastforce simp: word_less_nat_alt word_le_nat_alt)
  then have "filter (\<lambda>p. sp_ProveBlockHeight p = h \<and> sp_Height p > h \<and> sp_Height p \<le> h + window) later = []"
    by (auto simp: filter_empty_conv)
  then show ?thesis by (simp add: ListStakeProofByProveHeight_def)
qed

theorem pending_proofs_final_witness:
  "ListStakeProofByProveHeight ([] @ [(sample_proof ''t'' 0)\<lparr>sp_Height := 30001, sp_ProveBlockHeight := 5\<rparr>]) 5 20160 =
    ListStakeProofByProveHeight [] 5 20160"
  by (rule pending_proofs_final [where cfg = DefaultConfig and indexed = 30000])
    (simp_all add: canProcessPendingRewardHeight_def RewardProofWindowByHeight_def DefaultConfig_def)

end
