(* ===== verification/RewardBounds.thy ===== *)
theory RewardBounds
  imports Reward
begin

text \<open>
  What the distribution of \<^verbatim>\<open>Reward\<close> guarantees: bounds on the float arithmetic with which a reward is unlocked and
  shared out, the totals of the weights, what the loops over indexers and stakers append, what the tables hold for a
  height afterwards, and that a block whose reads succeed is handled.
\<close>

declare of_nat_unat [simp del]

section \<open>The unlocked reward\<close>

lemma quantize_trunc_le_of:
  assumes "0 \<le> x" "x \<le> of_nat n * (1 + 3 / 2 ^ 53)" "n < 2 ^ 49"
  shows "unat (quantizeReward x True) \<le> n"
proof -
  have n: "(of_nat n :: rat) \<le> 2 ^ 49"
    using less_imp_le [OF assms(3)] by (metis of_nat_le_iff of_nat_numeral of_nat_power)
  have "x \<le> 2 ^ 49 * (1 + 3 / 2 ^ 53)"
    using assms(2) mult_right_mono [OF n, of "1 + 3 / 2 ^ 53"] by simp
  then have x: "x < 2 ^ 60" by simp
  have "of_nat (unat (quantizeReward x True)) \<le> x * (1 + 1 / 2 ^ 53) + 2 / 10 ^ 9"
    by (rule quantize_trunc_ub [OF assms(1) x])
  also have "x * (1 + 1 / 2 ^ 53) \<le> of_nat n * (1 + 3 / 2 ^ 53) * (1 + 1 / 2 ^ 53)"
    by (rule mult_right_mono [OF assms(2)]) simp
  also have "\<dots> \<le> of_nat n * (1 + 5 / 2 ^ 53)" unfolding mult.assoc by (intro mult_left_mono) simp_all
  also have "of_nat n * (1 + 5 / 2 ^ 53) + 2 / 10 ^ 9 < (of_nat (n + 1) :: rat)"
    using n by (simp add: distrib_left)
  finally have "unat (quantizeReward x True) < n + 1" by (simp only: of_nat_less_iff)
  then show ?thesis by simp
qed

lemma f64_of_u64_normal: "f64_of_u64 n = 0 \<or> 1 / 2 ^ 100 \<le> f64_of_u64 n"
proof -
  have "1 / 2 ^ 100 \<le> (1 / 2 :: rat)" by simp
  with zero_or_half [of n] show ?thesis by linarith
qed

text \<open>The unlocked part of the block reward.\<close>

lemma unlocked_le:
  assumes "0 \<le> p" "p \<le> 100" "p = 0 \<or> 1 / 2 ^ 60 \<le> p" "unat r < 2 ^ 49"
  shows "unat (quantizeReward (f64_div (f64_mul (f64_of_u64 r) p) 100) True) \<le> unat r"
proof (rule quantize_trunc_le_of)
  define R where "R = (of_nat (unat r) :: rat)"
  let ?a = "f64_of_u64 r" let ?d = "1 + 1 / 2 ^ 53 :: rat"
  have a: "?a = R" unfolding R_def by (rule f64_of_u64_exact) (use assms(4) in simp)
  have R: "0 \<le> R" by (simp add: R_def)
  have m0: "R * p = 0 \<or> 1 / 2 ^ 60 \<le> R * p"
  proof (cases "R = 0 \<or> p = 0")
    case False
    then have "1 \<le> R" unfolding R_def using of_nat_mono [of 1 "unat r", where 'a = rat] by (cases "unat r") auto
    then have "1 * (1 / 2 ^ 60) \<le> R * p" using False assms(3) by (intro mult_mono) auto
    then show ?thesis by simp
  qed auto
  have "1 / 2 ^ 200 \<le> (1 / 2 ^ 60 :: rat)" by simp
  with m0 have m1: "R * p = 0 \<or> 1 / 2 ^ 200 \<le> R * p" by linarith
  let ?m = "f64_mul ?a p"
  have ub: "?m \<le> R * p * ?d" unfolding f64_mul_def a by (rule f64_round_ub_normal [OF m1])
  have lb: "R * p * (1 - 1 / 2 ^ 53) \<le> ?m" unfolding f64_mul_def a by (rule f64_round_lb_normal [OF m1])
  have nn: "0 \<le> ?m" using lb R assms(1) by (simp add: f64_mul_def a f64_round_nonneg)
  have d0: "?m / 100 = 0 \<or> 1 / 2 ^ 200 \<le> ?m / 100"
  proof (cases "R * p = 0")
    case True
    then have "?m = 0" by (simp only: f64_mul_def a f64_round_0)
    then show ?thesis by simp
  next
    case False
    then have "1 / 2 ^ 60 * (1 - 1 / 2 ^ 53) \<le> R * p * (1 - 1 / 2 ^ 53)" using m0 by (intro mult_right_mono) auto
    with lb have "1 / 2 ^ 61 \<le> ?m" by simp
    then show ?thesis by simp
  qed
  have "f64_div ?m 100 \<le> ?m / 100 * ?d" unfolding f64_div_def by (rule f64_round_ub_normal [OF d0])
  also have "\<dots> \<le> (R * p * ?d) / 100 * ?d" using ub by (intro mult_right_mono divide_right_mono) auto
  also have "\<dots> \<le> (R * 100 * ?d) / 100 * ?d"
    using R assms(2) by (intro mult_right_mono divide_right_mono mult_left_mono) auto
  also have "\<dots> \<le> R * (1 + 3 / 2 ^ 53)" using R by simp
  finally show "f64_div ?m 100 \<le> of_nat (unat r) * (1 + 3 / 2 ^ 53)" by (simp only: R_def)
  show "0 \<le> f64_div ?m 100" unfolding f64_div_def by (rule f64_round_nonneg) (simp add: nn)
qed (use assms in simp)

section \<open>Stakes and weights\<close>

definition stake_sum :: "(string, u64) gomap \<Rightarrow> nat" where
  "stake_sum amounts = (\<Sum>(_, n) \<leftarrow> amounts. unat n)"

text \<open>The stakes fit the coin: every single stake is an exact float, the total times 100 fits 64 bits, and there are at
  most \<open>10\<^sup>8\<close> indexers and stakers per indexer.\<close>

definition supply_ok :: "Manager \<Rightarrow> bool" where
  "supply_ok m \<longleftrightarrow> mwf (indexerToAddrStakeAmount m) \<and> length (indexerToAddrStakeAmount m) \<le> 10 ^ 8 \<and>
     (\<forall>(_, amounts) \<in> set (indexerToAddrStakeAmount m).
        length amounts \<le> 10 ^ 8 \<and> (\<forall>(_, n) \<in> set amounts. unat n < 2 ^ 53)) \<and>
     100 * (\<Sum>(_, amounts) \<leftarrow> indexerToAddrStakeAmount m. stake_sum amounts) < 2 ^ 64"

abbreviation stakes_at :: "Manager \<Rightarrow> string \<Rightarrow> (string, u64) gomap" where
  "stakes_at m indexerID \<equiv> mget0 [] (indexerToAddrStakeAmount m) indexerID"

lemma stakes_at_entry: "stakes_at m i \<noteq> [] \<Longrightarrow> (i, stakes_at m i) \<in> set (indexerToAddrStakeAmount m)"
  by (auto simp: mget0_def split: option.splits dest: map_of_SomeD)

lemma sum_list_u64:
  "(\<Sum>(_, n) \<leftarrow> xs. unat n) < 2 ^ 64 \<Longrightarrow> unat (\<Sum>(_, n) \<leftarrow> xs. (n :: u64)) = (\<Sum>(_, n) \<leftarrow> xs. unat n)"
  by (induction xs) (auto simp: unat_word_ariths)

lemma stake_sum_le_total:
  assumes "(i, amounts) \<in> set es"
  shows "stake_sum amounts \<le> (\<Sum>(_, amounts) \<leftarrow> es. stake_sum amounts)"
  using member_le_sum_list [of "stake_sum amounts" "map (\<lambda>(_, amounts). stake_sum amounts) es"] assms by (force simp: image_iff)

lemma raw_stake_unat:
  assumes "supply_ok m"
  shows "unat (raw_stake m i) = stake_sum (stakes_at m i)"
proof (cases "stakes_at m i = []")
  case True
  then show ?thesis by (simp add: raw_stake_def getIndexerStakeAmount_def stake_sum_def)
next
  case False
  note e = stakes_at_entry [OF this]
  have "\<forall>(_, n) \<in> set (stakes_at m i). unat n < 2 ^ 53" using assms e by (fastforce simp: supply_ok_def)
  then have "map (\<lambda>(_, a). u64_of_f64 a) (getIndexerStakeAmount m i) = map (\<lambda>(_, n). n) (stakes_at m i)"
    by (auto simp: getIndexerStakeAmount_def u64_of_f64_of_u64)
  moreover have "stake_sum (stakes_at m i) < 2 ^ 64"
    using stake_sum_le_total [OF e] assms by (simp add: supply_ok_def)
  ultimately show ?thesis using sum_list_u64 [of "stakes_at m i"] by (simp add: raw_stake_def stake_sum_def)
qed

lemma mget0_entry: "mwf es \<Longrightarrow> (k, v) \<in> set es \<Longrightarrow> mget0 z es k = v"
  by (simp add: mget0_def mwf_def)

lemma distinct_stakes_le:
  assumes "mwf (indexerToAddrStakeAmount m)" "distinct is"
  shows "(\<Sum>i \<leftarrow> is. stake_sum (stakes_at m i)) \<le> (\<Sum>(_, amounts) \<leftarrow> indexerToAddrStakeAmount m. stake_sum amounts)"
proof -
  let ?es = "indexerToAddrStakeAmount m" and ?f = "\<lambda>i. stake_sum (stakes_at m i)"
  have "(\<Sum>i \<leftarrow> is. ?f i) = (\<Sum>i \<in> set is. ?f i)"
    using assms(2) by (rule sum_list_distinct_conv_sum_set)
  also have "\<dots> = (\<Sum>i \<in> set is \<inter> fst ` set ?es. ?f i)"
    by (rule sum.mono_neutral_right) (auto simp: mget0_def stake_sum_def map_of_eq_None_iff split: option.split
        dest!: map_of_SomeD [OF sym] intro: rev_image_eqI)
  also have "\<dots> \<le> (\<Sum>i \<in> fst ` set ?es. ?f i)" by (rule sum_mono2) auto
  also have "\<dots> = (\<Sum>i \<leftarrow> map fst ?es. ?f i)"
    using assms(1) by (simp add: mwf_def sum_list_distinct_conv_sum_set del: map_map)
  also have "\<dots> = (\<Sum>(_, amounts) \<leftarrow> ?es. stake_sum amounts)"
    unfolding map_map by (intro arg_cong [where f = sum_list] map_cong refl) (auto simp: mget0_entry [OF assms(1)])
  finally show ?thesis .
qed

definition weights_ok :: "Manager \<Rightarrow> stake_totals \<Rightarrow> bool" where
  "weights_ok m t \<longleftrightarrow> mwf (st_byIndexer t) \<and> st_effective t = (\<Sum>(_, w) \<leftarrow> st_byIndexer t. iw_effective w) \<and>
     st_raw t = (\<Sum>(_, w) \<leftarrow> st_byIndexer t. iw_raw w) \<and>
     (\<forall>(i, w) \<in> set (st_byIndexer t). iw_raw w = raw_stake m i \<and> iw_raw w \<noteq> 0 \<and> iw_effectivePercent w \<le> 100 \<and>
        iw_effective w = iw_raw w * iw_effectivePercent w div 100 \<and> iw_effective w \<noteq> 0)"

lemma mput_keys: "fst ` set (mput m k v) = insert k (fst ` set m)"
  by (simp add: mput_def dom_update)

lemma weight_step_keys: "fst ` set (st_byIndexer (weight_step m t e)) \<subseteq> insert (fst e) (fst ` set (st_byIndexer t))"
  by (cases e) (auto simp: weight_step_def Let_def mput_keys)

lemma weight_step_ok:
  assumes "weights_ok m t" "i \<notin> fst ` set (st_byIndexer t)" "p \<le> 100"
  shows "weights_ok m (weight_step m t (i, p))"
proof -
  have "mput (st_byIndexer t) i w = st_byIndexer t @ [(i, w)]" for w
    using assms(2) by (intro mset_mput_new) simp
  then show ?thesis using assms by (simp add: weights_ok_def weight_step_def Let_def mwf_def)
qed

lemma stake_weights_ok:
  assumes "distinct (map fst ps)" "\<forall>(_, p) \<in> set ps. p \<le> 100"
  shows "weights_ok m (stake_weights m ps) \<and> fst ` set (st_byIndexer (stake_weights m ps)) \<subseteq> fst ` set ps"
  using assms
proof (induction ps rule: rev_induct)
  case Nil
  then show ?case by (simp add: stake_weights_def weights_ok_def)
next
  case (snoc e ps)
  obtain i p where e: "e = (i, p)" by (cases e)
  let ?t = "stake_weights m ps"
  have IH: "weights_ok m ?t" "fst ` set (st_byIndexer ?t) \<subseteq> fst ` set ps" using snoc by auto
  have "i \<notin> fst ` set (st_byIndexer ?t)" "p \<le> 100" using IH(2) snoc.prems by (auto simp: e)
  from weight_step_ok [OF IH(1) this] weight_step_keys [of m ?t e] IH(2) show ?case
    by (auto simp: stake_weights_def e)
qed

text \<open>Under the bounds on the supply the totals are the true sums.\<close>

lemma weights_sums:
  assumes "weights_ok m t" "supply_ok m"
  shows "unat (st_effective t) = (\<Sum>(_, w) \<leftarrow> st_byIndexer t. unat (iw_effective w))"
    and "length (st_byIndexer t) \<le> 10 ^ 8"
    and "(i, w) \<in> set (st_byIndexer t) \<Longrightarrow> unat (iw_raw w) = stake_sum (stakes_at m i) \<and> stakes_at m i \<noteq> []"
    and "unat (st_effective t) \<le> (\<Sum>(_, amounts) \<leftarrow> indexerToAddrStakeAmount m. stake_sum amounts)"
    and "unat (st_raw t) \<le> (\<Sum>(_, amounts) \<leftarrow> indexerToAddrStakeAmount m. stake_sum amounts)"
    and "(i, w) \<in> set (st_byIndexer t) \<Longrightarrow> unat (iw_effective w) \<le> stake_sum (stakes_at m i)"
proof -
  let ?es = "indexerToAddrStakeAmount m" and ?ws = "st_byIndexer t"
  have raw: "unat (iw_raw w) = stake_sum (stakes_at m i) \<and> stakes_at m i \<noteq> []" if "(i, w) \<in> set ?ws" for i w
  proof -
    have r: "iw_raw w = raw_stake m i" "iw_raw w \<noteq> 0" using assms(1) that by (auto simp: weights_ok_def)
    then have "unat (iw_raw w) = stake_sum (stakes_at m i)" using raw_stake_unat [OF assms(2)] by simp
    moreover from this r(2) have "stakes_at m i \<noteq> []" by (auto simp: stake_sum_def word_eq_unat_iff)
    ultimately show ?thesis ..
  qed
  then show "(i, w) \<in> set ?ws \<Longrightarrow> unat (iw_raw w) = stake_sum (stakes_at m i) \<and> stakes_at m i \<noteq> []" .
  have d: "distinct (map fst ?ws)" using assms(1) by (simp add: weights_ok_def mwf_def)
  have tot: "100 * (\<Sum>(_, amounts) \<leftarrow> ?es. stake_sum amounts) < 2 ^ 64" "mwf ?es" "length ?es \<le> 10 ^ 8"
    using assms(2) by (simp_all add: supply_ok_def)
  have sub: "fst ` set ?ws \<subseteq> fst ` set ?es"
  proof
    fix i assume "i \<in> fst ` set ?ws"
    then obtain w where "(i, w) \<in> set ?ws" by auto
    with raw have "(i, stakes_at m i) \<in> set ?es" by (blast intro: stakes_at_entry)
    then show "i \<in> fst ` set ?es" by (rule image_eqI [rotated]) simp
  qed
  have "length ?ws = card (set (map fst ?ws))" using distinct_card [OF d] by simp
  also have "\<dots> \<le> card (set (map fst ?es))" using sub by (intro card_mono) auto
  also have "\<dots> \<le> length ?es" using card_length [of "map fst ?es"] by simp
  finally show "length ?ws \<le> 10 ^ 8" using tot(3) by simp
  have eff: "unat (iw_effective w) \<le> stake_sum (stakes_at m i)" if "(i, w) \<in> set ?ws" for i w
  proof -
    have e: "iw_effective w = iw_raw w * iw_effectivePercent w div 100" "unat (iw_effectivePercent w) \<le> 100"
      using assms(1) that by (auto simp: weights_ok_def word_le_nat_alt)
    have "stake_sum (stakes_at m i) \<le> (\<Sum>(_, amounts) \<leftarrow> ?es. stake_sum amounts)"
      by (rule stake_sum_le_total [OF stakes_at_entry]) (use raw [OF that] in simp)
    then have "unat (iw_raw w) * 100 < 2 ^ 64" using raw [OF that] tot(1) by linarith
    then have "unat (iw_raw w) * unat (iw_effectivePercent w) < 2 ^ 64"
      using mult_le_mono2 [OF e(2), of "unat (iw_raw w)"] by linarith
    then have "unat (iw_effective w) = unat (iw_raw w) * unat (iw_effectivePercent w) div 100"
      unfolding e(1) by (simp add: unat_div_distrib unat_word_ariths)
    also have "\<dots> \<le> unat (iw_raw w) * 100 div 100" by (intro div_le_mono mult_le_mono2 e(2))
    also have "\<dots> = stake_sum (stakes_at m i)" using raw [OF that] by simp
    finally show ?thesis .
  qed
  have sums: "unat (\<Sum>(_, w) \<leftarrow> ?ws. f w) = (\<Sum>(_, w) \<leftarrow> ?ws. unat (f w)) \<and>
      unat (\<Sum>(_, w) \<leftarrow> ?ws. f w) \<le> (\<Sum>(_, amounts) \<leftarrow> ?es. stake_sum amounts)"
    if f: "\<And>i w. (i, w) \<in> set ?ws \<Longrightarrow> unat (f w) \<le> stake_sum (stakes_at m i)" for f :: "indexerStakeWeight \<Rightarrow> u64"
  proof -
    have "(\<Sum>(_, w) \<leftarrow> ?ws. unat (f w)) \<le> (\<Sum>i \<leftarrow> map fst ?ws. stake_sum (stakes_at m i))"
      unfolding map_map by (intro sum_list_mono) (use f in auto)
    also have "\<dots> \<le> (\<Sum>(_, amounts) \<leftarrow> ?es. stake_sum amounts)" by (rule distinct_stakes_le [OF tot(2) d])
    finally have le: "(\<Sum>(_, w) \<leftarrow> ?ws. unat (f w)) \<le> (\<Sum>(_, amounts) \<leftarrow> ?es. stake_sum amounts)" .
    then have "(\<Sum>(_, w) \<leftarrow> ?ws. unat (f w)) < 2 ^ 64" using tot(1) by linarith
    then have "unat (\<Sum>(_, w) \<leftarrow> ?ws. f w) = (\<Sum>(_, w) \<leftarrow> ?ws. unat (f w))"
      using sum_list_u64 [of "map (\<lambda>(i, w). (i, f w)) ?ws"] by (simp add: comp_def case_prod_unfold)
    with le show ?thesis by simp
  qed
  have e: "st_effective t = (\<Sum>(_, w) \<leftarrow> ?ws. iw_effective w)" "st_raw t = (\<Sum>(_, w) \<leftarrow> ?ws. iw_raw w)"
    using assms(1) by (simp_all add: weights_ok_def)
  show "unat (st_effective t) = (\<Sum>(_, w) \<leftarrow> ?ws. unat (iw_effective w))"
    "unat (st_effective t) \<le> (\<Sum>(_, amounts) \<leftarrow> ?es. stake_sum amounts)"
    using sums [of iw_effective, OF eff] by (simp_all add: e)
  show "unat (st_raw t) \<le> (\<Sum>(_, amounts) \<leftarrow> ?es. stake_sum amounts)"
    using sums [of iw_raw] raw by (simp add: e)
  show "(i, w) \<in> set ?ws \<Longrightarrow> unat (iw_effective w) \<le> stake_sum (stakes_at m i)" by (rule eff)
qed

text \<open>What the loops keep of the manager.\<close>

definition same_stakes :: "Manager \<Rightarrow> Manager \<Rightarrow> bool" where
  "same_stakes m m' \<longleftrightarrow> indexerToAddrStakeAmount m' = indexerToAddrStakeAmount m \<and>
     pendingRewardMode m' = pendingRewardMode m \<and> m_cfg m' = m_cfg m"

lemma same_stakes_refl [simp]: "same_stakes m m"
  by (simp add: same_stakes_def)

lemma same_stakes_trans: "same_stakes a b \<Longrightarrow> same_stakes b c \<Longrightarrow> same_stakes a c"
  by (simp add: same_stakes_def)

lemma same_stakes_stage [simp]: "same_stakes m (m_stage f m') = same_stakes m m'" "same_stakes m (m_stageHSet k vs m') = same_stakes m m'"
  by (simp_all add: same_stakes_def m_stage_def)

lemma stageCommission_same: "stageCommissionRatioForHeight env h i dk tk tf m = Inr m' \<Longrightarrow> same_stakes m m'"
  by (auto simp: stageCommissionRatioForHeight_def split: sum.splits option.splits if_splits)

lemma latestRatio_same: "getIndexerLatestRatio env h i m = Inr (r, m') \<Longrightarrow> same_stakes m m'"
  by (auto simp: getIndexerLatestRatio_def Let_def dest!: stageCommission_same split: sum.splits option.splits if_splits rres.splits)

lemma snapshotRatio_same: "getIndexerSnapshotRatio env h i m = Inr (r, m') \<Longrightarrow> same_stakes m m'"
  by (auto simp: getIndexerSnapshotRatio_def split: prod.splits sum.splits option.splits rres.splits
      dest!: stageCommission_same latestRatio_same intro: same_stakes_trans)

lemma stakeAddress_same: "getStakeAddressByIndexerAndUser i u m = (a, m') \<Longrightarrow> same_stakes m m'"
  by (auto simp: getStakeAddressByIndexerAndUser_def Let_def same_stakes_def split: if_splits option.splits)

text \<open>The amount a list of rows adds up to.\<close>

definition paid :: "StakeAllocatedReward list \<Rightarrow> nat" where
  "paid rows = (\<Sum>r \<leftarrow> rows. unat (rw_Amount r))"

lemma paid_simps [simp]: "paid [] = 0" "paid (xs @ ys) = paid xs + paid ys" "paid [r] = unat (rw_Amount r)"
  by (simp_all add: paid_def)

lemma reward_row_of_simps [simp]: "rw_Amount (reward_row_of c w r u i a ty n amt) = amt"
  "rw_Height (reward_row_of c w r u i a ty n amt) = rc_height c"
  by (simp_all add: reward_row_of_def)

text \<open>Rows appended by a step: of the block's height, adding up to at most a bound.\<close>

definition extends :: "reward_ctx \<Rightarrow> nat \<Rightarrow> StakeAllocatedReward list \<Rightarrow> StakeAllocatedReward list \<Rightarrow> bool" where
  "extends c n rows rows' \<longleftrightarrow> (\<exists>new. rows' = rows @ new \<and> paid new \<le> n \<and> (\<forall>r \<in> set new. rw_Height r = rc_height c))"

lemma extends_refl [simp]: "extends c n rows rows"
  by (simp add: extends_def)

lemma extends_row: "rw_Height r = rc_height c \<Longrightarrow> unat (rw_Amount r) \<le> n \<Longrightarrow> extends c n rows (rows @ [r])"
  by (auto simp: extends_def)

lemma extends_trans: "extends c a xs ys \<Longrightarrow> extends c b ys zs \<Longrightarrow> a + b \<le> n \<Longrightarrow> extends c n xs zs"
  unfolding extends_def by fastforce

abbreviation share :: "reward_ctx \<Rightarrow> u64 \<Rightarrow> u64 \<Rightarrow> u64 \<Rightarrow> nat" where
  "share c amount weight tot \<equiv> unat (quantizeReward (proportional amount weight tot) (rc_useTruncation c))"

lemma address_step_extends:
  assumes "address_step c i w ratio pool (m, rows) (u, n) = (m', rows')"
  shows "same_stakes m m' \<and> extends c (share c pool n (iw_raw w)) rows rows'"
  using assms
  by (auto simp: address_step_def Let_def intro!: extends_row dest!: stakeAddress_same split: if_splits prod.splits)
    (auto simp: same_stakes_def m_stage_def)

lemma address_fold_extends:
  assumes "foldl (address_step c i w ratio pool) (m, rows) es = (m', rows')"
  shows "same_stakes m m' \<and> extends c (\<Sum>(_, n) \<leftarrow> es. share c pool n (iw_raw w)) rows rows'"
  using assms
proof (induction es arbitrary: m rows)
  case (Cons e es)
  obtain u n where e: "e = (u, n)" by (cases e)
  obtain m1 rows1 where s: "address_step c i w ratio pool (m, rows) (u, n) = (m1, rows1)" by (cases "address_step c i w ratio pool (m, rows) (u, n)")
  from address_step_extends [OF s] Cons.IH [of m1 rows1] Cons.prems show ?case
    by (auto simp: e s intro: same_stakes_trans extends_trans)
qed simp

text \<open>With truncation the stakers of an indexer share at most the pool.\<close>

lemma pool_shares_le:
  assumes "supply_ok m" "unat pool < 2 ^ 49" "rc_useTruncation c" "unat raw = stake_sum (stakes_at m i)" "raw \<noteq> 0"
  shows "(\<Sum>(_, n) \<leftarrow> stakes_at m i. share c pool n raw) \<le> unat pool"
proof -
  have ne: "stakes_at m i \<noteq> []" using assms(4,5) by (auto simp: stake_sum_def word_eq_unat_iff)
  have len: "length (map snd (stakes_at m i)) \<le> 10 ^ 8"
    using assms(1) stakes_at_entry [OF ne] by (fastforce simp: supply_ok_def)
  have t: "(\<Sum>w \<leftarrow> map snd (stakes_at m i). unat w) = unat raw"
    unfolding assms(4) stake_sum_def by (simp add: comp_def case_prod_unfold)
  have r: "(of_nat (sum_list (map unat xs)) :: rat) = (\<Sum>w \<leftarrow> xs. of_nat (unat w))" for xs :: "u64 list"
    by (induction xs) simp_all
  have "(\<Sum>w \<leftarrow> map snd (stakes_at m i). of_nat (unat w)) \<le> (of_nat (unat raw) :: rat) * (1 + 2 / 2 ^ 53)"
    unfolding r [symmetric] t by simp
  from truncated_shares_le [OF assms(5,2) len this] show ?thesis
    using assms(3) by (simp add: comp_def case_prod_unfold)
qed

lemma indexer_own_extends:
  assumes "indexer_own env c i w ratio own (m, rows) = Inr (m', rows')"
  shows "same_stakes m m' \<and> extends c (unat own) rows rows'"
  using assms by (auto simp: indexer_own_def intro!: extends_row split: if_splits sum.splits)

lemma indexer_step_InrE:
  assumes "indexer_step env c (m, rows) (i, w) = Inr (m', rows')"
  obtains ratio m1 f g own m2 rows2 where "getIndexerSnapshotRatio env (rc_height c) i m = Inr (ratio, m1)"
    "indexer_own env c i w ratio own (m_stage f (m_stage g m1), rows) = Inr (m2, rows2)"
    "own \<le> quantizeReward (proportional (rc_unlocked c) (iw_effective w) (st_effective (rc_totals c))) (rc_useTruncation c)"
    "foldl (address_step c i w ratio
       (quantizeReward (proportional (rc_unlocked c) (iw_effective w) (st_effective (rc_totals c))) (rc_useTruncation c) - own))
       (m2, rows2) (stakes_at m2 i) = (m', rows')"
proof -
  define first where "first = quantizeReward (proportional (rc_unlocked c) (iw_effective w) (st_effective (rc_totals c))) (rc_useTruncation c)"
  from assms obtain ratio m1 where r: "getIndexerSnapshotRatio env (rc_height c) i m = Inr (ratio, m1)"
    by (auto simp: indexer_step_def Let_def split: sum.splits)
  define q where "q = quantizeReward (f64_mul (f64_of_u64 first) ratio) (rc_useTruncation c)"
  define own where "own = (if q > first then first else q)"
  have own: "own \<le> first" by (simp add: own_def not_less)
  note step = assms [unfolded indexer_step_def Let_def prod.case r sum.case, folded first_def, folded q_def, folded own_def]
  from step obtain f g m2 rows2 where
    "indexer_own env c i w ratio own (m_stage f (m_stage g m1), rows) = Inr (m2, rows2)"
    "foldl (address_step c i w ratio (first - own)) (m2, rows2) (stakes_at m2 i) = (m', rows')"
    by (auto split: sum.splits prod.splits)
  from that [OF r this(1) own [unfolded first_def] this(2) [unfolded first_def]] show ?thesis .
qed

lemma indexer_step_extends:
  assumes "indexer_step env c (m, rows) (i, w) = Inr (m', rows')" "supply_ok m" "rc_useTruncation c"
    and "share c (rc_unlocked c) (iw_effective w) (st_effective (rc_totals c)) < 2 ^ 49"
    and "unat (iw_raw w) = stake_sum (stakes_at m i)" "iw_raw w \<noteq> 0"
  shows "same_stakes m m' \<and> extends c (share c (rc_unlocked c) (iw_effective w) (st_effective (rc_totals c))) rows rows'"
proof -
  define first where "first = quantizeReward (proportional (rc_unlocked c) (iw_effective w) (st_effective (rc_totals c))) (rc_useTruncation c)"
  from assms(1) obtain ratio m1 f g own m2 rows2 where 1: "getIndexerSnapshotRatio env (rc_height c) i m = Inr (ratio, m1)"
      "indexer_own env c i w ratio own (m_stage f (m_stage g m1), rows) = Inr (m2, rows2)" "own \<le> first"
      "foldl (address_step c i w ratio (first - own)) (m2, rows2) (stakes_at m2 i) = (m', rows')"
    unfolding first_def by (rule indexer_step_InrE)
  have own: "unat own \<le> unat first" using 1(3) by (simp add: word_le_nat_alt)
  have pool: "unat (first - own) = unat first - unat own" using 1(3) by (simp add: unat_sub)
  have "same_stakes m (m_stage f (m_stage g m1))" using snapshotRatio_same [OF 1(1)] by simp
  then have s2: "same_stakes m m2" using indexer_own_extends [OF 1(2)] by (blast intro: same_stakes_trans)
  then have st: "stakes_at m2 i = stakes_at m i" by (simp add: same_stakes_def)
  have "(\<Sum>(_, n) \<leftarrow> stakes_at m i. share c (first - own) n (iw_raw w)) \<le> unat (first - own)"
    by (rule pool_shares_le [OF assms(2) _ assms(3,5,6)]) (use assms(4) pool in \<open>simp add: first_def\<close>)
  with address_fold_extends [OF 1(4)] have "same_stakes m2 m' \<and> extends c (unat first - unat own) rows2 rows'"
    unfolding st pool by (auto intro: extends_trans [OF _ extends_refl [of c 0]])
  with indexer_own_extends [OF 1(2)] s2 own show ?thesis
    by (auto intro: same_stakes_trans extends_trans simp flip: first_def)
qed

lemma supply_ok_same: "same_stakes m m' \<Longrightarrow> supply_ok m' = supply_ok m"
  by (simp add: same_stakes_def supply_ok_def)

lemma indexer_loop_extends:
  assumes "indexer_loop env c es (m, rows) = Inr (m', rows')" "supply_ok m" "rc_useTruncation c"
    and "\<forall>(i, w) \<in> set es. share c (rc_unlocked c) (iw_effective w) (st_effective (rc_totals c)) < 2 ^ 49 \<and>
      unat (iw_raw w) = stake_sum (stakes_at m i) \<and> iw_raw w \<noteq> 0"
  shows "same_stakes m m' \<and>
    extends c (\<Sum>(_, w) \<leftarrow> es. share c (rc_unlocked c) (iw_effective w) (st_effective (rc_totals c))) rows rows'"
  using assms
proof (induction es arbitrary: m rows)
  case (Cons e es)
  obtain i w where e: "e = (i, w)" by (cases e)
  from Cons.prems(1) obtain m1 rows1 where s: "indexer_step env c (m, rows) (i, w) = Inr (m1, rows1)"
    "indexer_loop env c es (m1, rows1) = Inr (m', rows')"
    by (auto simp: e split: sum.splits)
  have one: "same_stakes m m1 \<and> extends c (share c (rc_unlocked c) (iw_effective w) (st_effective (rc_totals c))) rows rows1"
    by (rule indexer_step_extends [OF s(1) Cons.prems(2,3)]) (use Cons.prems(4) in \<open>auto simp: e\<close>)
  then have "stakes_at m1 j = stakes_at m j" for j by (simp add: same_stakes_def)
  then have "same_stakes m1 m' \<and>
      extends c (\<Sum>(_, w) \<leftarrow> es. share c (rc_unlocked c) (iw_effective w) (st_effective (rc_totals c))) rows1 rows'"
    using Cons.prems supply_ok_same [OF conjunct1 [OF one]] by (intro Cons.IH [OF s(2)]) auto
  with one show ?case by (auto simp: e intro: same_stakes_trans extends_trans)
qed simp

lemma first_layer_le:
  assumes "weights_ok m (rc_totals c)" "supply_ok m" "rc_useTruncation c" "unat (rc_unlocked c) < 2 ^ 49" "st_effective (rc_totals c) \<noteq> 0"
  shows "(\<Sum>(_, w) \<leftarrow> st_byIndexer (rc_totals c). share c (rc_unlocked c) (iw_effective w) (st_effective (rc_totals c))) \<le> unat (rc_unlocked c)"
proof -
  let ?ws = "map (\<lambda>(_, w). iw_effective w) (st_byIndexer (rc_totals c))"
  have r: "(of_nat (sum_list (map unat xs)) :: rat) = (\<Sum>w \<leftarrow> xs. of_nat (unat w))" for xs :: "u64 list"
    by (induction xs) simp_all
  have t: "sum_list (map unat ?ws) = unat (st_effective (rc_totals c))"
    using weights_sums(1) [OF assms(1,2)] by (simp add: comp_def case_prod_unfold)
  have "(\<Sum>w \<leftarrow> ?ws. of_nat (unat w)) \<le> (of_nat (unat (st_effective (rc_totals c))) :: rat) * (1 + 2 / 2 ^ 53)"
    unfolding r [symmetric] t by simp
  moreover have "length ?ws \<le> 10 ^ 8" using weights_sums(2) [OF assms(1,2)] by simp
  ultimately have "(\<Sum>w \<leftarrow> ?ws. unat (quantizeReward (proportional (rc_unlocked c) w (st_effective (rc_totals c))) True)) \<le> unat (rc_unlocked c)"
    by (intro truncated_shares_le [OF assms(5,4)])
  then show ?thesis using assms(3) by (simp add: comp_def case_prod_unfold)
qed

lemma allocation_le:
  assumes "indexer_loop env c (iord (st_byIndexer (rc_totals c))) (m, []) = Inr (m', rows)" "map_order iord"
    and "weights_ok m (rc_totals c)" "supply_ok m" "rc_useTruncation c" "unat (rc_unlocked c) < 2 ^ 49"
    and "st_effective (rc_totals c) \<noteq> 0"
  shows "paid rows \<le> unat (rc_unlocked c) \<and> same_stakes m m' \<and> (\<forall>r \<in> set rows. rw_Height r = rc_height c)"
proof -
  let ?f = "\<lambda>(_ :: string, w). share c (rc_unlocked c) (iw_effective w) (st_effective (rc_totals c))"
  note fl = first_layer_le [OF assms(3-7)]
  have each: "?f e \<le> unat (rc_unlocked c)" if "e \<in> set (st_byIndexer (rc_totals c))" for e
    using fl member_le_sum_list [of "?f e" "map ?f (st_byIndexer (rc_totals c))"] that by fastforce
  have "\<forall>(i, w) \<in> set (iord (st_byIndexer (rc_totals c))). ?f (i, w) < 2 ^ 49 \<and> unat (iw_raw w) = stake_sum (stakes_at m i) \<and> iw_raw w \<noteq> 0"
    unfolding map_order_set [OF assms(2)]
    using each weights_sums(3) [OF assms(3,4)] assms(3,6) by (fastforce simp: weights_ok_def)
  from indexer_loop_extends [OF assms(1,4,5)] this
  have "same_stakes m m' \<and> extends c (sum_list (map ?f (iord (st_byIndexer (rc_totals c))))) [] rows" by simp
  moreover have "sum_list (map ?f (iord (st_byIndexer (rc_totals c)))) = sum_list (map ?f (st_byIndexer (rc_totals c)))"
    by (rule map_order_sum [OF assms(2)])
  ultimately show ?thesis using fl by (auto simp: extends_def)
qed

section \<open>What a height adds up to in a table\<close>

definition height_total :: "reward_table \<Rightarrow> u32 \<Rightarrow> int" where
  "height_total t h = (\<Sum>w \<leftarrow> filter (\<lambda>w. row_height w = uint h) t. row_amount w)"

definition nonneg_at :: "reward_table \<Rightarrow> u32 \<Rightarrow> bool" where
  "nonneg_at t h \<longleftrightarrow> (\<forall>w \<in> set t. row_height w = uint h \<longrightarrow> 0 \<le> row_amount w)"

lemma put_row_total:
  "nonneg_at t h \<Longrightarrow> row_height w = uint h \<Longrightarrow> 0 \<le> row_amount w \<Longrightarrow>
    nonneg_at (put_row w t) h \<and> height_total (put_row w t) h \<le> height_total t h + row_amount w"
  by (induction t) (auto simp: nonneg_at_def height_total_def row_key_def)

lemma row_of_total: "row_of r = Some w \<Longrightarrow> row_height w = uint (rw_Height r) \<and> row_amount w = int (unat (rw_Amount r))"
  by (auto simp: row_of_def of_nat_unat split: if_splits)

lemma allocated_batch_total:
  assumes "UpsertStakeAllocatedRewardBatch t rows = Some t'" "nonneg_at t h" "\<forall>r \<in> set rows. rw_Height r = h"
  shows "nonneg_at t' h \<and> height_total t' h \<le> height_total t h + int (paid rows)"
  using assms
proof (induction rows arbitrary: t' rule: rev_induct)
  case Nil
  then show ?case by (simp add: UpsertStakeAllocatedRewardBatch_def)
next
  case (snoc r rows)
  from snoc.prems(1) obtain t1 w where 1: "UpsertStakeAllocatedRewardBatch t rows = Some t1" "row_of r = Some w" "t' = put_row w t1"
    by (auto simp: UpsertStakeAllocatedRewardBatch_def upsertStakeAllocatedReward_def split: option.splits)
  have "nonneg_at t1 h \<and> height_total t1 h \<le> height_total t h + int (paid rows)"
    using snoc 1(1) by simp
  with put_row_total [of t1 h w] row_of_total [OF 1(2)] snoc.prems(3) show ?case by (auto simp: 1(3))
qed

lemma pending_batch_eq: "UpsertStakePendingRewardBatch = UpsertStakeAllocatedRewardBatch"
proof -
  have eq: "upsertStakePendingReward = upsertStakeAllocatedReward"
    by (simp add: fun_eq_iff upsertStakePendingReward_def upsertStakeAllocatedReward_def)
  show ?thesis
    by (intro ext) (unfold UpsertStakePendingRewardBatch_def UpsertStakeAllocatedRewardBatch_def eq, rule refl)
qed

lemma no_rows_total: "\<forall>w \<in> set t. row_height w \<noteq> uint h \<Longrightarrow> nonneg_at t h \<and> height_total t h = 0"
  by (auto simp: nonneg_at_def height_total_def filter_empty_conv)

section \<open>A block never pays out more than its reward\<close>

definition reward_table_of :: "rstate \<Rightarrow> reward_table" where
  "reward_table_of s = (if pendingRewardMode (rs_m s) then rs_pending s else rs_allocated s)"

text \<open>Percentages so small that the arithmetic leaves the normal floats are excluded.\<close>

definition release_normal :: "StakeRewardConfigInfo \<Rightarrow> bool" where
  "release_normal cfg \<longleftrightarrow> list_all (\<lambda>t. tier_ReleasePercent t = 0 \<or> 1 / 2 ^ 60 \<le> tier_ReleasePercent t) (RewardReleaseTiers cfg)"

lemma release_loop_normal:
  "list_all (\<lambda>t. tier_ReleasePercent t = 0 \<or> 1 / 2 ^ 60 \<le> tier_ReleasePercent t) ts \<Longrightarrow> r = 0 \<or> 1 / 2 ^ 60 \<le> r \<Longrightarrow>
    release_loop ts h r = 0 \<or> 1 / 2 ^ 60 \<le> release_loop ts h r"
  by (induction ts h r rule: release_loop.induct) auto

lemma release_percent:
  assumes "cfg_wf cfg" "release_normal cfg"
  shows "0 \<le> resolveRewardReleasePercent cfg h" "resolveRewardReleasePercent cfg h \<le> 100"
    "resolveRewardReleasePercent cfg h = 0 \<or> 1 / 2 ^ 60 \<le> resolveRewardReleasePercent cfg h"
proof -
  have b: "0 \<le> RewardReleasePercentByHeight cfg h" "RewardReleasePercentByHeight cfg h \<le> 100"
    using RewardReleasePercentByHeight_bounds [OF assms(1), of h] by auto
  then have r: "resolveRewardReleasePercent cfg h = RewardReleasePercentByHeight cfg h"
    by (simp add: resolveRewardReleasePercent_def Let_def)
  show "0 \<le> resolveRewardReleasePercent cfg h" "resolveRewardReleasePercent cfg h \<le> 100" using b by (simp_all add: r)
  show "resolveRewardReleasePercent cfg h = 0 \<or> 1 / 2 ^ 60 \<le> resolveRewardReleasePercent cfg h"
    unfolding r RewardReleasePercentByHeight_def
    by (rule release_loop_normal) (use assms(2) in \<open>simp_all add: release_normal_def\<close>)
qed

lemma subtractPending_keeps: "subtractPendingRewardByHeight env h s = (s', e) \<Longrightarrow> rs_allocated s' = rs_allocated s"
  by (auto simp: subtractPendingRewardByHeight_def Let_def split: if_splits)

lemma foldl_subtract_same: "same_stakes m (foldl subtract_step m items)"
proof (induction items rule: rev_induct)
  case (snoc r items)
  then show ?case by (simp add: subtract_step_def Let_def)
qed simp

lemma subtractPending_mode: "subtractPendingRewardByHeight env h s = (s', e) \<Longrightarrow> pendingRewardMode (rs_m s') = pendingRewardMode (rs_m s)"
  using foldl_subtract_same [of "rs_m s" "ListStakePendingRewardsByHeight (rs_pending s) h"]
  by (auto simp: subtractPendingRewardByHeight_def Let_def same_stakes_def split: if_splits)

lemma store_total:
  assumes "(if pendingRewardMode (rs_m s) then store_pending env h rows s else store_allocated env h u rows s) = (s', None)"
    and "\<forall>w \<in> set (reward_table_of s). row_height w \<noteq> uint h" "\<forall>r \<in> set rows. rw_Height r = h"
  shows "height_total (reward_table_of s') h \<le> int (paid rows)"
proof (cases "pendingRewardMode (rs_m s)")
  case True
  let ?t = "DeleteStakePendingRewardsByHeight (rs_pending s) h"
  have no: "\<forall>w \<in> set ?t. row_height w \<noteq> uint h" by (simp add: DeleteStakePendingRewardsByHeight_def)
  from assms(1) True have "UpsertStakePendingRewardBatch ?t rows = Some (rs_pending s')" "pendingRewardMode (rs_m s')"
    by (auto simp: store_pending_def Let_def split: if_splits option.splits)
  with allocated_batch_total [OF _ _ assms(3)] no_rows_total [OF no] show ?thesis
    by (fastforce simp: reward_table_of_def pending_batch_eq)
next
  case False
  from assms(1) False obtain t m1 where t: "UpsertStakeAllocatedRewardBatch (rs_allocated s) rows = Some t"
    "subtractPendingRewardByHeight env h (s\<lparr>rs_m := m1, rs_allocated := t\<rparr>) = (s', None)" "pendingRewardMode m1 = False"
    by (auto simp: store_allocated_def Let_def split: if_splits option.splits)
  from subtractPending_keeps [OF t(2)] subtractPending_mode [OF t(2)] t(3) have "reward_table_of s' = t"
    by (simp add: reward_table_of_def)
  with allocated_batch_total [OF t(1) _ assms(3)] no_rows_total [OF assms(2)] False show ?thesis
    by (auto simp: reward_table_of_def)
qed

lemma percent_step_ok:
  "mwf acc \<Longrightarrow> \<forall>(_, p) \<in> set acc. p \<le> 100 \<Longrightarrow>
    mwf (percent_step cfg h acc item) \<and> (\<forall>(_, p) \<in> set (percent_step cfg h acc item). p \<le> 100)"
proof -
  assume a: "mwf acc" "\<forall>(_, p) \<in> set acc. p \<le> 100"
  have P: "(k', q) \<in> set (mput acc k p) \<Longrightarrow> p \<le> 100 \<Longrightarrow> q \<le> 100" for k k' p q
    using a by (subst (asm) mwf_mget_iff [symmetric]) (auto split: if_splits simp: mwf_mget_iff)
  show ?thesis using a by (auto simp: percent_step_def Let_def split: option.splits dest: P [OF _ percent_le])
qed

lemma percents_ok:
  "mwf (resolveRewardStakePercentByIndexer cfg h ps) \<and> (\<forall>(_, p) \<in> set (resolveRewardStakePercentByIndexer cfg h ps). p \<le> 100)"
  unfolding resolveRewardStakePercentByIndexer_def
proof (induction ps rule: rev_induct)
  case (snoc p ps)
  then show ?case unfolding foldl_append foldl.simps by (elim conjE) (rule percent_step_ok)
qed simp

lemma distribute_total:
  assumes "distribute iord env block totals s = (s', None)" "map_order iord" "cfg_wf (m_cfg (rs_m s))" "release_normal (m_cfg (rs_m s))"
    and "supply_ok (rs_m s)" "weights_ok (rs_m s) totals" "st_effective totals \<noteq> 0"
    and "Stage2StartHeight (m_cfg (rs_m s)) \<le> bs_Height block" "unat (bs_CoinbaseReward block) < 2 ^ 49"
    and "\<forall>w \<in> set (reward_table_of s). row_height w \<noteq> uint (bs_Height block)"
  shows "height_total (reward_table_of s') (bs_Height block) \<le> int (unat (bs_CoinbaseReward block))"
proof -
  let ?cfg = "m_cfg (rs_m s)" and ?h = "bs_Height block"
  define p where "p = resolveRewardReleasePercent ?cfg ?h"
  define u where "u = quantizeReward (f64_div (f64_mul (f64_of_u64 (bs_CoinbaseReward block)) p) 100) True"
  have tr: "shouldUseRewardTruncation ?cfg ?h" using assms(8) by (simp add: shouldUseRewardTruncation_def)
  have u: "unat u \<le> unat (bs_CoinbaseReward block)"
    unfolding u_def p_def by (intro unlocked_le release_percent assms)
  define s0 where "s0 = s\<lparr>rs_m := m_stageHSet GetStakeIndexerStatusKey [(stakeStatusRewardReleasePercentField, HFloat p)] (rs_m s)\<rparr>"
  define c where "c = \<lparr>rc_height = ?h, rc_rewardAmount = bs_CoinbaseReward block, rc_releasePercent = p,
    rc_useTruncation = True, rc_unlocked = u, rc_totals = totals\<rparr>"
  have same: "same_stakes (rs_m s) (rs_m s0)" and t0: "reward_table_of s0 = reward_table_of s"
    by (simp_all add: s0_def reward_table_of_def)
  note d = assms(1) [unfolded distribute_def Let_def eqTrueI [OF tr], folded p_def, folded u_def s0_def, folded c_def]
  show ?thesis
  proof (cases "u = 0")
    case True
    then have "s' = s0" using d by simp
    then show ?thesis using no_rows_total [OF assms(10)] t0 by simp
  next
    case False
    with d obtain m rows where l: "indexer_loop env c (iord (st_byIndexer totals)) (rs_m s0, []) = Inr (m, rows)"
      "(if rows = [] then (s0\<lparr>rs_m := m\<rparr>, None)
        else if pendingRewardMode m then store_pending env ?h rows (s0\<lparr>rs_m := m\<rparr>)
        else store_allocated env ?h u rows (s0\<lparr>rs_m := m\<rparr>)) = (s', None)"
      by (auto split: sum.splits prod.splits)
    have w0: "weights_ok (rs_m s0) totals" using assms(6) by (simp add: s0_def weights_ok_def raw_stake_def getIndexerStakeAmount_def)
    have a: "paid rows \<le> unat u \<and> same_stakes (rs_m s0) m \<and> (\<forall>r \<in> set rows. rw_Height r = ?h)"
      using allocation_le [of env c iord "rs_m s0" m rows] l(1) assms(2,5,7,9) w0 u supply_ok_same [OF same]
      by (simp add: c_def)
    then have tm: "reward_table_of (s0\<lparr>rs_m := m\<rparr>) = reward_table_of s"
      by (simp add: reward_table_of_def same_stakes_def s0_def)
    show ?thesis
    proof (cases "rows = []")
      case True
      then have "s' = s0\<lparr>rs_m := m\<rparr>" using l(2) by simp
      then show ?thesis using no_rows_total [OF assms(10)] tm by simp
    next
      case False
      have "height_total (reward_table_of s') ?h \<le> int (paid rows)"
        by (rule store_total [of "s0\<lparr>rs_m := m\<rparr>" env ?h rows u]) (use l(2) False a tm assms(10) in simp_all)
      with a u show ?thesis by linarith
    qed
  qed
qed

text \<open>C1. A block never pays out more than its reward: from the stage-2 height on, whatever proofs, stakes, ratios and
  order of the maps, the rows that handling the block stores for its height, in the pending table or in the allocated
  one, add up to at most the block's coinbase reward, for every supply the coin can have.\<close>

theorem block_reward_bounded:
  assumes "handleBlockReward gord pord iord env ce block s = Some (s', None)" "map_order pord" "map_order iord"
    and "cfg_wf (m_cfg (rs_m s))" "release_normal (m_cfg (rs_m s))" "supply_ok (rs_m s)"
    and "Stage2StartHeight (m_cfg (rs_m s)) \<le> bs_Height block" "unat (bs_CoinbaseReward block) < 2 ^ 49"
    and "\<forall>w \<in> set (reward_table_of s). row_height w \<noteq> uint (bs_Height block)"
  shows "height_total (reward_table_of s') (bs_Height block) \<le> int (unat (bs_CoinbaseReward block))"
proof -
  have z: "height_total (reward_table_of s) (bs_Height block) \<le> int (unat (bs_CoinbaseReward block))"
    using no_rows_total [OF assms(9)] by simp
  have p: "reward_table_of (s\<lparr>rs_proofs := ps\<rparr>) = reward_table_of s" for ps by (simp add: reward_table_of_def)
  let ?ps = "resolveRewardStakePercentByIndexer (m_cfg (rs_m s)) (bs_Height block)"
  have w: "weights_ok (rs_m s) (stake_weights (rs_m s) (pord (?ps vs)))" for vs
    using percents_ok [of "m_cfg (rs_m s)" "bs_Height block" vs]
    by (intro conjunct1 [OF stake_weights_ok])
      (simp_all add: map_order_distinct [OF assms(2)] map_order_set [OF assms(2)] mwf_def)
  from assms(1) consider "s' = s" | ps where "s' = s\<lparr>rs_proofs := ps\<rparr>"
    | ps vs where "distribute iord env block (stake_weights (rs_m s) (pord (?ps vs))) (s\<lparr>rs_proofs := ps\<rparr>) = (s', None)"
        "st_effective (stake_weights (rs_m s) (pord (?ps vs))) \<noteq> 0"
    by (auto simp: handleBlockReward_def Let_def split: if_splits sum.splits option.splits)
  then show ?thesis
  proof cases
    case 3
    show ?thesis
      by (rule distribute_total [OF 3(1) assms(3)]) (use assms w 3(2) p in simp_all)
  qed (use z p in simp_all)
qed

section \<open>A block whose reads succeed is handled\<close>

text \<open>No database call and no Redis read fails.\<close>

definition reads_ok :: "env \<Rightarrow> bool" where
  "reads_ok env \<longleftrightarrow> (\<forall>call. db_ok env call) \<and> (\<forall>key field. rd_HGet env key field \<noteq> RErr)"

lemma stageCommission_total: "reads_ok env \<Longrightarrow> \<exists>m'. stageCommissionRatioForHeight env h i dk tk tf m = Inr m'"
  by (auto simp: stageCommissionRatioForHeight_def loadDelayedCommissionRatio_def reads_ok_def
      split: option.splits rres.splits sum.splits)

lemma register_total: "reads_ok env \<Longrightarrow> \<exists>r. GetStakeIndexerRegisterByID env i = Inr r"
  by (simp add: GetStakeIndexerRegisterByID_def reads_ok_def)

lemma latestRatio_total:
  assumes "reads_ok env"
  shows "\<exists>r m'. getIndexerLatestRatio env h i m = Inr (r, m')"
proof -
  obtain m1 where 1: "(if h > 0 then stageCommissionRatioForHeight env h i (getIndexerInfoDelayedCommissionKey m)
      (getIndexerInfoKey m i) ''index_ratio'' m else Inr m) = Inr m1"
    using stageCommission_total [OF assms, of h i "getIndexerInfoDelayedCommissionKey m" "getIndexerInfoKey m i" "''index_ratio''" m]
    by (cases "h > 0") auto
  obtain reg where 2: "GetStakeIndexerRegisterByID env i = Inr reg" using register_total [OF assms] by blast
  have 3: "rd_HGet env (getIndexerInfoKey m i) ''index_ratio'' \<noteq> RErr" using assms by (simp add: reads_ok_def)
  show ?thesis
    unfolding getIndexerLatestRatio_def Let_def 1 using 2 3 by (auto split: option.split rres.split)
qed

lemma snapshotRatio_total:
  assumes "reads_ok env"
  shows "\<exists>r m'. getIndexerSnapshotRatio env h i m = Inr (r, m')"
proof -
  obtain sk dk where k: "snapshot_keys m = (sk, dk)" by (cases "snapshot_keys m")
  obtain m1 where 1: "stageCommissionRatioForHeight env h i dk sk i m = Inr m1" using stageCommission_total [OF assms] by blast
  obtain r m2 where 2: "getIndexerLatestRatio env h i m1 = Inr (r, m2)" using latestRatio_total [OF assms] by blast
  have 3: "rd_HGet env sk i \<noteq> RErr" using assms by (simp add: reads_ok_def)
  show ?thesis
    unfolding getIndexerSnapshotRatio_def k prod.case 1 sum.case using 2 3 by (auto split: option.split rres.split)
qed

lemma userAddress_total: "reads_ok env \<Longrightarrow> \<exists>u. getIndexerUserAddress env m i = Inr u"
  using register_total [of env "TrimSpace i"]
  by (auto simp: getIndexerUserAddress_def Let_def split: option.split)

lemma sum_case_total: "\<exists>a. x = Inr a \<Longrightarrow> (\<And>p. \<exists>y. f p = Inr y) \<Longrightarrow> \<exists>y. (case x of Inl e \<Rightarrow> g e | Inr p \<Rightarrow> f p) = Inr y"
  by auto

lemma indexer_step_total:
  assumes "reads_ok env"
  shows "\<exists>acc'. indexer_step env c acc e = Inr acc'"
proof -
  obtain m rows i w where e: "acc = (m, rows)" "e = (i, w)" by (cases acc, cases e)
  obtain r m1 where 1: "getIndexerSnapshotRatio env (rc_height c) i m = Inr (r, m1)" using snapshotRatio_total [OF assms] by blast
  have 2: "\<exists>acc'. indexer_own env c i w r own acc1 = Inr acc'" for own acc1
    using userAddress_total [OF assms, of "fst acc1" i] by (cases acc1) (auto simp: indexer_own_def)
  show ?thesis
    unfolding indexer_step_def e prod.case Let_def 1 sum.case by (rule sum_case_total [OF 2]) (simp split: prod.split)
qed

lemma indexer_loop_total: "reads_ok env \<Longrightarrow> \<exists>acc'. indexer_loop env c es acc = Inr acc'"
proof (induction es arbitrary: acc)
  case (Cons e es)
  obtain acc1 where "indexer_step env c acc e = Inr acc1" using indexer_step_total [OF Cons.prems] by blast
  with Cons show ?case by simp
qed simp

text \<open>The columns of the rows fit the table.\<close>

definition stake_columns_ok :: "StakeReward \<Rightarrow> bool" where
  "stake_columns_ok r \<longleftrightarrow> list_all bigint_ok [rw_StakeAmountSnapshot r, rw_IndexerTotalStake r, rw_StakeAmountEffective r,
     rw_PlatformTotalStake r, rw_TotalEffectiveStake r, rw_BlockRewardAmount r]"

definition ctx_columns_ok :: "reward_ctx \<Rightarrow> indexerStakeWeight \<Rightarrow> bool" where
  "ctx_columns_ok c w \<longleftrightarrow> list_all bigint_ok [iw_raw w, iw_effective w, st_raw (rc_totals c), st_effective (rc_totals c), rc_rewardAmount c]"

lemma reward_row_columns:
  "ctx_columns_ok c w \<Longrightarrow> bigint_ok n \<Longrightarrow> stake_columns_ok (reward_row_of c w r u i a ty n amt)"
  by (simp add: stake_columns_ok_def ctx_columns_ok_def reward_row_of_def)

lemma address_fold_columns:
  assumes "foldl (address_step c i w ratio pool) (m, rows) es = (m', rows')" "ctx_columns_ok c w"
    and "\<forall>(_, n) \<in> set es. bigint_ok n" "list_all stake_columns_ok rows"
  shows "list_all stake_columns_ok rows'"
  using assms
proof (induction es arbitrary: m rows)
  case (Cons e es)
  obtain u n where e: "e = (u, n)" by (cases e)
  obtain m1 rows1 where s: "address_step c i w ratio pool (m, rows) (u, n) = (m1, rows1)" by (cases "address_step c i w ratio pool (m, rows) (u, n)")
  have "list_all stake_columns_ok rows1"
    using s Cons.prems(2-4) by (auto simp: e address_step_def Let_def reward_row_columns split: if_splits prod.splits)
  with Cons s show ?case by (simp add: e)
qed simp

lemma indexer_loop_columns:
  assumes "indexer_loop env c es (m, rows) = Inr (m', rows')"
    and "\<forall>(i, w) \<in> set es. ctx_columns_ok c w \<and> (\<forall>(_, n) \<in> set (stakes_at m i). bigint_ok n)" "list_all stake_columns_ok rows"
  shows "list_all stake_columns_ok rows'"
  using assms
proof (induction es arbitrary: m rows)
  case (Cons e es)
  obtain i w where e: "e = (i, w)" by (cases e)
  from Cons.prems(1) obtain m1 rows1 where s: "indexer_step env c (m, rows) (i, w) = Inr (m1, rows1)"
    "indexer_loop env c es (m1, rows1) = Inr (m', rows')"
    by (auto simp: e split: sum.splits)
  from s(1) obtain ratio mr f g own m2 rows2 pool where 1: "getIndexerSnapshotRatio env (rc_height c) i m = Inr (ratio, mr)"
      "indexer_own env c i w ratio own (m_stage f (m_stage g mr), rows) = Inr (m2, rows2)"
      "foldl (address_step c i w ratio pool) (m2, rows2) (stakes_at m2 i) = (m1, rows1)"
    by (rule indexer_step_InrE)
  have ma: "same_stakes m (m_stage f (m_stage g mr))" using snapshotRatio_same [OF 1(1)] by simp
  then have m2: "same_stakes m m2" using indexer_own_extends [OF 1(2)] by (blast intro: same_stakes_trans)
  have w: "ctx_columns_ok c w" "\<forall>(_, n) \<in> set (stakes_at m i). bigint_ok n" using Cons.prems(2) by (auto simp: e)
  then have "list_all stake_columns_ok rows2"
    using 1(2) Cons.prems(3) by (auto simp: indexer_own_def ctx_columns_ok_def reward_row_columns split: if_splits sum.splits)
  then have r1: "list_all stake_columns_ok rows1"
    using m2 w by (intro address_fold_columns [OF 1(3)]) (auto simp: same_stakes_def)
  have "same_stakes m m1" using m2 address_fold_extends [OF 1(3)] by (blast intro: same_stakes_trans)
  then show ?case using Cons.prems(2) r1 by (intro Cons.IH [OF s(2)]) (auto simp: same_stakes_def)
qed simp

lemma row_of_columns: "stake_columns_ok r \<Longrightarrow> bigint_ok (rw_Amount r) \<Longrightarrow> row_of r \<noteq> None"
  by (simp add: row_of_def stake_columns_ok_def)

lemma batch_total: "\<forall>r \<in> set rows. row_of r \<noteq> None \<Longrightarrow> \<exists>t'. UpsertStakeAllocatedRewardBatch t rows = Some t'"
proof (induction rows rule: rev_induct)
  case Nil
  then show ?case by (simp add: UpsertStakeAllocatedRewardBatch_def)
next
  case (snoc r rows)
  then show ?case by (auto simp: UpsertStakeAllocatedRewardBatch_def upsertStakeAllocatedReward_def)
qed

lemma store_total_ok:
  assumes "reads_ok env" "\<forall>r \<in> set rows. row_of r \<noteq> None"
  shows "\<exists>s'. (if pendingRewardMode m then store_pending env h rows s else store_allocated env h u rows s) = (s', None)"
proof -
  have db: "db_ok env call" for call using assms(1) by (simp add: reads_ok_def)
  have sub: "\<exists>s'. subtractPendingRewardByHeight env h s = (s', None)" for s
    by (simp add: subtractPendingRewardByHeight_def db Let_def)
  have "\<exists>t'. UpsertStakeAllocatedRewardBatch t rows = Some t'" for t by (rule batch_total [OF assms(2)])
  then obtain t1 t2 where "UpsertStakeAllocatedRewardBatch (rs_allocated s) rows = Some t1"
    "UpsertStakeAllocatedRewardBatch (DeleteStakePendingRewardsByHeight (rs_pending s) h) rows = Some t2" by blast
  then show ?thesis using sub by (simp add: store_pending_def store_allocated_def db Let_def pending_batch_eq)
qed

lemma weights_columns:
  assumes "weights_ok m (rc_totals c)" "supply_ok m" "unat (rc_rewardAmount c) < 2 ^ 49" "(i, w) \<in> set (st_byIndexer (rc_totals c))"
  shows "ctx_columns_ok c w \<and> (\<forall>(_, n) \<in> set (stakes_at m i). bigint_ok n)"
proof -
  note ws = weights_sums [OF assms(1,2)]
  have t: "100 * (\<Sum>(_, amounts) \<leftarrow> indexerToAddrStakeAmount m. stake_sum amounts) < 2 ^ 64" using assms(2) by (simp add: supply_ok_def)
  have entry: "(i, stakes_at m i) \<in> set (indexerToAddrStakeAmount m)" using ws(3) [OF assms(4)] stakes_at_entry by blast
  then have "stake_sum (stakes_at m i) \<le> (\<Sum>(_, amounts) \<leftarrow> indexerToAddrStakeAmount m. stake_sum amounts)" by (rule stake_sum_le_total)
  with t ws(3,6) [OF assms(4)] ws(4,5) assms(3) have "ctx_columns_ok c w"
    by (simp add: ctx_columns_ok_def bigint_ok_def)
  moreover have "\<forall>(_, n) \<in> set (stakes_at m i). bigint_ok n"
    using assms(2) entry by (fastforce simp: supply_ok_def bigint_ok_def)
  ultimately show ?thesis ..
qed

lemma paid_member: "r \<in> set rows \<Longrightarrow> unat (rw_Amount r) \<le> paid rows"
  unfolding paid_def by (rule member_le_sum_list) auto

lemma distribute_ok:
  assumes "reads_ok env" "map_order iord" "cfg_wf (m_cfg (rs_m s))" "release_normal (m_cfg (rs_m s))"
    and "supply_ok (rs_m s)" "weights_ok (rs_m s) totals" "st_effective totals \<noteq> 0"
    and "Stage2StartHeight (m_cfg (rs_m s)) \<le> bs_Height block" "unat (bs_CoinbaseReward block) < 2 ^ 49"
  shows "\<exists>s'. distribute iord env block totals s = (s', None)"
proof -
  let ?cfg = "m_cfg (rs_m s)" and ?h = "bs_Height block"
  define p where "p = resolveRewardReleasePercent ?cfg ?h"
  define u where "u = quantizeReward (f64_div (f64_mul (f64_of_u64 (bs_CoinbaseReward block)) p) 100) True"
  have tr: "shouldUseRewardTruncation ?cfg ?h" using assms(8) by (simp add: shouldUseRewardTruncation_def)
  have u: "unat u \<le> unat (bs_CoinbaseReward block)"
    unfolding u_def p_def by (intro unlocked_le release_percent assms)
  define s0 where "s0 = s\<lparr>rs_m := m_stageHSet GetStakeIndexerStatusKey [(stakeStatusRewardReleasePercentField, HFloat p)] (rs_m s)\<rparr>"
  define c where "c = \<lparr>rc_height = ?h, rc_rewardAmount = bs_CoinbaseReward block, rc_releasePercent = p,
    rc_useTruncation = True, rc_unlocked = u, rc_totals = totals\<rparr>"
  have c: "rc_totals c = totals" "rc_useTruncation c" "rc_unlocked c = u" "rc_rewardAmount c = bs_CoinbaseReward block" by (simp_all add: c_def)
  have same: "same_stakes (rs_m s) (rs_m s0)" by (simp add: s0_def)
  have w0: "weights_ok (rs_m s0) (rc_totals c)" "supply_ok (rs_m s0)"
    using assms(5,6) supply_ok_same [OF same] by (simp_all add: c s0_def weights_ok_def raw_stake_def getIndexerStakeAmount_def)
  obtain m rows where l: "indexer_loop env c (iord (st_byIndexer (rc_totals c))) (rs_m s0, []) = Inr (m, rows)"
    using indexer_loop_total [OF assms(1)] by (metis surj_pair)
  have a: "paid rows \<le> unat u"
    using allocation_le [OF l assms(2) w0] assms(7,9) u by (simp add: c)
  have "\<forall>(i, w) \<in> set (iord (st_byIndexer (rc_totals c))). ctx_columns_ok c w \<and> (\<forall>(_, n) \<in> set (stakes_at (rs_m s0) i). bigint_ok n)"
  proof
    fix e assume e: "e \<in> set (iord (st_byIndexer (rc_totals c)))"
    obtain i w where iw: "e = (i, w)" by (cases e)
    then show "case e of (i, w) \<Rightarrow> ctx_columns_ok c w \<and> (\<forall>(_, n) \<in> set (stakes_at (rs_m s0) i). bigint_ok n)"
      using weights_columns [OF w0, of i w] e assms(9) by (simp add: c map_order_set [OF assms(2)])
  qed
  then have "list_all stake_columns_ok rows" by (intro indexer_loop_columns [OF l]) simp_all
  moreover have "bigint_ok (rw_Amount r)" if "r \<in> set rows" for r
    using paid_member [OF that] a u assms(9) by (simp add: bigint_ok_def)
  ultimately have ok: "\<forall>r \<in> set rows. row_of r \<noteq> None" by (simp add: list_all_iff row_of_columns)
  note d = distribute_def [of iord env block totals s, unfolded Let_def eqTrueI [OF tr], folded p_def, folded u_def s0_def, folded c_def]
  show ?thesis
    unfolding d using l store_total_ok [OF assms(1) ok, of m ?h "s0\<lparr>rs_m := m\<rparr>" u] by (simp add: c)
qed

lemma block_handled:
  assumes "reads_ok env" "resolveProofHashInputs env ce (bs_Height block) = Inr (bh, sh)" "TrimSpace bh \<noteq> ''''" "TrimSpace sh \<noteq> ''''"
    and "map_order pord" "map_order iord" "cfg_wf (m_cfg (rs_m s))" "release_normal (m_cfg (rs_m s))" "supply_ok (rs_m s)"
    and "Stage2StartHeight (m_cfg (rs_m s)) \<le> bs_Height block" "unat (bs_CoinbaseReward block) < 2 ^ 49"
  shows "\<exists>s'. handleBlockReward gord pord iord env ce block s = Some (s', None)"
proof -
  let ?cfg = "m_cfg (rs_m s)" and ?h = "bs_Height block"
  obtain win where win: "resolveRewardProofWindow ?cfg ?h = Some win"
    using RewardProofWindowByHeight_total [OF assms(7)] by (auto simp: resolveRewardProofWindow_def)
  have "db_ok env (QProofs ?h)" using assms(1) by (simp add: reads_ok_def)
  obtain vs0 us where "resolveStakeProofValidity gord (ListStakeProofByProveHeight (rs_proofs s) ?h win) bh sh (validity_rules ?cfg) = Inr (vs0, us)"
    using assms(3,4) unfolding resolveStakeProofValidity_def Let_def by (simp, metis surj_pair)
  with \<open>db_ok env (QProofs ?h)\<close> have "\<exists>vs ps. resolveStakeProofValidityForReward gord env ?h bh sh s = Some (Inr (vs, ps))"
    by (simp add: resolveStakeProofValidityForReward_def win resolveStakeProofValidityByProveHeight_def Let_def)
  then obtain vs ps where v: "resolveStakeProofValidityForReward gord env ?h bh sh s = Some (Inr (vs, ps))" by blast
  let ?ps = "resolveRewardStakePercentByIndexer ?cfg ?h vs"
  have w: "weights_ok (rs_m s) (stake_weights (rs_m s) (pord ?ps))"
    using percents_ok [of ?cfg ?h vs]
    by (intro conjunct1 [OF stake_weights_ok])
      (simp_all add: map_order_distinct [OF assms(5)] map_order_set [OF assms(5)] mwf_def)
  have "\<exists>s'. distribute iord env block (stake_weights (rs_m s) (pord ?ps)) (s\<lparr>rs_proofs := ps\<rparr>) = (s', None)"
    if "st_effective (stake_weights (rs_m s) (pord ?ps)) \<noteq> 0"
    by (rule distribute_ok [OF assms(1,6)]) (use assms w that in simp_all)
  then show ?thesis by (simp add: handleBlockReward_def assms(2) v Let_def)
qed


text \<open>An indexer with one staker and a proof on time.\<close>

definition sample_env :: env where
  "sample_env = \<lparr>db_ok = \<lambda>_. True, db_registers = [], db_bindings = [], rd_HGet = \<lambda>_ _. RNil, rd_Get = \<lambda>_. RNil\<rparr>"

definition sample_chain :: chain_env where
  "sample_chain = \<lparr>ce_SyncBlocks = [(sample_block 1930000)\<lparr>syb_BlockHash := ''aa''\<rparr>], ce_BlockHashRPC = \<lambda>_. None,
     ce_http = \<lambda>_ _. Reply 200 (Some \<lparr>qe_Code = 0, qe_Msg = '''', qe_Detail = [\<lparr>hs_BlockHash = ''aa'', hs_StateHash = ''bb''\<rparr>]\<rparr>),
     ce_client = Init_client ''http://state'' '''' 0\<rparr>"

definition sample_state :: rstate where
  "sample_state =
     \<lparr>rs_m = (newManagerWithMode DefaultConfig False)\<lparr>indexerToAddrStakeAmount := [(''9:1'', [(''bc1user'', 100000)])],
        stakeAddrToIndexer := [(''bc1stake'', \<lparr>sa_Address = ''bc1user'', sa_IndexerID = ''9:1''\<rparr>)]\<rparr>,
      rs_proofs = [\<lparr>sp_IndexerID = ''9:1'', sp_ProveBlockHeight = 1930000, sp_ProveDataHash = computeStakeProofHash ''9:1'' ''aa'' ''bb'',
        sp_TxID = ''cc'', sp_Height = 1930001, sp_TxIdx = 1, sp_VerifyStatus = 0\<rparr>],
      rs_allocated = [], rs_pending = []\<rparr>"

definition sample_snapshot :: BlockSnapshot where
  "sample_snapshot = \<lparr>bs_Height = 1930000, bs_HashHex = ''aa'', bs_Version = 0x20260100, bs_CoinbaseReward = 2500000000, bs_Txs = []\<rparr>"

lemma sample_facts:
  "reads_ok sample_env" "resolveProofHashInputs sample_env sample_chain (bs_Height sample_snapshot) = Inr (''aa'', ''bb'')"
  "TrimSpace ''aa'' \<noteq> ''''" "TrimSpace ''bb'' \<noteq> ''''"
  "map_order (id :: (string \<times> u64) list \<Rightarrow> _)" "map_order (id :: (string \<times> indexerStakeWeight) list \<Rightarrow> _)"
  "cfg_wf (m_cfg (rs_m sample_state))" "release_normal (m_cfg (rs_m sample_state))" "supply_ok (rs_m sample_state)"
  "Stage2StartHeight (m_cfg (rs_m sample_state)) \<le> bs_Height sample_snapshot" "unat (bs_CoinbaseReward sample_snapshot) < 2 ^ 49"
proof -
  show "reads_ok sample_env" by (simp add: reads_ok_def sample_env_def)
  show "resolveProofHashInputs sample_env sample_chain (bs_Height sample_snapshot) = Inr (''aa'', ''bb'')"
    "TrimSpace ''aa'' \<noteq> ''''" "TrimSpace ''bb'' \<noteq> ''''" by code_simp+
  show "cfg_wf (m_cfg (rs_m sample_state))" using DefaultConfig_wf by (simp add: sample_state_def newManagerWithMode_def)
  show "release_normal (m_cfg (rs_m sample_state))"
    by (simp add: release_normal_def sample_state_def newManagerWithMode_def DefaultConfig_def defaultRewardReleaseTiers_def)
  show "supply_ok (rs_m sample_state)" by (simp add: supply_ok_def stake_sum_def sample_state_def mwf_def)
  show "Stage2StartHeight (m_cfg (rs_m sample_state)) \<le> bs_Height sample_snapshot" "unat (bs_CoinbaseReward sample_snapshot) < 2 ^ 49"
    by (simp_all add: sample_state_def newManagerWithMode_def DefaultConfig_def sample_snapshot_def)
qed simp_all


theorem block_reward_bounded_witness:
  "\<exists>s'. handleBlockReward id id id sample_env sample_chain sample_snapshot sample_state = Some (s', None) \<and>
    height_total (reward_table_of s') (bs_Height sample_snapshot) \<le> 2500000000"
proof -
  obtain s' where "handleBlockReward id id id sample_env sample_chain sample_snapshot sample_state = Some (s', None)"
    using block_handled [OF sample_facts] by blast
  moreover from block_reward_bounded [OF this sample_facts(5-11)]
  have "height_total (reward_table_of s') (bs_Height sample_snapshot) \<le> 2500000000"
    by (simp add: sample_state_def reward_table_of_def newManagerWithMode_def sample_snapshot_def)
  ultimately show ?thesis by blast
qed

end
