(* ===== verification/Mempool.thy ===== *)
theory Mempool
  imports Submit
begin

text \<open>
  The mempool view (\<^verbatim>\<open>internal/entry/mempool\<close>, \<^verbatim>\<open>internal/exec/manager/mempool_protocol_sync.go\<close>, \<^verbatim>\<open>mempool_sync_entry.go\<close>,
  \<^verbatim>\<open>internal/component/pg/stake_mempool_events.go\<close>): at the tip of the chain the unconfirmed transactions are parsed, checked like confirmed
  ones and shown as events, with the stake they would move. \<open>None\<close> is a panic. Hash fields of Redis hold decimal numbers and are
  integers here; a pipeline is executed completely or not at all.
\<close>

definition MEMPOOL_HEIGHT :: u32 where "MEMPOOL_HEIGHT = - 1"

text \<open>\<^verbatim>\<open>StakeMempoolEvent\<close> has the fields of \<^verbatim>\<open>FIP101InscriptionEvent\<close>.\<close>

type_synonym StakeMempoolEvent = FIP101InscriptionEvent

section \<open>The event table\<close>

text \<open>One row per transaction.\<close>

definition UpsertStakeMempoolEvent :: "StakeMempoolEvent \<Rightarrow> StakeMempoolEvent list \<Rightarrow> StakeMempoolEvent list option" where
  "UpsertStakeMempoolEvent item t =
     (if \<not> bigint_ok (ev_Amount item) \<or> \<not> bigint_ok (ev_BizInvalidFlags item) then None
      else if ev_TxID item \<in> set (map ev_TxID t)
      then Some (map (\<lambda>r. if ev_TxID r = ev_TxID item then item else r) t)
      else Some (t @ [item]))"

definition ListStakeMempoolEventTxIDs :: "StakeMempoolEvent list \<Rightarrow> string list" where
  "ListStakeMempoolEventTxIDs t = map ev_TxID t"

text \<open>Deletion in statements of 500 identifiers; \<open>ok\<close> is the outcome of a statement.\<close>

function delete_chunks :: "(string list \<Rightarrow> bool) \<Rightarrow> string list \<Rightarrow> StakeMempoolEvent list \<Rightarrow> StakeMempoolEvent list \<times> bool" where
  "delete_chunks ok txIDs t =
     (if txIDs = [] then (t, True)
      else if \<not> ok (take 500 txIDs) then (t, False)
      else delete_chunks ok (drop 500 txIDs) (filter (\<lambda>e. ev_TxID e \<notin> set (take 500 txIDs)) t))"
  by pat_completeness auto
termination
  by (relation "measure (\<lambda>(_, txIDs, _). length txIDs)") auto

declare delete_chunks.simps [simp del]

definition DeleteStakeMempoolEventsByTxIDs :: "(string list \<Rightarrow> bool) \<Rightarrow> string list \<Rightarrow> StakeMempoolEvent list \<Rightarrow> StakeMempoolEvent list \<times> bool" where
  "DeleteStakeMempoolEventsByTxIDs ok txIDs t = delete_chunks ok txIDs t"

definition matching_events :: "string \<Rightarrow> string \<Rightarrow> string \<Rightarrow> string \<Rightarrow> StakeMempoolEvent list \<Rightarrow> StakeMempoolEvent list" where
  "matching_events op userAddress rewardAddress indexerID t =
     (let is_or_any = (\<lambda>wanted v. TrimSpace wanted = '''' \<or> v = TrimSpace wanted) in
      filter (\<lambda>e. ev_BizInvalidFlags e = 0 \<and> is_or_any op (ev_Op e) \<and> is_or_any userAddress (ev_UserAddress e) \<and>
        is_or_any rewardAddress (ev_RewardAddress e) \<and> is_or_any indexerID (ev_IndexerID e)) t)"

text \<open>Newest first, one page.\<close>

definition ListStakeMempoolEvents ::
    "StakeMempoolEvent list \<Rightarrow> string \<Rightarrow> string \<Rightarrow> string \<Rightarrow> string \<Rightarrow> int \<Rightarrow> int \<Rightarrow> StakeMempoolEvent list" where
  "ListStakeMempoolEvents t op userAddress rewardAddress indexerID limit0 offset =
     (let limit = (if limit0 \<le> 0 then 50 else if limit0 > 1000 then 1000 else limit0) in
      take (nat limit) (drop (nat offset) (rev (sort_key (\<lambda>e. (ev_TxIdx e, ev_TxID e))
        (matching_events op userAddress rewardAddress indexerID t)))))"

definition CountStakeMempoolEvents :: "StakeMempoolEvent list \<Rightarrow> string \<Rightarrow> string \<Rightarrow> string \<Rightarrow> string \<Rightarrow> nat" where
  "CountStakeMempoolEvents t op userAddress rewardAddress indexerID = length (matching_events op userAddress rewardAddress indexerID t)"

definition DeleteStakeMempoolEventsAll :: "StakeMempoolEvent list \<Rightarrow> StakeMempoolEvent list" where
  "DeleteStakeMempoolEventsAll t = []"

text \<open>The inscription events of the mempool are the rows with the mempool height.\<close>

definition ListMempoolFIP101InscriptionEventTxIDs :: "FIP101InscriptionEvent list \<Rightarrow> string list" where
  "ListMempoolFIP101InscriptionEventTxIDs t =
     filter (\<lambda>txid. txid \<noteq> '''') (map (\<lambda>txid. TrimSpace (ToLower txid))
       (remdups (map ev_TxID (filter (\<lambda>e. ev_Height e = uint MEMPOOL_HEIGHT) t))))"

definition DeleteMempoolFIP101InscriptionEventsByTxIDs :: "string list \<Rightarrow> FIP101InscriptionEvent list \<Rightarrow> FIP101InscriptionEvent list" where
  "DeleteMempoolFIP101InscriptionEventsByTxIDs txIDs t =
     (let cleaned = filter (\<lambda>txid. txid \<noteq> '''') (map (\<lambda>txid. TrimSpace (ToLower txid)) txIDs) in
      filter (\<lambda>e. \<not> (ev_Height e = uint MEMPOOL_HEIGHT \<and> ev_TxID e \<in> set cleaned)) t)"

section \<open>Reading the mempool\<close>

definition isLikelyTxIDHex :: "string \<Rightarrow> bool" where
  "isLikelyTxIDHex raw0 =
     (let raw = TrimSpace raw0 in
      length raw = 64 \<and> list_all (\<lambda>ch. CHR ''0'' \<le> ch \<and> ch \<le> CHR ''9'' \<or> CHR ''a'' \<le> ch \<and> ch \<le> CHR ''f'' \<or> CHR ''A'' \<le> ch \<and> ch \<le> CHR ''F'') raw)"

definition normalizeMempoolEntries :: "string list \<Rightarrow> string list \<times> bool" where
  "normalizeMempoolEntries entries =
     (let trimmed = filter (\<lambda>item. item \<noteq> '''') (map TrimSpace entries) in
      if trimmed = [] then ([], False) else (trimmed, list_all isLikelyTxIDHex (take 8 trimmed)))"

datatype mempool_error = BadHex | BadTx | LengthMismatch

text \<open>A panic while the transaction is parsed is caught; a panic while its identifier is computed is not.\<close>

definition parseRawTxSafe :: "byte list \<Rightarrow> mempool_error + Tx \<times> nat" where
  "parseRawTxSafe raw =
     (case NewTx raw of
        None \<Rightarrow> Inl BadTx
      | Some (tx, offset) \<Rightarrow> if offset = 0 then Inl BadTx else Inr (tx, offset))"

definition decodeRawMempoolTx :: "string \<Rightarrow> (mempool_error + Tx option) option" where
  "decodeRawMempoolTx rawHex0 =
     (let rawHex = TrimSpace rawHex0 in
      if rawHex = '''' then Some (Inr None)
      else case hex_decode rawHex of
        None \<Rightarrow> Some (Inl BadHex)
      | Some raw \<Rightarrow>
          if raw = [] then Some (Inr None)
          else case parseRawTxSafe raw of
            Inl e \<Rightarrow> Some (Inl e)
          | Inr (tx, txOffset) \<Rightarrow>
              if txOffset < length raw \<and> \<not> (txOffset = length raw - 1 \<and> index raw txOffset = Some 1) then Some (Inl LengthMismatch)
              else
                let raw = (if txOffset < length raw then take txOffset raw else raw) in
                map_option (\<lambda>txid. Inr (Some (tx\<lparr>mt_Raw := raw, mt_TxId := txid, mt_TxIdHex := HashString txid\<rparr>)))
                  (if mt_WitOffset tx > 0 then GetWitnessHash256 raw (mt_WitOffset tx) else Some (GetHash256 raw)))"

text \<open>What a synchronisation finds outside: the address decoder, the Bitcoin library, the reads of the manager, the node's answers, the
  output database (a failing read and a missing key are both \<open>None\<close>), snappy, and the confirmed stakers of an indexer.\<close>

record mempool_env =
  me_addrs :: addrs
  me_btc :: btc
  me_env :: env
  me_order :: "string list \<Rightarrow> string list"
  me_blockHash :: "u32 \<Rightarrow> string option"
  me_rawMempool :: "string \<Rightarrow> string list option"
  me_rawTx :: "string \<Rightarrow> string option"
  me_utxo :: "string \<rightharpoonup> byte list"
  me_snappy :: "byte list \<Rightarrow> byte list option"
  me_stakers :: "string \<Rightarrow> (string \<times> f64) list option"

type_synonym outpoint_cache = "(string, string \<times> u64) gomap"

text \<open>The address and value of a spent output and the updated cache.\<close>

definition loadInputAddressAndSatoshiFromMempool ::
    "mempool_env \<Rightarrow> outpoint_cache \<Rightarrow> TxIn \<Rightarrow> ((string \<times> u64) option \<times> outpoint_cache) option" where
  "loadInputAddressAndSatoshiFromMempool e cache i =
     (let parentTxID = ToLower (TrimSpace (ti_InputHashHex i)) in
      if ti_InputOutpointKey i = '''' \<or> parentTxID = '''' then Some (None, cache)
      else case me_rawTx e parentTxID of
        None \<Rightarrow> Some (None, cache)
      | Some rawHex \<Rightarrow>
        (case decodeRawMempoolTx rawHex of
           None \<Rightarrow> None
         | Some (Inr (Some parentTx)) \<Rightarrow>
             if unat (ti_InputVout i) \<ge> length (mt_TxOuts parentTx) then Some (None, cache)
             else
               let out = mt_TxOuts parentTx ! unat (ti_InputVout i); address = TrimSpace (AddressFromPkScript (me_addrs e) (to_PkScript out)) in
               if address = '''' then Some (None, cache)
               else Some (Some (address, to_Satoshi out), mput cache (ti_InputOutpointKey i) (address, to_Satoshi out))
         | Some _ \<Rightarrow> Some (None, cache)))"

definition cached_input :: "outpoint_cache \<Rightarrow> TxIn \<Rightarrow> (string \<times> u64) option" where
  "cached_input cache i =
     (case mget cache (ti_InputOutpointKey i) of
        Some (address, satoshi) \<Rightarrow> if TrimSpace address \<noteq> '''' then Some (TrimSpace address, satoshi) else None
      | None \<Rightarrow> None)"

definition stored_input :: "mempool_env \<Rightarrow> TxIn \<Rightarrow> (string \<times> u64) option" where
  "stored_input e i =
     (case me_utxo e (ti_InputOutpointKey i) of
        Some raw \<Rightarrow>
          if raw = [] then None
          else (case TxoData_Unmarshal (me_snappy e) raw of
             Some d \<Rightarrow>
               let address = TrimSpace (AddressFromTxoData (me_addrs e) (Some d)) in
               if address \<noteq> '''' then Some (address, td_Satoshi d) else None
           | None \<Rightarrow> None)
      | None \<Rightarrow> None)"

definition loadInputAddressAndSatoshi :: "mempool_env \<Rightarrow> outpoint_cache \<Rightarrow> TxIn \<Rightarrow> ((string \<times> u64) option \<times> outpoint_cache) option" where
  "loadInputAddressAndSatoshi e cache i =
     (if ti_InputOutpointKey i = '''' then Some (None, cache)
      else case cached_input cache i of
        Some r \<Rightarrow> Some (Some r, cache)
      | None \<Rightarrow>
        (case stored_input e i of
           Some r \<Rightarrow> Some (Some r, mput cache (ti_InputOutpointKey i) r)
         | None \<Rightarrow> loadInputAddressAndSatoshiFromMempool e cache i))"

definition addPendingStakeDelta :: "(string, int) gomap \<Rightarrow> string \<Rightarrow> int \<Rightarrow> (string, int) gomap" where
  "addPendingStakeDelta deltas address delta = (if address = '''' \<or> delta = 0 then deltas else add_delta deltas address delta)"

fun input_deltas :: "mempool_env \<Rightarrow> string set \<Rightarrow> TxIn list \<Rightarrow> (string, int) gomap \<times> outpoint_cache \<Rightarrow> ((string, int) gomap \<times> outpoint_cache) option" where
  "input_deltas e tracked [] st = Some st"
| "input_deltas e tracked (i # is) (deltas, cache) =
     (case loadInputAddressAndSatoshi e cache i of
        None \<Rightarrow> None
      | Some (None, cache) \<Rightarrow> input_deltas e tracked is (deltas, cache)
      | Some (Some (address, satoshi), cache) \<Rightarrow>
          input_deltas e tracked is
            (if address \<in> tracked then addPendingStakeDelta deltas address (- sint satoshi) else deltas, cache))"

definition output_delta :: "mempool_env \<Rightarrow> string set \<Rightarrow> TxOut \<Rightarrow> (string, int) gomap \<Rightarrow> (string, int) gomap" where
  "output_delta e tracked out deltas =
     (let address = TrimSpace (AddressFromPkScript (me_addrs e) (to_PkScript out)) in
      if address = '''' \<or> address \<notin> tracked then deltas else addPendingStakeDelta deltas address (sint (to_Satoshi out)))"

text \<open>\<open>tracked\<close> are the addresses that count: the confirmed stake addresses or those bound by the mempool for the first time.\<close>

definition accumulateMempoolStakeBalanceDeltaByAddresses ::
    "mempool_env \<Rightarrow> string \<Rightarrow> string set \<Rightarrow> (string, int) gomap \<times> outpoint_cache
      \<Rightarrow> (mempool_error + (string, int) gomap \<times> outpoint_cache) option" where
  "accumulateMempoolStakeBalanceDeltaByAddresses e rawHex tracked st =
     (if tracked = {} then Some (Inr st)
      else case decodeRawMempoolTx rawHex of
        None \<Rightarrow> None
      | Some (Inl err) \<Rightarrow> Some (Inl err)
      | Some (Inr None) \<Rightarrow> Some (Inr st)
      | Some (Inr (Some tx)) \<Rightarrow>
          map_option (\<lambda>(deltas, cache). Inr (fold (output_delta e tracked) (mt_TxOuts tx) deltas, cache))
            (input_deltas e tracked (mt_TxIns tx) st))"

definition confirmed_addresses :: "Manager \<Rightarrow> string set" where
  "confirmed_addresses m = set (map fst (stakeAddrToIndexer m))"

definition accumulateMempoolStakeBalanceDelta ::
    "mempool_env \<Rightarrow> Manager \<Rightarrow> string \<Rightarrow> (string, int) gomap \<times> outpoint_cache
      \<Rightarrow> (mempool_error + (string, int) gomap \<times> outpoint_cache) option" where
  "accumulateMempoolStakeBalanceDelta e m rawHex st =
     accumulateMempoolStakeBalanceDeltaByAddresses e rawHex (confirmed_addresses m) st"

fun fill_inputs :: "mempool_env \<Rightarrow> TxIn list \<Rightarrow> InputSnapshot list \<Rightarrow> outpoint_cache \<Rightarrow> (InputSnapshot list \<times> outpoint_cache) option" where
  "fill_inputs e rawIns [] cache = Some ([], cache)"
| "fill_inputs e rawIns (i # is) cache =
     (if unat (in_InputIdx i) \<ge> length rawIns then map_option (\<lambda>(r, c). (i # r, c)) (fill_inputs e rawIns is cache)
      else case loadInputAddressAndSatoshi e cache (rawIns ! unat (in_InputIdx i)) of
        None \<Rightarrow> None
      | Some (info, cache) \<Rightarrow>
          let i = (case info of
            Some (address, satoshi) \<Rightarrow>
              if TrimSpace address = '''' then i else i\<lparr>in_AddressKey := TrimSpace address, in_Satoshi := satoshi\<rparr>
          | None \<Rightarrow> i) in
          map_option (\<lambda>(r, c). (i # r, c)) (fill_inputs e rawIns is cache))"

definition fillTxInputAddressesFromMempoolTx ::
    "mempool_env \<Rightarrow> TxSnapshot \<Rightarrow> Tx \<Rightarrow> outpoint_cache \<Rightarrow> (TxSnapshot \<times> outpoint_cache) option" where
  "fillTxInputAddressesFromMempoolTx e tx rawTx cache =
     (if mt_TxIns rawTx = [] then Some (tx, cache)
      else map_option (\<lambda>(is, c). (tx\<lparr>tx_Inputs := is\<rparr>, c)) (fill_inputs e (mt_TxIns rawTx) (tx_Inputs tx) cache))"

definition parseMempoolProtocolTx ::
    "mempool_env \<Rightarrow> string \<Rightarrow> u32 \<Rightarrow> outpoint_cache \<Rightarrow> (mempool_error + ParsedProtocolTx option \<times> outpoint_cache) option" where
  "parseMempoolProtocolTx e rawHex txIdx cache =
     (case decodeRawMempoolTx rawHex of
        None \<Rightarrow> None
      | Some (Inl err) \<Rightarrow> Some (Inl err)
      | Some (Inr None) \<Rightarrow> Some (Inr (None, cache))
      | Some (Inr (Some tx)) \<Rightarrow>
        (case ParseProtocolTxFromModelTx (me_addrs e) (me_btc e) tx txIdx (uint MEMPOOL_HEIGHT) of
           None \<Rightarrow> None
         | Some None \<Rightarrow> Some (Inr (None, cache))
         | Some (Some parsed) \<Rightarrow>
             map_option (\<lambda>(tx, c). Inr (Some (parsed\<lparr>pp_Snapshot := tx\<rparr>), c))
               (fillTxInputAddressesFromMempoolTx e (pp_Snapshot parsed) tx cache)))"

section \<open>Events\<close>

text \<open>The event of an operation without the fields its handler fills in.\<close>

definition bare_event :: "ParsedProtocolTx \<Rightarrow> string \<Rightarrow> string \<Rightarrow> u64 \<Rightarrow> StakeMempoolEvent" where
  "bare_event parsed op indexerID flags =
     \<lparr>ev_TxID = tx_TxID (pp_Snapshot parsed), ev_Op = op, ev_Height = uint MEMPOOL_HEIGHT,
      ev_InscriptionContent = ev_InscriptionContent (pp_Event parsed), ev_IndexerID = indexerID, ev_UserAddress = '''', ev_RewardAddress = '''',
      ev_StakeAddress = '''', ev_Amount = 0, ev_IndexRatio = 0, ev_IndexerName = '''', ev_ProveBlockHeight = 0, ev_ProveDataHash = '''',
      ev_BizInvalidFlags = flags, ev_TxIdx = tx_TxIdx (pp_Snapshot parsed)\<rparr>"

text \<open>The switch over the tag: the event to add, if any, and the transaction of a proof that was built. Every operation is checked at the
  height of the tip.\<close>

definition mempool_event :: "mempool_env \<Rightarrow> u32 \<Rightarrow> ParsedProtocolTx \<Rightarrow> u64 \<Rightarrow> Manager \<Rightarrow> StakeMempoolEvent option \<times> string option" where
  "mempool_event e tipHeight parsed flags m =
     (let tx = pp_Snapshot parsed; payload = pp_Payload parsed; tag = pl_Tag payload;
          indexerID = TrimSpace (payload_Get payload [OpFieldIndexerID]) in
      if tag = TagProveStake then
        let event = bare_event parsed TagProveStake indexerID flags in
        if flags \<noteq> BizInvalidNone then (Some event, None)
        else (case buildStakeProofAtHeight (me_env e) tipHeight MEMPOOL_HEIGHT tx payload m of
           Inr (Some proof) \<Rightarrow>
             (Some (event\<lparr>ev_IndexerID := sp_IndexerID proof, ev_ProveBlockHeight := sp_ProveBlockHeight proof,
                ev_ProveDataHash := sp_ProveDataHash proof\<rparr>), Some (sp_TxID proof))
         | _ \<Rightarrow> (Some (event\<lparr>ev_BizInvalidFlags := BizInvalidProofRule\<rparr>), None))
      else if tag = TagRegister then
        (Some ((bare_event parsed TagRegister '''' flags)\<lparr>ev_UserAddress := TrimSpace (payload_Get payload [OpFieldActorAddr]),
           ev_RewardAddress := TrimSpace (payload_Get payload [OpFieldRewardAddr]),
           ev_IndexRatio := (case ParseRatio (payload_Get payload [OpFieldIndexRatio]) of None \<Rightarrow> 0 | Some r \<Rightarrow> r),
           ev_IndexerName := TrimSpace (payload_Get payload [OpFieldIndexerName])\<rparr>), None)
      else if tag = TagStake then
        let event = bare_event parsed TagStake indexerID flags in
        if flags \<noteq> BizInvalidNone then (Some event, None)
        else (case validateStakeTxWithPayload (me_env e) (me_btc e) tipHeight tx payload m of
           Inr (Some binding) \<Rightarrow>
             (Some (event\<lparr>ev_IndexerID := stb_IndexerID binding, ev_UserAddress := stb_UserAddress binding,
                ev_StakeAddress := stb_StakeAddress binding, ev_Amount := stb_Amount binding\<rparr>), None)
         | _ \<Rightarrow> (Some (event\<lparr>ev_BizInvalidFlags := BizInvalidStakeRule\<rparr>), None))
      else if tag = TagPledgedReward then
        let event = bare_event parsed TagPledgedReward '''' flags in
        if flags \<noteq> BizInvalidNone then (Some event, None)
        else (case buildStakeClaimedReward (me_env e) MEMPOOL_HEIGHT tx payload m of
           Inr (Some item) \<Rightarrow>
             if IsEarlySupporterClaimRewardType (cr_RewardType item) then (None, None)
             else (Some (event\<lparr>ev_UserAddress := cr_UserAddress item, ev_Amount := cr_Amount item\<rparr>), None)
         | _ \<Rightarrow> (Some (event\<lparr>ev_BizInvalidFlags := BizInvalidClaimRule\<rparr>), None))
      else if tag = TagAllocatRatio then
        let event = bare_event parsed TagAllocatRatio indexerID flags in
        if flags \<noteq> BizInvalidNone then (Some event, None)
        else (case validateUpdateRatioTx (me_env e) tipHeight payload m of
           Inl _ \<Rightarrow> (Some (event\<lparr>ev_BizInvalidFlags := BizInvalidUnknown\<rparr>), None)
         | Inr None \<Rightarrow> (Some (event\<lparr>ev_BizInvalidFlags := BizInvalidActorNotOwner OR BizInvalidIndexerNotFound\<rparr>), None)
         | Inr (Some (i, ratio)) \<Rightarrow> (Some (event\<lparr>ev_IndexerID := i, ev_IndexRatio := ratio\<rparr>), None))
      else (None, None))"

record ProtocolSyncStats =
  MempoolTxs :: nat
  ProtocolTxs :: nat
  ProofTxs :: nat
  Upserted :: nat
  Removed :: nat

text \<open>What the loop over the mempool accumulates. The sets of current transactions are those of the events collected.\<close>

record sync_acc =
  ac_m :: Manager
  ac_cache :: outpoint_cache
  ac_deltas :: "(string, int) gomap"
  ac_events :: "StakeMempoolEvent list"
  ac_inscriptions :: "FIP101InscriptionEvent list"
  ac_proofs :: "string list"
  ac_protocol :: nat
  ac_incomplete :: bool
  ac_parseIncomplete :: bool

definition fetch_entry :: "mempool_env \<Rightarrow> bool \<Rightarrow> string \<Rightarrow> string option" where
  "fetch_entry e txidMode entry =
     (if \<not> txidMode then Some entry
      else case me_rawTx e (ToLower (TrimSpace entry)) of
        None \<Rightarrow> None
      | Some fetched \<Rightarrow> if TrimSpace fetched = '''' then None else Some (TrimSpace fetched))"

text \<open>One entry of the mempool.\<close>

definition sync_entry :: "mempool_env \<Rightarrow> u32 \<Rightarrow> bool \<Rightarrow> nat \<times> string \<Rightarrow> sync_acc \<Rightarrow> sync_acc option" where
  "sync_entry e tipHeight txidMode ie a =
     (case fetch_entry e txidMode (snd ie) of
        None \<Rightarrow> Some (a\<lparr>ac_incomplete := True\<rparr>)
      | Some rawHex \<Rightarrow>
        (case accumulateMempoolStakeBalanceDelta e (ac_m a) rawHex (ac_deltas a, ac_cache a) of
           None \<Rightarrow> None
         | Some (Inl _) \<Rightarrow> Some (a\<lparr>ac_parseIncomplete := True\<rparr>)
         | Some (Inr (deltas, cache)) \<Rightarrow>
             let a = a\<lparr>ac_deltas := deltas, ac_cache := cache\<rparr> in
             (case parseMempoolProtocolTx e rawHex (word_of_nat (fst ie)) cache of
                None \<Rightarrow> None
              | Some (Inl _) \<Rightarrow> Some (a\<lparr>ac_parseIncomplete := True\<rparr>)
              | Some (Inr (None, cache)) \<Rightarrow> Some (a\<lparr>ac_cache := cache\<rparr>)
              | Some (Inr (Some parsed, cache)) \<Rightarrow>
                (case resolveBusinessInvalidFlags (me_env e) (me_btc e) tipHeight (pp_Snapshot parsed) (pp_Payload parsed) (ac_m a) of
                   (flags, m) \<Rightarrow>
                     let parsed = parsed\<lparr>pp_Event := (pp_Event parsed)\<lparr>ev_BizInvalidFlags := flags\<rparr>\<rparr> in
                     case mempool_event e tipHeight parsed flags m of
                       (event, prooftx) \<Rightarrow>
                         Some (a\<lparr>ac_m := m, ac_cache := cache,
                           ac_events := ac_events a @ (case event of None \<Rightarrow> [] | Some ev \<Rightarrow> [ev]),
                           ac_inscriptions := ac_inscriptions a @ [pp_Event parsed],
                           ac_proofs := (case prooftx of None \<Rightarrow> ac_proofs a | Some t \<Rightarrow> insert_key t (ac_proofs a)),
                           ac_protocol := Suc (ac_protocol a)\<rparr>)))))"

fun sync_entries :: "mempool_env \<Rightarrow> u32 \<Rightarrow> bool \<Rightarrow> (nat \<times> string) list \<Rightarrow> sync_acc \<Rightarrow> sync_acc option" where
  "sync_entries e tipHeight txidMode [] a = Some a"
| "sync_entries e tipHeight txidMode (x # xs) a =
     (case sync_entry e tipHeight txidMode x a of None \<Rightarrow> None | Some a \<Rightarrow> sync_entries e tipHeight txidMode xs a)"

text \<open>The stake addresses that valid stake operations of the mempool bind for the first time.\<close>

definition first_bind_addresses :: "Manager \<Rightarrow> StakeMempoolEvent list \<Rightarrow> string set" where
  "first_bind_addresses m events =
     set (filter (\<lambda>a. a \<noteq> '''' \<and> a \<notin> confirmed_addresses m)
       (map (\<lambda>ev. TrimSpace (ev_StakeAddress ev)) (filter (\<lambda>ev. ev_Op ev = TagStake \<and> ev_BizInvalidFlags ev = BizInvalidNone) events)))"

fun first_bind_entries :: "mempool_env \<Rightarrow> string set \<Rightarrow> bool \<Rightarrow> string list \<Rightarrow> sync_acc \<Rightarrow> sync_acc option" where
  "first_bind_entries e tracked txidMode [] a = Some a"
| "first_bind_entries e tracked txidMode (x # xs) a =
     (case fetch_entry e txidMode x of
        None \<Rightarrow> first_bind_entries e tracked txidMode xs (a\<lparr>ac_incomplete := True\<rparr>)
      | Some rawHex \<Rightarrow>
        (case accumulateMempoolStakeBalanceDeltaByAddresses e rawHex tracked (ac_deltas a, ac_cache a) of
           None \<Rightarrow> None
         | Some (Inl _) \<Rightarrow> first_bind_entries e tracked txidMode xs (a\<lparr>ac_parseIncomplete := True\<rparr>)
         | Some (Inr (deltas, cache)) \<Rightarrow> first_bind_entries e tracked txidMode xs (a\<lparr>ac_deltas := deltas, ac_cache := cache\<rparr>)))"

text \<open>The two loops of \<^verbatim>\<open>RunProtocolSync\<close>.\<close>

definition collect_mempool :: "mempool_env \<Rightarrow> u32 \<Rightarrow> string list \<Rightarrow> Manager \<Rightarrow> sync_acc option" where
  "collect_mempool e tipHeight rawEntries m =
     (case normalizeMempoolEntries rawEntries of
        (entries, txidMode) \<Rightarrow>
          (case sync_entries e tipHeight txidMode (enumerate 0 entries)
               \<lparr>ac_m = m, ac_cache = [], ac_deltas = [], ac_events = [], ac_inscriptions = [], ac_proofs = [], ac_protocol = 0,
                ac_incomplete = False, ac_parseIncomplete = False\<rparr> of
             None \<Rightarrow> None
           | Some a \<Rightarrow>
               let tracked = first_bind_addresses (ac_m a) (ac_events a) in
               if tracked = {} then Some a else first_bind_entries e tracked txidMode entries a))"

section \<open>The view in Redis\<close>

record mempool_db =
  md_balance_delta :: "(string, int) gomap"
  md_indexer_delta :: "(string, int) gomap"
  md_staker_delta :: "(string, (string, int) gomap) gomap"
  md_staker_delta_indexers :: "string list"
  md_stakers :: "(string, (string, f64) gomap) gomap"
  md_stakers_pending :: "(string, string list) gomap"
  md_stakers_indexers :: "string list"
  md_total_delta :: int

text \<open>A Go counter map from which entries that become 0 are deleted.\<close>

definition staker_delta_step ::
    "Manager \<Rightarrow> string \<times> int \<Rightarrow> (string, int) gomap \<times> (string, (string, int) gomap) gomap
      \<Rightarrow> (string, int) gomap \<times> (string, (string, int) gomap) gomap" where
  "staker_delta_step m entry st =
     (case entry of (stakeAddress0, delta) \<Rightarrow> case st of (indexerDeltas, stakerDeltas) \<Rightarrow>
      let stakeAddress = TrimSpace stakeAddress0 in
      if stakeAddress = '''' \<or> delta = 0 then st
      else case mget (stakeAddrToIndexer m) stakeAddress of
        None \<Rightarrow> st
      | Some info \<Rightarrow>
          let indexerID = TrimSpace (sa_IndexerID info); userAddress = TrimSpace (sa_Address info) in
          if indexerID = '''' \<or> userAddress = '''' then st
          else
            let userMap = add_delta (mget0 [] stakerDeltas indexerID) userAddress delta in
            (add_delta indexerDeltas indexerID delta,
             if userMap = [] then mdel stakerDeltas indexerID else mput stakerDeltas indexerID userMap))"

definition buildMempoolIndexerDeltas :: "Manager \<Rightarrow> (string, int) gomap \<Rightarrow> (string, int) gomap \<times> (string, (string, int) gomap) gomap" where
  "buildMempoolIndexerDeltas m addressDeltas = fold (staker_delta_step m) addressDeltas ([], [])"

text \<open>The first valid stake operation of the mempool for a new stake address decides its indexer.\<close>

definition first_bind_indexer :: "(string, StakeAddressInfo) gomap \<Rightarrow> StakeMempoolEvent \<Rightarrow> (string, string) gomap \<Rightarrow> (string, string) gomap" where
  "first_bind_indexer confirmed ev byStakeAddress =
     (let indexerID = TrimSpace (ev_IndexerID ev); stakeAddress = TrimSpace (ev_StakeAddress ev) in
      if ev_Op ev \<noteq> TagStake \<or> ev_BizInvalidFlags ev \<noteq> 0 \<or> indexerID = '''' \<or> stakeAddress = '''' \<or> mget confirmed stakeAddress \<noteq> None
        \<or> mget byStakeAddress stakeAddress \<noteq> None
      then byStakeAddress else mput byStakeAddress stakeAddress indexerID)"

definition mergeMempoolFirstBindIndexerDeltas ::
    "(string, StakeAddressInfo) gomap \<Rightarrow> (string, int) gomap \<Rightarrow> StakeMempoolEvent list \<Rightarrow> (string, int) gomap \<Rightarrow> (string, int) gomap" where
  "mergeMempoolFirstBindIndexerDeltas confirmed addressDeltas events indexerDeltas =
     fold (\<lambda>(stakeAddress, indexerID) d.
       let delta = mget0 0 addressDeltas stakeAddress in if delta = 0 then d else add_delta d indexerID delta)
       (fold (first_bind_indexer confirmed) events []) indexerDeltas"

text \<open>The fields of a hash: keys are trimmed, empty keys and zero values are left out.\<close>

definition hash_fields :: "(string, int) gomap \<Rightarrow> (string, int) gomap" where
  "hash_fields m = foldl (\<lambda>f (k, v). if TrimSpace k = '''' \<or> v = 0 then f else mput f (TrimSpace k) v) [] m"

definition total_of_fields :: "(string, int) gomap \<Rightarrow> int" where
  "total_of_fields m = sum_list (map snd (filter (\<lambda>(k, v). TrimSpace k \<noteq> '''' \<and> v \<noteq> 0) m))"

definition delete_keys :: "string list \<Rightarrow> (string, 'v) gomap \<Rightarrow> (string, 'v) gomap" where
  "delete_keys ids m = filter (\<lambda>(k, _). k = [] \<or> k \<notin> set (map TrimSpace ids)) m"

definition add_members :: "string list \<Rightarrow> string list \<Rightarrow> string list" where
  "add_members xs s = fold insert_key xs s"

text \<open>The staker hashes of a pipeline: one per indexer with a field to set.\<close>

definition staker_hashes :: "(string, (string, int) gomap) gomap \<Rightarrow> (string, (string, int) gomap) gomap" where
  "staker_hashes stakerDeltas =
     filter (\<lambda>(i, flds). i \<noteq> '''' \<and> flds \<noteq> []) (map (\<lambda>(i, d). (TrimSpace i, hash_fields d)) stakerDeltas)"

definition set_hashes :: "(string, (string, 'v) gomap) gomap \<Rightarrow> (string, (string, 'v) gomap) gomap \<Rightarrow> (string, (string, 'v) gomap) gomap" where
  "set_hashes hs m = foldl (\<lambda>m (i, flds). mput m i (foldl (\<lambda>f (k, v). mput f k v) (mget0 [] m i) flds)) m hs"

text \<open>\<open>read_ok\<close> and \<open>exec_ok\<close> are the outcomes of reading the old indexers and of the pipeline.\<close>

definition saveMempoolStakeBalanceDeltas ::
    "bool \<Rightarrow> bool \<Rightarrow> Manager \<Rightarrow> (string, int) gomap \<Rightarrow> StakeMempoolEvent list \<Rightarrow> mempool_db \<Rightarrow> mempool_db \<times> bool" where
  "saveMempoolStakeBalanceDeltas read_ok exec_ok m deltas events db =
     (if \<not> read_ok \<or> \<not> exec_ok then (db, False)
      else case buildMempoolIndexerDeltas m deltas of
        (indexerDeltas0, stakerDeltas) \<Rightarrow>
          let indexerDeltas = mergeMempoolFirstBindIndexerDeltas (stakeAddrToIndexer m) deltas events indexerDeltas0;
              hs = staker_hashes stakerDeltas in
          (db\<lparr>md_balance_delta := hash_fields deltas, md_indexer_delta := hash_fields indexerDeltas,
              md_total_delta := total_of_fields indexerDeltas,
              md_staker_delta := set_hashes hs (delete_keys (md_staker_delta_indexers db) (md_staker_delta db)),
              md_staker_delta_indexers := add_members (map fst hs) []\<rparr>, True))"

definition applyStakeDeltaUint :: "u64 \<Rightarrow> int \<Rightarrow> u64" where
  "applyStakeDeltaUint base delta =
     (if delta = 0 then base
      else if delta > 0 then base + word_of_int delta
      else let dec = word_of_int (- delta) in if dec \<ge> base then 0 else base - dec)"

text \<open>As \<open>first_bind_indexer\<close>, with the user: the first valid stake operation decides both.\<close>

definition first_bind_user ::
    "(string, StakeAddressInfo) gomap \<Rightarrow> StakeMempoolEvent \<Rightarrow> (string, string \<times> string) gomap \<Rightarrow> (string, string \<times> string) gomap" where
  "first_bind_user confirmed ev byStakeAddress =
     (let indexerID = TrimSpace (ev_IndexerID ev); userAddress = TrimSpace (ev_UserAddress ev); stakeAddress = TrimSpace (ev_StakeAddress ev) in
      if ev_Op ev \<noteq> TagStake \<or> ev_BizInvalidFlags ev \<noteq> 0 \<or> indexerID = '''' \<or> userAddress = '''' \<or> stakeAddress = ''''
        \<or> mget confirmed stakeAddress \<noteq> None \<or> mget byStakeAddress stakeAddress \<noteq> None
      then byStakeAddress else mput byStakeAddress stakeAddress (indexerID, userAddress))"

definition saturating_add :: "u64 \<Rightarrow> u64 \<Rightarrow> u64" where
  "saturating_add a b = (if a + b < a then - 1 else a + b)"

definition buildMempoolFirstBindUserAmountsByIndexer ::
    "(string, StakeAddressInfo) gomap \<Rightarrow> (string, int) gomap \<Rightarrow> StakeMempoolEvent list \<Rightarrow> (string, (string, u64) gomap) gomap" where
  "buildMempoolFirstBindUserAmountsByIndexer confirmed addressDeltas events =
     foldl (\<lambda>result (stakeAddress, (indexerID, userAddress)).
       let delta = mget0 0 addressDeltas stakeAddress in
       if delta \<le> 0 then result
       else
         let userMap = mget0 [] result indexerID in
         mput result indexerID (mput userMap userAddress (saturating_add (mget0 0 userMap userAddress) (word_of_int delta))))
       [] (fold (first_bind_user confirmed) events [])"

text \<open>The stakers of an indexer: the confirmed ones, changed by the deltas of the mempool, and the users that bind for the first
  time. The result is the amounts and the users that are pending.\<close>

definition confirmed_stakers :: "(string \<times> f64) list \<Rightarrow> (string, u64) gomap" where
  "confirmed_stakers items =
     foldl (\<lambda>merged (member, score).
       let userAddress = TrimSpace member; amount = u64_of_f64 (math_Round score) in
       if userAddress = '''' \<or> amount = 0 then merged else mput merged userAddress amount) [] items"

definition delta_staker :: "string \<times> int \<Rightarrow> (string, u64) gomap \<times> string list \<Rightarrow> (string, u64) gomap \<times> string list" where
  "delta_staker entry st =
     (case entry of (user, delta) \<Rightarrow> case st of (merged, pending) \<Rightarrow>
      let userAddress = TrimSpace user in
      if userAddress = '''' \<or> delta = 0 then st
      else
        let finalAmount = applyStakeDeltaUint (mget0 0 merged userAddress) delta in
        if finalAmount = 0 then (mdel merged userAddress, pending)
        else (mput merged userAddress finalAmount, insert_key userAddress pending))"

definition first_bind_staker :: "string \<times> u64 \<Rightarrow> (string, u64) gomap \<times> string list \<Rightarrow> (string, u64) gomap \<times> string list" where
  "first_bind_staker entry st =
     (case entry of (user, amount) \<Rightarrow> case st of (merged, pending) \<Rightarrow>
      let userAddress = TrimSpace user in
      if userAddress = '''' \<or> amount = 0 then st
      else (if mget merged userAddress = None then mput merged userAddress amount else merged, insert_key userAddress pending))"

definition merged_stakers ::
    "(string \<times> f64) list \<Rightarrow> (string, int) gomap \<Rightarrow> (string, u64) gomap \<Rightarrow> (string, u64) gomap \<times> string list" where
  "merged_stakers items deltas pendingStake =
     fold first_bind_staker pendingStake (fold delta_staker deltas (confirmed_stakers items, []))"

text \<open>The active indexers: a Go map whose keys are visited in some order.\<close>

definition active_indexers :: "(string, (string, int) gomap) gomap \<Rightarrow> (string, (string, u64) gomap) gomap \<Rightarrow> string list" where
  "active_indexers stakerDeltas pendingStake =
     add_members (filter (\<lambda>i. i \<noteq> '''') (map TrimSpace (map fst stakerDeltas @ map fst pendingStake))) []"

definition staker_snapshot :: "(string, u64) gomap \<Rightarrow> (string, f64) gomap" where
  "staker_snapshot merged = map (\<lambda>(u, amount). (u, f64_of_u64 amount)) (filter (\<lambda>(u, amount). u \<noteq> '''' \<and> amount \<noteq> 0) merged)"

definition saveMempoolIndexerStakerSnapshots ::
    "mempool_env \<Rightarrow> bool \<Rightarrow> bool \<Rightarrow> Manager \<Rightarrow> (string, int) gomap \<Rightarrow> (string, (string, int) gomap) gomap \<Rightarrow> StakeMempoolEvent list
      \<Rightarrow> mempool_db \<Rightarrow> mempool_db \<times> bool" where
  "saveMempoolIndexerStakerSnapshots e read_ok exec_ok m addressDeltas stakerDeltas events db =
     (let pendingStake = buildMempoolFirstBindUserAmountsByIndexer (stakeAddrToIndexer m) addressDeltas events;
          active = active_indexers stakerDeltas pendingStake in
      if \<not> read_ok \<or> \<not> exec_ok \<or> list_ex (\<lambda>i. me_stakers e i = None) active then (db, False)
      else
        let items = map (\<lambda>i. (i, merged_stakers (the (me_stakers e i)) (mget0 [] stakerDeltas i) (mget0 [] pendingStake i))) active;
            zsets = filter (\<lambda>(_, z). z \<noteq> []) (map (\<lambda>(i, (merged, _)). (i, staker_snapshot merged)) items);
            pend = filter (\<lambda>(_, ps). ps \<noteq> []) (map (\<lambda>(i, (_, pending)). (i, pending)) items) in
        (db\<lparr>md_stakers := set_hashes zsets (delete_keys (md_stakers_indexers db) (md_stakers db)),
            md_stakers_pending := foldl (\<lambda>p (i, ps). mput p i (add_members ps (mget0 [] p i))) (delete_keys (md_stakers_indexers db) (md_stakers_pending db)) pend,
            md_stakers_indexers := active\<rparr>, True))"

section \<open>Writing\<close>

datatype mempool_call = MUpsert StakeMempoolEvent | MInscription FIP101InscriptionEvent | MReadDeltas | MExecDeltas | MReadStakers | MExecStakers
  | MDeleteEvents "string list" | MDeleteInscriptions

record mempool_state =
  ms_db :: mempool_db
  ms_events :: "StakeMempoolEvent list"
  ms_inscriptions :: "FIP101InscriptionEvent list"
  ms_stats :: ProtocolSyncStats

record ProtocolWriteInput =
  wi_ExistingEventTxIDs :: "string list"
  wi_Events :: "StakeMempoolEvent list"
  wi_ExistingInscriptionTxIDs :: "string list"
  wi_InscriptionEvents :: "FIP101InscriptionEvent list"
  wi_PendingStakeDeltas :: "(string, int) gomap"
  wi_Incomplete :: bool
  wi_ParseIncomplete :: bool

definition count_upserted :: "nat \<Rightarrow> mempool_state \<Rightarrow> mempool_state" where
  "count_upserted n s = s\<lparr>ms_stats := (ms_stats s)\<lparr>Upserted := Upserted (ms_stats s) + n\<rparr>\<rparr>"

definition count_removed :: "nat \<Rightarrow> mempool_state \<Rightarrow> mempool_state" where
  "count_removed n s = s\<lparr>ms_stats := (ms_stats s)\<lparr>Removed := Removed (ms_stats s) + n\<rparr>\<rparr>"

text \<open>The events one after the other; the counter counts those that were not in the table before.\<close>

fun upsert_events :: "(mempool_call \<Rightarrow> bool) \<Rightarrow> string list \<Rightarrow> StakeMempoolEvent list \<Rightarrow> mempool_state step" where
  "upsert_events ok existing [] s = (s, True)"
| "upsert_events ok existing (ev # evs) s =
     (if ev_TxID ev = '''' then upsert_events ok existing evs s
      else if \<not> ok (MUpsert ev) then (s, False)
      else case UpsertStakeMempoolEvent ev (ms_events s) of
        None \<Rightarrow> (s, False)
      | Some t \<Rightarrow> upsert_events ok existing evs (count_upserted (if ev_TxID ev \<in> set existing then 0 else 1) (s\<lparr>ms_events := t\<rparr>)))"

definition upsert_inscriptions :: "(mempool_call \<Rightarrow> bool) \<Rightarrow> string list \<Rightarrow> FIP101InscriptionEvent list \<Rightarrow> mempool_state step" where
  "upsert_inscriptions ok existing events s =
     (let items = filter (\<lambda>ev. TrimSpace (ev_TxID ev) \<noteq> '''') events;
          s = count_upserted (length (filter (\<lambda>ev. ev_TxID ev \<notin> set existing) items)) s in
      case UpsertFIP101InscriptionEventsBatch (ok \<circ> MInscription) items (ms_inscriptions s) of
        (t, b) \<Rightarrow> (s\<lparr>ms_inscriptions := t\<rparr>, b))"

definition save_deltas :: "(mempool_call \<Rightarrow> bool) \<Rightarrow> Manager \<Rightarrow> ProtocolWriteInput \<Rightarrow> mempool_state step" where
  "save_deltas ok m w s =
     (case saveMempoolStakeBalanceDeltas (ok MReadDeltas) (ok MExecDeltas) m (wi_PendingStakeDeltas w) (wi_Events w) (ms_db s) of
        (db, b) \<Rightarrow> (s\<lparr>ms_db := db\<rparr>, b))"

definition save_stakers :: "mempool_env \<Rightarrow> (mempool_call \<Rightarrow> bool) \<Rightarrow> Manager \<Rightarrow> ProtocolWriteInput \<Rightarrow> mempool_state step" where
  "save_stakers e ok m w s =
     (case saveMempoolIndexerStakerSnapshots e (ok MReadStakers) (ok MExecStakers) m (wi_PendingStakeDeltas w)
         (snd (buildMempoolIndexerDeltas m (wi_PendingStakeDeltas w))) (wi_Events w) (ms_db s) of
        (db, b) \<Rightarrow> (s\<lparr>ms_db := db\<rparr>, b))"

definition delete_events :: "(mempool_call \<Rightarrow> bool) \<Rightarrow> ProtocolWriteInput \<Rightarrow> mempool_state step" where
  "delete_events ok w s =
     (let stale = filter (\<lambda>txID. txID \<notin> set (map ev_TxID (wi_Events w))) (wi_ExistingEventTxIDs w) in
      if stale = [] then (s, True)
      else case DeleteStakeMempoolEventsByTxIDs (ok \<circ> MDeleteEvents) stale (ms_events s) of
        (t, b) \<Rightarrow> (if b then count_removed (length stale) (s\<lparr>ms_events := t\<rparr>) else s\<lparr>ms_events := t\<rparr>, b))"

definition delete_inscriptions :: "(mempool_call \<Rightarrow> bool) \<Rightarrow> ProtocolWriteInput \<Rightarrow> mempool_state step" where
  "delete_inscriptions ok w s =
     (let stale = filter (\<lambda>txID. txID \<notin> set (map ev_TxID (wi_InscriptionEvents w))) (wi_ExistingInscriptionTxIDs w) in
      if stale = [] then (s, True)
      else if \<not> ok MDeleteInscriptions then (s, False)
      else (count_removed (length stale) (s\<lparr>ms_inscriptions := DeleteMempoolFIP101InscriptionEventsByTxIDs stale (ms_inscriptions s)\<rparr>), True))"

definition RunProtocolWriteFlow :: "mempool_env \<Rightarrow> (mempool_call \<Rightarrow> bool) \<Rightarrow> Manager \<Rightarrow> ProtocolWriteInput \<Rightarrow> mempool_state step" where
  "RunProtocolWriteFlow e ok m w =
     run_steps ([upsert_events ok (wi_ExistingEventTxIDs w) (wi_Events w),
       upsert_inscriptions ok (wi_ExistingInscriptionTxIDs w) (wi_InscriptionEvents w)] @
      (if wi_Incomplete w \<or> wi_ParseIncomplete w then []
       else [save_deltas ok m w, save_stakers e ok m w, delete_events ok w, delete_inscriptions ok w]))"

section \<open>One synchronisation\<close>

text \<open>\<open>list_ok\<close> is the outcome of listing the known transactions. The result is the manager, the state and whether an error is returned.\<close>

definition RunProtocolSync ::
    "mempool_env \<Rightarrow> bool \<Rightarrow> (mempool_call \<Rightarrow> bool) \<Rightarrow> u32 \<Rightarrow> Manager \<Rightarrow> mempool_state \<Rightarrow> (Manager \<times> mempool_state \<times> bool) option" where
  "RunProtocolSync e list_ok ok tipHeight m s0 =
     (let s = s0\<lparr>ms_stats := \<lparr>MempoolTxs = 0, ProtocolTxs = 0, ProofTxs = 0, Upserted = 0, Removed = 0\<rparr>\<rparr> in
      case load_result (me_order e) (me_env e) tipHeight False m of
        (m, Some _) \<Rightarrow> Some (m, s, False)
      | (m, None) \<Rightarrow>
        (case Option.bind (me_blockHash e tipHeight) (me_rawMempool e) of
           None \<Rightarrow> Some (m, s, False)
         | Some rawEntries \<Rightarrow>
             let s = s\<lparr>ms_stats := (ms_stats s)\<lparr>MempoolTxs := length (fst (normalizeMempoolEntries rawEntries))\<rparr>\<rparr> in
             if \<not> list_ok then Some (m, s, False)
             else case collect_mempool e tipHeight rawEntries m of
               None \<Rightarrow> None
             | Some a \<Rightarrow>
                 let s = s\<lparr>ms_stats := (ms_stats s)\<lparr>ProtocolTxs := ac_protocol a, ProofTxs := length (ac_proofs a)\<rparr>\<rparr>;
                     w = \<lparr>wi_ExistingEventTxIDs = ListStakeMempoolEventTxIDs (ms_events s), wi_Events = ac_events a,
                          wi_ExistingInscriptionTxIDs = ListMempoolFIP101InscriptionEventTxIDs (ms_inscriptions s),
                          wi_InscriptionEvents = ac_inscriptions a, wi_PendingStakeDeltas = ac_deltas a,
                          wi_Incomplete = ac_incomplete a, wi_ParseIncomplete = ac_parseIncomplete a\<rparr> in
                 case RunProtocolWriteFlow e ok (ac_m a) w s of (s, b) \<Rightarrow> Some (ac_m a, s, b)))"

definition SyncMempoolProtocolTxs ::
    "mempool_env \<Rightarrow> bool \<Rightarrow> (mempool_call \<Rightarrow> bool) \<Rightarrow> u32 \<Rightarrow> Manager \<Rightarrow> mempool_state \<Rightarrow> (Manager \<times> mempool_state \<times> bool) option" where
  "SyncMempoolProtocolTxs e list_ok ok tipHeight m s = RunProtocolSync e list_ok ok tipHeight (resetRegisterOwnerSeen m) s"

text \<open>\<^verbatim>\<open>ResetMempoolSnapshotOnStartup\<close>, also called before blocks are parsed. The inscription events stay.\<close>

definition ResetMempoolSnapshotOnStartup :: "bool \<Rightarrow> bool \<Rightarrow> bool \<Rightarrow> mempool_state \<Rightarrow> mempool_state \<times> bool" where
  "ResetMempoolSnapshotOnStartup delete_ok read_ok del_ok s =
     (if \<not> delete_ok then (s, False)
      else
        let s = s\<lparr>ms_events := DeleteStakeMempoolEventsAll (ms_events s)\<rparr> in
        if \<not> read_ok \<or> \<not> del_ok then (s, False)
        else
          let ids = md_staker_delta_indexers (ms_db s) @ md_stakers_indexers (ms_db s); db = ms_db s in
          (s\<lparr>ms_db := db\<lparr>md_balance_delta := [], md_indexer_delta := [], md_staker_delta_indexers := [], md_stakers_indexers := [],
             md_staker_delta := delete_keys ids (md_staker_delta db), md_stakers := delete_keys ids (md_stakers db),
             md_stakers_pending := delete_keys ids (md_stakers_pending db)\<rparr>\<rparr>, True))"

end
