(* ===== verification/MempoolProofs.thy ===== *)
theory MempoolProofs
  imports Mempool SubmitProofs
begin

text \<open>
  What the mempool view shows. The cache of spent outputs is transparent (the interface \<open>cached_lookup\<close>, interpreted on
  \<^verbatim>\<open>loadInputAddressAndSatoshi\<close>); from it follow that the pending deltas are the flow of stake of the whole mempool and that the table of
  events holds exactly what was collected.
\<close>

section \<open>Cached lookups\<close>

text \<open>A lookup that threads a cache, a list of them, and what the lookup finds without a cache. The client of the interface reads whole
  lists of keys and need not know what the cache holds.\<close>

fun loads :: "('c \<Rightarrow> 'k \<Rightarrow> ('v option \<times> 'c) option) \<Rightarrow> 'k list \<Rightarrow> 'c \<Rightarrow> ('v option list \<times> 'c) option" where
  "loads load [] c = Some ([], c)"
| "loads load (k # ks) c =
     (case load c k of
        None \<Rightarrow> None
      | Some (v, c) \<Rightarrow> map_option (\<lambda>(vs, c). (v # vs, c)) (loads load ks c))"

locale cached_lookup =
  fixes load :: "'c \<Rightarrow> 'k \<Rightarrow> ('v option \<times> 'c) option"
    and plain :: "'k \<Rightarrow> 'v option option"
    and ok :: "'c \<Rightarrow> bool"
    and good :: "'k \<Rightarrow> bool"
  assumes load_plain: "ok c \<Longrightarrow> good k \<Longrightarrow> map_option fst (load c k) = plain k"
    and load_ok: "ok c \<Longrightarrow> good k \<Longrightarrow> load c k = Some (v, c') \<Longrightarrow> ok c'"
begin

lemma load_cases: "ok c \<Longrightarrow> good k \<Longrightarrow> load c k = Some (v, c') \<Longrightarrow> plain k = Some v \<and> ok c'"
  using load_plain [of c k] load_ok [of c k v c'] by simp

lemma loads_plain:
  "ok c \<Longrightarrow> list_all good ks \<Longrightarrow> loads load ks c = Some (vs, c') \<Longrightarrow> map Some vs = map plain ks \<and> ok c'"
proof (induction ks arbitrary: c vs)
  case (Cons k ks)
  from Cons.prems(3) obtain v c1 ws where l: "load c k = Some (v, c1)" "loads load ks c1 = Some (ws, c')" "vs = v # ws"
    by (auto split: option.splits prod.splits)
  with load_cases [OF Cons.prems(1) _ l(1)] Cons.IH [OF _ _ l(2)] Cons.prems(2) show ?case by simp
qed simp

lemma loads_total:
  "ok c \<Longrightarrow> list_all good ks \<Longrightarrow> list_all (\<lambda>k. plain k \<noteq> None) ks \<Longrightarrow> \<exists>r. loads load ks c = Some r"
proof (induction ks arbitrary: c)
  case (Cons k ks)
  then obtain v c1 where l: "load c k = Some (v, c1)" using load_plain [of c k] by (cases "load c k") auto
  then have "ok c1" using load_cases Cons.prems by auto
  then have "\<exists>r. loads load ks c1 = Some r" using Cons.IH Cons.prems(2,3) by simp
  with l show ?case by auto
qed simp

end

section \<open>Inputs of parsed transactions\<close>

text \<open>The key of a spent output is made of the transaction and the position it names.\<close>

definition wire_in :: "TxIn \<Rightarrow> bool" where
  "wire_in i \<longleftrightarrow> (\<exists>raw. length raw = 36 \<and> ti_InputOutpointKey i = string_of_bytes raw \<and> ti_InputHashHex i = HashString (take 32 raw) \<and>
     ti_InputVout i = get_u32 (drop 32 raw))"

lemma wire_in_key:
  assumes "wire_in i" "wire_in j" "ti_InputOutpointKey i = ti_InputOutpointKey j"
  shows "ti_InputHashHex i = ti_InputHashHex j \<and> ti_InputVout i = ti_InputVout j \<and> ti_InputOutpointKey i \<noteq> ''''"
proof -
  obtain r where r: "length r = 36" "ti_InputOutpointKey i = string_of_bytes r" "ti_InputHashHex i = HashString (take 32 r)" "ti_InputVout i = get_u32 (drop 32 r)"
    using assms(1) unfolding wire_in_def by blast
  obtain q where q: "ti_InputOutpointKey j = string_of_bytes q" "ti_InputHashHex j = HashString (take 32 q)" "ti_InputVout j = get_u32 (drop 32 q)"
    using assms(2) unfolding wire_in_def by blast
  have "r = q" using assms(3) r(2) q(1) by (metis bytes_of_string_of_bytes)
  have "length (ti_InputOutpointKey i) = 36" using r(1,2) by simp
  then have "ti_InputOutpointKey i \<noteq> ''''" by (metis list.size(3) zero_neq_numeral)
  with \<open>r = q\<close> show ?thesis using r q by simp
qed

lemma NewTxIn_wire:
  assumes "NewTxIn raw = Some (i, n)"
  shows "wire_in i"
proof -
  obtain hash vout script seqb where "slice raw 0 32 = Some hash" "slice raw 32 36 = Some vout"
    "i = \<lparr>ti_InputHashHex = HashString hash, ti_InputHash = hash, ti_InputVout = get_u32 vout,
          ti_ScriptSig = script, ti_Sequence = get_u32 seqb, ti_ScriptWitness = [],
          ti_InputOutpointKey = string_of_bytes (take 36 raw), ti_InputOutpoint = take 36 raw\<rparr>"
    using assms by (auto simp: NewTxIn_def Let_def split: option.splits)
  then show ?thesis unfolding wire_in_def
    by (intro exI [of _ "take 36 raw"]) (auto simp: slice_Some_iff min_def drop_take)
qed

lemma parse_n_all:
  "parse_n p n raw off = Some (xs, o') \<Longrightarrow> (\<And>raw x m. p raw = Some (x, m) \<Longrightarrow> Q x) \<Longrightarrow> list_all Q xs"
  by (induction n arbitrary: off xs) (auto split: option.splits)

lemma list_all_witnesses: "list_all wire_in is \<Longrightarrow> list_all wire_in (set_witnesses is ws)"
proof (induction "is" arbitrary: ws)
  case (Cons i "is")
  then show ?case by (cases ws) (auto simp: set_witnesses_def wire_in_def)
qed (simp add: set_witnesses_def)

lemma NewTx_wire: "NewTx raw = Some (tx, off) \<Longrightarrow> list_all wire_in (mt_TxIns tx)"
  unfolding NewTx_def Let_def
  by (auto split: option.splits prod.splits if_splits intro!: list_all_witnesses dest!: parse_n_all [where Q = wire_in] dest: NewTxIn_wire)

lemma decode_wire: "decodeRawMempoolTx raw = Some (Inr (Some tx)) \<Longrightarrow> list_all wire_in (mt_TxIns tx)"
  by (auto simp: decodeRawMempoolTx_def parseRawTxSafe_def Let_def split: option.splits if_splits sum.splits prod.splits dest: NewTx_wire)


section \<open>The cache of spent outputs\<close>

text \<open>What the lookup of a spent output finds without the cache.\<close>

definition resolve :: "mempool_env \<Rightarrow> TxIn \<Rightarrow> (string \<times> u64) option option" where
  "resolve e i = map_option fst (loadInputAddressAndSatoshi e [] i)"

definition cache_ok :: "mempool_env \<Rightarrow> outpoint_cache \<Rightarrow> bool" where
  "cache_ok e cache \<longleftrightarrow> (\<forall>i r. wire_in i \<longrightarrow> mget cache (ti_InputOutpointKey i) = Some r \<longrightarrow>
     resolve e i = Some (Some r) \<and> TrimSpace (fst r) = fst r \<and> fst r \<noteq> '''')"

lemma cache_ok_Nil: "cache_ok e []"
  by (simp add: cache_ok_def)

lemma from_mempool_cache:
  "loadInputAddressAndSatoshiFromMempool e cache i =
    map_option (\<lambda>(r, _). (r, case r of None \<Rightarrow> cache | Some r \<Rightarrow> mput cache (ti_InputOutpointKey i) r))
      (loadInputAddressAndSatoshiFromMempool e [] i)"
  unfolding loadInputAddressAndSatoshiFromMempool_def Let_def by (simp split: option.splits sum.splits)

lemma from_mempool_address:
  "loadInputAddressAndSatoshiFromMempool e cache i = Some (Some r, cache') \<Longrightarrow> TrimSpace (fst r) = fst r \<and> fst r \<noteq> ''''"
  by (auto simp: loadInputAddressAndSatoshiFromMempool_def Let_def split: option.splits sum.splits if_splits)

lemma stored_address: "stored_input e i = Some r \<Longrightarrow> TrimSpace (fst r) = fst r \<and> fst r \<noteq> ''''"
  by (auto simp: stored_input_def Let_def split: option.splits if_splits)

lemma resolve_cases:
  "resolve e i = (if ti_InputOutpointKey i = '''' then Some None
    else case stored_input e i of Some r \<Rightarrow> Some (Some r) | None \<Rightarrow> map_option fst (loadInputAddressAndSatoshiFromMempool e [] i))"
  by (simp add: resolve_def loadInputAddressAndSatoshi_def cached_input_def split: option.splits)

lemma resolve_cong:
  assumes "wire_in i" "wire_in j" "ti_InputOutpointKey j = ti_InputOutpointKey i"
  shows "resolve e j = resolve e i"
proof -
  have h: "ti_InputHashHex j = ti_InputHashHex i" "ti_InputVout j = ti_InputVout i" using wire_in_key [OF assms(2,1,3)] by simp_all
  have "stored_input e j = stored_input e i" unfolding stored_input_def assms(3) ..
  moreover have "loadInputAddressAndSatoshiFromMempool e [] j = loadInputAddressAndSatoshiFromMempool e [] i"
    unfolding loadInputAddressAndSatoshiFromMempool_def h assms(3) ..
  ultimately show ?thesis unfolding resolve_cases assms(3) by (simp split: option.splits)
qed

lemma cache_ok_put:
  assumes "cache_ok e cache" "wire_in i" "resolve e i = Some (Some r)" "TrimSpace (fst r) = fst r \<and> fst r \<noteq> ''''"
  shows "cache_ok e (mput cache (ti_InputOutpointKey i) r)"
  unfolding cache_ok_def
proof (intro allI impI)
  fix j x
  assume j: "wire_in j" and x: "mget (mput cache (ti_InputOutpointKey i) r) (ti_InputOutpointKey j) = Some x"
  show "resolve e j = Some (Some x) \<and> TrimSpace (fst x) = fst x \<and> fst x \<noteq> ''''"
  proof (cases "ti_InputOutpointKey j = ti_InputOutpointKey i")
    case True
    then show ?thesis using x assms(3,4) resolve_cong [OF assms(2) j True, of e] by simp
  next
    case False
    then have "mget cache (ti_InputOutpointKey j) = Some x" using x by simp
    then show ?thesis using j assms(1) unfolding cache_ok_def by blast
  qed
qed

lemma load_resolve:
  assumes "cache_ok e cache" "wire_in i"
  shows "map_option fst (loadInputAddressAndSatoshi e cache i) = resolve e i \<and>
    (\<forall>v cache'. loadInputAddressAndSatoshi e cache i = Some (v, cache') \<longrightarrow> cache_ok e cache')"
proof (cases "mget cache (ti_InputOutpointKey i)")
  case (Some r)
  have r: "resolve e i = Some (Some r) \<and> TrimSpace (fst r) = fst r \<and> fst r \<noteq> ''''"
    using assms Some unfolding cache_ok_def by blast
  then have "cached_input cache i = Some r" using Some by (cases r) (simp add: cached_input_def)
  moreover have "ti_InputOutpointKey i \<noteq> ''''" using wire_in_key [OF assms(2,2)] by simp
  ultimately show ?thesis using r assms(1) by (simp add: loadInputAddressAndSatoshi_def)
next
  case None
  have k: "ti_InputOutpointKey i \<noteq> ''''" using wire_in_key [OF assms(2,2)] by simp
  have c: "cached_input cache i = None" using None by (simp add: cached_input_def)
  show ?thesis
  proof (cases "stored_input e i")
    case (Some r)
    then have "resolve e i = Some (Some r)" using k by (simp add: resolve_cases)
    then show ?thesis using Some k c cache_ok_put [OF assms] stored_address [OF Some]
      by (simp add: loadInputAddressAndSatoshi_def)
  next
    case none: None
    have l: "loadInputAddressAndSatoshi e cache i = loadInputAddressAndSatoshiFromMempool e cache i"
      using none k c by (simp add: loadInputAddressAndSatoshi_def)
    have r: "resolve e i = map_option fst (loadInputAddressAndSatoshiFromMempool e [] i)" using none k by (simp add: resolve_cases)
    have "cache_ok e cache'" if "loadInputAddressAndSatoshiFromMempool e cache i = Some (v, cache')" for v cache'
    proof (cases v)
      case (Some x)
      have "resolve e i = Some (Some x)" "cache' = mput cache (ti_InputOutpointKey i) x"
        using that Some r from_mempool_cache [of e cache i] by auto
      then show ?thesis using cache_ok_put [OF assms] from_mempool_address that Some by blast
    qed (use that assms(1) from_mempool_cache [of e cache i] in auto)
    then show ?thesis using l r from_mempool_cache [of e cache i] by (simp add: option.map_comp o_def case_prod_unfold)
  qed
qed

interpretation outpoints: cached_lookup "loadInputAddressAndSatoshi e" "resolve e" "cache_ok e" wire_in for e
  by unfold_locales (use load_resolve [of e] in blast)+


section \<open>The flow of stake in the mempool\<close>

definition in_flow :: "mempool_env \<Rightarrow> string \<Rightarrow> TxIn \<Rightarrow> int" where
  "in_flow e a i = (case resolve e i of Some (Some (b, satoshi)) \<Rightarrow> if b = a then sint satoshi else 0 | _ \<Rightarrow> 0)"

definition out_flow :: "mempool_env \<Rightarrow> string \<Rightarrow> TxOut \<Rightarrow> int" where
  "out_flow e a out = (if TrimSpace (AddressFromPkScript (me_addrs e) (to_PkScript out)) = a then sint (to_Satoshi out) else 0)"

text \<open>What a transaction pays to an address less what it spends from it.\<close>

definition raw_net :: "mempool_env \<Rightarrow> string \<Rightarrow> string \<Rightarrow> int" where
  "raw_net e a rawHex =
     (case decodeRawMempoolTx rawHex of
        Some (Inr (Some tx)) \<Rightarrow> sum_list (map (out_flow e a) (mt_TxOuts tx)) - sum_list (map (in_flow e a) (mt_TxIns tx))
      | _ \<Rightarrow> 0)"

lemma pending_get: "a \<noteq> '''' \<Longrightarrow> mget0 0 (addPendingStakeDelta d b v) a = mget0 0 d a + (if b = a then v else 0)"
  by (auto simp: addPendingStakeDelta_def add_delta_get)

lemma input_deltas_get:
  assumes "input_deltas e trk is (d, c) = Some (d', c')" "cache_ok e c" "list_all wire_in is" "a \<noteq> ''''"
  shows "cache_ok e c' \<and> mget0 0 d' a = mget0 0 d a - (if a \<in> trk then sum_list (map (in_flow e a) is) else 0)"
  using assms
proof (induction "is" arbitrary: d c)
  case (Cons i "is")
  obtain v c1 where l: "loadInputAddressAndSatoshi e c i = Some (v, c1)"
    using Cons.prems(1) by (cases "loadInputAddressAndSatoshi e c i") auto
  have r: "resolve e i = Some v" "cache_ok e c1"
    using outpoints.load_cases [OF Cons.prems(2) _ l] Cons.prems(3) by simp_all
  let ?d = "case v of Some (b, s) \<Rightarrow> if b \<in> trk then addPendingStakeDelta d b (- sint s) else d | None \<Rightarrow> d"
  have "input_deltas e trk is (?d, c1) = Some (d', c')" using Cons.prems(1) l by (auto split: option.splits prod.splits if_splits)
  from Cons.IH [OF this r(2) _ Cons.prems(4)] Cons.prems(3)
  have "cache_ok e c' \<and> mget0 0 d' a = mget0 0 ?d a - (if a \<in> trk then sum_list (map (in_flow e a) is) else 0)" by simp
  moreover have "mget0 0 ?d a = mget0 0 d a - (if a \<in> trk then in_flow e a i else 0)"
    using r(1) Cons.prems(4) by (auto simp: in_flow_def pending_get split: option.splits)
  ultimately show ?case by auto
qed simp

lemma output_deltas_get:
  "a \<noteq> '''' \<Longrightarrow> mget0 0 (fold (output_delta e trk) outs d) a = mget0 0 d a + (if a \<in> trk then sum_list (map (out_flow e a) outs) else 0)"
  by (induction outs arbitrary: d) (auto simp: output_delta_def out_flow_def pending_get Let_def)

lemma accumulate_get:
  assumes "accumulateMempoolStakeBalanceDeltaByAddresses e raw trk (d, c) = Some (Inr (d', c'))" "cache_ok e c" "a \<noteq> ''''"
  shows "cache_ok e c' \<and> mget0 0 d' a = mget0 0 d a + (if a \<in> trk then raw_net e a raw else 0)"
proof (cases "trk = {}")
  case True
  then show ?thesis using assms by (simp add: accumulateMempoolStakeBalanceDeltaByAddresses_def)
next
  case False
  then consider "decodeRawMempoolTx raw = Some (Inr None)" "d' = d" "c' = c"
    | tx d1 where "decodeRawMempoolTx raw = Some (Inr (Some tx))" "input_deltas e trk (mt_TxIns tx) (d, c) = Some (d1, c')"
      "d' = fold (output_delta e trk) (mt_TxOuts tx) d1"
    using assms(1) by (auto simp: accumulateMempoolStakeBalanceDeltaByAddresses_def split: option.splits sum.splits prod.splits)
  then show ?thesis
  proof cases
    case 1
    then show ?thesis using assms(2) by (simp add: raw_net_def)
  next
    case (2 tx d1)
    from input_deltas_get [OF 2(2) assms(2) decode_wire [OF 2(1)] assms(3)] show ?thesis
      using 2(1,3) output_deltas_get [OF assms(3), of e trk "mt_TxOuts tx" d1] by (simp add: raw_net_def)
  qed
qed

lemma fill_inputs_cache:
  assumes "fill_inputs e rawIns is c = Some (r, c')" "cache_ok e c" "list_all wire_in rawIns"
  shows "cache_ok e c'"
  using assms
proof (induction "is" arbitrary: c r)
  case (Cons i "is")
  show ?case
  proof (cases "unat (in_InputIdx i) \<ge> length rawIns")
    case True
    then show ?thesis using Cons by auto
  next
    case False
    then obtain v c1 where l: "loadInputAddressAndSatoshi e c (rawIns ! unat (in_InputIdx i)) = Some (v, c1)"
      using Cons.prems(1) by (cases "loadInputAddressAndSatoshi e c (rawIns ! unat (in_InputIdx i))") auto
    have "wire_in (rawIns ! unat (in_InputIdx i))" using Cons.prems(3) False by (simp add: list_all_length)
    then have "cache_ok e c1" using outpoints.load_cases [OF Cons.prems(2) _ l] by simp
    then show ?thesis using Cons False l by (auto simp: Let_def)
  qed
qed simp

lemma parse_cache:
  assumes "parseMempoolProtocolTx e raw idx c = Some (Inr (parsed, c'))" "cache_ok e c"
  shows "cache_ok e c'"
  using assms fill_inputs_cache decode_wire
  by (auto simp: parseMempoolProtocolTx_def fillTxInputAddressesFromMempoolTx_def split: option.splits sum.splits if_splits)

lemma flags_bindings: "resolveBusinessInvalidFlags env b h tx p m = (flags, m') \<Longrightarrow> stakeAddrToIndexer m' = stakeAddrToIndexer m"
  by (auto simp: resolveBusinessInvalidFlags_def ResolveBusinessInvalidFlags_def managerBusinessInvalidDeps_def resolveRegisterInvalidFlags_def Let_def
      split: if_splits option.splits sum.splits)


section \<open>The two loops\<close>

definition complete :: "sync_acc \<Rightarrow> bool" where
  "complete a \<longleftrightarrow> \<not> ac_incomplete a \<and> \<not> ac_parseIncomplete a"

text \<open>What one entry of the mempool moves.\<close>

definition entry_net :: "mempool_env \<Rightarrow> bool \<Rightarrow> string \<Rightarrow> string \<Rightarrow> int" where
  "entry_net e txidMode a entry = (case fetch_entry e txidMode entry of Some rawHex \<Rightarrow> raw_net e a rawHex | None \<Rightarrow> 0)"

lemma sync_entry_get:
  assumes "sync_entry e h txidMode x s = Some s'" "cache_ok e (ac_cache s)" "a \<noteq> ''''"
  shows "cache_ok e (ac_cache s') \<and> confirmed_addresses (ac_m s') = confirmed_addresses (ac_m s) \<and> (complete s' \<longrightarrow> complete s \<and>
    mget0 0 (ac_deltas s') a = mget0 0 (ac_deltas s) a + (if a \<in> confirmed_addresses (ac_m s) then entry_net e txidMode a (snd x) else 0))"
proof (cases "fetch_entry e txidMode (snd x)")
  case None
  then show ?thesis using assms by (auto simp: sync_entry_def complete_def)
next
  case (Some raw)
  obtain r where r: "accumulateMempoolStakeBalanceDelta e (ac_m s) raw (ac_deltas s, ac_cache s) = Some r"
    using assms(1) Some by (cases "accumulateMempoolStakeBalanceDelta e (ac_m s) raw (ac_deltas s, ac_cache s)") (simp_all add: sync_entry_def)
  show ?thesis
  proof (cases r)
    case (Inl err)
    then show ?thesis using assms Some r by (auto simp: sync_entry_def complete_def)
  next
    case (Inr dc)
    obtain d c where dc: "dc = (d, c)" by (cases dc)
    have g: "cache_ok e c" "mget0 0 d a = mget0 0 (ac_deltas s) a + (if a \<in> confirmed_addresses (ac_m s) then raw_net e a raw else 0)"
      using accumulate_get [of e raw "confirmed_addresses (ac_m s)" "ac_deltas s" "ac_cache s" d c a] r Inr dc assms(2,3)
      by (simp_all add: accumulateMempoolStakeBalanceDelta_def)
    have "cache_ok e (ac_cache s') \<and> stakeAddrToIndexer (ac_m s') = stakeAddrToIndexer (ac_m s) \<and>
      (complete s' \<longrightarrow> complete s \<and> ac_deltas s' = d)"
      using assms(1) Some r Inr dc g(1) parse_cache [of e raw "word_of_nat (fst x)" c]
      by (auto simp: sync_entry_def Let_def complete_def dest: flags_bindings split: option.splits sum.splits prod.splits)
    then show ?thesis using g(2) Some by (simp add: confirmed_addresses_def entry_net_def)
  qed
qed

lemma sync_entries_get:
  assumes "sync_entries e h txidMode xs s = Some s'" "cache_ok e (ac_cache s)" "a \<noteq> ''''"
  shows "cache_ok e (ac_cache s') \<and> confirmed_addresses (ac_m s') = confirmed_addresses (ac_m s) \<and> (complete s' \<longrightarrow> complete s \<and>
    mget0 0 (ac_deltas s') a = mget0 0 (ac_deltas s) a +
      (if a \<in> confirmed_addresses (ac_m s) then sum_list (map (entry_net e txidMode a \<circ> snd) xs) else 0))"
  using assms
proof (induction xs arbitrary: s)
  case (Cons x xs)
  obtain s1 where s1: "sync_entry e h txidMode x s = Some s1" "sync_entries e h txidMode xs s1 = Some s'"
    using Cons.prems(1) by (auto split: option.splits)
  from sync_entry_get [OF s1(1) Cons.prems(2,3)] have h: "cache_ok e (ac_cache s1)" "confirmed_addresses (ac_m s1) = confirmed_addresses (ac_m s)"
    "complete s1 \<Longrightarrow> complete s \<and>
      mget0 0 (ac_deltas s1) a = mget0 0 (ac_deltas s) a + (if a \<in> confirmed_addresses (ac_m s) then entry_net e txidMode a (snd x) else 0)"
    by simp_all
  from Cons.IH [OF s1(2) h(1) Cons.prems(3)] h(2,3) show ?case by simp
qed simp

lemma first_bind_entries_get:
  assumes "first_bind_entries e trk txidMode xs s = Some s'" "cache_ok e (ac_cache s)" "a \<noteq> ''''"
  shows "ac_m s' = ac_m s \<and> ac_events s' = ac_events s \<and> (complete s' \<longrightarrow> complete s \<and>
    mget0 0 (ac_deltas s') a = mget0 0 (ac_deltas s) a + (if a \<in> trk then sum_list (map (entry_net e txidMode a) xs) else 0))"
  using assms
proof (induction xs arbitrary: s)
  case (Cons x xs)
  show ?case
  proof (cases "fetch_entry e txidMode x")
    case None
    then have "first_bind_entries e trk txidMode xs (s\<lparr>ac_incomplete := True\<rparr>) = Some s'" using Cons.prems(1) by simp
    from Cons.IH [OF this] Cons.prems(2,3) show ?thesis by (auto simp: complete_def)
  next
    case (Some raw)
    obtain r where r: "accumulateMempoolStakeBalanceDeltaByAddresses e raw trk (ac_deltas s, ac_cache s) = Some r"
      using Cons.prems(1) Some by (cases "accumulateMempoolStakeBalanceDeltaByAddresses e raw trk (ac_deltas s, ac_cache s)") simp_all
    show ?thesis
    proof (cases r)
      case (Inl err)
      then have "first_bind_entries e trk txidMode xs (s\<lparr>ac_parseIncomplete := True\<rparr>) = Some s'" using Cons.prems(1) Some r by simp
      from Cons.IH [OF this] Cons.prems(2,3) show ?thesis by (auto simp: complete_def)
    next
      case (Inr dc)
      obtain d c where dc: "r = Inr (d, c)" using Inr by (cases dc) simp
      then have f: "first_bind_entries e trk txidMode xs (s\<lparr>ac_deltas := d, ac_cache := c\<rparr>) = Some s'" using Cons.prems(1) Some r by simp
      have g: "cache_ok e c" "mget0 0 d a = mget0 0 (ac_deltas s) a + (if a \<in> trk then raw_net e a raw else 0)"
        using accumulate_get [OF r [unfolded dc] Cons.prems(2,3)] by simp_all
      from Cons.IH [OF f _ Cons.prems(3)] g Some show ?thesis by (simp add: complete_def entry_net_def)
    qed
  qed
qed simp


lemma first_bind_new: "a \<in> first_bind_addresses m evs \<Longrightarrow> a \<notin> confirmed_addresses m"
  by (simp add: first_bind_addresses_def)

lemma collect_deltas:
  assumes "collect_mempool e tipHeight rawEntries m = Some acc" "\<not> ac_incomplete acc" "\<not> ac_parseIncomplete acc" "a \<noteq> ''''"
    "normalizeMempoolEntries rawEntries = (entries, txidMode)"
  shows "mget0 0 (ac_deltas acc) a =
    (if a \<in> confirmed_addresses m \<union> first_bind_addresses (ac_m acc) (ac_events acc)
     then \<Sum>entry\<leftarrow>entries. entry_net e txidMode a entry else 0)"
proof -
  let ?s0 = "\<lparr>ac_m = m, ac_cache = [], ac_deltas = [], ac_events = [], ac_inscriptions = [], ac_proofs = [], ac_protocol = 0,
                ac_incomplete = False, ac_parseIncomplete = False\<rparr>"
  obtain s1 where s1: "sync_entries e tipHeight txidMode (enumerate 0 entries) ?s0 = Some s1"
    "(if first_bind_addresses (ac_m s1) (ac_events s1) = {} then Some s1
      else first_bind_entries e (first_bind_addresses (ac_m s1) (ac_events s1)) txidMode entries s1) = Some acc"
    using assms(1,5) by (auto simp: collect_mempool_def Let_def split: option.splits)
  let ?new = "first_bind_addresses (ac_m s1) (ac_events s1)"
  have c: "complete acc" using assms(2,3) by (simp add: complete_def)
  have k: "map (entry_net e txidMode a \<circ> snd) (enumerate 0 entries) = map (entry_net e txidMode a) entries"
    by (simp flip: map_map)
  from sync_entries_get [OF s1(1) _ assms(4)] have h: "cache_ok e (ac_cache s1)" "confirmed_addresses (ac_m s1) = confirmed_addresses m"
    "complete s1 \<Longrightarrow> mget0 0 (ac_deltas s1) a = (if a \<in> confirmed_addresses m then \<Sum>entry\<leftarrow>entries. entry_net e txidMode a entry else 0)"
    by (simp_all add: cache_ok_Nil k)
  have "ac_m acc = ac_m s1 \<and> ac_events acc = ac_events s1 \<and> complete s1 \<and>
    mget0 0 (ac_deltas acc) a = mget0 0 (ac_deltas s1) a + (if a \<in> ?new then \<Sum>entry\<leftarrow>entries. entry_net e txidMode a entry else 0)"
  proof (cases "?new = {}")
    case False
    then show ?thesis using first_bind_entries_get [OF _ h(1) assms(4), of ?new txidMode entries acc] s1(2) c by simp
  qed (use s1(2) c in simp)
  then show ?thesis using h(2,3) first_bind_new [of a "ac_m s1" "ac_events s1"] by auto
qed


section \<open>The table of events\<close>

lemma upsert_set: "UpsertStakeMempoolEvent ev t = Some t' \<Longrightarrow> set t' = insert ev {r \<in> set t. ev_TxID r \<noteq> ev_TxID ev}"
  by (auto simp: UpsertStakeMempoolEvent_def image_iff split: if_splits, metis)

abbreviation named :: "StakeMempoolEvent list \<Rightarrow> StakeMempoolEvent list" where
  "named evs \<equiv> filter (\<lambda>ev. ev_TxID ev \<noteq> '''') evs"

lemma upsert_events_set:
  assumes "upsert_events ok ex evs s = (s', True)" "distinct (map ev_TxID (named evs))"
  shows "ms_db s' = ms_db s \<and> set (ms_events s') = set (named evs) \<union> {r \<in> set (ms_events s). ev_TxID r \<notin> ev_TxID ` set (named evs)}"
  using assms
proof (induction evs arbitrary: s)
  case (Cons ev evs)
  show ?case
  proof (cases "ev_TxID ev = ''''")
    case True
    then show ?thesis using Cons by simp
  next
    case False
    then obtain t where t: "UpsertStakeMempoolEvent ev (ms_events s) = Some t"
      "upsert_events ok ex evs (count_upserted (if ev_TxID ev \<in> set ex then 0 else 1) (s\<lparr>ms_events := t\<rparr>)) = (s', True)"
      using Cons.prems(1) by (auto split: option.splits if_splits)
    have n: "named (ev # evs) = ev # named evs" using False by simp
    have fresh: "ev_TxID ev \<notin> ev_TxID ` set (named evs)" using Cons.prems(2) n by simp
    from Cons.IH [OF t(2)] Cons.prems(2) n
    have "ms_db s' = ms_db s" "set (ms_events s') = set (named evs) \<union> {r \<in> set t. ev_TxID r \<notin> ev_TxID ` set (named evs)}"
      by (simp_all add: count_upserted_def)
    then show ?thesis unfolding n upsert_set [OF t(1)] using fresh by (auto simp del: set_filter)
  qed
qed simp

lemma delete_chunks_set: "delete_chunks ok ids t = (t', True) \<Longrightarrow> t' = filter (\<lambda>r. ev_TxID r \<notin> set ids) t"
proof (induction ok ids t rule: delete_chunks.induct)
  case (1 ok ids t)
  show ?case
  proof (cases "ids = []")
    case True
    then show ?thesis using 1(2) by (simp add: delete_chunks.simps)
  next
    case False
    have ok: "ok (take 500 ids)" using 1(2) False by (subst (asm) delete_chunks.simps) (simp split: if_splits)
    then have "delete_chunks ok (drop 500 ids) (filter (\<lambda>r. ev_TxID r \<notin> set (take 500 ids)) t) = (t', True)"
      using 1(2) False by (subst (asm) delete_chunks.simps) simp
    from 1(1) [OF False _ this] ok
    have t': "t' = filter (\<lambda>r. ev_TxID r \<notin> set (take 500 ids) \<and> ev_TxID r \<notin> set (drop 500 ids)) t" by simp
    have "set ids = set (take 500 ids) \<union> set (drop 500 ids)" by (metis append_take_drop_id set_append)
    then show ?thesis unfolding t' by simp
  qed
qed


lemma upsert_inscriptions_same: "upsert_inscriptions ok ex evs s = (s', b) \<Longrightarrow> ms_db s' = ms_db s \<and> ms_events s' = ms_events s"
  by (auto simp: upsert_inscriptions_def Let_def count_upserted_def split: prod.splits)

lemma save_deltas_same: "save_deltas ok m w s = (s', b) \<Longrightarrow> ms_events s' = ms_events s"
  by (auto simp: save_deltas_def split: prod.splits)

lemma save_stakers_same: "save_stakers e ok m w s = (s', b) \<Longrightarrow> ms_events s' = ms_events s"
  by (auto simp: save_stakers_def split: prod.splits)

lemma delete_inscriptions_same: "delete_inscriptions ok w s = (s', b) \<Longrightarrow> ms_events s' = ms_events s"
  by (auto simp: delete_inscriptions_def Let_def count_removed_def split: if_splits)

lemma delete_events_set:
  "delete_events ok w s = (s', True) \<Longrightarrow>
    set (ms_events s') = {r \<in> set (ms_events s). ev_TxID r \<in> ev_TxID ` set (wi_Events w) \<or> ev_TxID r \<notin> set (wi_ExistingEventTxIDs w)}"
  by (auto simp: delete_events_def DeleteStakeMempoolEventsByTxIDs_def count_removed_def Let_def filter_empty_conv
      split: if_splits prod.splits dest!: delete_chunks_set)

lemma run_steps_ok: "run_steps (f # fs) s = (s', True) \<longleftrightarrow> (\<exists>s1. f s = (s1, True) \<and> run_steps fs s1 = (s', True))"
  by (auto split: prod.splits if_splits)

text \<open>C14. After a synchronisation without an error the table of unconfirmed events holds exactly the events collected from the mempool when
  every transaction was fetched and parsed. When one was not, nothing is removed: the events that were not collected keep their rows and
  the deltas in Redis keep the last complete view.\<close>

theorem mempool_view_exact:
  assumes "RunProtocolWriteFlow e ok m w s = (s', True)" "distinct (map ev_TxID (wi_Events w))"
    "wi_ExistingEventTxIDs w = ListStakeMempoolEventTxIDs (ms_events s)" "'''' \<notin> ev_TxID ` set (wi_Events w) \<union> ev_TxID ` set (ms_events s)"
  shows "if wi_Incomplete w \<or> wi_ParseIncomplete w
    then set (ms_events s') = set (wi_Events w) \<union> {r \<in> set (ms_events s). ev_TxID r \<notin> ev_TxID ` set (wi_Events w)} \<and> ms_db s' = ms_db s
    else set (ms_events s') = set (wi_Events w)"
proof -
  let ?inc = "wi_Incomplete w \<or> wi_ParseIncomplete w"
  obtain s1 s2 where st: "upsert_events ok (wi_ExistingEventTxIDs w) (wi_Events w) s = (s1, True)"
    "upsert_inscriptions ok (wi_ExistingInscriptionTxIDs w) (wi_InscriptionEvents w) s1 = (s2, True)"
    "run_steps (if ?inc then [] else [save_deltas ok m w, save_stakers e ok m w, delete_events ok w, delete_inscriptions ok w]) s2 = (s', True)"
    using assms(1) unfolding RunProtocolWriteFlow_def append.simps run_steps_ok by blast
  have n: "named (wi_Events w) = wi_Events w" using assms(4) by (intro filter_True) (metis UnI1 imageI)
  have u: "ms_db s2 = ms_db s" "set (ms_events s2) = set (wi_Events w) \<union> {r \<in> set (ms_events s). ev_TxID r \<notin> ev_TxID ` set (wi_Events w)}"
    using upsert_events_set [OF st(1)] upsert_inscriptions_same [OF st(2)] n assms(2) by simp_all
  show ?thesis
  proof (cases ?inc)
    case True
    then show ?thesis using st(3) u by simp
  next
    case False
    then obtain s3 s4 s5 where f: "save_deltas ok m w s2 = (s3, True)" "save_stakers e ok m w s3 = (s4, True)"
      "delete_events ok w s4 = (s5, True)" "delete_inscriptions ok w s5 = (s', True)"
      using st(3) by (auto simp: run_steps_ok simp del: run_steps.simps(2))
    have "set (ms_events s') = set (wi_Events w)"
      using delete_events_set [OF f(3)] u(2) delete_inscriptions_same [OF f(4)] save_stakers_same [OF f(2)] save_deltas_same [OF f(1)]
      by (auto simp: assms(3) ListStakeMempoolEventTxIDs_def)
    then show ?thesis using False by simp
  qed
qed

section \<open>A concrete mempool\<close>

definition pay_hex :: "string \<Rightarrow> string" where
  "pay_hex amount = ''0200000001'' @ concat (replicate 32 ''00'') @ ''0000000000ffffffff01'' @ amount @ ''000000000000000151'' @ ''00000000''"

definition quiet_btc :: btc where
  "quiet_btc = \<lparr>schnorr_ParsePubKey = (\<lambda>_. None), btcec_ParsePubKey = (\<lambda>_. None), ComputeTaprootKeyNoScript = (\<lambda>_. None),
     ComputeTaprootOutputKey = (\<lambda>_ _. []), ScriptBuilder = (\<lambda>_. None), TapHash = (\<lambda>_. []), Hash160 = (\<lambda>_. []),
     NewAddressTaproot = (\<lambda>_. None), NewAddressWitnessPubKeyHash = (\<lambda>_. None), NewAddressPubKeyHash = (\<lambda>_. None),
     NewAddressScriptHash = (\<lambda>_. None), DecodeAddress = (\<lambda>_. None), PayToAddrScript = (\<lambda>_. None)\<rparr>"

definition sample_mempool :: mempool_env where
  "sample_mempool = \<lparr>me_addrs = (\<lambda>s. if s = [0x51] then Some (False, [''s1'']) else None), me_btc = quiet_btc, me_env = open_env, me_order = id,
     me_blockHash = (\<lambda>_. Some ''00''), me_rawMempool = (\<lambda>_. Some [pay_hex ''07'']), me_rawTx = (\<lambda>_. Some (pay_hex ''05'')), me_utxo = Map.empty,
     me_snappy = (\<lambda>_. None), me_stakers = (\<lambda>_. Some [])\<rparr>"



definition pay_raw :: "byte \<Rightarrow> byte list" where
  "pay_raw v = [2, 0, 0, 0, 1] @ replicate 32 0 @ [0, 0, 0, 0, 0, 255, 255, 255, 255, 1, v, 0, 0, 0, 0, 0, 0, 0, 1, 0x51, 0, 0, 0, 0]"

definition pay_in :: TxIn where
  "pay_in = \<lparr>ti_InputHashHex = HashString (replicate 32 0), ti_InputHash = replicate 32 0, ti_InputVout = 0, ti_ScriptSig = [], ti_Sequence = -1,
     ti_ScriptWitness = [], ti_InputOutpointKey = string_of_bytes (replicate 36 0), ti_InputOutpoint = replicate 36 0\<rparr>"

definition pay_tx :: "u64 \<Rightarrow> Tx" where
  "pay_tx v = \<lparr>mt_Raw = [], mt_TxIdHex = [], mt_TxId = [], mt_Size = 0, mt_WitOffset = 0, mt_LockTime = 0, mt_Version = 2,
     mt_TxInCnt = 1, mt_TxOutCnt = 1, mt_TxIns = [pay_in], mt_TxOuts = [\<lparr>to_Satoshi = v, to_PkScript = [0x51]\<rparr>]\<rparr>"

definition pay_done :: "byte \<Rightarrow> Tx" where
  "pay_done v = (pay_tx (ucast v))\<lparr>mt_Raw := pay_raw v, mt_TxId := GetHash256 (pay_raw v), mt_TxIdHex := HashString (GetHash256 (pay_raw v))\<rparr>"

lemma decode_plain:
  "TrimSpace h = h \<Longrightarrow> h \<noteq> '''' \<Longrightarrow> hex_decode h = Some raw \<Longrightarrow> NewTx raw = Some (tx, length raw) \<Longrightarrow> raw \<noteq> [] \<Longrightarrow> mt_WitOffset tx = 0 \<Longrightarrow>
    decodeRawMempoolTx h = Some (Inr (Some (tx\<lparr>mt_Raw := raw, mt_TxId := GetHash256 raw, mt_TxIdHex := HashString (GetHash256 raw)\<rparr>)))"
  by (simp add: decodeRawMempoolTx_def parseRawTxSafe_def)

lemma pay_decode:
  "decodeRawMempoolTx (pay_hex ''07'') = Some (Inr (Some (pay_done 7)))" "decodeRawMempoolTx (pay_hex ''05'') = Some (Inr (Some (pay_done 5)))"
  unfolding pay_done_def by (rule decode_plain; code_simp)+

lemma pay_done_simps: "mt_TxIns (pay_done v) = [pay_in]" "mt_TxOuts (pay_done v) = [\<lparr>to_Satoshi = ucast v, to_PkScript = [0x51]\<rparr>]"
  by (simp_all add: pay_done_def pay_tx_def)

lemma pay_in_simps: "ti_InputOutpointKey pay_in \<noteq> ''''" "ToLower (TrimSpace (ti_InputHashHex pay_in)) \<noteq> ''''" "ti_InputVout pay_in = 0" "ti_ScriptWitness pay_in = []"
  by (code_simp, code_simp, simp_all add: pay_in_def)

lemma pay_load: "loadInputAddressAndSatoshi sample_mempool [] pay_in = Some (Some (''s1'', 5), [(ti_InputOutpointKey pay_in, ''s1'', 5)])"
proof -
  have a: "TrimSpace (AddressFromPkScript (me_addrs sample_mempool) [0x51]) = ''s1''" by code_simp
  show ?thesis using pay_in_simps a
   by (simp add: loadInputAddressAndSatoshi_def cached_input_def stored_input_def loadInputAddressAndSatoshiFromMempool_def
     sample_mempool_def pay_decode pay_done_simps mput_def mget_def Let_def)
qed

lemma pay_resolve: "resolve sample_mempool pay_in = Some (Some (''s1'', 5))"
  by (simp add: resolve_def pay_load)

lemma pay_address: "TrimSpace (AddressFromPkScript (me_addrs sample_mempool) [0x51]) = ''s1''"
  by code_simp

lemma pay_net: "raw_net sample_mempool ''s1'' (pay_hex ''07'') = 2"
  by (simp add: raw_net_def pay_decode pay_done_simps out_flow_def in_flow_def pay_resolve pay_address)

lemma pay_no_operation: "ParseProtocolTxFromModelTx (me_addrs sample_mempool) b (pay_done v) i h = Some None"
proof -
  have "claim_from_outputs (tx_Outputs (snapshot_of_tx (me_addrs sample_mempool) (pay_done v) i)) = None"
    unfolding snapshot_of_tx_def pay_done_simps by (simp add: pay_done_simps, code_simp)
  moreover have "parseStrictFIP101InscriptionFromTx b (pay_done v) = Some None"
    by (simp add: parseStrictFIP101InscriptionFromTx_def pay_done_simps input_match_def pay_in_simps)
  ultimately show ?thesis by (simp add: ParseProtocolTxFromModelTx_def parseFIP101ClaimRewardFromOutputs_def Let_def)
qed

definition pay_acc :: "Manager \<Rightarrow> sync_acc" where
  "pay_acc m = \<lparr>ac_m = m, ac_cache = [(ti_InputOutpointKey pay_in, ''s1'', 5)], ac_deltas = [(''s1'', 2)], ac_events = [], ac_inscriptions = [],
     ac_proofs = [], ac_protocol = 0, ac_incomplete = False, ac_parseIncomplete = False\<rparr>"

lemma pay_normal: "normalizeMempoolEntries [pay_hex ''07''] = ([pay_hex ''07''], False)"
  by code_simp

lemma pay_collect:
  assumes "confirmed_addresses m = {''s1''}"
  shows "collect_mempool sample_mempool 5 [pay_hex ''07''] m = Some (pay_acc m)"
  by (simp add: collect_mempool_def pay_normal pay_acc_def sync_entry_def fetch_entry_def accumulateMempoolStakeBalanceDelta_def assms
    accumulateMempoolStakeBalanceDeltaByAddresses_def pay_decode pay_done_simps pay_load parseMempoolProtocolTx_def pay_no_operation
    first_bind_addresses_def output_delta_def pay_address addPendingStakeDelta_def add_delta_def mget_def mget0_def mput_def)


definition sample_events :: "StakeMempoolEvent list" where
  "sample_events = map (\<lambda>(t, v). \<lparr>ev_TxID = t, ev_Op = TagStake, ev_Height = uint MEMPOOL_HEIGHT, ev_InscriptionContent = '''', ev_IndexerID = ''1:2'',
     ev_UserAddress = ''u'', ev_RewardAddress = '''', ev_StakeAddress = ''s1'', ev_Amount = v, ev_IndexRatio = 0, ev_IndexerName = '''',
     ev_ProveBlockHeight = 0, ev_ProveDataHash = '''', ev_BizInvalidFlags = 0, ev_TxIdx = 0\<rparr>) [(''aa'', 5), (''bb'', 6)]"

definition sample_view :: mempool_state where
  "sample_view = \<lparr>ms_db = \<lparr>md_balance_delta = [], md_indexer_delta = [], md_staker_delta = [], md_staker_delta_indexers = [], md_stakers = [],
     md_stakers_pending = [], md_stakers_indexers = [], md_total_delta = 0\<rparr>, ms_events = [sample_events ! 0], ms_inscriptions = [],
     ms_stats = \<lparr>MempoolTxs = 0, ProtocolTxs = 0, ProofTxs = 0, Upserted = 0, Removed = 0\<rparr>\<rparr>"

definition sample_input :: "bool \<Rightarrow> ProtocolWriteInput" where
  "sample_input inc = \<lparr>wi_ExistingEventTxIDs = [''aa''], wi_Events = [sample_events ! 1], wi_ExistingInscriptionTxIDs = [],
     wi_InscriptionEvents = [], wi_PendingStakeDeltas = [], wi_Incomplete = inc, wi_ParseIncomplete = False\<rparr>"

theorem mempool_view_exact_witness:
  "(\<exists>s'. RunProtocolWriteFlow sample_mempool (\<lambda>_. True) sample_manager (sample_input False) sample_view = (s', True) \<and>
     set (ms_events s') = {sample_events ! 1}) \<and>
   (\<exists>s'. RunProtocolWriteFlow sample_mempool (\<lambda>_. True) sample_manager (sample_input True) sample_view = (s', True) \<and>
     set (ms_events s') = set sample_events)"
proof -
  have ok: "snd (RunProtocolWriteFlow sample_mempool (\<lambda>_. True) sample_manager (sample_input False) sample_view)"
    "snd (RunProtocolWriteFlow sample_mempool (\<lambda>_. True) sample_manager (sample_input True) sample_view)" by (code_simp, code_simp)
  then obtain s t where r: "RunProtocolWriteFlow sample_mempool (\<lambda>_. True) sample_manager (sample_input False) sample_view = (s, True)"
    "RunProtocolWriteFlow sample_mempool (\<lambda>_. True) sample_manager (sample_input True) sample_view = (t, True)" by (metis prod.exhaust_sel)
  have "set (ms_events s) = {sample_events ! 1}"
    using mempool_view_exact [OF r(1)] by (simp add: sample_input_def sample_view_def sample_events_def ListStakeMempoolEventTxIDs_def)
  moreover have "set (ms_events t) = set sample_events"
    using mempool_view_exact [OF r(2)] by (simp add: insert_commute Collect_conv_if sample_input_def sample_view_def sample_events_def ListStakeMempoolEventTxIDs_def)
  ultimately show ?thesis using r by blast
qed

end
