(* ===== verification/Query.thy ===== *)
theory Query
  imports Mempool SlowRunner
begin

text \<open>
  The HTTP interface (\<^verbatim>\<open>interfaces/http\<close>) with the queries it makes (\<^verbatim>\<open>stake_reward_summary.go\<close>, \<^verbatim>\<open>stake_reward_pool.go\<close>, the
  lists of registers, bindings and proofs). A handler maps the parameters of a request and what it reads to a reply; \<open>None\<close> is a
  panic. The reads of a pipeline are the values of the keys with the outcome of its execution as a parameter. The text of an internal
  error is left out. A score or total that \<^verbatim>\<open>ParseFloat\<close> rejects counts as 0.
\<close>

section \<open>Numbers in replies\<close>

text \<open>\<^verbatim>\<open>strconv.ParseInt(s, 10, 64)\<close>, and the value of \<^verbatim>\<open>ParseInt\<close> and \<^verbatim>\<open>ParseUint\<close> when the error is ignored.\<close>

definition signed_digits :: "string \<Rightarrow> int option" where
  "signed_digits s =
     (case take_sign s of
        (neg, ds) \<Rightarrow> if ds \<noteq> [] \<and> list_all is_digit ds then Some ((if neg then - 1 else 1) * int (digits_val ds)) else None)"

definition ParseInt64 :: "string \<Rightarrow> int option" where
  "ParseInt64 s =
     (case signed_digits s of None \<Rightarrow> None | Some v \<Rightarrow> if - (2 ^ 63) \<le> v \<and> v < 2 ^ 63 then Some v else None)"

definition ParseInt64_value :: "string \<Rightarrow> int" where
  "ParseInt64_value s = (case signed_digits s of None \<Rightarrow> 0 | Some v \<Rightarrow> max (- (2 ^ 63)) (min v (2 ^ 63 - 1)))"

definition ParseUint64_value :: "string \<Rightarrow> u64" where
  "ParseUint64_value s = (if s \<noteq> [] \<and> list_all is_digit s then word_of_nat (min (digits_val s) (2 ^ 64 - 1)) else 0)"

section \<open>What the handlers read\<close>

datatype query_call = QRegisters | QRegister | QMempoolCount | QMempoolList | QProofCount | QProofList | QBindings | QRewardCount | QRewardList
  | QBalance | QLiability | QLatestReward | QBlock | QRatios | QPendingRatios | QDeltas | QTotals | QStakings | QFirstBinds | QZCount | QZRange
  | QPending | QSnapshotMember | QStatusCache | QCursor | QStakerDeltas

record query_env =
  qe_ok :: "query_call \<Rightarrow> bool"
  qe_registers :: "StakeIndexerRegister list"
  qe_bindings :: "StakeBinding list"
  qe_proofs :: "StakeProof list"
  qe_events :: "StakeMempoolEvent list"
  qe_allocated :: reward_table
  qe_claimed :: "StakeClaimedReward list"
  qe_blocks :: sync_table
  qe_Get :: "string \<Rightarrow> rres"
  qe_HGet :: "string \<Rightarrow> string \<Rightarrow> rres"
  qe_HGetAll :: "string \<Rightarrow> (string, string) gomap"
  qe_ZScore :: "string \<Rightarrow> string \<Rightarrow> f64 option"
  qe_ZSet :: "string \<Rightarrow> (string \<times> f64) list"
  qe_SIsMember :: "string \<Rightarrow> string \<Rightarrow> bool"
  qe_BlockCount :: "u32 option"

text \<open>The value of a successful read.\<close>

definition rval :: "rres \<Rightarrow> string option" where
  "rval r = (case r of RVal v \<Rightarrow> Some v | _ \<Rightarrow> None)"

section \<open>Tables\<close>

definition ListStakeIndexerRegisters :: "StakeIndexerRegister list \<Rightarrow> StakeIndexerRegister list" where
  "ListStakeIndexerRegisters t = sort_key (\<lambda>r. (reg_Height r, reg_TxIdx r)) t"

definition GetStakeIndexerRegisterByUserAddress :: "StakeIndexerRegister list \<Rightarrow> string \<Rightarrow> StakeIndexerRegister option" where
  "GetStakeIndexerRegisterByUserAddress t userAddress0 =
     (let userAddress = TrimSpace userAddress0 in
      if userAddress = '''' then None
      else case sort_key (\<lambda>r. (reg_Height r, reg_TxIdx r)) (filter (\<lambda>r. reg_UserAddress r = userAddress) t) of
        [] \<Rightarrow> None
      | r # _ \<Rightarrow> Some r)"

definition ListStakeIndexerRegistersByRewardAddress :: "StakeIndexerRegister list \<Rightarrow> string \<Rightarrow> StakeIndexerRegister list" where
  "ListStakeIndexerRegistersByRewardAddress t address =
     sort_key (\<lambda>r. (reg_Height r, reg_TxIdx r)) (filter (\<lambda>r. reg_RewardAddress r = address) t)"

definition ListStakeBindingsByUserAddress :: "StakeBinding list \<Rightarrow> string \<Rightarrow> StakeBinding list" where
  "ListStakeBindingsByUserAddress t userAddress =
     sort_key (\<lambda>b. (sb_Height b, sb_StakeTxIdx b, sb_StakeAddress b)) (filter (\<lambda>b. sb_UserAddress b = userAddress) t)"

definition ListStakeBindingsByIndexerID :: "StakeBinding list \<Rightarrow> string \<Rightarrow> StakeBinding list" where
  "ListStakeBindingsByIndexerID t indexerID =
     sort_key (\<lambda>b. (sb_Height b, sb_StakeTxIdx b, sb_StakeAddress b)) (filter (\<lambda>b. sb_IndexerID b = indexerID) t)"

definition proofs_of :: "StakeProof list \<Rightarrow> string \<Rightarrow> StakeProof list" where
  "proofs_of t indexerID = rev (sort_key (\<lambda>p. (sp_Height p, sp_TxIdx p)) (filter (\<lambda>p. sp_IndexerID p = indexerID) t))"

definition ListStakeProofsByIndexerID :: "StakeProof list \<Rightarrow> string \<Rightarrow> int \<Rightarrow> int \<Rightarrow> StakeProof list" where
  "ListStakeProofsByIndexerID t indexerID limit offset = page limit offset (proofs_of t indexerID)"

definition CountStakeProofsByIndexerID :: "StakeProof list \<Rightarrow> string \<Rightarrow> nat" where
  "CountStakeProofsByIndexerID t indexerID = length (filter (\<lambda>p. sp_IndexerID p = indexerID) t)"

text \<open>Sums of amounts. A sum that does not fit 64 bits fails to scan.\<close>

definition scan_sum :: "int \<Rightarrow> u64 option" where
  "scan_sum n = (if 0 \<le> n \<and> n < 2 ^ 64 then Some (word_of_int n) else None)"

definition claimed_sum :: "StakeClaimedReward list \<Rightarrow> (StakeClaimedReward \<Rightarrow> bool) \<Rightarrow> int" where
  "claimed_sum t P = (\<Sum>r \<leftarrow> filter P t. uint (cr_Amount r))"

definition stakeMempoolClaimOp :: string where "stakeMempoolClaimOp = ''FIP_101_PLEDEGED_REWARD''"

definition pending_claims :: "StakeMempoolEvent list \<Rightarrow> (StakeMempoolEvent \<Rightarrow> bool) \<Rightarrow> int" where
  "pending_claims t P = (\<Sum>e \<leftarrow> filter (\<lambda>e. ev_Op e = stakeMempoolClaimOp \<and> P e \<and> ev_BizInvalidFlags e = 0) t. uint (ev_Amount e))"

definition SumClaimedRewards :: "StakeClaimedReward list \<Rightarrow> u64 option" where
  "SumClaimedRewards t = scan_sum (claimed_sum t (\<lambda>_. True))"

definition SumClaimedRewardsByUserAddress :: "StakeClaimedReward list \<Rightarrow> string \<Rightarrow> u64 option" where
  "SumClaimedRewardsByUserAddress t userAddress =
     scan_sum (claimed_sum t (\<lambda>r. cr_UserAddress r = userAddress \<and> cr_RewardType r = StakeRewardTypeStake))"

definition SumClaimedIndexerRewards :: "StakeClaimedReward list \<Rightarrow> string \<Rightarrow> string \<Rightarrow> u64 option" where
  "SumClaimedIndexerRewards t userAddress indexerID =
     scan_sum (claimed_sum t (\<lambda>r. cr_UserAddress r = userAddress \<and> cr_IndexerID r = indexerID \<and> cr_RewardType r = StakeRewardTypeIndexer))"

record StakeRewardBalance =
  bal_AllocatedAmount :: u64
  bal_ClaimedAmount :: u64
  bal_ClaimedStakeReward :: u64
  bal_ClaimedIndexerReward :: u64
  bal_PendingClaimedAmount :: u64

definition GetStakeRewardBalanceByUserAddress ::
    "reward_table \<Rightarrow> StakeClaimedReward list \<Rightarrow> StakeMempoolEvent list \<Rightarrow> string \<Rightarrow> StakeRewardBalance option" where
  "GetStakeRewardBalanceByUserAddress allocated claimed events userAddress =
     (case (scan_sum (\<Sum>w \<leftarrow> filter (\<lambda>w. row_user w = userAddress) allocated. row_amount w),
           scan_sum (claimed_sum claimed (\<lambda>r. cr_UserAddress r = userAddress \<and> cr_RewardType r \<in> {StakeRewardTypeStake, StakeRewardTypeIndexer})),
           scan_sum (claimed_sum claimed (\<lambda>r. cr_UserAddress r = userAddress \<and> cr_RewardType r = StakeRewardTypeStake)),
           scan_sum (claimed_sum claimed (\<lambda>r. cr_UserAddress r = userAddress \<and> cr_RewardType r = StakeRewardTypeIndexer)),
           scan_sum (pending_claims events (\<lambda>e. ev_UserAddress e = userAddress))) of
        (Some a, Some c, Some s, Some i, Some p) \<Rightarrow>
          Some \<lparr>bal_AllocatedAmount = a, bal_ClaimedAmount = c, bal_ClaimedStakeReward = s, bal_ClaimedIndexerReward = i,
            bal_PendingClaimedAmount = p\<rparr>
      | _ \<Rightarrow> None)"

record StakeRewardPoolLiability =
  pool_AllocatedAmount :: u64
  pool_ClaimedAmount :: u64
  pool_PendingClaimedAmount :: u64

definition GetStakeRewardPoolLiability :: "reward_table \<Rightarrow> StakeClaimedReward list \<Rightarrow> StakeMempoolEvent list \<Rightarrow> StakeRewardPoolLiability option" where
  "GetStakeRewardPoolLiability allocated claimed events =
     (case (scan_sum (\<Sum>w \<leftarrow> allocated. row_amount w),
           scan_sum (claimed_sum claimed (\<lambda>r. cr_RewardType r \<in> {StakeRewardTypeStake, StakeRewardTypeIndexer})),
           scan_sum (pending_claims events (\<lambda>_. True))) of
        (Some a, Some c, Some p) \<Rightarrow> Some \<lparr>pool_AllocatedAmount = a, pool_ClaimedAmount = c, pool_PendingClaimedAmount = p\<rparr>
      | _ \<Rightarrow> None)"

section \<open>Replies and pages\<close>

text \<open>\<^verbatim>\<open>ResponseData\<close>: the code of the reply and its data. \<^verbatim>\<open>wrapHandler\<close> writes it whatever error the handler returns.\<close>

datatype 'a reply = ParamsInvalid string | NotFound string | Internal | Done 'a

definition reply_code :: "'a reply \<Rightarrow> int" where
  "reply_code r = (case r of ParamsInvalid _ \<Rightarrow> 1001 | NotFound _ \<Rightarrow> 1002 | Internal \<Rightarrow> 1003 | Done _ \<Rightarrow> 0)"

definition defaultPageLimit :: int where "defaultPageLimit = 20"
definition maxPageLimit :: int where "maxPageLimit = 500"

record PageReqParams =
  pg_Start :: int
  pg_Limit :: int

definition validatePageParams :: "PageReqParams \<Rightarrow> string + PageReqParams" where
  "validatePageParams params0 =
     (let params = (if pg_Limit params0 = 0 then params0\<lparr>pg_Limit := defaultPageLimit\<rparr> else params0) in
      if pg_Limit params > maxPageLimit then Inl ''limit must be <= 500''
      else if pg_Start params < 0 then Inl ''start must be >= 0''
      else Inr params)"

text \<open>The parameters of a request (\<open>None\<close> when they cannot be bound) and the rest of the handler.\<close>

definition with_page :: "PageReqParams option \<Rightarrow> (PageReqParams \<Rightarrow> 'a reply option) \<Rightarrow> 'a reply option" where
  "with_page query f =
     (case query of
        None \<Rightarrow> Some (ParamsInvalid ''params invalid'')
      | Some params0 \<Rightarrow> (case validatePageParams params0 of Inl msg \<Rightarrow> Some (ParamsInvalid msg) | Inr params \<Rightarrow> f params))"

text \<open>The three copies for indexers, stakers and stakings. The slice expression panics when its end is before its start.\<close>

definition paginate :: "'a list \<Rightarrow> int \<Rightarrow> int \<Rightarrow> 'a list option" where
  "paginate items start limit =
     (if start \<ge> int (length items) then Some []
      else
        let end' = min (start + limit) (int (length items)) in
        if start < 0 \<or> end' < start then None else Some (take (nat (end' - start)) (drop (nat start) items)))"

definition paginateIndexerItems :: "'a list \<Rightarrow> int \<Rightarrow> int \<Rightarrow> 'a list option" where
  "paginateIndexerItems = paginate"
definition paginateStakerItems :: "'a list \<Rightarrow> int \<Rightarrow> int \<Rightarrow> 'a list option" where
  "paginateStakerItems = paginate"
definition paginateUserStakingItems :: "'a list \<Rightarrow> int \<Rightarrow> int \<Rightarrow> 'a list option" where
  "paginateUserStakingItems = paginate"

section \<open>Ratios and pending deltas\<close>

text \<open>A map from the keys of a pipeline to the values that could be read.\<close>

definition read_map :: "(string \<Rightarrow> 'v option) \<Rightarrow> string list \<Rightarrow> (string, 'v) gomap" where
  "read_map f ids = List.map_filter (\<lambda>i. map_option (Pair i) (f i)) (remdups (filter (\<lambda>i. i \<noteq> '''') ids))"

definition latest_ratio :: "query_env \<Rightarrow> string \<Rightarrow> f64 option" where
  "latest_ratio q indexerID =
     (case rval (qe_HGet q (GetIndexerInfoKey indexerID) ''index_ratio'') of
        None \<Rightarrow> None
      | Some raw \<Rightarrow>
          if raw = '''' then None
          else map_option (\<lambda>ratio. let ratio = (if ratio < 0 then 0 else ratio) in if ratio > 1 then 1 else ratio) (ParseFloat (TrimSpace raw)))"

definition loadLatestIndexerRatios :: "query_env \<Rightarrow> string list \<Rightarrow> (string, f64) gomap option" where
  "loadLatestIndexerRatios q indexerIDs =
     (if indexerIDs = [] then Some [] else if \<not> qe_ok q QRatios then None else Some (read_map (latest_ratio q) indexerIDs))"

record pendingIndexerRatio =
  pr_ratio :: f64
  pr_effectiveHeight :: u32

definition parsePendingIndexerRatio :: "string \<Rightarrow> pendingIndexerRatio option" where
  "parsePendingIndexerRatio raw =
     (case Split (CHR ''|'') (TrimSpace raw) of
        [p0, p1, p2] \<Rightarrow>
          (case ParseRatio p0 of
             None \<Rightarrow> None
           | Some ratio \<Rightarrow>
             (case ParseUint 32 (TrimSpace p2) of
                None \<Rightarrow> None
              | Some h \<Rightarrow> if h = 0 then None else Some \<lparr>pr_ratio = ratio, pr_effectiveHeight = word_of_nat h\<rparr>))
      | _ \<Rightarrow> None)"

definition loadPendingIndexerRatios :: "query_env \<Rightarrow> string list \<Rightarrow> (string, pendingIndexerRatio) gomap option" where
  "loadPendingIndexerRatios q indexerIDs =
     (if indexerIDs = [] then Some []
      else if \<not> qe_ok q QPendingRatios then None
      else Some (read_map (\<lambda>i. Option.bind (rval (qe_HGet q REDIS_STAKE_INDEXER_DELAYED_COMMISSION_KEY i))
        (\<lambda>raw. if raw = '''' then None else parsePendingIndexerRatio raw)) (map TrimSpace indexerIDs)))"

definition loadConfirmedBlockHeight :: "query_env \<Rightarrow> u32" where
  "loadConfirmedBlockHeight q =
     (case rval (qe_HGet q TASK_INFO_KEYNAME TASK_BLOCK_HEIGHT) of
        None \<Rightarrow> 0
      | Some raw \<Rightarrow> (case ParseUint 32 (TrimSpace raw) of None \<Rightarrow> 0 | Some h \<Rightarrow> word_of_nat h))"

definition applyPendingIndexerRatio :: "f64 \<Rightarrow> pendingIndexerRatio \<Rightarrow> u32 \<Rightarrow> f64 \<times> f64 option \<times> u32 option" where
  "applyPendingIndexerRatio indexRatio pendingRatio confirmedHeight =
     (if pr_effectiveHeight pendingRatio = 0 then (indexRatio, None, None)
      else if confirmedHeight \<ge> pr_effectiveHeight pendingRatio then (pr_ratio pendingRatio, None, None)
      else (indexRatio, Some (pr_ratio pendingRatio), Some (pr_effectiveHeight pendingRatio)))"

definition applyStakeDelta :: "u64 \<Rightarrow> int \<Rightarrow> u64" where
  "applyStakeDelta base delta =
     (if delta = 0 then base
      else if delta > 0 then base + word_of_int delta
      else let dec = word_of_int (- delta) in if dec \<ge> base then 0 else base - dec)"

definition parse_delta :: "string \<Rightarrow> int option" where
  "parse_delta raw =
     (if TrimSpace raw = '''' then None else case ParseInt64 (TrimSpace raw) of None \<Rightarrow> None | Some d \<Rightarrow> if d = 0 then None else Some d)"

definition loadMempoolIndexerDeltas :: "query_env \<Rightarrow> string list \<Rightarrow> (string, int) gomap option" where
  "loadMempoolIndexerDeltas q indexerIDs =
     (if indexerIDs = [] then Some []
      else if \<not> qe_ok q QDeltas then None
      else Some (read_map (\<lambda>i. Option.bind (rval (qe_HGet q GetStakeMempoolIndexerDeltaKey i)) parse_delta) (map TrimSpace indexerIDs)))"

definition loadMempoolIndexerStakerDeltas :: "query_env \<Rightarrow> string \<Rightarrow> (string, int) gomap option" where
  "loadMempoolIndexerStakerDeltas q indexerID0 =
     (let indexerID = TrimSpace indexerID0 in
      if indexerID = '''' then Some []
      else if \<not> qe_ok q QStakerDeltas then None
      else Some (foldl (\<lambda>result (user, raw).
          if TrimSpace user = '''' then result
          else case parse_delta raw of None \<Rightarrow> result | Some d \<Rightarrow> mput result (TrimSpace user) d)
        [] (qe_HGetAll q (GetStakeMempoolIndexerStakerDeltaKey indexerID))))"

section \<open>Events of the mempool\<close>

definition listMempoolEventsAll :: "query_env \<Rightarrow> string \<Rightarrow> string \<Rightarrow> string \<Rightarrow> string \<Rightarrow> StakeMempoolEvent list option" where
  "listMempoolEventsAll q op userAddress rewardAddress indexerID =
     (if \<not> qe_ok q QMempoolCount then None
      else
        let total = int (CountStakeMempoolEvents (qe_events q) op userAddress rewardAddress indexerID) in
        if total \<le> 0 then Some []
        else if \<not> qe_ok q QMempoolList then None
        else Some (ListStakeMempoolEvents (qe_events q) op userAddress rewardAddress indexerID total 0))"

definition pendingIndexerIDFromEvent :: "StakeMempoolEvent \<Rightarrow> string" where
  "pendingIndexerIDFromEvent event =
     (if TrimSpace (ev_IndexerID event) \<noteq> '''' then TrimSpace (ev_IndexerID event)
      else if TrimSpace (ev_TxID event) \<noteq> '''' then ''pending:'' @ TrimSpace (ev_TxID event)
      else ''pending'')"

definition knownIndexerName :: "string \<Rightarrow> (string, string) gomap \<Rightarrow> string" where
  "knownIndexerName indexerID names =
     (let name = TrimSpace (mget0 '''' names indexerID) in if name \<noteq> '''' then name else indexerID)"

section \<open>Indexers\<close>

record IndexerListItem =
  ii_IndexerID :: string
  ii_Name :: string
  ii_RewardAddress :: string
  ii_UserAddress :: string
  ii_IndexRatio :: f64
  ii_PendingEffectiveIndexRatio :: "f64 option"
  ii_PendingEffectiveIndexRatioHeight :: "u32 option"
  ii_TotalStaked :: u64
  ii_StakeRatio :: f64
  ii_AllocatedReward :: u64
  ii_Pending :: bool

definition confirmed_total :: "query_env \<Rightarrow> string \<Rightarrow> u64" where
  "confirmed_total q indexerID =
     (case rval (qe_Get q (GetIndexerStakeTotalKey indexerID)) of None \<Rightarrow> 0 | Some val \<Rightarrow> ParseUint64_value val)"

definition reward_total :: "query_env \<Rightarrow> string \<Rightarrow> u64" where
  "reward_total q indexerID =
     (case rval (qe_HGet q (GetIndexerInfoKey indexerID) ''reward_total'') of
        None \<Rightarrow> 0
      | Some val \<Rightarrow> if val = '''' then 0 else (case ParseFloat val of None \<Rightarrow> 0 | Some f \<Rightarrow> u64_of_f64 (math_Round f)))"

definition indexer_item ::
    "query_env \<Rightarrow> (string, f64) gomap \<Rightarrow> (string, pendingIndexerRatio) gomap \<Rightarrow> (string, int) gomap \<Rightarrow> bool \<Rightarrow> u64
      \<Rightarrow> StakeIndexerRegister \<Rightarrow> IndexerListItem" where
  "indexer_item q latestRatios pendingRatios deltas withStakeRatio globalTotal reg =
     (let i = reg_IndexerID reg;
          staked = applyStakeDelta (confirmed_total q i) (mget0 0 deltas i);
          indexRatio = mget0 (reg_IndexRatio reg) latestRatios i in
      case (case mget pendingRatios i of None \<Rightarrow> (indexRatio, None, None)
            | Some p \<Rightarrow> applyPendingIndexerRatio indexRatio p (loadConfirmedBlockHeight q)) of
        (ratio, pendingRatio, pendingHeight) \<Rightarrow>
          \<lparr>ii_IndexerID = i, ii_Name = (if reg_Name reg = '''' then i else reg_Name reg), ii_RewardAddress = reg_RewardAddress reg,
           ii_UserAddress = reg_UserAddress reg, ii_IndexRatio = ratio, ii_PendingEffectiveIndexRatio = pendingRatio,
           ii_PendingEffectiveIndexRatioHeight = pendingHeight, ii_TotalStaked = staked,
           ii_StakeRatio = (if withStakeRatio \<and> globalTotal > 0 then f64_div (f64_of_u64 staked) (f64_of_u64 globalTotal) else 0),
           ii_AllocatedReward = reward_total q i, ii_Pending = mget0 0 deltas i \<noteq> 0\<rparr>)"

definition buildConfirmedIndexerItems :: "query_env \<Rightarrow> StakeIndexerRegister list \<Rightarrow> bool \<Rightarrow> (IndexerListItem list \<times> u64) option" where
  "buildConfirmedIndexerItems q registers withStakeRatio =
     (if registers = [] then Some ([], 0)
      else
        let indexerIDs = filter (\<lambda>i. i \<noteq> '''') (map reg_IndexerID registers) in
        case (loadLatestIndexerRatios q indexerIDs, loadPendingIndexerRatios q indexerIDs, loadMempoolIndexerDeltas q indexerIDs) of
          (Some latestRatios, Some pendingRatios, Some deltas) \<Rightarrow>
            if \<not> qe_ok q QTotals then None
            else
              let globalTotal = (\<Sum>reg \<leftarrow> registers. applyStakeDelta (confirmed_total q (reg_IndexerID reg)) (mget0 0 deltas (reg_IndexerID reg))) in
              Some (map (indexer_item q latestRatios pendingRatios deltas withStakeRatio globalTotal) registers, globalTotal)
        | _ \<Rightarrow> None)"

definition pending_register_item :: "StakeMempoolEvent \<Rightarrow> IndexerListItem" where
  "pending_register_item event =
     (let i = pendingIndexerIDFromEvent event; name = TrimSpace (ev_IndexerName event) in
      \<lparr>ii_IndexerID = i, ii_Name = (if name = '''' then i else name), ii_RewardAddress = TrimSpace (ev_RewardAddress event),
       ii_UserAddress = TrimSpace (ev_UserAddress event), ii_IndexRatio = ev_IndexRatio event, ii_PendingEffectiveIndexRatio = None,
       ii_PendingEffectiveIndexRatioHeight = None, ii_TotalStaked = 0, ii_StakeRatio = 0, ii_AllocatedReward = 0, ii_Pending = True\<rparr>)"

definition appendPendingRegisterItems :: "query_env \<Rightarrow> IndexerListItem list \<Rightarrow> string \<Rightarrow> IndexerListItem list option" where
  "appendPendingRegisterItems q items addressFilter =
     map_option (\<lambda>events. items @ map pending_register_item events) (listMempoolEventsAll q TagRegister (TrimSpace addressFilter) '''' '''')"

text \<open>The most stake first, confirmed before pending, then by identifier.\<close>

definition sortIndexerItems :: "IndexerListItem list \<Rightarrow> IndexerListItem list" where
  "sortIndexerItems items = sort_key (\<lambda>i. (- int (unat (ii_TotalStaked i)), ii_Pending i, ii_IndexerID i)) items"

record ListIndexersResp =
  li_Total :: nat
  li_TotalStaked :: u64
  li_Start :: int
  li_Detail :: "IndexerListItem list"

definition GetIndexers :: "query_env \<Rightarrow> PageReqParams option \<Rightarrow> ListIndexersResp reply option" where
  "GetIndexers q query = with_page query (\<lambda>params.
     if \<not> qe_ok q QRegisters then Some Internal
     else case buildConfirmedIndexerItems q (ListStakeIndexerRegisters (qe_registers q)) True of
       None \<Rightarrow> Some Internal
     | Some (items, totalStaked) \<Rightarrow>
       (case appendPendingRegisterItems q items '''' of
          None \<Rightarrow> Some Internal
        | Some items \<Rightarrow>
            map_option (\<lambda>detail. Done \<lparr>li_Total = length items, li_TotalStaked = totalStaked, li_Start = pg_Start params, li_Detail = detail\<rparr>)
              (paginateIndexerItems (sortIndexerItems items) (pg_Start params) (pg_Limit params))))"

definition loadPendingRegisterItemByAddress :: "query_env \<Rightarrow> string \<Rightarrow> IndexerListItem option option" where
  "loadPendingRegisterItemByAddress q address0 =
     (let address = TrimSpace address0 in
      if address = '''' then Some None
      else if \<not> qe_ok q QMempoolList then None
      else case ListStakeMempoolEvents (qe_events q) TagRegister address '''' '''' 1 0 of
        [] \<Rightarrow> Some None
      | event # _ \<Rightarrow> Some (Some (pending_register_item event)))"

definition GetIndexerByAddress :: "query_env \<Rightarrow> string \<Rightarrow> IndexerListItem reply" where
  "GetIndexerByAddress q param =
     (let address = TrimSpace param;
          pending = (case loadPendingRegisterItemByAddress q address of
            None \<Rightarrow> Internal
          | Some None \<Rightarrow> NotFound ''indexer not found''
          | Some (Some item) \<Rightarrow> Done item) in
      if address = '''' then ParamsInvalid ''address required''
      else if \<not> qe_ok q QRegister then Internal
      else case GetStakeIndexerRegisterByUserAddress (qe_registers q) address of
        None \<Rightarrow> pending
      | Some reg \<Rightarrow>
        (case buildConfirmedIndexerItems q [reg] False of
           None \<Rightarrow> Internal
         | Some ([], _) \<Rightarrow> pending
         | Some (item # _, _) \<Rightarrow> Done item))"

section \<open>Stakers\<close>

record StakerItem =
  si_UserAddress :: string
  si_Amount :: u64
  si_Pending :: bool

text \<open>\<^verbatim>\<open>ZREVRANGE\<close>: positions count from the highest score, negative ones from the end.\<close>

definition zrevrange :: "'a list \<Rightarrow> int \<Rightarrow> int \<Rightarrow> 'a list" where
  "zrevrange xs start stop =
     (let n = int (length xs); a = (if start < 0 then max 0 (n + start) else start); b = min (if stop < 0 then n + stop else stop) (n - 1) in
      if b < a then [] else take (nat (b - a + 1)) (drop (nat a) xs))"

definition staker_item :: "query_env \<Rightarrow> string \<Rightarrow> string \<times> f64 \<Rightarrow> StakerItem option" where
  "staker_item q pendingSetKey item =
     (let userAddress = TrimSpace (fst item); amount = u64_of_f64 (math_Round (snd item)) in
      if userAddress = '''' \<or> amount = 0 then None
      else Some \<lparr>si_UserAddress = userAddress, si_Amount = amount,
        si_Pending = (TrimSpace pendingSetKey \<noteq> '''' \<and> qe_SIsMember q pendingSetKey userAddress)\<rparr>)"

definition listStakersByZSet :: "query_env \<Rightarrow> string \<Rightarrow> string \<Rightarrow> int \<Rightarrow> int \<Rightarrow> (int \<times> StakerItem list) option" where
  "listStakersByZSet q zsetKey pendingSetKey start limit =
     (if \<not> qe_ok q QZCount then None
      else
        let total = int (length (filter (\<lambda>(_, score). score > 0) (qe_ZSet q zsetKey))) in
        if total \<le> 0 \<or> start \<ge> total then Some (total, [])
        else
          let end0 = start + limit - 1; end' = (if end0 \<ge> total then total - 1 else end0) in
          if \<not> qe_ok q QZRange then None
          else
            let items = zrevrange (qe_ZSet q zsetKey) start end' in
            if TrimSpace pendingSetKey \<noteq> '''' \<and> items \<noteq> [] \<and> \<not> qe_ok q QPending then None
            else Some (total, List.map_filter (staker_item q pendingSetKey) items))"

record ListIndexerStakersResp =
  ls_IndexerID :: string
  ls_Name :: string
  ls_Total :: int
  ls_Start :: int
  ls_Detail :: "StakerItem list"

definition register_by_id :: "query_env \<Rightarrow> string \<Rightarrow> (StakeIndexerRegister \<Rightarrow> 'a reply option) \<Rightarrow> 'a reply option" where
  "register_by_id q indexerID f =
     (if indexerID = '''' then Some (ParamsInvalid ''indexer_id required'')
      else if \<not> qe_ok q QRegister then Some Internal
      else case find (\<lambda>r. reg_IndexerID r = indexerID) (qe_registers q) of
        None \<Rightarrow> Some (NotFound ''indexer not found'')
      | Some reg \<Rightarrow> f reg)"

definition GetIndexerStakers :: "query_env \<Rightarrow> string \<Rightarrow> PageReqParams option \<Rightarrow> ListIndexerStakersResp reply option" where
  "GetIndexerStakers q param query =
     (let indexerID = TrimSpace param in
      register_by_id q indexerID (\<lambda>reg. with_page query (\<lambda>params.
        if \<not> qe_ok q QSnapshotMember then Some Internal
        else
          let useMempoolSnapshot = qe_SIsMember q GetStakeMempoolIndexerStakersIndexersKey indexerID;
              zsetKey = (if useMempoolSnapshot then GetStakeMempoolIndexerStakersKey indexerID else GetIndexerStakeZsetKey indexerID);
              pendingSetKey = (if useMempoolSnapshot then GetStakeMempoolIndexerStakersPendingKey indexerID else '''') in
          case listStakersByZSet q zsetKey pendingSetKey (pg_Start params) (pg_Limit params) of
            None \<Rightarrow> Some Internal
          | Some (stakers, detail) \<Rightarrow>
              Some (Done \<lparr>ls_IndexerID = indexerID, ls_Name = (if reg_Name reg = '''' then reg_IndexerID reg else reg_Name reg),
                ls_Total = stakers, ls_Start = pg_Start params, ls_Detail = detail\<rparr>))))"

section \<open>Proofs\<close>

record ProofItem =
  pi_IndexerID :: string
  pi_ProveBlockHeight :: u32
  pi_ProveDataHash :: string
  pi_TxID :: string
  pi_Height :: u32
  pi_TxIdx :: u32
  pi_VerifyStatus :: int
  pi_Pending :: bool

record ListIndexerProofsResp =
  lp_IndexerID :: string
  lp_Name :: string
  lp_Total :: int
  lp_Start :: int
  lp_Detail :: "ProofItem list"

definition pending_proof_item :: "StakeMempoolEvent \<Rightarrow> ProofItem" where
  "pending_proof_item p =
     \<lparr>pi_IndexerID = ev_IndexerID p, pi_ProveBlockHeight = ev_ProveBlockHeight p, pi_ProveDataHash = ev_ProveDataHash p, pi_TxID = ev_TxID p,
      pi_Height = MEMPOOL_HEIGHT, pi_TxIdx = ev_TxIdx p, pi_VerifyStatus = 0, pi_Pending = True\<rparr>"

definition proof_item :: "StakeProof \<Rightarrow> ProofItem" where
  "proof_item p =
     \<lparr>pi_IndexerID = sp_IndexerID p, pi_ProveBlockHeight = sp_ProveBlockHeight p, pi_ProveDataHash = sp_ProveDataHash p, pi_TxID = sp_TxID p,
      pi_Height = sp_Height p, pi_TxIdx = sp_TxIdx p, pi_VerifyStatus = sp_VerifyStatus p, pi_Pending = False\<rparr>"

text \<open>Pending proofs first, then confirmed ones. \<^verbatim>\<open>make\<close> panics for a negative capacity.\<close>

definition GetIndexerProofs :: "query_env \<Rightarrow> string \<Rightarrow> PageReqParams option \<Rightarrow> ListIndexerProofsResp reply option" where
  "GetIndexerProofs q param query =
     (let indexerID = TrimSpace param in
      register_by_id q indexerID (\<lambda>reg. with_page query (\<lambda>params.
        if \<not> qe_ok q QProofCount \<or> \<not> qe_ok q QMempoolCount then Some Internal
        else
          let pendingTotal = int (CountStakeMempoolEvents (qe_events q) TagProveStake '''' '''' indexerID);
              total = int (CountStakeProofsByIndexerID (qe_proofs q) indexerID) + pendingTotal;
              pendingOffset = pg_Start params;
              pendingLimit = (if pendingOffset < pendingTotal then min (pg_Limit params) (pendingTotal - pendingOffset) else 0) in
          if pg_Limit params < 0 then None
          else if pendingLimit > 0 \<and> \<not> qe_ok q QMempoolList then Some Internal
          else
            let detail = (if pendingLimit > 0 then map pending_proof_item
                  (ListStakeMempoolEvents (qe_events q) TagProveStake '''' '''' indexerID pendingLimit pendingOffset) else []);
                restLimit = pg_Limit params - int (length detail) in
            if restLimit > 0 \<and> \<not> qe_ok q QProofList then Some Internal
            else
              let confirmedOffset = (if pg_Start params \<ge> pendingTotal then pg_Start params - pendingTotal else 0);
                  confirmed = (if restLimit > 0 then map proof_item (ListStakeProofsByIndexerID (qe_proofs q) indexerID restLimit confirmedOffset)
                    else []) in
              Some (Done \<lparr>lp_IndexerID = indexerID, lp_Name = reg_Name reg, lp_Total = total, lp_Start = pg_Start params,
                lp_Detail = detail @ confirmed\<rparr>))))"

section \<open>The stakings of a user\<close>

record UserStakingItem =
  us_IndexerID :: string
  us_Name :: string
  us_StakeAddress :: string
  us_Amount :: u64
  us_Rewards :: u64
  us_Pending :: bool

record ListUserStakingsResp =
  lu_Total :: nat
  lu_Start :: int
  lu_TotalRewards :: u64
  lu_Detail :: "UserStakingItem list"

definition staking_key :: "string \<Rightarrow> string \<Rightarrow> string" where
  "staking_key indexerID stakeAddress = indexerID @ ''|'' @ stakeAddress"

definition realtime_balance :: "query_env \<Rightarrow> string \<Rightarrow> u64" where
  "realtime_balance q stakeAddress =
     (case rval (qe_Get q (GetRealtimeBalanceKey stakeAddress)) of None \<Rightarrow> 0 | Some val \<Rightarrow> ParseUint64_value val)"

definition pending_delta :: "query_env \<Rightarrow> string \<Rightarrow> int" where
  "pending_delta q stakeAddress =
     (case rval (qe_HGet q GetStakeMempoolBalanceDeltaKey stakeAddress) of
        None \<Rightarrow> 0
      | Some val \<Rightarrow> if TrimSpace val = '''' then 0 else ParseInt64_value (TrimSpace val))"

text \<open>The sum is a wrapping \<^verbatim>\<open>int64\<close>.\<close>

definition final_amount :: "query_env \<Rightarrow> string \<Rightarrow> int" where
  "final_amount q stakeAddress = sint (realtime_balance q stakeAddress + word_of_int (pending_delta q stakeAddress))"

definition reward_score :: "query_env \<Rightarrow> string \<Rightarrow> string \<Rightarrow> u64" where
  "reward_score q userAddress indexerID =
     (case qe_ZScore q (GetStakeRewardsKey userAddress) indexerID of
        None \<Rightarrow> 0
      | Some score \<Rightarrow> if score > 0 then u64_of_f64 (math_Round score) else 0)"

definition binding_item ::
    "query_env \<Rightarrow> string \<Rightarrow> (string, string) gomap \<Rightarrow> StakeBinding \<Rightarrow> (string, UserStakingItem) gomap \<Rightarrow> (string, UserStakingItem) gomap" where
  "binding_item q userAddress names b itemMap =
     (if final_amount q (sb_StakeAddress b) \<le> 0 then itemMap
      else mput itemMap (staking_key (sb_IndexerID b) (sb_StakeAddress b))
        \<lparr>us_IndexerID = sb_IndexerID b, us_Name = knownIndexerName (sb_IndexerID b) names, us_StakeAddress = sb_StakeAddress b,
         us_Amount = word_of_int (final_amount q (sb_StakeAddress b)), us_Rewards = reward_score q userAddress (sb_IndexerID b),
         us_Pending = (pending_delta q (sb_StakeAddress b) \<noteq> 0)\<rparr>)"

text \<open>\<open>confirmed\<close> are the keys of the bindings with a positive amount.\<close>

definition event_item ::
    "query_env \<Rightarrow> (string, string) gomap \<Rightarrow> string list \<Rightarrow> StakeMempoolEvent \<Rightarrow> (string, UserStakingItem) gomap \<Rightarrow> (string, UserStakingItem) gomap" where
  "event_item q names confirmed event itemMap =
     (let indexerID = TrimSpace (ev_IndexerID event); stakeAddress = TrimSpace (ev_StakeAddress event);
          key = staking_key indexerID stakeAddress in
      if ev_BizInvalidFlags event \<noteq> 0 \<or> indexerID = '''' \<or> stakeAddress = '''' then itemMap
      else if key \<in> set confirmed then
        (case mget itemMap key of
           None \<Rightarrow> itemMap
         | Some item \<Rightarrow> if us_StakeAddress item = '''' then itemMap else mput itemMap key (item\<lparr>us_Pending := True\<rparr>))
      else
        (case Option.bind (rval (qe_HGet q GetStakeMempoolBalanceDeltaKey stakeAddress)) parse_delta of
           None \<Rightarrow> itemMap
         | Some netDelta \<Rightarrow>
             if netDelta \<le> 0 then itemMap
             else mput itemMap key
               \<lparr>us_IndexerID = indexerID, us_Name = knownIndexerName indexerID names, us_StakeAddress = stakeAddress,
                us_Amount = word_of_int netDelta, us_Rewards = 0, us_Pending = True\<rparr>))"

definition indexer_names :: "StakeIndexerRegister list \<Rightarrow> (string, string) gomap" where
  "indexer_names registers =
     foldl (\<lambda>m reg. mput m (reg_IndexerID reg) (if reg_Name reg = '''' then reg_IndexerID reg else reg_Name reg)) [] registers"

definition binding_items :: "query_env \<Rightarrow> string \<Rightarrow> (string, string) gomap \<Rightarrow> StakeBinding list \<Rightarrow> (string, UserStakingItem) gomap" where
  "binding_items q userAddress names bindings = fold (binding_item q userAddress names) bindings []"

definition staking_items :: "query_env \<Rightarrow> string \<Rightarrow> StakeBinding list \<Rightarrow> StakeMempoolEvent list \<Rightarrow> (string, UserStakingItem) gomap" where
  "staking_items q userAddress bindings events =
     (let names = indexer_names (ListStakeIndexerRegisters (qe_registers q)); itemMap = binding_items q userAddress names bindings in
      fold (event_item q names (map fst itemMap)) events itemMap)"

text \<open>The events that bind a stake address without a confirmed amount: their deltas are read in a second pipeline.\<close>

definition first_binds :: "query_env \<Rightarrow> string \<Rightarrow> StakeBinding list \<Rightarrow> StakeMempoolEvent list \<Rightarrow> StakeMempoolEvent list" where
  "first_binds q userAddress bindings events =
     filter (\<lambda>e. ev_BizInvalidFlags e = 0 \<and> TrimSpace (ev_IndexerID e) \<noteq> '''' \<and> TrimSpace (ev_StakeAddress e) \<noteq> '''' \<and>
       staking_key (TrimSpace (ev_IndexerID e)) (TrimSpace (ev_StakeAddress e)) \<notin> set (map fst (binding_items q userAddress [] bindings))) events"

text \<open>The most stake first, then by indexer and stake address.\<close>

definition sort_stakings :: "UserStakingItem list \<Rightarrow> UserStakingItem list" where
  "sort_stakings items = sort_key (\<lambda>i. (- int (unat (us_Amount i)), us_IndexerID i, us_StakeAddress i)) items"

definition GetUserStakings :: "query_env \<Rightarrow> string \<Rightarrow> PageReqParams option \<Rightarrow> ListUserStakingsResp reply option" where
  "GetUserStakings q param query =
     (let userAddress = TrimSpace param in
      if userAddress = '''' then Some (ParamsInvalid ''user address required'')
      else with_page query (\<lambda>params.
        if \<not> qe_ok q QBindings \<or> \<not> qe_ok q QRegisters \<or> \<not> qe_ok q QStakings then Some Internal
        else case listMempoolEventsAll q TagStake userAddress '''' '''' of
          None \<Rightarrow> Some Internal
        | Some events \<Rightarrow>
            if first_binds q userAddress (ListStakeBindingsByUserAddress (qe_bindings q) userAddress) events \<noteq> [] \<and> \<not> qe_ok q QFirstBinds
            then Some Internal
            else
              let itemMap = staking_items q userAddress (ListStakeBindingsByUserAddress (qe_bindings q) userAddress) events;
                  totalRewards = (case rval (qe_Get q (GetStakeRewardsTotalKey userAddress)) of None \<Rightarrow> 0 | Some val \<Rightarrow> ParseUint64_value val);
                  allItems = sort_stakings (filter (\<lambda>i. us_Amount i \<noteq> 0) (map snd itemMap)) in
              map_option (\<lambda>detail. Done \<lparr>lu_Total = length allItems, lu_Start = pg_Start params, lu_TotalRewards = totalRewards, lu_Detail = detail\<rparr>)
                (paginateUserStakingItems allItems (pg_Start params) (pg_Limit params))))"

section \<open>Rewards\<close>

text \<open>\<^verbatim>\<open>UserRewardRecordItem\<close> has the fields of a stored reward.\<close>

type_synonym UserRewardRecordItem = StakeReward

record ListUserRewardRecordsResp =
  lr_Total :: nat
  lr_Start :: int
  lr_Detail :: "UserRewardRecordItem list"

definition GetUserRewardRecords :: "query_env \<Rightarrow> string \<Rightarrow> PageReqParams option \<Rightarrow> ListUserRewardRecordsResp reply option" where
  "GetUserRewardRecords q param query =
     (let userAddress = TrimSpace param in
      if userAddress = '''' then Some (ParamsInvalid ''user address required'')
      else with_page query (\<lambda>params.
        if \<not> qe_ok q QRewardCount \<or> \<not> qe_ok q QRewardList then Some Internal
        else Some (Done \<lparr>lr_Total = CountStakeAllocatedRewardsByUserAddress (qe_allocated q) userAddress, lr_Start = pg_Start params,
          lr_Detail = ListStakeAllocatedRewardsByUserAddress (qe_allocated q) userAddress (pg_Limit params) (pg_Start params)\<rparr>)))"

definition calculateClaimableRewardAmount :: "u64 \<Rightarrow> u64 \<Rightarrow> u64 \<Rightarrow> u64" where
  "calculateClaimableRewardAmount allocatedAmount claimedAmount pendingClaimedAmount =
     (if pendingClaimedAmount > - 1 - claimedAmount then 0
      else
        let totalClaimedAmount = claimedAmount + pendingClaimedAmount in
        if totalClaimedAmount \<ge> allocatedAmount then 0 else allocatedAmount - totalClaimedAmount)"

record UserRewardSummaryResp =
  rs_UserAddress :: string
  rs_Balance :: StakeRewardBalance
  rs_ClaimableAmount :: u64
  rs_RequestedAmount :: u64
  rs_CanClaim :: bool

text \<open>\<open>amount\<close> is the query parameter of that name, if there is one.\<close>

definition GetUserRewardSummary :: "query_env \<Rightarrow> string \<Rightarrow> string option \<Rightarrow> UserRewardSummaryResp reply" where
  "GetUserRewardSummary q param amount =
     (let userAddress = TrimSpace param;
          requested = (case amount of None \<Rightarrow> Some 0 | Some raw \<Rightarrow>
            (case ParseUint 64 (TrimSpace raw) of None \<Rightarrow> None | Some n \<Rightarrow> if n = 0 then None else Some n)) in
      if userAddress = '''' then ParamsInvalid ''user address required''
      else case requested of
        None \<Rightarrow> ParamsInvalid ''amount must be a positive unsigned integer''
      | Some n \<Rightarrow>
          if \<not> qe_ok q QBalance then Internal
          else case GetStakeRewardBalanceByUserAddress (qe_allocated q) (qe_claimed q) (qe_events q) userAddress of
            None \<Rightarrow> Internal
          | Some balance \<Rightarrow>
              let claimable = calculateClaimableRewardAmount (bal_AllocatedAmount balance) (bal_ClaimedAmount balance) (bal_PendingClaimedAmount balance) in
              Done \<lparr>rs_UserAddress = userAddress, rs_Balance = balance, rs_ClaimableAmount = claimable, rs_RequestedAmount = word_of_nat n,
                rs_CanClaim = (if amount = None then claimable > 0 else word_of_nat n \<le> claimable)\<rparr>)"

record RewardPoolStatusResp =
  rp_Liability :: StakeRewardPoolLiability
  rp_RequiredReserveAmount :: u64
  rp_PostPendingRequiredReserveAmount :: u64

definition GetRewardPoolStatus :: "query_env \<Rightarrow> RewardPoolStatusResp reply" where
  "GetRewardPoolStatus q =
     (if \<not> qe_ok q QLiability then Internal
      else case GetStakeRewardPoolLiability (qe_allocated q) (qe_claimed q) (qe_events q) of
        None \<Rightarrow> Internal
      | Some l \<Rightarrow> Done \<lparr>rp_Liability = l,
          rp_RequiredReserveAmount = calculateClaimableRewardAmount (pool_AllocatedAmount l) (pool_ClaimedAmount l) 0,
          rp_PostPendingRequiredReserveAmount =
            calculateClaimableRewardAmount (pool_AllocatedAmount l) (pool_ClaimedAmount l) (pool_PendingClaimedAmount l)\<rparr>)"

section \<open>The status of the indexer\<close>

record IndexerStatusResp =
  st_TotalIndexers :: int
  st_TotalStaked :: u64
  st_LatestBlockHeight :: u32
  st_StakeRewardSyncHeight :: u32
  st_LatestAllocatedRewardHeight :: u32
  st_LatestAllocatedRewardAmount :: u64
  st_PendingRewardSyncHeight :: u32
  st_PendingRewardTotalAmount :: u64

definition parseInt64Field :: "string option \<Rightarrow> int option" where
  "parseInt64Field raw =
     (case raw of
        None \<Rightarrow> None
      | Some v \<Rightarrow> let t = TrimSpace v in if t = '''' \<or> EqualFold t ''<nil>'' then None else ParseInt64 t)"

definition status_field :: "query_env \<Rightarrow> string \<Rightarrow> int option" where
  "status_field q f = parseInt64Field (rval (qe_HGet q GetStakeIndexerStatusKey f))"

text \<open>\<open>None\<close> is an error, \<open>Some None\<close> a cache that lacks a field.\<close>

definition loadIndexerStatusCache :: "query_env \<Rightarrow> IndexerStatusResp option option" where
  "loadIndexerStatusCache q =
     (if \<not> qe_ok q QStatusCache then None
      else Some (case (status_field q ''total_indexers'', status_field q ''confirmed_total_staked'', status_field q ''mempool_total_staked_delta'',
          status_field q ''latest_block_height'', status_field q ''stake_reward_sync_height'', status_field q ''latest_allocated_reward_height'',
          status_field q ''latest_allocated_reward_amount'', status_field q ''pending_reward_sync_height'', status_field q ''pending_reward_total_amount'') of
        (Some totalIndexers, Some confirmedTotal, Some mempoolDelta, Some blockHeight, Some syncHeight, Some rewardHeight, Some rewardAmount,
         Some pendingHeight, Some pendingAmount) \<Rightarrow>
          Some \<lparr>st_TotalIndexers = clamp0 totalIndexers, st_TotalStaked = applyStakeDelta (word_of_int (clamp0 confirmedTotal)) mempoolDelta,
            st_LatestBlockHeight = word_of_int (clamp0 blockHeight), st_StakeRewardSyncHeight = word_of_int (clamp0 syncHeight),
            st_LatestAllocatedRewardHeight = word_of_int (clamp0 rewardHeight), st_LatestAllocatedRewardAmount = word_of_int (clamp0 rewardAmount),
            st_PendingRewardSyncHeight = word_of_int (clamp0 pendingHeight), st_PendingRewardTotalAmount = word_of_int (clamp0 pendingAmount)\<rparr>
      | _ \<Rightarrow> None))"

text \<open>The last block whose reward was allocated and its coinbase reward.\<close>

definition latest_reward :: "query_env \<Rightarrow> (u32 \<times> u64) option" where
  "latest_reward q =
     (if \<not> qe_ok q QLatestReward then None
      else case GetLatestStakeAllocatedRewardHeight (qe_allocated q) of
        None \<Rightarrow> Some (0, 0)
      | Some height \<Rightarrow>
          if \<not> qe_ok q QBlock then None
          else Some (height, case GetSyncBlock (qe_blocks q) height of None \<Rightarrow> 0 | Some b \<Rightarrow> syb_CoinbaseReward b))"

definition GetIndexerStatus :: "query_env \<Rightarrow> IndexerStatusResp reply" where
  "GetIndexerStatus q =
     (case loadIndexerStatusCache q of
        None \<Rightarrow> Internal
      | Some (Some cached) \<Rightarrow> Done cached
      | Some None \<Rightarrow>
          let registers = ListStakeIndexerRegisters (qe_registers q);
              deltas = loadMempoolIndexerDeltas q (filter (\<lambda>i. i \<noteq> '''') (map reg_IndexerID registers)) in
          if \<not> qe_ok q QRegisters \<or> registers \<noteq> [] \<and> (deltas = None \<or> \<not> qe_ok q QTotals) then Internal
          else
            let totalStaked = (\<Sum>reg \<leftarrow> registers. applyStakeDelta (confirmed_total q (reg_IndexerID reg)) (mget0 0 (the deltas) (reg_IndexerID reg))) in
            case (qe_BlockCount q, read_cursor (qe_HGet q TASK_INFO_KEYNAME TASK_SNAPSHOT_CONSUMER_HEIGHT), latest_reward q) of
              (Some blockHeight, Inr cursor, Some (rewardHeight, rewardAmount)) \<Rightarrow>
                Done \<lparr>st_TotalIndexers = int (length registers), st_TotalStaked = totalStaked, st_LatestBlockHeight = blockHeight,
                  st_StakeRewardSyncHeight = (case cursor of None \<Rightarrow> 0 | Some h \<Rightarrow> h), st_LatestAllocatedRewardHeight = rewardHeight,
                  st_LatestAllocatedRewardAmount = rewardAmount, st_PendingRewardSyncHeight = 0, st_PendingRewardTotalAmount = 0\<rparr>
            | _ \<Rightarrow> Internal)"

record StakeRewardSyncStatusResp =
  ss_Height :: u32
  ss_BlockReward :: u64
  ss_BlockHash :: string

definition GetStakeRewardSyncStatus :: "query_env \<Rightarrow> StakeRewardSyncStatusResp reply" where
  "GetStakeRewardSyncStatus q =
     (case read_cursor (qe_HGet q TASK_INFO_KEYNAME TASK_SNAPSHOT_CONSUMER_HEIGHT) of
        Inl _ \<Rightarrow> Internal
      | Inr None \<Rightarrow> Done \<lparr>ss_Height = 0, ss_BlockReward = 0, ss_BlockHash = ''''\<rparr>
      | Inr (Some height) \<Rightarrow>
          if \<not> qe_ok q QBlock then Internal
          else case GetSyncBlock (qe_blocks q) height of
            None \<Rightarrow> Done \<lparr>ss_Height = height, ss_BlockReward = 0, ss_BlockHash = ''''\<rparr>
          | Some b \<Rightarrow> Done \<lparr>ss_Height = height, ss_BlockReward = syb_CoinbaseReward b, ss_BlockHash = syb_BlockHash b\<rparr>)"

section \<open>The transactions of the mempool\<close>

record MempoolProtocolQueryParams = PageReqParams +
  mq_Op :: string
  mq_IndexerID :: string
  mq_UserAddress :: string
  mq_RewardAddress :: string

definition isSupportedProtocolOp :: "string \<Rightarrow> bool" where
  "isSupportedProtocolOp op \<longleftrightarrow> op \<in> {'''', TagRegister, TagStake, TagProveStake, TagPledgedReward, TagAllocatRatio, ''claim_reward''}"

text \<open>\<^verbatim>\<open>MempoolProtocolTxItem\<close>: the event with the ratio that waits for its height.\<close>

record MempoolProtocolTxItem =
  mi_Event :: StakeMempoolEvent
  mi_PendingEffectiveIndexRatio :: "f64 option"
  mi_PendingEffectiveIndexRatioHeight :: "u32 option"

definition mempool_tx_item :: "query_env \<Rightarrow> (string, pendingIndexerRatio) gomap \<Rightarrow> StakeMempoolEvent \<Rightarrow> MempoolProtocolTxItem" where
  "mempool_tx_item q pendingRatios item =
     (case mget pendingRatios (ev_IndexerID item) of
        None \<Rightarrow> \<lparr>mi_Event = item, mi_PendingEffectiveIndexRatio = None, mi_PendingEffectiveIndexRatioHeight = None\<rparr>
      | Some p \<Rightarrow>
        (case applyPendingIndexerRatio (ev_IndexRatio item) p (loadConfirmedBlockHeight q) of
           (ratio, pending, height) \<Rightarrow>
             \<lparr>mi_Event = item\<lparr>ev_IndexRatio := ratio\<rparr>, mi_PendingEffectiveIndexRatio = pending, mi_PendingEffectiveIndexRatioHeight = height\<rparr>))"

record ListMempoolProtocolTxsResp =
  lm_Total :: nat
  lm_Start :: int
  lm_Detail :: "MempoolProtocolTxItem list"

definition GetMempoolProtocolTxs :: "query_env \<Rightarrow> MempoolProtocolQueryParams option \<Rightarrow> ListMempoolProtocolTxsResp reply option" where
  "GetMempoolProtocolTxs q query = with_page (map_option PageReqParams.truncate query) (\<lambda>params.
     let op = TrimSpace (mq_Op (the query)); indexerID = TrimSpace (mq_IndexerID (the query));
         userAddress = TrimSpace (mq_UserAddress (the query)); rewardAddress = TrimSpace (mq_RewardAddress (the query)) in
     if \<not> isSupportedProtocolOp op then Some (ParamsInvalid ''unsupported op'')
     else if \<not> qe_ok q QMempoolCount \<or> \<not> qe_ok q QMempoolList then Some Internal
     else
       let items = ListStakeMempoolEvents (qe_events q) op userAddress rewardAddress indexerID (pg_Limit params) (pg_Start params) in
       case loadPendingIndexerRatios q (filter (\<lambda>i. TrimSpace i \<noteq> '''') (map ev_IndexerID items)) of
         None \<Rightarrow> Some Internal
       | Some pendingRatios \<Rightarrow>
           Some (Done \<lparr>lm_Total = CountStakeMempoolEvents (qe_events q) op userAddress rewardAddress indexerID, lm_Start = pg_Start params,
             lm_Detail = map (mempool_tx_item q pendingRatios) items\<rparr>))"

end
