(* ===== verification/Startup.thy ===== *)
theory Startup
  imports Query Config
begin

text \<open>
  What runs when the indexer starts (\<^verbatim>\<open>internal/component/init\<close>): the cache of the status that the HTTP interface reads first, also rebuilt
  after a rollback, and the repair of claims that old versions stored with the wrong type or owner. \<open>None\<close> is an error.
\<close>

section \<open>The status cache\<close>

text \<open>The Go map of commands has one entry per identifier.\<close>

definition cached_total :: "query_env \<Rightarrow> StakeIndexerRegister list \<Rightarrow> u64" where
  "cached_total q registers =
     (\<Sum>i \<leftarrow> remdups (filter (\<lambda>i. i \<noteq> '''') (map reg_IndexerID registers)).
        (case rval (qe_Get q (GetIndexerStakeTotalKey i)) of
           None \<Rightarrow> 0
         | Some val \<Rightarrow> if val = '''' then 0 else (case ParseUint 64 val of None \<Rightarrow> 0 | Some n \<Rightarrow> word_of_nat n)))"

text \<open>A counter kept as text: a missing or unreadable one is 0, a failed read is an error.\<close>

definition read_counter :: "nat \<Rightarrow> rres \<Rightarrow> nat option" where
  "read_counter bits r =
     (case r of
        RErr \<Rightarrow> None
      | RNil \<Rightarrow> Some 0
      | RVal raw \<Rightarrow> Some (case ParseUint bits (TrimSpace raw) of None \<Rightarrow> 0 | Some n \<Rightarrow> n))"

definition release_percent :: "StakeRewardConfigInfo \<Rightarrow> u32 \<Rightarrow> rres \<Rightarrow> f64 option" where
  "release_percent cfg height persisted =
     (let base = RewardReleasePercentByHeight cfg height;
          clamp = (\<lambda>p. let p = (if p > 100 then 100 else p) in if p < 0 then 0 else p) in
      case persisted of
        RErr \<Rightarrow> None
      | RNil \<Rightarrow> Some (clamp base)
      | RVal raw \<Rightarrow> Some (clamp (case ParseFloat (TrimSpace raw) of None \<Rightarrow> base | Some v \<Rightarrow> if v > base then v else base)))"

definition InitIndexerStatusCache :: "StakeRewardConfigInfo \<Rightarrow> query_env \<Rightarrow> (string, hval) gomap option" where
  "InitIndexerStatusCache cfg q =
     (let registers = ListStakeIndexerRegisters (qe_registers q) in
      if \<not> qe_ok q QRegisters \<or> registers \<noteq> [] \<and> \<not> qe_ok q QTotals then None
      else case qe_BlockCount q of
        None \<Rightarrow> None
      | Some blockHeight \<Rightarrow>
        (case (read_counter 32 (qe_HGet q TASK_INFO_KEYNAME TASK_SNAPSHOT_CONSUMER_HEIGHT),
              read_counter 32 (qe_HGet q GetStakeIndexerStatusKey ''pending_reward_sync_height''),
              read_counter 64 (qe_HGet q GetStakeIndexerStatusKey ''pending_reward_total_amount''),
              latest_reward q,
              release_percent cfg blockHeight (qe_HGet q GetStakeIndexerStatusKey ''reward_release_percent'')) of
           (Some syncHeight, Some pendingHeight, Some pendingAmount, Some (rewardHeight, rewardAmount), Some percent) \<Rightarrow>
             if \<not> qe_ok q QStatusCache then None
             else Some [(''total_indexers'', HUint (length registers)), (''confirmed_total_staked'', HUint (unat (cached_total q registers))),
               (''mempool_total_staked_delta'', HUint 0), (''latest_block_height'', HUint (unat blockHeight)),
               (''stake_reward_sync_height'', HUint syncHeight), (''latest_allocated_reward_height'', HUint (unat rewardHeight)),
               (''latest_allocated_reward_amount'', HUint (unat rewardAmount)), (''reward_release_percent'', HFloat percent),
               (''pending_reward_sync_height'', HUint pendingHeight), (''pending_reward_total_amount'', HUint pendingAmount)]
         | _ \<Rightarrow> None))"

text \<open>The hash after the fields are set; a float is written with all its digits, which the reader of the cache does not use.\<close>

definition set_status :: "(string, hval) gomap \<Rightarrow> query_env \<Rightarrow> query_env" where
  "set_status flds q =
     q\<lparr>qe_HGet := (\<lambda>key f. if key = GetStakeIndexerStatusKey then
         (case mget flds f of Some (HUint n) \<Rightarrow> RVal (FormatUint n) | Some (HStr s) \<Rightarrow> RVal s | _ \<Rightarrow> qe_HGet q key f) else qe_HGet q key f)\<rparr>"

section \<open>The repair of old claims\<close>

record LegacyIndexerClaimRewardFixResult =
  fx_Exists :: bool
  fx_Fixed :: bool
  fx_Updated :: bool

text \<open>The table, which keeps the update when the read after it fails, and the result.\<close>

definition ensureLegacyIndexerClaimedRewardFixed ::
    "bool \<Rightarrow> bool \<Rightarrow> StakeClaimedReward list \<Rightarrow> string \<Rightarrow> string \<Rightarrow> StakeClaimedReward list \<times> LegacyIndexerClaimRewardFixResult option" where
  "ensureLegacyIndexerClaimedRewardFixed update_ok select_ok t txid indexerID =
     (let wrong = (\<lambda>r. cr_TxID r = txid \<and> (cr_RewardType r \<noteq> StakeRewardTypeIndexer \<or> cr_IndexerID r \<noteq> indexerID)) in
      if txid = '''' \<or> indexerID = '''' then (t, Some \<lparr>fx_Exists = False, fx_Fixed = False, fx_Updated = False\<rparr>)
      else if \<not> update_ok then (t, None)
      else
        let t' = map (\<lambda>r. if wrong r then r\<lparr>cr_RewardType := StakeRewardTypeIndexer, cr_IndexerID := indexerID\<rparr> else r) t in
        if \<not> select_ok then (t', None)
        else (t', Some (case find (\<lambda>r. cr_TxID r = txid) t' of
            None \<Rightarrow> \<lparr>fx_Exists = False, fx_Fixed = False, fx_Updated = list_ex wrong t\<rparr>
          | Some r \<Rightarrow> \<lparr>fx_Exists = True, fx_Fixed = (cr_RewardType r = StakeRewardTypeIndexer \<and> cr_IndexerID r = indexerID),
              fx_Updated = list_ex wrong t\<rparr>)))"

text \<open>\<^verbatim>\<open>TRIM\<close> of the database removes spaces only.\<close>

definition sql_trim :: "string \<Rightarrow> string" where
  "sql_trim s = rev (dropWhile (\<lambda>c. c = CHR '' '') (rev (dropWhile (\<lambda>c. c = CHR '' '') s)))"

definition claim_owner :: "FIP101InscriptionEvent list \<Rightarrow> StakeIndexerRegister list \<Rightarrow> StakeClaimedReward \<Rightarrow> string option" where
  "claim_owner events registers r =
     (if cr_RewardType r = StakeRewardTypeIndexer \<and> cr_IndexerID r \<noteq> '''' \<and>
        list_ex (\<lambda>e. ev_TxID e = cr_TxID r \<and> ev_IndexerID e = cr_IndexerID r \<and> ev_Op e = ''claim_reward'' \<and> ev_UserAddress e = cr_UserAddress r) events
      then
        (case find (\<lambda>g. reg_IndexerID g = cr_IndexerID r \<and> sql_trim (reg_UserAddress g) \<noteq> '''' \<and> sql_trim (reg_UserAddress g) \<noteq> cr_UserAddress r) registers of
           None \<Rightarrow> None
         | Some g \<Rightarrow> Some (sql_trim (reg_UserAddress g)))
      else None)"

definition fixIndexerClaimRewardUserAddresses ::
    "bool \<Rightarrow> FIP101InscriptionEvent list \<Rightarrow> StakeIndexerRegister list \<Rightarrow> StakeClaimedReward list \<Rightarrow> StakeClaimedReward list \<times> nat option" where
  "fixIndexerClaimRewardUserAddresses ok events registers t =
     (if \<not> ok then (t, None)
      else (map (\<lambda>r. case claim_owner events registers r of None \<Rightarrow> r | Some u \<Rightarrow> r\<lparr>cr_UserAddress := u\<rparr>) t,
        Some (length (filter (\<lambda>r. claim_owner events registers r \<noteq> None) t))))"

record backfill_state =
  bf_claimed :: "StakeClaimedReward list"
  bf_pending :: "(string, string) gomap"
  bf_updated :: nat
  bf_fixed :: nat
  bf_errors :: nat

text \<open>One round over the claims that still wait; \<open>ok\<close> gives the outcomes of the two statements for a transaction.\<close>

definition backfill_step :: "(string \<Rightarrow> bool \<times> bool) \<Rightarrow> string \<times> string \<Rightarrow> backfill_state \<Rightarrow> backfill_state" where
  "backfill_step ok entry s =
     (case ensureLegacyIndexerClaimedRewardFixed (fst (ok (fst entry))) (snd (ok (fst entry))) (bf_claimed s) (fst entry) (snd entry) of
        (t, None) \<Rightarrow> s\<lparr>bf_claimed := t, bf_errors := Suc (bf_errors s)\<rparr>
      | (t, Some result) \<Rightarrow>
          s\<lparr>bf_claimed := t, bf_updated := bf_updated s + (if fx_Updated result then 1 else 0),
            bf_fixed := bf_fixed s + (if fx_Fixed result then 1 else 0),
            bf_pending := (if fx_Fixed result then mdel (bf_pending s) (fst entry) else bf_pending s)\<rparr>)"

definition backfillLegacyIndexerClaimRewardOnce ::
    "(string \<Rightarrow> bool \<times> bool) \<Rightarrow> StakeClaimedReward list \<Rightarrow> (string, string) gomap \<Rightarrow> backfill_state" where
  "backfillLegacyIndexerClaimRewardOnce ok t pending =
     fold (backfill_step ok) pending \<lparr>bf_claimed = t, bf_pending = pending, bf_updated = 0, bf_fixed = 0, bf_errors = 0\<rparr>"

definition StartLegacyIndexerClaimRewardBackfill :: "StakeRewardConfigInfo \<Rightarrow> (string, string) gomap \<Rightarrow> (string, string) gomap" where
  "StartLegacyIndexerClaimRewardBackfill cfg fixes =
     (if \<not> FixLegacyIndexerClaimRewards cfg then [] else filter (\<lambda>(txid, indexerID). txid \<noteq> '''' \<and> indexerID \<noteq> '''') fixes)"

section \<open>The removal of old keys\<close>

definition legacyIndexerArtifactCleanupMarker :: string where
  "legacyIndexerArtifactCleanupMarker = ''cleanup:indexer_artifact:v1''"

text \<open>The replies of a scan until its cursor is 0 (\<open>None\<close> is an error), each followed by the deletion of its keys.\<close>

fun scanDeleteRedisKeys :: "(string list \<Rightarrow> bool) \<Rightarrow> string list option list \<Rightarrow> string list \<Rightarrow> string list \<times> bool" where
  "scanDeleteRedisKeys ok [] keys = (keys, True)"
| "scanDeleteRedisKeys ok (None # replies) keys = (keys, False)"
| "scanDeleteRedisKeys ok (Some found # replies) keys =
     (if found \<noteq> [] \<and> \<not> ok found then (keys, False)
      else scanDeleteRedisKeys ok replies (filter (\<lambda>k. k \<notin> set found) keys))"

text \<open>\<open>scan\<close> gives the replies of Redis for a pattern. The result is the keys, whether the marker is set, and whether there was no error.\<close>

definition CleanupLegacyIndexerArtifactsOnStartup ::
    "rres \<Rightarrow> (string \<Rightarrow> string list option list) \<Rightarrow> (string list \<Rightarrow> bool) \<Rightarrow> bool \<Rightarrow> string list \<Rightarrow> string list \<times> bool \<times> bool" where
  "CleanupLegacyIndexerArtifactsOnStartup marker scan ok mark_ok keys =
     (case marker of
        RErr \<Rightarrow> (keys, False, False)
      | _ \<Rightarrow>
          if marker = RVal ''1'' then (keys, True, True)
          else
            (case foldl (\<lambda>(keys, good) pattern. if good then scanDeleteRedisKeys ok (scan pattern) keys else (keys, False)) (keys, True)
                [INDEXER_UNDO_NEW_PREFIX @ ''*'', INDEXER_UNDO_SPENT_PREFIX @ ''*'', INDEXER_BLOCK_HASH_PREFIX @ ''*''] of
               (keys, good) \<Rightarrow> (keys, good \<and> mark_ok, good \<and> mark_ok)))"

end
