(* ===== verification/QueryProofs.thy ===== *)
theory QueryProofs
  imports Startup
begin

text \<open>
  What the HTTP interface shows: the pages of the proofs of an indexer, the stakings of a user and the amount a user may claim.
\<close>

section \<open>Pages over two sources\<close>

text \<open>The first source is exhausted before the second one is read.\<close>

lemma page_two_sources:
  "take l (drop s (xs @ ys)) =
    take (min l (length xs - s)) (drop s xs) @ take (l - min l (length xs - s)) (drop (s - length xs) ys)"
  by (simp add: min_def)

definition all_pending_proofs :: "query_env \<Rightarrow> string \<Rightarrow> StakeMempoolEvent list" where
  "all_pending_proofs q indexerID =
     rev (sort_key (\<lambda>e. (ev_TxIdx e, ev_TxID e)) (matching_events TagProveStake '''' '''' indexerID (qe_events q)))"

lemma pending_page:
  assumes "l \<le> 1000" "0 \<le> s"
  shows "(if 0 < l then map f (ListStakeMempoolEvents (qe_events q) TagProveStake '''' '''' i l s) else []) =
    map f (take (nat l) (drop (nat s) (all_pending_proofs q i)))"
  using assms by (simp add: ListStakeMempoolEvents_def all_pending_proofs_def)

lemma confirmed_page:
  assumes "l \<le> 500" "0 \<le> s"
  shows "(if 0 < l then map f (ListStakeProofsByIndexerID t i l s) else []) = map f (take (nat l) (drop (nat s) (proofs_of t i)))"
  using assms by (simp add: ListStakeProofsByIndexerID_def page_def page_limit_def)

lemma all_pending_length: "length (all_pending_proofs q i) = CountStakeMempoolEvents (qe_events q) TagProveStake '''' '''' i"
  by (simp add: all_pending_proofs_def CountStakeMempoolEvents_def)

lemma proofs_of_length: "length (proofs_of t i) = CountStakeProofsByIndexerID t i"
  by (simp add: proofs_of_def CountStakeProofsByIndexerID_def)

text \<open>C12. The pages of the proofs of an indexer cut one list, the pending proofs followed by the confirmed ones, newest first: the page
  at a position holds exactly the items of that list from there on, up to the limit, so that consecutive pages neither repeat nor
  skip a proof, and the total is the length of the list.\<close>

theorem proof_pages_exact:
  assumes "\<And>c. qe_ok q c" "TrimSpace param = i" "i \<noteq> ''''" "find (\<lambda>r. reg_IndexerID r = i) (qe_registers q) = Some reg"
    "0 \<le> start" "0 < limit" "limit \<le> maxPageLimit"
  shows "\<exists>r. GetIndexerProofs q param (Some \<lparr>pg_Start = start, pg_Limit = limit\<rparr>) = Some (Done r) \<and>
    lp_Detail r = take (nat limit) (drop (nat start) (map pending_proof_item (all_pending_proofs q i) @ map proof_item (proofs_of (qe_proofs q) i))) \<and>
    lp_Total r = int (length (all_pending_proofs q i) + length (proofs_of (qe_proofs q) i))"
proof -
  let ?P = "all_pending_proofs q i" and ?C = "proofs_of (qe_proofs q) i"
  define n where "n = int (length ?P)"
  define pl where "pl = (if start < n then min limit (n - start) else 0)"
  define d where "d = (if 0 < pl then map pending_proof_item (ListStakeMempoolEvents (qe_events q) TagProveStake '''' '''' i pl start) else [])"
  define rl where "rl = limit - int (length d)"
  define off where "off = (if start \<ge> n then start - n else 0)"
  define c where "c = (if 0 < rl then map proof_item (ListStakeProofsByIndexerID (qe_proofs q) i rl off) else [])"
  have lim: "limit \<le> 500" using assms(7) by (simp add: maxPageLimit_def)
  have v: "validatePageParams \<lparr>pg_Start = start, pg_Limit = limit\<rparr> = Inr \<lparr>pg_Start = start, pg_Limit = limit\<rparr>"
    using assms(5,6,7) by (simp add: validatePageParams_def)
  have pl: "nat pl = min (nat limit) (length ?P - nat start)" and pl0: "0 \<le> pl" "pl \<le> limit"
    using assms(5,6) by (auto simp: pl_def n_def nat_diff_distrib min_def)
  have d: "d = map pending_proof_item (take (nat pl) (drop (nat start) ?P))"
    unfolding d_def by (rule pending_page) (use lim pl0 assms(5) in simp_all)
  have "length d = nat pl" unfolding d using pl by simp
  then have rl: "nat rl = nat limit - nat pl" "rl \<le> 500" using pl0 lim by (simp_all add: rl_def)
  have off: "nat off = nat start - length ?P" "0 \<le> off" using assms(5) by (simp_all add: off_def n_def nat_diff_distrib)
  have c: "c = map proof_item (take (nat rl) (drop (nat off) ?C))"
    unfolding c_def by (rule confirmed_page) (use rl off in simp_all)
  have "GetIndexerProofs q param (Some \<lparr>pg_Start = start, pg_Limit = limit\<rparr>) = Some (Done \<lparr>lp_IndexerID = i, lp_Name = reg_Name reg,
      lp_Total = int (length ?C) + n, lp_Start = start, lp_Detail = d @ c\<rparr>)"
    using assms(1-4,6) v unfolding c_def off_def rl_def d_def pl_def n_def
    by (simp add: GetIndexerProofs_def register_by_id_def with_page_def Let_def all_pending_length [symmetric] proofs_of_length [symmetric])
  moreover have "d @ c = take (nat limit) (drop (nat start) (map pending_proof_item ?P @ map proof_item ?C))"
    unfolding d c off page_two_sources rl(1) pl by (simp add: take_map drop_map)
  ultimately show ?thesis by (simp add: n_def)
qed

section \<open>What may be claimed\<close>

lemma claimable_int: "uint (calculateClaimableRewardAmount a c p) = max 0 (uint a - (uint c + uint p))"
proof -
  have "uint (- 1 :: u64) = 2 ^ 64 - 1" by code_simp
  then have m: "uint (- 1 - c) = 2 ^ 64 - 1 - uint c" using uint_lt2p [of c] by (simp add: uint_sub_if_size word_size)
  have "p > - 1 - c \<longleftrightarrow> 2 ^ 64 \<le> uint c + uint p" unfolding word_less_def m by linarith
  then show ?thesis using uint_lt2p [of a]
    by (auto simp: calculateClaimableRewardAmount_def Let_def word_le_def uint_plus_if_size uint_sub_if_size word_size max_def)
qed


definition allocated_to :: "query_env \<Rightarrow> string \<Rightarrow> int" where
  "allocated_to q u = (\<Sum>w \<leftarrow> filter (\<lambda>w. row_user w = u) (qe_allocated q). row_amount w)"

definition claimed_by :: "query_env \<Rightarrow> string \<Rightarrow> int" where
  "claimed_by q u = (\<Sum>r \<leftarrow> filter (\<lambda>r. cr_UserAddress r = u \<and> IsStandardClaimRewardType (cr_RewardType r)) (qe_claimed q). uint (cr_Amount r))"

definition claiming :: "query_env \<Rightarrow> string \<Rightarrow> int" where
  "claiming q u =
     (\<Sum>e \<leftarrow> filter (\<lambda>e. ev_Op e = TagPledgedReward \<and> ev_UserAddress e = u \<and> ev_BizInvalidFlags e = 0) (qe_events q). uint (ev_Amount e))"

lemma scan_sum_uint: "scan_sum n = Some w \<Longrightarrow> uint w = n"
  by (auto simp: scan_sum_def unsigned_of_int take_bit_int_eq_self split: if_splits)

lemma balance_sums:
  assumes "GetStakeRewardBalanceByUserAddress (qe_allocated q) (qe_claimed q) (qe_events q) u = Some b"
  shows "uint (bal_AllocatedAmount b) = allocated_to q u \<and> uint (bal_ClaimedAmount b) = claimed_by q u \<and> uint (bal_PendingClaimedAmount b) = claiming q u"
  using assms
  by (auto simp: GetStakeRewardBalanceByUserAddress_def allocated_to_def claimed_by_def claiming_def claimed_sum_def pending_claims_def
      IsStandardClaimRewardType_def stakeMempoolClaimOp_def TagPledgedReward_def dest!: scan_sum_uint split: option.splits)

text \<open>C11. The answer whether a user may claim an amount is right: it is yes exactly when what the user has claimed, what waits in the mempool
  and the requested amount together do not exceed what was allocated, with no wrap-around, and the claimable amount is what is left.\<close>

theorem claim_check_sound:
  assumes "GetUserRewardSummary q param (Some raw) = Done r"
  shows "(rs_CanClaim r \<longleftrightarrow>
      claimed_by q (TrimSpace param) + claiming q (TrimSpace param) + uint (rs_RequestedAmount r) \<le> allocated_to q (TrimSpace param)) \<and>
    uint (rs_ClaimableAmount r) = max 0 (allocated_to q (TrimSpace param) - claimed_by q (TrimSpace param) - claiming q (TrimSpace param)) \<and>
    0 < rs_RequestedAmount r"
proof -
  let ?u = "TrimSpace param"
  obtain n b where n: "ParseUint 64 (TrimSpace raw) = Some n" "n \<noteq> 0"
    and b: "GetStakeRewardBalanceByUserAddress (qe_allocated q) (qe_claimed q) (qe_events q) ?u = Some b"
    and r: "r = \<lparr>rs_UserAddress = ?u, rs_Balance = b,
      rs_ClaimableAmount = calculateClaimableRewardAmount (bal_AllocatedAmount b) (bal_ClaimedAmount b) (bal_PendingClaimedAmount b),
      rs_RequestedAmount = word_of_nat n,
      rs_CanClaim = (word_of_nat n \<le> calculateClaimableRewardAmount (bal_AllocatedAmount b) (bal_ClaimedAmount b) (bal_PendingClaimedAmount b))\<rparr>"
    using assms by (auto simp: GetUserRewardSummary_def Let_def split: if_splits option.splits)
  have "n < 2 ^ 64" using n(1) by (auto simp: ParseUint_def split: if_splits)
  then have u: "unat (word_of_nat n :: u64) = n" by (simp add: unsigned_of_nat take_bit_nat_eq_self)
  then have "uint (word_of_nat n :: u64) = int n" by (metis uint_nat)
  moreover have "word_of_nat n > (0 :: u64)" using n(2) \<open>n < 2 ^ 64\<close> u by (simp add: word_less_nat_alt)
  ultimately show ?thesis
    using balance_sums [OF b] n(2) unfolding r by (simp add: word_le_def claimable_int) linarith
qed


section \<open>The stakings of a user\<close>

lemma staking_key_inj:
  assumes "CHR ''|'' \<notin> set i" "CHR ''|'' \<notin> set j"
  shows "staking_key i a = staking_key j b \<longleftrightarrow> i = j \<and> a = b"
proof
  assume eq: "staking_key i a = staking_key j b"
  have "takeWhile (\<lambda>c. c \<noteq> CHR ''|'') (staking_key k x) = k" if "CHR ''|'' \<notin> set k" for k x
    using that by (auto simp: staking_key_def takeWhile_append)
  from this [OF assms(1), of a] this [OF assms(2), of b] eq have "i = j" by simp
  then show "i = j \<and> a = b" using eq by (simp add: staking_key_def)
qed simp

text \<open>The amount shown for a key.\<close>

definition shown :: "(string, UserStakingItem) gomap \<Rightarrow> string \<Rightarrow> u64 option" where
  "shown items key = map_option us_Amount (mget items key)"

lemma binding_fold:
  assumes "list_all (\<lambda>b. CHR ''|'' \<notin> set (sb_IndexerID b)) bs" "CHR ''|'' \<notin> set i"
  shows "shown (fold (binding_item q u names) bs m) (staking_key i a) =
    (if 0 < final_amount q a \<and> (\<exists>b \<in> set bs. sb_IndexerID b = i \<and> sb_StakeAddress b = a) then Some (word_of_int (final_amount q a))
     else shown m (staking_key i a))"
  using assms(1)
proof (induction bs arbitrary: m)
  case (Cons b bs)
  have k: "staking_key (sb_IndexerID b) (sb_StakeAddress b) = staking_key i a \<longleftrightarrow> sb_IndexerID b = i \<and> sb_StakeAddress b = a"
    using Cons.prems assms(2) by (intro staking_key_inj) auto
  have "shown (binding_item q u names b m) (staking_key i a) =
    (if 0 < final_amount q a \<and> sb_IndexerID b = i \<and> sb_StakeAddress b = a then Some (word_of_int (final_amount q a)) else shown m (staking_key i a))"
    using k by (auto simp: binding_item_def shown_def)
  then show ?case using Cons by auto
qed simp


text \<open>The pending delta of a stake address as the loop over the events reads it.\<close>

definition net_delta :: "query_env \<Rightarrow> string \<Rightarrow> int" where
  "net_delta q a = (case Option.bind (rval (qe_HGet q GetStakeMempoolBalanceDeltaKey a)) parse_delta of None \<Rightarrow> 0 | Some d \<Rightarrow> d)"

definition binds :: "string \<Rightarrow> string \<Rightarrow> StakeMempoolEvent \<Rightarrow> bool" where
  "binds i a e \<longleftrightarrow> ev_BizInvalidFlags e = 0 \<and> i \<noteq> '''' \<and> a \<noteq> '''' \<and> TrimSpace (ev_IndexerID e) = i \<and> TrimSpace (ev_StakeAddress e) = a"

lemma shown_pending: "mget m k = Some item \<Longrightarrow> shown (mput m k (item\<lparr>us_Pending := p\<rparr>)) k' = shown m k'"
  by (cases "k' = k") (simp_all add: shown_def)

lemma event_shown:
  assumes "CHR ''|'' \<notin> set (TrimSpace (ev_IndexerID e))" "CHR ''|'' \<notin> set i"
  shows "shown (event_item q names conf e m) (staking_key i a) =
    (if staking_key i a \<notin> set conf \<and> binds i a e \<and> 0 < net_delta q a then Some (word_of_int (net_delta q a)) else shown m (staking_key i a))"
proof -
  let ?j = "TrimSpace (ev_IndexerID e)" and ?b = "TrimSpace (ev_StakeAddress e)"
  have k: "staking_key i a = staking_key ?j ?b \<longleftrightarrow> i = ?j \<and> a = ?b" by (rule staking_key_inj [OF assms(2,1)])
  consider "ev_BizInvalidFlags e \<noteq> 0 \<or> ?j = '''' \<or> ?b = ''''"
    | "\<not> (ev_BizInvalidFlags e \<noteq> 0 \<or> ?j = '''' \<or> ?b = '''')" "staking_key ?j ?b \<in> set conf"
    | "\<not> (ev_BizInvalidFlags e \<noteq> 0 \<or> ?j = '''' \<or> ?b = '''')" "staking_key ?j ?b \<notin> set conf" by fast
  then show ?thesis
  proof cases
    case 1
    then have "\<not> binds i a e" unfolding binds_def by fast
    moreover have "event_item q names conf e m = m" using 1 unfolding event_item_def Let_def by (simp only: if_True)
    ultimately show ?thesis by simp
  next
    case 2
    have "staking_key i a \<in> set conf \<or> \<not> binds i a e" using 2(2) unfolding binds_def by fast
    moreover have "shown (event_item q names conf e m) k' = shown m k'" for k'
      using 2 by (simp only: event_item_def Let_def if_False if_True) (simp add: shown_pending split: option.split)
    ultimately show ?thesis by (simp, blast)
  next
    case 3
    have e: "event_item q names conf e m =
      (if 0 < net_delta q ?b then mput m (staking_key ?j ?b)
         \<lparr>us_IndexerID = ?j, us_Name = knownIndexerName ?j names, us_StakeAddress = ?b, us_Amount = word_of_int (net_delta q ?b), us_Rewards = 0,
          us_Pending = True\<rparr> else m)"
      using 3 by (simp only: event_item_def Let_def if_False) (simp add: net_delta_def split: option.split)
    have b: "binds i a e \<longleftrightarrow> i = ?j \<and> a = ?b" using 3(1) unfolding binds_def by fast
    show ?thesis
    proof (cases "i = ?j \<and> a = ?b")
      case True
      then show ?thesis using 3(2) b unfolding e by (simp add: shown_def)
    next
      case False
      then have "\<not> binds i a e" "staking_key i a \<noteq> staking_key ?j ?b" using b k by fast+
      then show ?thesis unfolding e by (simp add: shown_def)
    qed
  qed
qed

lemma event_fold:
  assumes "list_all (\<lambda>e. CHR ''|'' \<notin> set (TrimSpace (ev_IndexerID e))) es" "CHR ''|'' \<notin> set i"
  shows "shown (fold (event_item q names conf) es m) (staking_key i a) =
    (if staking_key i a \<notin> set conf \<and> list_ex (binds i a) es \<and> 0 < net_delta q a then Some (word_of_int (net_delta q a))
     else shown m (staking_key i a))"
  using assms(1) by (induction es arbitrary: m) (auto simp: event_shown [OF _ assms(2)])

lemma shown_key: "shown m k \<noteq> None \<longleftrightarrow> k \<in> set (map fst m)"
  by (auto simp: shown_def mget_def map_of_eq_None_iff)

lemma staking_items_shown:
  assumes "list_all (\<lambda>b. CHR ''|'' \<notin> set (sb_IndexerID b)) bs" "list_all (\<lambda>e. CHR ''|'' \<notin> set (TrimSpace (ev_IndexerID e))) es"
    "CHR ''|'' \<notin> set i"
  shows "shown (staking_items q u bs es) (staking_key i a) =
    (if 0 < final_amount q a \<and> (\<exists>b \<in> set bs. sb_IndexerID b = i \<and> sb_StakeAddress b = a) then Some (word_of_int (final_amount q a))
     else if list_ex (binds i a) es \<and> 0 < net_delta q a then Some (word_of_int (net_delta q a)) else None)"
proof -
  let ?names = "indexer_names (ListStakeIndexerRegisters (qe_registers q))"
  let ?m = "binding_items q u ?names bs"
  have m: "shown ?m (staking_key i a) =
    (if 0 < final_amount q a \<and> (\<exists>b \<in> set bs. sb_IndexerID b = i \<and> sb_StakeAddress b = a) then Some (word_of_int (final_amount q a)) else None)"
    unfolding binding_items_def binding_fold [OF assms(1,3)] by (simp add: shown_def)
  have "staking_key i a \<in> set (map fst ?m) \<longleftrightarrow> shown ?m (staking_key i a) \<noteq> None" using shown_key by blast
  then show ?thesis unfolding staking_items_def Let_def event_fold [OF assms(2,3)] m by auto
qed

lemma user_stakings_items:
  assumes "GetUserStakings q param (Some \<lparr>pg_Start = start, pg_Limit = limit\<rparr>) = Some (Done r)" "0 < limit"
    "listMempoolEventsAll q TagStake (TrimSpace param) '''' '''' = Some es"
    "list_all (\<lambda>b. CHR ''|'' \<notin> set (sb_IndexerID b)) (qe_bindings q)" "list_all (\<lambda>e. CHR ''|'' \<notin> set (TrimSpace (ev_IndexerID e))) es"
  shows "\<exists>items. lu_Detail r = take (nat limit) (drop (nat start) (sort_stakings (filter (\<lambda>s. us_Amount s \<noteq> 0) (map snd items)))) \<and>
    (\<forall>i a. CHR ''|'' \<notin> set i \<longrightarrow> shown items (staking_key i a) =
      (if 0 < final_amount q a \<and> (\<exists>b \<in> set (qe_bindings q). sb_UserAddress b = TrimSpace param \<and> sb_IndexerID b = i \<and> sb_StakeAddress b = a)
       then Some (word_of_int (final_amount q a))
       else if list_ex (binds i a) es \<and> 0 < net_delta q a then Some (word_of_int (net_delta q a)) else None))"
proof -
  let ?bs = "ListStakeBindingsByUserAddress (qe_bindings q) (TrimSpace param)"
  let ?items = "staking_items q (TrimSpace param) ?bs es"
  let ?all = "sort_stakings (filter (\<lambda>s. us_Amount s \<noteq> 0) (map snd ?items))"
  have bs: "set ?bs = {b \<in> set (qe_bindings q). sb_UserAddress b = TrimSpace param}" by (simp add: ListStakeBindingsByUserAddress_def)
  then have "list_all (\<lambda>b. CHR ''|'' \<notin> set (sb_IndexerID b)) ?bs" using assms(4) by (simp add: list_all_iff)
  from staking_items_shown [OF this assms(5)] have items: "CHR ''|'' \<notin> set i \<Longrightarrow> shown ?items (staking_key i a) =
      (if 0 < final_amount q a \<and> (\<exists>b \<in> set (qe_bindings q). sb_UserAddress b = TrimSpace param \<and> sb_IndexerID b = i \<and> sb_StakeAddress b = a)
       then Some (word_of_int (final_amount q a))
       else if list_ex (binds i a) es \<and> 0 < net_delta q a then Some (word_of_int (net_delta q a)) else None)" for i a
    unfolding bs by (auto simp: bs)
  obtain detail where d: "paginate ?all start limit = Some detail" "lu_Detail r = detail" and start: "0 \<le> start"
    using assms(1,2,3)
    by (auto simp: GetUserStakings_def with_page_def validatePageParams_def Let_def paginateUserStakingItems_def split: if_splits)
  have "detail = take (nat limit) (drop (nat start) ?all)"
    using d(1) start assms(2) by (auto simp: paginate_def Let_def min_def nat_add_distrib nat_diff_distrib split: if_splits)
  then show ?thesis using d(2) items by blast
qed



section \<open>A concrete indexer\<close>

definition sample_event :: "string \<Rightarrow> string \<Rightarrow> u64 \<Rightarrow> u32 \<Rightarrow> StakeMempoolEvent" where
  "sample_event op txid amount idx = \<lparr>ev_TxID = txid, ev_Op = op, ev_Height = uint MEMPOOL_HEIGHT, ev_InscriptionContent = '''', ev_IndexerID = ''1:2'',
     ev_UserAddress = ''u1'', ev_RewardAddress = '''', ev_StakeAddress = ''s1'', ev_Amount = amount, ev_IndexRatio = 0, ev_IndexerName = '''',
     ev_ProveBlockHeight = 0, ev_ProveDataHash = '''', ev_BizInvalidFlags = 0, ev_TxIdx = idx\<rparr>"

definition sample_query :: query_env where
  "sample_query = \<lparr>qe_ok = (\<lambda>_. True),
     qe_registers = [\<lparr>reg_IndexerID = ''1:2'', reg_Name = ''one'', reg_RewardAddress = ''r'', reg_UserAddress = ''o'', reg_IndexRatio = 0,
       reg_LastUpdateHeight = 0, reg_RegisterTxID = ''t'', reg_Height = 1, reg_TxIdx = 2\<rparr>],
     qe_bindings = [\<lparr>sb_UserAddress = ''u1'', sb_IndexerID = ''1:2'', sb_AddressType = ''P2TR'', sb_StakeAddress = ''s1'', sb_Height = 5,
       sb_StakeTxID = ''b'', sb_StakeTxIdx = 0\<rparr>],
     qe_proofs = map (\<lambda>(t, h). \<lparr>sp_IndexerID = ''1:2'', sp_ProveBlockHeight = 4, sp_ProveDataHash = '''', sp_TxID = t, sp_Height = h, sp_TxIdx = 0,
       sp_VerifyStatus = 1\<rparr>) [(''p1'', 6), (''p2'', 7)],
     qe_events = [sample_event TagProveStake ''p3'' 0 3, sample_event TagPledgedReward ''c'' 20 4],
     qe_allocated = (case row_of (sample_reward ''u1'' 100) of Some w \<Rightarrow> [w] | None \<Rightarrow> []),
     qe_claimed = [\<lparr>cr_UserAddress = ''u1'', cr_IndexerID = '''', cr_RewardType = ''stake'', cr_Amount = 30, cr_TxID = ''d'', cr_Height = 6, cr_TxIdx = 0\<rparr>],
     qe_blocks = [], qe_Get = (\<lambda>k. if k = GetRealtimeBalanceKey ''s1'' then RVal ''500'' else RNil),
     qe_HGet = (\<lambda>k f. if k = GetStakeMempoolBalanceDeltaKey \<and> f = ''s1'' then RVal ''-200'' else RNil), qe_HGetAll = (\<lambda>_. []),
     qe_ZScore = (\<lambda>_ _. None), qe_ZSet = (\<lambda>_. []), qe_SIsMember = (\<lambda>_ _. False), qe_BlockCount = Some 9\<rparr>"

theorem proof_pages_exact_witness:
  "\<exists>r. GetIndexerProofs sample_query ''1:2'' (Some \<lparr>pg_Start = 0, pg_Limit = 2\<rparr>) = Some (Done r) \<and> lp_Total r = 3 \<and>
     map pi_TxID (lp_Detail r) = [''p3'', ''p2'']"
proof -
  obtain reg where reg: "find (\<lambda>r. reg_IndexerID r = ''1:2'') (qe_registers sample_query) = Some reg" by (simp add: sample_query_def)
  have ok: "\<And>c. qe_ok sample_query c" by (simp add: sample_query_def)
  have "TrimSpace ''1:2'' = ''1:2''" by code_simp
  from proof_pages_exact [OF ok this _ reg, of 0 2] obtain r where
    r: "GetIndexerProofs sample_query ''1:2'' (Some \<lparr>pg_Start = 0, pg_Limit = 2\<rparr>) = Some (Done r)"
    "lp_Detail r = take 2 (map pending_proof_item (all_pending_proofs sample_query ''1:2'') @ map proof_item (proofs_of (qe_proofs sample_query) ''1:2''))"
    "lp_Total r = int (length (all_pending_proofs sample_query ''1:2'') + length (proofs_of (qe_proofs sample_query) ''1:2''))"
    by (auto simp: maxPageLimit_def)
  have "map pi_TxID (take 2 (map pending_proof_item (all_pending_proofs sample_query ''1:2'') @ map proof_item (proofs_of (qe_proofs sample_query) ''1:2''))) =
    [''p3'', ''p2'']" by code_simp
  moreover have "length (all_pending_proofs sample_query ''1:2'') + length (proofs_of (qe_proofs sample_query) ''1:2'') = 3" by code_simp
  ultimately show ?thesis using r by simp
qed

theorem claim_check_sound_witness:
  "\<exists>r. GetUserRewardSummary sample_query ''u1'' (Some ''51'') = Done r \<and> \<not> rs_CanClaim r \<and> uint (rs_ClaimableAmount r) = 50"
proof -
  obtain r where r: "GetUserRewardSummary sample_query ''u1'' (Some ''51'') = Done r" and n: "rs_RequestedAmount r = 51"
  proof -
    have "case GetUserRewardSummary sample_query ''u1'' (Some ''51'') of Done r \<Rightarrow> rs_RequestedAmount r = 51 | _ \<Rightarrow> False" by code_simp
    then show ?thesis using that by (cases "GetUserRewardSummary sample_query ''u1'' (Some ''51'')") simp_all
  qed
  have "TrimSpace ''u1'' = ''u1''" "claimed_by sample_query ''u1'' = 30" "claiming sample_query ''u1'' = 20" "allocated_to sample_query ''u1'' = 100"
    by (code_simp, code_simp, code_simp, code_simp)
  with claim_check_sound [OF r] n r show ?thesis by auto
qed


section \<open>Limits that are not checked\<close>

text \<open>\<^verbatim>\<open>validatePageParams\<close> lets a negative limit through: the handlers that cut a slice or allocate the page panic.\<close>

lemma negative_limit_panics:
  "GetIndexerProofs sample_query ''1:2'' (Some \<lparr>pg_Start = 0, pg_Limit = - 1\<rparr>) = None"
  "GetIndexers sample_query (Some \<lparr>pg_Start = 0, pg_Limit = - 1\<rparr>) = None"
  "GetUserStakings sample_query ''u1'' (Some \<lparr>pg_Start = 0, pg_Limit = - 1\<rparr>) = None"
  by (code_simp, code_simp, code_simp)

text \<open>\<^verbatim>\<open>listMempoolEventsAll\<close> asks for as many events as there are but never gets more than 1000.\<close>

lemma events_truncated:
  assumes "\<And>c. qe_ok q c" "CountStakeMempoolEvents (qe_events q) op u ra i > 1000"
  shows "\<exists>es. listMempoolEventsAll q op u ra i = Some es \<and> length es = 1000"
  using assms by (auto simp: listMempoolEventsAll_def ListStakeMempoolEvents_def CountStakeMempoolEvents_def Let_def)

end
