(* ===== verification/EndToEnd.thy ===== *)
theory EndToEnd
  imports MempoolProofs QueryProofs
begin

text \<open>The mempool synchronisation and the HTTP interface together: the deltas a complete synchronisation writes to Redis are the ones the
  query handlers read back, so that the amount shown for a bound stake address is its confirmed balance plus the net payment of all
  mempool transactions to it.\<close>

section \<open>The keys of the pending deltas\<close>

text \<open>The deltas form a map whose keys are trimmed addresses, so that nothing is lost when they are written as a hash.\<close>

definition keys_ok :: "(string, int) gomap \<Rightarrow> bool" where
  "keys_ok d \<longleftrightarrow> mwf d \<and> (\<forall>k \<in> set (map fst d). TrimSpace k = k \<and> k \<noteq> '''')"

lemma delta_keys_mput: "set (map fst (mput m k v)) = insert k (set (map fst m))"
  unfolding mput_def by (induction m) auto

lemma keys_ok_add: "keys_ok d \<Longrightarrow> TrimSpace b = b \<Longrightarrow> keys_ok (addPendingStakeDelta d b v)"
  unfolding keys_ok_def addPendingStakeDelta_def add_delta_def Let_def
  by (auto simp: delta_keys_mput simp del: set_map) (auto simp: mdel_def)

lemma load_trimmed: "loadInputAddressAndSatoshi e c i = Some (Some (b, s), c') \<Longrightarrow> TrimSpace b = b"
  using stored_address [of e i "(b, s)"] from_mempool_address [of e c i "(b, s)" c']
  by (auto simp: loadInputAddressAndSatoshi_def cached_input_def split: if_splits option.splits)

lemma input_deltas_keys: "input_deltas e trk is (d, c) = Some (d', c') \<Longrightarrow> keys_ok d \<Longrightarrow> keys_ok d'"
proof (induction "is" arbitrary: d c)
  case (Cons i "is")
  then show ?case by (auto split: option.splits prod.splits if_splits dest: load_trimmed intro: keys_ok_add)
qed simp

lemma output_deltas_keys: "keys_ok d \<Longrightarrow> keys_ok (fold (output_delta e trk) outs d)"
  by (induction outs arbitrary: d) (auto simp: output_delta_def Let_def keys_ok_add)

lemma accumulate_keys:
  "accumulateMempoolStakeBalanceDeltaByAddresses e raw trk (d, c) = Some (Inr (d', c')) \<Longrightarrow> keys_ok d \<Longrightarrow> keys_ok d'"
  by (auto simp: accumulateMempoolStakeBalanceDeltaByAddresses_def split: if_splits option.splits sum.splits prod.splits
      dest: input_deltas_keys intro: output_deltas_keys)

lemma sync_entry_keys: "sync_entry e h txidMode x s = Some s' \<Longrightarrow> keys_ok (ac_deltas s) \<Longrightarrow> keys_ok (ac_deltas s')"
  by (auto simp: sync_entry_def accumulateMempoolStakeBalanceDelta_def Let_def split: option.splits sum.splits prod.splits dest: accumulate_keys)

lemma sync_entries_keys: "sync_entries e h txidMode xs s = Some s' \<Longrightarrow> keys_ok (ac_deltas s) \<Longrightarrow> keys_ok (ac_deltas s')"
  by (induction xs arbitrary: s) (auto split: option.splits dest: sync_entry_keys)

lemma first_bind_keys: "first_bind_entries e trk txidMode xs s = Some s' \<Longrightarrow> keys_ok (ac_deltas s) \<Longrightarrow> keys_ok (ac_deltas s')"
proof (induction xs arbitrary: s)
  case (Cons x xs)
  then show ?case by (auto split: option.splits sum.splits prod.splits dest: accumulate_keys)
qed simp

lemma collect_keys: "collect_mempool e h raws m = Some acc \<Longrightarrow> keys_ok (ac_deltas acc)"
proof -
  assume "collect_mempool e h raws m = Some acc"
  moreover have "keys_ok []" by (simp add: keys_ok_def)
  ultimately show ?thesis
    by (auto simp: collect_mempool_def Let_def split: prod.splits option.splits if_splits dest!: sync_entries_keys first_bind_keys)
qed

section \<open>From the mempool to the reply\<close>

lemma hash_fields_fold:
  "mwf m \<Longrightarrow> \<forall>k \<in> set (map fst m). TrimSpace k = k \<and> k \<noteq> '''' \<Longrightarrow>
    mget0 0 (foldl (\<lambda>f (k, v). if TrimSpace k = '''' \<or> v = 0 then f else mput f (TrimSpace k) v) f m) a =
      (if mget0 0 m a = 0 then mget0 0 f a else mget0 0 m (a :: string) :: int)"
proof (induction m arbitrary: f)
  case (Cons x m)
  obtain k v where x: "x = (k, v)" by (cases x)
  let ?f = "if v = 0 then f else mput f k v"
  have k: "TrimSpace k = k" "k \<noteq> ''''" "k \<notin> set (map fst m)" "mwf m" using Cons.prems x by (auto simp: mwf_def)
  have "mget0 0 (foldl (\<lambda>f (k, v). if TrimSpace k = '''' \<or> v = 0 then f else mput f (TrimSpace k) v) ?f m) a =
      (if mget0 0 m a = 0 then mget0 0 ?f a else mget0 0 m a)"
    using Cons.IH [OF k(4)] Cons.prems(2) by simp
  moreover have "mget0 0 (x # m) a = (if a = k then v else mget0 0 m a)" by (simp add: x mget0_def)
  moreover have "mget0 0 m k = 0" using k(3) by (simp add: mget0_def map_of_eq_None_iff [THEN iffD2])
  ultimately show ?case using k(1,2) x by auto
qed simp

lemma hash_fields_get: "keys_ok d \<Longrightarrow> mget0 0 (hash_fields d) a = mget0 0 d a"
  using hash_fields_fold [of d "[]" a] by (simp add: keys_ok_def hash_fields_def)

text \<open>\<^verbatim>\<open>strconv.FormatInt(n, 10)\<close>.\<close>

definition FormatInt :: "int \<Rightarrow> string" where
  "FormatInt n = (if n < 0 then ''-'' @ FormatUint (nat (- n)) else FormatUint (nat n))"

lemma FormatInt_graphic: "TrimSpace (FormatInt n) = FormatInt n" "FormatInt n \<noteq> ''''"
  by (simp_all add: FormatInt_def)

lemma take_sign_unsigned: "list_all is_digit s \<Longrightarrow> take_sign s = (False, s)"
  by (cases s) (auto simp: take_sign_def is_digit_def)

lemma signed_FormatInt: "signed_digits (FormatInt n) = Some n"
  by (simp add: signed_digits_def FormatInt_def take_sign_unsigned) (simp add: take_sign_def)

lemma ParseInt64_value_FormatInt: "\<bar>n\<bar> < 2 ^ 63 \<Longrightarrow> ParseInt64_value (FormatInt n) = n"
  by (simp add: ParseInt64_value_def signed_FormatInt)

lemma parse_delta_FormatInt: "\<bar>n\<bar> < 2 ^ 63 \<Longrightarrow> parse_delta (FormatInt n) = (if n = 0 then None else Some n)"
  by (auto simp: parse_delta_def FormatInt_graphic ParseInt64_def signed_FormatInt abs_less_iff)

text \<open>A reader that sees the hash of pending deltas as the mempool wrote it.\<close>

definition serves_deltas :: "query_env \<Rightarrow> mempool_state \<Rightarrow> bool" where
  "serves_deltas q s \<longleftrightarrow> (\<forall>a. qe_HGet q GetStakeMempoolBalanceDeltaKey a =
     (case mget (md_balance_delta (ms_db s)) a of None \<Rightarrow> RNil | Some d \<Rightarrow> RVal (FormatInt d)))"

lemma served_deltas:
  assumes "serves_deltas q s" "\<bar>mget0 0 (md_balance_delta (ms_db s)) a\<bar> < 2 ^ 63"
  shows "pending_delta q a = mget0 0 (md_balance_delta (ms_db s)) a \<and> net_delta q a = mget0 0 (md_balance_delta (ms_db s)) a"
proof (cases "mget (md_balance_delta (ms_db s)) a")
  case None
  then have "qe_HGet q GetStakeMempoolBalanceDeltaKey a = RNil" using assms(1) by (simp add: serves_deltas_def)
  then show ?thesis using None by (simp add: pending_delta_def net_delta_def rval_def mget_def mget0_def)
next
  case (Some d)
  then have "qe_HGet q GetStakeMempoolBalanceDeltaKey a = RVal (FormatInt d)" using assms(1) by (simp add: serves_deltas_def)
  moreover have d: "mget0 0 (md_balance_delta (ms_db s)) a = d" using Some by (simp add: mget_def mget0_def)
  ultimately show ?thesis using assms(2)
    by (simp add: pending_delta_def net_delta_def rval_def FormatInt_graphic ParseInt64_value_FormatInt parse_delta_FormatInt)
qed


lemma sint_of_int64: "\<bar>n\<bar> < 2 ^ 63 \<Longrightarrow> sint (word_of_int n :: u64) = n"
  by (simp add: signed_of_int signed_take_bit_int_eq_self abs_less_iff)

lemma saved_deltas:
  assumes "RunProtocolWriteFlow e ok m w s = (s', True)" "\<not> wi_Incomplete w" "\<not> wi_ParseIncomplete w"
  shows "md_balance_delta (ms_db s') = hash_fields (wi_PendingStakeDeltas w)"
proof -
  obtain s2 s3 s4 s5 where f: "save_deltas ok m w s2 = (s3, True)" "save_stakers e ok m w s3 = (s4, True)" "delete_events ok w s4 = (s5, True)"
    "delete_inscriptions ok w s5 = (s', True)"
    using assms by (auto simp: RunProtocolWriteFlow_def run_steps_ok simp del: run_steps.simps(2))
  have "md_balance_delta (ms_db s3) = hash_fields (wi_PendingStakeDeltas w)"
    using f(1) by (auto simp: save_deltas_def saveMempoolStakeBalanceDeltas_def Let_def split: prod.splits if_splits)
  moreover have "md_balance_delta (ms_db s4) = md_balance_delta (ms_db s3)"
    using f(2) by (auto simp: save_stakers_def saveMempoolIndexerStakerSnapshots_def Let_def split: prod.splits if_splits)
  moreover have "ms_db s5 = ms_db s4" using f(3) by (auto simp: delete_events_def Let_def count_removed_def split: prod.splits if_splits)
  moreover have "ms_db s' = ms_db s5" using f(4) by (auto simp: delete_inscriptions_def Let_def count_removed_def split: if_splits)
  ultimately show ?thesis by simp
qed

lemma synced_deltas:
  assumes "RunProtocolSync e True ok h m s = Some (m', s', True)" "load_result (me_order e) (me_env e) h False m = (m1, None)"
    "Option.bind (me_blockHash e h) (me_rawMempool e) = Some raws" "collect_mempool e h raws m1 = Some acc" "complete acc"
  shows "md_balance_delta (ms_db s') = hash_fields (ac_deltas acc)"
  using assms by (auto simp: RunProtocolSync_def Let_def complete_def split: prod.splits dest!: saved_deltas)


section \<open>A run from the mempool to the reply\<close>

definition loaded_manager :: Manager where
  "loaded_manager = fst (load_result id open_env 5 False sample_manager)"

definition mempool_reader :: query_env where
  "mempool_reader = sample_query\<lparr>qe_HGet := (\<lambda>k a. if k = GetStakeMempoolBalanceDeltaKey
     then (case mget [(''s1'', 2)] a of None \<Rightarrow> RNil | Some d \<Rightarrow> RVal (FormatInt d)) else RNil)\<rparr>"

lemma loaded: "load_result (me_order sample_mempool) (me_env sample_mempool) 5 False sample_manager = (loaded_manager, None)"
  "confirmed_addresses loaded_manager = {''s1''}"
proof -
  have "snd (load_result id open_env 5 False sample_manager) = None" by code_simp
  then show "load_result (me_order sample_mempool) (me_env sample_mempool) 5 False sample_manager = (loaded_manager, None)"
    by (simp add: sample_mempool_def loaded_manager_def prod_eq_iff)
  show "confirmed_addresses loaded_manager = {''s1''}" by code_simp
qed

definition pay_input :: ProtocolWriteInput where
  "pay_input = \<lparr>wi_ExistingEventTxIDs = [''aa''], wi_Events = [], wi_ExistingInscriptionTxIDs = [],
     wi_InscriptionEvents = [], wi_PendingStakeDeltas = [(''s1'', 2)], wi_Incomplete = False, wi_ParseIncomplete = False\<rparr>"

lemma pay_sync: "\<exists>s'. RunProtocolSync sample_mempool True (\<lambda>_. True) 5 sample_manager sample_view = Some (loaded_manager, s', True)"
proof -
  let ?s = "sample_view\<lparr>ms_stats := \<lparr>MempoolTxs = 1, ProtocolTxs = 0, ProofTxs = 0, Upserted = 0, Removed = 0\<rparr>\<rparr>"
  have w: "snd (RunProtocolWriteFlow sample_mempool (\<lambda>_. True) loaded_manager pay_input ?s)" by code_simp
  have e: "Option.bind (me_blockHash sample_mempool 5) (me_rawMempool sample_mempool) = Some [pay_hex ''07'']" by (simp add: sample_mempool_def)
  have i: "ListStakeMempoolEventTxIDs (ms_events sample_view) = [''aa'']" "ListMempoolFIP101InscriptionEventTxIDs (ms_inscriptions sample_view) = []"
    by (code_simp, code_simp)
  have "RunProtocolSync sample_mempool True (\<lambda>_. True) 5 sample_manager sample_view =
    Some (loaded_manager, fst (RunProtocolWriteFlow sample_mempool (\<lambda>_. True) loaded_manager pay_input ?s),
      snd (RunProtocolWriteFlow sample_mempool (\<lambda>_. True) loaded_manager pay_input ?s))"
    by (simp add: RunProtocolSync_def Let_def loaded e pay_normal pay_collect [OF loaded(2)] i pay_input_def [symmetric] split: prod.split)
      (simp add: pay_acc_def i pay_input_def)
  then show ?thesis using w by (cases "RunProtocolWriteFlow sample_mempool (\<lambda>_. True) loaded_manager pay_input ?s") simp
qed


end
