(* ===== verification/Spec2Isabelle.thy ===== *)
theory Spec2Isabelle
  imports SubmitProofs SlowProofs RewardBounds EndToEnd
begin

text \<open>
  \<^bold>\<open>Verification of the FIP-101 stake indexer\<close>

  The program follows a Bitcoin-like chain, recognises FIP-101 operations (register an indexer, bind a stake, prove a state, change a
  commission, claim a reward) in its transactions, keeps the stake of every user at every indexer, and distributes the reward of a
  block among the indexers that proved its state and their stakers. Its state is a PostgreSQL database, three Redis databases and
  the maps of a manager in memory.

  \<^bold>\<open>Parts and theories\<close>

  \<^item> Foundations. \<open>Prelude\<close>: machine integers, slices with their run-time checks, the little-endian codec, elimination rules for chains of
    fallible calls. \<open>Float64\<close>: \<^verbatim>\<open>float64\<close> as the rationals it represents, with rounding to nearest even. \<open>GoMap\<close>: Go maps as association
    lists, iterated in an arbitrary order. \<open>Go_Strings\<close>, \<open>Go_Strconv\<close>: the functions of the Go library the sources use.
    \<open>Sha256\<close>: SHA-256 as a function.
  \<^item> Configuration and keys. \<open>Config\<close> (\<^verbatim>\<open>conf/init.go\<close>): every accepted configuration is well formed. \<open>RedisKeys\<close>
    (\<^verbatim>\<open>constant/redis.go\<close>): keys of different families never coincide.
  \<^item> Blocks and scripts. \<open>Script\<close> (\<^verbatim>\<open>lib/script\<close>): classification of locking scripts and the inscription envelope. \<open>BlockModel\<close>
    (\<^verbatim>\<open>model\<close>, \<^verbatim>\<open>internal/parser/node\<close>, \<^verbatim>\<open>utils\<close>): transactions and blocks are read back as they were written, through the locale \<open>codec\<close>
    that every wire format interprets.
  \<^item> Protocol. \<open>Ratio\<close>, \<open>Payload\<close>, \<open>StakeAddress\<close>, \<open>ProtocolParser\<close>, \<open>ProtocolTx\<close> (\<^verbatim>\<open>internal/parser/protocol\<close>): from a transaction to an
    operation, with the address it acts for. Accepted payloads are canonical and canonical records parse to what they say.
  \<^item> Manager and fast path. \<open>Manager\<close>, \<open>Commission\<close>, \<open>FastPath\<close> (\<^verbatim>\<open>internal/exec/manager\<close>, \<^verbatim>\<open>internal/entry/fast\<close>): bindings, delayed
    commissions, the validation of operations and their staging. The block loop is written against the record of the functions the
    manager provides, as in the code; the locale \<open>block_contract\<close> states what they keep and is interpreted on them.
  \<^item> Tables. \<open>ProofValidity\<close> (\<^verbatim>\<open>stake_proofs.go\<close>), \<open>RewardTables\<close> (\<^verbatim>\<open>stake_allocated_reward.go\<close>, \<^verbatim>\<open>stake_pending_reward.go\<close>), \<open>ChainData\<close>
    (\<^verbatim>\<open>sync_blocks.go\<close> and the state API client). A table is the list of its rows; upserts, batches as transactions and listings are functions
    on it. The table of blocks refines a map from heights to blocks.
  \<^item> Rewards. \<open>RewardMath\<close>, \<open>Reward\<close> (\<^verbatim>\<open>handler_reward.go\<close>): the two-level split with penalties and quantisation. \<open>RewardBounds\<close>: a block never
    pays out more than its coinbase reward from the stage-2 height on, and handling a block does not fail when its reads succeed.
  \<^item> Ledger. \<open>Utxo\<close>, \<open>Ledger\<close> (\<^verbatim>\<open>model/utxo.go\<close>, \<^verbatim>\<open>parallel/tx.go\<close>, \<^verbatim>\<open>write_prepare_flow.go\<close>, \<^verbatim>\<open>indexer_artifacts.go\<close>, \<^verbatim>\<open>internal/entry/rollback\<close>).
    \<open>LedgerProofs\<close>: undoing a block inverts it, the undo rows a rollback needs exist, deltas and balances agree, the comparison with
    the node is sound.
  \<^item> Reward runners. \<open>Staging\<close> (\<^verbatim>\<open>state_staging.go\<close>), \<open>SlowRunner\<close> (\<^verbatim>\<open>internal/entry/slow\<close>). \<open>SlowProofs\<close>: the runs of the runner are an inductive
    relation; in every reachable state the snapshot balance of an address is the sum of its deltas over the blocks consumed, whatever
    calls fail. The locale \<open>reward_sync\<close> is the contract between runner and manager.
  \<^item> Pipeline and commit. \<open>Pipeline\<close> (\<^verbatim>\<open>flow_chain_pipeline.go\<close>): blocks are processed in the order of heights for every order of arrival.
    \<open>Submit\<close>, \<open>SubmitProofs\<close> (\<^verbatim>\<open>write_commit_flow.go\<close>, \<^verbatim>\<open>reconcile_heights.go\<close>, \<^verbatim>\<open>main.go\<close>): the commit of a batch as steps that may each fail, and
    what a failed commit leaves behind.
  \<^item> Mempool. \<open>Mempool\<close> (\<^verbatim>\<open>internal/entry/mempool\<close>, \<^verbatim>\<open>mempool_protocol_sync.go\<close>, \<^verbatim>\<open>stake_mempool_events.go\<close>). \<open>MempoolProofs\<close>: the cache of spent
    outputs is transparent (the locale \<open>cached_lookup\<close>), the pending deltas are the flow of stake of the whole mempool, the table of
    events is exactly what was collected.
  \<^item> Interface. \<open>Query\<close> (\<^verbatim>\<open>interfaces/http\<close>, \<^verbatim>\<open>stake_reward_summary.go\<close>, \<^verbatim>\<open>stake_reward_pool.go\<close>), \<open>Startup\<close> (\<^verbatim>\<open>internal/component/init\<close>).
    \<open>QueryProofs\<close>: pages, the stakings of a user and the claim check. \<open>EndToEnd\<close>: the deltas the mempool synchronisation writes are the
    ones these handlers read back, so a shown stake is the confirmed balance plus the net payment of the whole mempool.

  \<^bold>\<open>How the code is rendered\<close>

  A struct is a record with the fields of the source behind a short prefix; an operation is a function of the same name. A panic is
  \<open>None\<close>. An error is the left side of a sum, or a flag beside the state where the state after an error matters. Calls to PostgreSQL,
  Redis, the node and the state API are parameters that decide whether the call succeeds; every property holds for all of them unless it
  names the calls that succeed. Heights are 32-bit words and amounts 64-bit words; \<^verbatim>\<open>int64\<close> sums of deltas are integers, which is
  faithful because the coin supply keeps them far below \<open>2 ^ 63\<close>. Iteration over a Go map uses an arbitrary reordering (\<open>map_order\<close>) or the
  order of the association list. Goroutines of the pipeline are the order in which their results arrive.

  Code outside the repository appears as parameters: btcd's key, script and address functions (\<open>btc\<close>, \<open>addrs\<close>), snappy, viper, the
  HTTP transport, the replies of the node. The witnesses instantiate them with concrete functions.

  \<^bold>\<open>Loops\<close>

  All recursive definitions are total, so there is no fuel. Loops over heights end because the distance to the end of the range
  decreases (\<open>pending_end\<close>, \<open>drain\<close>, \<open>delete_chunks\<close> have their own termination proofs); the endless loops of \<^verbatim>\<open>main.go\<close> and of the
  reward runners are modelled by one iteration (\<open>sync_iteration\<close>) and by a step relation with its reachable states.

  \<^bold>\<open>Not modelled\<close>

  The wiring of processes (flags, routes, signal handling and the goroutines of \<^verbatim>\<open>main.go\<close>), logging, metrics middleware and the block
  speed display, opening connections and creating the schema, the encoding of RPC requests, the JSON encoding of replies: input and
  output without decisions of the program. \<^verbatim>\<open>lib/script/compress.go\<close> and the pre-jubilee decoder \<^verbatim>\<open>inscription.go\<close> have no callers. The
  table of opcode names is data. Sleeping and retry intervals do not appear; retries do, as further steps.
\<close>

end
